(* ===== verification/Iperf_Time.thy ===== *)
theory Iperf_Time
  imports Prelude
begin

text \<open>
  \<open>iperf_time.c\<close>: timestamps with a second and a microsecond part, both
  \<open>uint32_t\<close>. The operations are modelled on 32-bit and 64-bit words, with the
  conversions of the C code written out; the lemmas relate them to the number of
  microseconds a timestamp stands for.
\<close>

section \<open>The operations\<close>

record iperf_time =
  secs :: u32
  usecs :: u32

text \<open>
  The clock is a parameter: \<open>(result, tv_sec, tv_nsec)\<close> is what
  \<open>clock_gettime(CLOCK_MONOTONIC, &ts)\<close> delivered.
\<close>

definition iperf_time_now :: "int \<times> int \<times> int \<Rightarrow> iperf_time \<Rightarrow> int \<times> iperf_time" where
  "iperf_time_now clk time1 =
     (case clk of (result, tv_sec, tv_nsec) \<Rightarrow>
        (result,
         if result = 0
         then time1\<lparr>secs := word_of_int tv_sec, usecs := word_of_int tv_nsec div 1000\<rparr>
         else time1))"

definition iperf_time_add_usecs :: "iperf_time \<Rightarrow> u64 \<Rightarrow> iperf_time" where
  "iperf_time_add_usecs time0 us =
     (let time1 = time0\<lparr>secs := ucast (ucast (secs time0) + us div 1000000)\<rparr>;
          time2 = time1\<lparr>usecs := ucast (ucast (usecs time1) + us mod 1000000)\<rparr>
      in if 1000000 \<le> usecs time2
         then time2\<lparr>secs := secs time2 + usecs time2 div 1000000,
                    usecs := usecs time2 mod 1000000\<rparr>
         else time2)"

definition iperf_time_in_usecs :: "iperf_time \<Rightarrow> u64" where
  "iperf_time_in_usecs time = ucast (secs time) * 1000000 + ucast (usecs time)"

definition iperf_time_compare :: "iperf_time \<Rightarrow> iperf_time \<Rightarrow> int" where
  "iperf_time_compare time1 time2 =
     (if secs time1 < secs time2 then -1
      else if secs time1 > secs time2 then 1
      else if usecs time1 < usecs time2 then -1
      else if usecs time1 > usecs time2 then 1
      else 0)"

text \<open>The result and the \<open>*diff\<close> every branch fills in.\<close>

definition iperf_time_diff :: "iperf_time \<Rightarrow> iperf_time \<Rightarrow> int \<times> iperf_time" where
  "iperf_time_diff time1 time2 =
     (let cmp = iperf_time_compare time1 time2 in
      if cmp = 0 then (1, \<lparr>secs = 0, usecs = 0\<rparr>)
      else if cmp = 1 then
        (let ds = secs time1 - secs time2;
             du = usecs time1;
             ds' = (if du < usecs time2 then ds - 1 else ds);
             du' = (if du < usecs time2 then du + 1000000 else du)
         in (0, \<lparr>secs = ds', usecs = du' - usecs time2\<rparr>))
      else
        (let ds = secs time2 - secs time1;
             du = usecs time2;
             ds' = (if du < usecs time1 then ds - 1 else ds);
             du' = (if du < usecs time1 then du + 1000000 else du)
         in (1, \<lparr>secs = ds', usecs = du' - usecs time1\<rparr>)))"

section \<open>Meaning: a number of microseconds\<close>

definition time_ok :: "iperf_time \<Rightarrow> bool" where
  "time_ok t \<longleftrightarrow> usecs t < 1000000"

definition usec_val :: "iperf_time \<Rightarrow> nat" where
  "usec_val t = unat (secs t) * 1000000 + unat (usecs t)"

lemma time_ok_unat: "time_ok t \<longleftrightarrow> unat (usecs t) < 1000000"
  by (simp add: time_ok_def word_less_nat_alt)

lemma in_usecs_val: "unat (iperf_time_in_usecs t) = usec_val t"
proof -
  have "unat (secs t) * 1000000 + unat (usecs t) < 2 ^ 64"
    using unat_u32_less [of "secs t"] unat_u32_less [of "usecs t"] by simp
  then show ?thesis
    by (simp add: iperf_time_in_usecs_def usec_val_def unat_word_ariths)
qed

lemma compare_val:
  assumes "time_ok t1" "time_ok t2"
  shows "iperf_time_compare t1 t2 =
    (if usec_val t1 < usec_val t2 then -1 else if usec_val t1 > usec_val t2 then 1 else 0)"
  using assms
  by (auto simp: iperf_time_compare_def usec_val_def time_ok_unat word_less_nat_alt not_less)

lemma add_usecs_parts:
  fixes t us
  defines "n \<equiv> unat (usecs t) + unat us mod 1000000"
  assumes "time_ok t"
  shows "unat (usecs (iperf_time_add_usecs t us)) = n mod 1000000"
    and "unat (secs (iperf_time_add_usecs t us)) =
      (unat (secs t) + unat us div 1000000 + n div 1000000) mod 2 ^ 32"
proof -
  have u: "unat (usecs t) < 1000000" using assms by (simp add: time_ok_unat)
  have d: "unat us div 1000000 \<le> 2 ^ 64 div 1000000"
    using unat_u64_less [of us] by simp
  have m: "unat us mod 1000000 < 1000000" by simp
  have s: "unat (secs t) < 4294967296" using unat_u32_less [of "secs t"] by simp
  have n: "n < 2000000" unfolding n_def using u m by linarith
  show "unat (usecs (iperf_time_add_usecs t us)) = n mod 1000000"
    using u m n
    by (simp add: iperf_time_add_usecs_def Let_def word_le_nat_alt
      unat_ucast_u64_u32 unat_word_ariths unat_div unat_mod flip: n_def)
  show "unat (secs (iperf_time_add_usecs t us)) =
      (unat (secs t) + unat us div 1000000 + n div 1000000) mod 2 ^ 32"
    using u m n d s
    by (simp add: iperf_time_add_usecs_def Let_def word_le_nat_alt
      unat_ucast_u64_u32 unat_word_ariths unat_div unat_mod mod_simps flip: n_def)
qed

lemma add_usecs_ok [wf_intros]: "time_ok t \<Longrightarrow> time_ok (iperf_time_add_usecs t us)"
  by (simp add: time_ok_unat add_usecs_parts)

lemma add_usecs_val:
  assumes "time_ok t"
  shows "usec_val (iperf_time_add_usecs t us) = (usec_val t + unat us) mod (2 ^ 32 * 1000000)"
proof -
  let ?n = "unat (usecs t) + unat us mod 1000000"
  let ?k = "unat (secs t) + unat us div 1000000 + ?n div 1000000"
  have sum: "usec_val t + unat us = ?k * 1000000 + ?n mod 1000000"
    unfolding usec_val_def by (simp add: algebra_simps)
  have "(?k * 1000000 + ?n mod 1000000) mod (2 ^ 32 * 1000000) =
      ?k mod 2 ^ 32 * 1000000 + ?n mod 1000000"
    by (rule mod_mult_add_small) simp
  then show ?thesis
    using assms unfolding sum by (simp add: usec_val_def add_usecs_parts)
qed

lemma add_usecs_exact:
  "time_ok t \<Longrightarrow> usec_val t + unat us < 2 ^ 32 * 1000000 \<Longrightarrow>
     usec_val (iperf_time_add_usecs t us) = usec_val t + unat us"
  by (simp add: add_usecs_val)

text \<open>
  C37. Adding microseconds to a normalised timestamp adds them to its value, modulo the
  \<open>2^32\<close> seconds the second counter can hold, and keeps the timestamp normalised.
\<close>

theorem iperf_time_add_usecs_correct:
  assumes "time_ok t"
  shows "time_ok (iperf_time_add_usecs t us) \<and>
    usec_val (iperf_time_add_usecs t us) =
      (usec_val t + unat us) mod (2 ^ 32 * 1000000)"
  using assms add_usecs_ok add_usecs_val by blast

theorem iperf_time_add_usecs_correct_witness:
  "time_ok \<lparr>secs = 5, usecs = 999999\<rparr> \<and>
   usec_val (iperf_time_add_usecs \<lparr>secs = 5, usecs = 999999\<rparr> 2000002) = 8000001"
proof -
  have ok: "time_ok \<lparr>secs = 5, usecs = 999999\<rparr>" by (simp add: time_ok_def)
  show ?thesis
    using ok iperf_time_add_usecs_correct [OF ok, of 2000002] by (simp add: usec_val_def)
qed

lemma diff_borrow:
  fixes s1 s2 u1 u2 :: u32
  assumes u: "unat u1 < 1000000" "unat u2 < 1000000"
    and less: "unat s2 * 1000000 + unat u2 < unat s1 * 1000000 + unat u1"
  defines "s \<equiv> (if u1 < u2 then s1 - s2 - 1 else s1 - s2)"
    and "u \<equiv> (if u1 < u2 then u1 + 1000000 else u1) - u2"
  shows "unat s * 1000000 + unat u =
      unat s1 * 1000000 + unat u1 - (unat s2 * 1000000 + unat u2) \<and> unat u < 1000000"
proof (cases "u1 < u2")
  case True
  then have lt: "unat u1 < unat u2" by (simp add: word_less_nat_alt)
  with less u have "unat s2 < unat s1" by linarith
  then have "unat (s1 - s2) = unat s1 - unat s2" "unat s1 - unat s2 \<noteq> 0"
    by (simp_all add: unat_sub word_le_nat_alt)
  then have "unat (s1 - s2 - 1) = unat s1 - unat s2 - 1"
    by (metis unat_minus_one unat_eq_zero)
  moreover have "unat (u1 + 1000000 - u2) = unat u1 + 1000000 - unat u2"
  proof -
    have "unat (u1 + 1000000) = unat u1 + 1000000" using u by (simp add: unat_word_ariths)
    then show ?thesis using u by (simp add: unat_sub word_le_nat_alt)
  qed
  ultimately show ?thesis
    using True lt u \<open>unat s2 < unat s1\<close> by (simp add: s_def u_def) linarith
next
  case False
  then have le: "unat u2 \<le> unat u1" by (simp add: word_less_nat_alt not_less)
  with less u have "unat s2 \<le> unat s1" by linarith
  with False le u show ?thesis
    by (simp add: s_def u_def unat_sub word_le_nat_alt) linarith
qed

lemma diff_val:
  assumes "time_ok t1" "time_ok t2"
  shows "case iperf_time_diff t1 t2 of (past, d) \<Rightarrow>
    time_ok d \<and>
    usec_val d = max (usec_val t1) (usec_val t2) - min (usec_val t1) (usec_val t2) \<and>
    past = (if usec_val t1 \<le> usec_val t2 then 1 else 0)"
proof -
  consider "usec_val t1 = usec_val t2" | "usec_val t2 < usec_val t1" | "usec_val t1 < usec_val t2"
    by linarith
  then show ?thesis
  proof cases
    case 1
    with assms show ?thesis
      by (simp add: iperf_time_diff_def compare_val time_ok_def usec_val_def)
  next
    case 2
    with diff_borrow [of "usecs t1" "usecs t2" "secs t2" "secs t1"] assms show ?thesis
      by (auto simp: iperf_time_diff_def compare_val Let_def time_ok_unat usec_val_def
          max_def min_def)
  next
    case 3
    with diff_borrow [of "usecs t2" "usecs t1" "secs t1" "secs t2"] assms show ?thesis
      by (auto simp: iperf_time_diff_def compare_val Let_def time_ok_unat usec_val_def
          max_def min_def)
  qed
qed

text \<open>
  C36. \<open>iperf_time_diff\<close> of two normalised timestamps delivers the absolute distance in
  microseconds, normalised, and reports 1 exactly when the first is not later.
\<close>

theorem iperf_time_diff_correct:
  assumes "time_ok t1" "time_ok t2"
  shows "case iperf_time_diff t1 t2 of (past, d) \<Rightarrow>
    time_ok d \<and>
    usec_val d = max (usec_val t1) (usec_val t2) - min (usec_val t1) (usec_val t2) \<and>
    past = (if usec_val t1 \<le> usec_val t2 then 1 else 0)"
  using assms by (rule diff_val)

theorem iperf_time_diff_correct_witness:
  "time_ok \<lparr>secs = 7, usecs = 100\<rparr> \<and> time_ok \<lparr>secs = 5, usecs = 999999\<rparr> \<and>
   iperf_time_diff \<lparr>secs = 7, usecs = 100\<rparr> \<lparr>secs = 5, usecs = 999999\<rparr> =
     (0, \<lparr>secs = 1, usecs = 101\<rparr>)"
proof -
  have ok: "time_ok \<lparr>secs = 7, usecs = 100\<rparr>" "time_ok \<lparr>secs = 5, usecs = 999999\<rparr>"
    by (simp_all add: time_ok_def)
  show ?thesis
    using ok iperf_time_diff_correct [OF ok]
    by (simp add: iperf_time_diff_def iperf_time_compare_def)
qed

end
