(* ===== verification/Timers.thy ===== *)
theory Timers
  imports Iperf_Time
begin

text \<open>
  \<open>timer.c\<close>: the active timers in a doubly linked list sorted by expiry time, and
  a singly linked free list, both kept in nodes of an explicit store. A result
  \<^term>\<open>None\<close> of an operation means that the C code would dereference \<open>NULL\<close> or a
  node that is not allocated, or would never return; the lemmas show which states exclude
  this and that the operations implement a sorted queue of timers.
\<close>

section \<open>The nodes and the two lists\<close>

record ('p, 'd) timer =
  timer_proc :: 'p
  client_data :: 'd
  t_usecs :: u64
  periodic :: int
  t_time :: iperf_time
  t_prev :: ptr
  t_next :: ptr

record ('p, 'd) tmr_state =
  heap :: "addr \<Rightarrow> ('p, 'd) timer option"
  timers :: ptr
  free_timers :: ptr

definition tmr_init :: "('p, 'd) tmr_state" where
  "tmr_init = \<lparr>heap = (\<lambda>_. None), timers = None, free_timers = None\<rparr>"

text \<open>A write through a pointer to a node.\<close>

definition upd :: "addr \<Rightarrow> (('p, 'd) timer \<Rightarrow> ('p, 'd) timer) \<Rightarrow>
    ('p, 'd) tmr_state \<Rightarrow> ('p, 'd) tmr_state option" where
  "upd a f s =
     (case heap s a of None \<Rightarrow> None
      | Some t \<Rightarrow> Some (s\<lparr>heap := (heap s)(a \<mapsto> f t)\<rparr>))"

abbreviation set_prev :: "addr \<Rightarrow> ptr \<Rightarrow> ('p, 'd) tmr_state \<Rightarrow> ('p, 'd) tmr_state option" where
  "set_prev a p \<equiv> upd a (t_prev_update (\<lambda>_. p))"

abbreviation set_next :: "addr \<Rightarrow> ptr \<Rightarrow> ('p, 'd) tmr_state \<Rightarrow> ('p, 'd) tmr_state option" where
  "set_next a p \<equiv> upd a (t_next_update (\<lambda>_. p))"

section \<open>The operations of timer.c\<close>

text \<open>
  \<open>getnow\<close>: the caller's time if it passed one, else the clock; \<open>nowP2\<close> is what the
  target held before, which a failing clock leaves in place.
\<close>

definition getnow :: "iperf_time option \<Rightarrow> int \<times> int \<times> int \<Rightarrow> iperf_time \<Rightarrow> iperf_time" where
  "getnow nowP clk nowP2 =
     (case nowP of Some t \<Rightarrow> t | None \<Rightarrow> snd (iperf_time_now clk nowP2))"

text \<open>The loop of \<open>list_add\<close> that looks for the insertion point.\<close>

partial_function (option) list_walk ::
    "('p, 'd) tmr_state \<Rightarrow> iperf_time \<Rightarrow> addr \<Rightarrow> ptr \<Rightarrow> (addr \<times> ptr) option" where
  "list_walk s tm t2prev t2 =
     (case t2 of None \<Rightarrow> Some (t2prev, None)
      | Some a \<Rightarrow>
         (case heap s a of None \<Rightarrow> None
          | Some u \<Rightarrow>
              if iperf_time_compare tm (t_time u) < 0 then Some (t2prev, Some a)
              else list_walk s tm a (t_next u)))"

definition list_add :: "addr \<Rightarrow> ('p, 'd) tmr_state \<Rightarrow> ('p, 'd) tmr_state option" where
  "list_add t s = do {
     tt \<leftarrow> heap s t;
     case timers s of
       None \<Rightarrow> do {
         s \<leftarrow> set_next t None (s\<lparr>timers := Some t\<rparr>);
         set_prev t None s
       }
     | Some h \<Rightarrow> do {
         ht \<leftarrow> heap s h;
         if iperf_time_compare (t_time tt) (t_time ht) < 0 then do {
           s \<leftarrow> set_prev t None s;
           s \<leftarrow> set_next t (Some h) s;
           s \<leftarrow> set_prev h (Some t) s;
           Some (s\<lparr>timers := Some t\<rparr>)
         } else do {
           (t2prev, t2) \<leftarrow> list_walk s (t_time tt) h (t_next ht);
           s \<leftarrow> set_next t2prev (Some t) s;
           s \<leftarrow> set_prev t (Some t2prev) s;
           s \<leftarrow> set_next t t2 s;
           case t2 of None \<Rightarrow> Some s | Some a \<Rightarrow> set_prev a (Some t) s
         }
       }
   }"

definition list_remove :: "addr \<Rightarrow> ('p, 'd) tmr_state \<Rightarrow> ('p, 'd) tmr_state option" where
  "list_remove t s = do {
     tt \<leftarrow> heap s t;
     s \<leftarrow> (case t_prev tt of
             None \<Rightarrow> Some (s\<lparr>timers := t_next tt\<rparr>)
           | Some p \<Rightarrow> set_next p (t_next tt) s);
     tt \<leftarrow> heap s t;
     case t_next tt of None \<Rightarrow> Some s | Some n \<Rightarrow> set_prev n (t_prev tt) s
   }"

definition list_resort :: "addr \<Rightarrow> ('p, 'd) tmr_state \<Rightarrow> ('p, 'd) tmr_state option" where
  "list_resort t s = do { s \<leftarrow> list_remove t s; list_add t s }"

text \<open>
  \<open>tmr_create\<close>: the node comes from the free list or from \<open>malloc\<close>, whose result is
  the parameter \<open>m\<close>. The \<open>malloc\<close>ed node's links are set by \<open>list_add\<close>.
\<close>

definition tmr_create ::
    "iperf_time option \<Rightarrow> int \<times> int \<times> int \<Rightarrow> iperf_time \<Rightarrow> ptr \<Rightarrow> 'p \<Rightarrow> 'd \<Rightarrow> u64 \<Rightarrow> int \<Rightarrow>
     ('p, 'd) tmr_state \<Rightarrow> (ptr \<times> ('p, 'd) tmr_state) option" where
  "tmr_create nowP clk now0 m proc cd us per s =
     (let now = getnow nowP clk now0;
          node = \<lparr>timer_proc = proc, client_data = cd, t_usecs = us, periodic = per,
                  t_time = iperf_time_add_usecs now us, t_prev = None, t_next = None\<rparr>
      in case free_timers s of
        Some t \<Rightarrow> do {
          ft \<leftarrow> heap s t;
          s \<leftarrow> upd t (\<lambda>x. node\<lparr>t_prev := t_prev x, t_next := t_next x\<rparr>)
                 (s\<lparr>free_timers := t_next ft\<rparr>);
          s \<leftarrow> list_add t s;
          Some (Some t, s)
        }
      | None \<Rightarrow>
          (case m of
             None \<Rightarrow> Some (None, s)
           | Some t \<Rightarrow> do {
               s \<leftarrow> list_add t (s\<lparr>heap := (heap s)(t \<mapsto> node)\<rparr>);
               Some (Some t, s)
             }))"

text \<open>\<open>tmr_timeout\<close>: \<open>(tv_sec, tv_usec)\<close> of the returned \<open>timeval\<close>.\<close>

definition tmr_timeout ::
    "iperf_time option \<Rightarrow> int \<times> int \<times> int \<Rightarrow> iperf_time \<Rightarrow>
     ('p, 'd) tmr_state \<Rightarrow> (int \<times> int) option option" where
  "tmr_timeout nowP clk now0 s =
     (let now = getnow nowP clk now0 in
      case timers s of
        None \<Rightarrow> Some None
      | Some t \<Rightarrow> do {
          tt \<leftarrow> heap s t;
          let (past, diff) = iperf_time_diff (t_time tt) now;
          let us = (if past \<noteq> 0 then 0 else sint (iperf_time_in_usecs diff));
          Some (Some (us sdiv 1000000, us smod 1000000))
        })"

definition tmr_cancel :: "addr \<Rightarrow> ('p, 'd) tmr_state \<Rightarrow> ('p, 'd) tmr_state option" where
  "tmr_cancel t s = do {
     s \<leftarrow> list_remove t s;
     s \<leftarrow> set_next t (free_timers s) s;
     set_prev t None (s\<lparr>free_timers := Some t\<rparr>)
   }"

text \<open>
  \<open>tmr_run\<close>: \<open>cb p d now\<close> is the effect of calling the function \<open>p\<close> points to on
  the client's own state \<open>'w\<close> and on the timers, which it may create, reset and cancel.
\<close>

type_synonym ('p, 'd, 'w) timer_cb =
  "'p \<Rightarrow> 'd \<Rightarrow> iperf_time \<Rightarrow> 'w \<times> ('p, 'd) tmr_state \<Rightarrow> ('w \<times> ('p, 'd) tmr_state) option"

partial_function (option) tmr_run_loop ::
    "('p, 'd, 'w) timer_cb \<Rightarrow> iperf_time \<Rightarrow> ptr \<Rightarrow> 'w \<times> ('p, 'd) tmr_state \<Rightarrow>
     ('w \<times> ('p, 'd) tmr_state) option" where
  "tmr_run_loop cb now t ws =
     (case t of None \<Rightarrow> Some ws
      | Some a \<Rightarrow> do {
          tt \<leftarrow> heap (snd ws) a;
          if iperf_time_compare (t_time tt) now > 0 then Some ws
          else do {
            ws \<leftarrow> cb (timer_proc tt) (client_data tt) now ws;
            tt' \<leftarrow> heap (snd ws) a;
            s \<leftarrow> (if periodic tt' \<noteq> 0 then do {
                    s \<leftarrow> upd a (\<lambda>x. x\<lparr>t_time := iperf_time_add_usecs (t_time x) (t_usecs x)\<rparr>)
                           (snd ws);
                    list_resort a s
                  } else tmr_cancel a (snd ws));
            tmr_run_loop cb now (t_next tt) (fst ws, s)
          }
        })"

definition tmr_run ::
    "('p, 'd, 'w) timer_cb \<Rightarrow> iperf_time option \<Rightarrow> int \<times> int \<times> int \<Rightarrow> iperf_time \<Rightarrow>
     'w \<times> ('p, 'd) tmr_state \<Rightarrow> ('w \<times> ('p, 'd) tmr_state) option" where
  "tmr_run cb nowP clk now0 ws =
     (let now = getnow nowP clk now0 in tmr_run_loop cb now (timers (snd ws)) ws)"

definition tmr_reset ::
    "iperf_time option \<Rightarrow> int \<times> int \<times> int \<Rightarrow> iperf_time \<Rightarrow> addr \<Rightarrow>
     ('p, 'd) tmr_state \<Rightarrow> ('p, 'd) tmr_state option" where
  "tmr_reset nowP clk now0 t s =
     (let now = getnow nowP clk now0 in do {
        s \<leftarrow> upd t (\<lambda>x. x\<lparr>t_time := iperf_time_add_usecs now (t_usecs x)\<rparr>) s;
        list_resort t s
      })"

partial_function (option) tmr_cleanup :: "('p, 'd) tmr_state \<Rightarrow> ('p, 'd) tmr_state option" where
  "tmr_cleanup s =
     (case free_timers s of None \<Rightarrow> Some s
      | Some t \<Rightarrow>
          (case heap s t of None \<Rightarrow> None
           | Some ft \<Rightarrow>
               tmr_cleanup (s\<lparr>free_timers := t_next ft, heap := (heap s)(t := None)\<rparr>)))"

text \<open>The loop of \<open>tmr_destroy\<close> over the active list.\<close>

partial_function (option) cancel_all :: "('p, 'd) tmr_state \<Rightarrow> ('p, 'd) tmr_state option" where
  "cancel_all s =
     (case timers s of None \<Rightarrow> Some s
      | Some t \<Rightarrow> do { s \<leftarrow> tmr_cancel t s; cancel_all s })"

definition tmr_destroy :: "('p, 'd) tmr_state \<Rightarrow> ('p, 'd) tmr_state option" where
  "tmr_destroy s = do { s \<leftarrow> cancel_all s; tmr_cleanup s }"

section \<open>The shape of the lists\<close>

fun firstp :: "addr list \<Rightarrow> ptr \<Rightarrow> ptr" where
  "firstp [] q = q"
| "firstp (x # xs) q = Some x"

fun lastp :: "ptr \<Rightarrow> addr list \<Rightarrow> ptr" where
  "lastp pv [] = pv"
| "lastp pv (x # xs) = lastp (Some x) xs"

text \<open>
  \<open>links h pv xs q\<close>: the nodes \<open>xs\<close> are doubly linked in this order, the first one's
  predecessor is \<open>pv\<close> and the last one's successor is \<open>q\<close>. \<open>flinks\<close> is the same for
  the free list, where only \<open>next\<close> matters.
\<close>

fun links :: "(addr \<Rightarrow> ('p, 'd) timer option) \<Rightarrow> ptr \<Rightarrow> addr list \<Rightarrow> ptr \<Rightarrow> bool" where
  "links h pv [] q = True"
| "links h pv (x # xs) q =
     (case h x of None \<Rightarrow> False
      | Some t \<Rightarrow> t_prev t = pv \<and> t_next t = firstp xs q \<and> links h (Some x) xs q)"

fun flinks :: "(addr \<Rightarrow> ('p, 'd) timer option) \<Rightarrow> addr list \<Rightarrow> bool" where
  "flinks h [] = True"
| "flinks h (x # xs) =
     (case h x of None \<Rightarrow> False | Some t \<Rightarrow> t_next t = firstp xs None \<and> flinks h xs)"

definition shape :: "('p, 'd) tmr_state \<Rightarrow> addr list \<Rightarrow> addr list \<Rightarrow> bool" where
  "shape s xs ys \<longleftrightarrow>
     timers s = firstp xs None \<and> links (heap s) None xs None \<and>
     free_timers s = firstp ys None \<and> flinks (heap s) ys \<and> distinct (xs @ ys)"

text \<open>What a timer carries besides its links, and its expiry time as a sort key.\<close>

definition payload :: "('p, 'd) timer \<Rightarrow> ('p, 'd) timer" where
  "payload t = t\<lparr>t_prev := None, t_next := None\<rparr>"

definition view :: "('p, 'd) tmr_state \<Rightarrow> addr \<Rightarrow> ('p, 'd) timer option" where
  "view s a = map_option payload (heap s a)"

definition tkey :: "iperf_time \<Rightarrow> nat" where
  "tkey t = unat (secs t) * 2 ^ 32 + unat (usecs t)"

definition ekey :: "('p, 'd) tmr_state \<Rightarrow> addr \<Rightarrow> nat" where
  "ekey s a = (case view s a of None \<Rightarrow> 0 | Some t \<Rightarrow> tkey (t_time t))"

text \<open>
  The specification of \<open>list_add\<close>: behind the last timer that does not expire later.
\<close>

fun tins :: "('a \<Rightarrow> nat) \<Rightarrow> 'a \<Rightarrow> 'a list \<Rightarrow> 'a list" where
  "tins k x [] = [x]"
| "tins k x (y # ys) = (if k x < k y then x # y # ys else y # tins k x ys)"

text \<open>The state invariant: both lists well formed and the active one sorted.\<close>

definition timer_inv :: "('p, 'd) tmr_state \<Rightarrow> addr list \<Rightarrow> addr list \<Rightarrow> bool" where
  "timer_inv s xs ys \<longleftrightarrow> shape s xs ys \<and> sorted (map (ekey s) xs)"

subsection \<open>Linked segments\<close>

lemma firstp_append [simp]: "firstp (xs @ ys) q = firstp xs (firstp ys q)"
  by (cases xs) simp_all

lemma lastp_append [simp]: "lastp pv (xs @ ys) = lastp (lastp pv xs) ys"
  by (induction xs arbitrary: pv) simp_all

lemma lastp_Cons_last: "lastp (Some x) xs = Some (last (x # xs))"
  by (induction xs arbitrary: x) simp_all

lemma links_Cons [simp]:
  "links h pv (x # xs) q \<longleftrightarrow>
     (\<exists>t. h x = Some t \<and> t_prev t = pv \<and> t_next t = firstp xs q \<and> links h (Some x) xs q)"
  by (auto split: option.splits)

lemma flinks_Cons [simp]:
  "flinks h (x # xs) \<longleftrightarrow> (\<exists>t. h x = Some t \<and> t_next t = firstp xs None \<and> flinks h xs)"
  by (auto split: option.splits)

declare links.simps(2) [simp del] flinks.simps(2) [simp del]

lemma links_append [simp]:
  "links h pv (xs @ ys) q \<longleftrightarrow> links h pv xs (firstp ys q) \<and> links h (lastp pv xs) ys q"
  by (induction xs arbitrary: pv) (auto split: option.splits)

lemma links_frame [simp]: "a \<notin> set xs \<Longrightarrow> links (h(a := v)) pv xs q = links h pv xs q"
  by (induction xs arbitrary: pv) (auto split: option.splits)

lemma flinks_frame [simp]: "a \<notin> set xs \<Longrightarrow> flinks (h(a := v)) xs = flinks h xs"
  by (induction xs) (auto split: option.splits)

lemma links_alloc: "links h pv xs q \<Longrightarrow> x \<in> set xs \<Longrightarrow> \<exists>t. h x = Some t"
  by (induction xs arbitrary: pv) (auto split: option.splits)

lemma flinks_alloc: "flinks h xs \<Longrightarrow> x \<in> set xs \<Longrightarrow> \<exists>t. h x = Some t"
  by (induction xs) (auto split: option.splits)

lemma links_set_next:
  assumes "links h pv (xs @ [x]) q" "x \<notin> set xs" "h x = Some t"
  shows "links (h(x \<mapsto> t\<lparr>t_next := q'\<rparr>)) pv (xs @ [x]) q'"
  using assms by (auto split: option.splits)

lemma links_set_prev:
  assumes "links h pv (x # xs) q" "x \<notin> set xs" "h x = Some t"
  shows "links (h(x \<mapsto> t\<lparr>t_prev := pv'\<rparr>)) pv' (x # xs) q"
  using assms by (auto split: option.splits)

subsection \<open>Keys and insertion\<close>

lemma compare_tkey:
  "iperf_time_compare t1 t2 < 0 \<longleftrightarrow> tkey t1 < tkey t2"
  "iperf_time_compare t1 t2 > 0 \<longleftrightarrow> tkey t2 < tkey t1"
  using unat_u32_less [of "usecs t1"] unat_u32_less [of "usecs t2"]
  by (auto simp: iperf_time_compare_def tkey_def word_less_nat_alt not_less)

lemma set_tins [simp]: "set (tins k x xs) = insert x (set xs)"
  by (induction xs) auto

lemma distinct_tins [simp]: "distinct (tins k x xs) \<longleftrightarrow> x \<notin> set xs \<and> distinct xs"
  by (induction xs) auto

lemma sorted_tins: "sorted (map k xs) \<Longrightarrow> sorted (map k (tins k x xs))"
  by (induction xs) (auto simp: less_imp_le order.strict_implies_order)

lemma tins_split:
  "tins k x xs = takeWhile (\<lambda>y. k y \<le> k x) xs @ x # dropWhile (\<lambda>y. k y \<le> k x) xs"
  by (induction xs) auto

subsection \<open>Writes\<close>

lemma upd_Some: "heap s a = Some t \<Longrightarrow> upd a f s = Some (s\<lparr>heap := (heap s)(a \<mapsto> f t)\<rparr>)"
  by (simp add: upd_def)

lemma payload_links [simp]:
  "payload (t\<lparr>t_prev := p\<rparr>) = payload t" "payload (t\<lparr>t_next := q\<rparr>) = payload t"
  "t_time (payload t) = t_time t"
  by (simp_all add: payload_def)

lemma view_upd:
  "map_option payload (heap s a) = Some (payload t') \<Longrightarrow>
     view (s\<lparr>heap := (heap s)(a \<mapsto> t')\<rparr>) = view s"
  by (auto simp: view_def fun_eq_iff)

lemma view_cong: "heap s' = heap s \<Longrightarrow> view s' = view s"
  by (simp add: view_def fun_eq_iff)

lemma dom_view: "dom (view s) = dom (heap s)"
  by (auto simp: view_def)

lemma ekey_cong: "view s' = view s \<Longrightarrow> ekey s' = ekey s"
  by (simp add: ekey_def fun_eq_iff)

lemma ekey_Some: "heap s a = Some t \<Longrightarrow> ekey s a = tkey (t_time t)"
  by (simp add: ekey_def view_def)

lemma list_walk_links:
  assumes "links (heap s) pv (y # ys) None"
  shows "list_walk s tm y (firstp ys None) =
    Some (last (y # takeWhile (\<lambda>z. ekey s z \<le> tkey tm) ys),
          firstp (dropWhile (\<lambda>z. ekey s z \<le> tkey tm) ys) None)"
  using assms
proof (induction ys arbitrary: y pv)
  case Nil
  then show ?case by (simp add: list_walk.simps)
next
  case (Cons z zs)
  from Cons.prems obtain u where u: "heap s z = Some u" "t_next u = firstp zs None"
      and l: "links (heap s) (Some y) (z # zs) None"
    by (auto split: option.splits)
  show ?case
    using u Cons.IH [OF l]
    by (simp add: list_walk.simps [of s tm y] compare_tkey ekey_Some)
qed

lemma list_remove_shape:
  assumes "shape s (as @ t # bs) ys"
  shows "\<exists>s'. list_remove t s = Some s' \<and> shape s' (as @ bs) ys \<and> view s' = view s"
proof -
  from assms obtain tt where t: "heap s t = Some tt" "t_prev tt = lastp None as"
      "t_next tt = firstp bs None"
    by (auto simp: shape_def split: option.splits)
  from assms have d: "distinct (as @ t # bs @ ys)" by (simp add: shape_def)
  define s1 where "s1 = (case lastp None as of None \<Rightarrow> s\<lparr>timers := firstp bs None\<rparr>
      | Some p \<Rightarrow> s\<lparr>heap := (heap s)(p \<mapsto> (the (heap s p))\<lparr>t_next := firstp bs None\<rparr>)\<rparr>)"
  have "(case t_prev tt of None \<Rightarrow> Some (s\<lparr>timers := t_next tt\<rparr>)
           | Some p \<Rightarrow> set_next p (t_next tt) s) = Some s1 \<and>
        timers s1 = firstp (as @ bs) None \<and> links (heap s1) None as (firstp bs None) \<and>
        links (heap s1) (Some t) bs None \<and> heap s1 t = Some tt \<and>
        flinks (heap s1) ys \<and> free_timers s1 = firstp ys None \<and> view s1 = view s"
  proof (cases as rule: rev_cases)
    case Nil
    then show ?thesis using assms t by (auto simp: s1_def shape_def intro: view_cong)
  next
    case (snoc cs c)
    then obtain u where u: "heap s c = Some u"
      using assms by (auto simp: shape_def split: option.splits)
    have l: "links (heap s) None (cs @ [c]) (Some t)"
      using assms snoc by (auto simp: shape_def split: option.splits)
    have c: "c \<notin> set cs" "c \<notin> set bs" "c \<notin> set ys" "c \<noteq> t" using d snoc by auto
    show ?thesis
      using assms t u c snoc links_set_next [OF l c(1) u, of "firstp bs None"]
      by (auto simp: s1_def shape_def upd_Some view_upd)
  qed
  note s1 = this
  show ?thesis
  proof (cases bs)
    case Nil
    then show ?thesis using s1 t d by (auto simp: list_remove_def shape_def)
  next
    case (Cons b cs)
    then obtain u where u: "heap s1 b = Some u" using s1 by (auto split: option.splits)
    have b: "b \<notin> set cs" "b \<notin> set as" "b \<notin> set ys" using d Cons by auto
    show ?thesis
      using s1 t d Cons u b links_set_prev [of "heap s1" "Some t" b cs None u "lastp None as"]
      by (auto simp: list_remove_def shape_def upd_Some view_upd)
  qed
qed

lemma list_add_head:
  assumes "shape s (h # xs) ys" "t \<notin> set (h # xs @ ys)" "heap s t = Some tt"
    and less: "ekey s t < ekey s h"
  shows "\<exists>s'. list_add t s = Some s' \<and> shape s' (t # h # xs) ys \<and> view s' = view s"
proof -
  from assms obtain ht where h: "heap s h = Some ht" "timers s = Some h"
    by (auto simp: shape_def split: option.splits)
  have "links ((heap s)(h \<mapsto> ht\<lparr>t_prev := Some t\<rparr>)) (Some t) (h # xs) None"
    using assms(1,2) h by (intro links_set_prev) (auto simp: shape_def)
  then show ?thesis
    using assms h
    by (auto simp: list_add_def compare_tkey ekey_Some upd_Some shape_def view_def fun_eq_iff
        fun_upd_twist)
qed

lemma list_add_middle:
  assumes "shape s (as @ bs) ys" "as \<noteq> []" "t \<notin> set (as @ bs @ ys)" "heap s t = Some tt"
    and walk: "list_walk s (t_time tt) (hd as) (firstp (tl as @ bs) None) =
      Some (last as, firstp bs None)"
    and ge: "ekey s (hd as) \<le> ekey s t"
  shows "\<exists>s'. list_add t s = Some s' \<and> shape s' (as @ t # bs) ys \<and> view s' = view s"
proof -
  obtain cs c where as: "as = cs @ [c]" using \<open>as \<noteq> []\<close> by (cases as rule: rev_cases) auto
  have d: "distinct (as @ bs @ ys)" using assms(1) by (simp add: shape_def)
  obtain cu where c: "heap s c = Some cu" "c \<notin> set cs" "c \<notin> set bs" "c \<notin> set ys" "c \<noteq> t"
    using assms(1,3) d as links_alloc [of "heap s" None "as @ bs" None c] by (auto simp: shape_def)
  obtain h hs where h: "as = h # hs" using \<open>as \<noteq> []\<close> by (cases as) auto
  obtain ht where ht: "heap s h = Some ht" "t_next ht = firstp (hs @ bs) None" "timers s = Some h"
    using assms(1) h by (auto simp: shape_def split: option.splits)
  define s1 where "s1 = s\<lparr>heap := (heap s)(c \<mapsto> cu\<lparr>t_next := Some t\<rparr>,
      t \<mapsto> tt\<lparr>t_prev := Some c, t_next := firstp bs None\<rparr>)\<rparr>"
  have add: "list_add t s = (case firstp bs None of None \<Rightarrow> Some s1 | Some a \<Rightarrow> set_prev a (Some t) s1)"
  proof -
    have "list_walk s (t_time tt) h (t_next ht) = Some (c, firstp bs None)"
      using walk ht h as by (metis last_snoc list.sel(1,3))
    moreover have "\<not> tkey (t_time tt) < tkey (t_time ht)"
      using ge h ht assms(4) by (simp add: ekey_Some)
    ultimately show ?thesis
      unfolding s1_def using assms(4) ht(1,3) c(1,5)
      by (simp add: list_add_def compare_tkey upd_Some)
  qed
  have l1: "links (heap s1) None (as @ [t]) (firstp bs None)"
    using assms(1,3) as c links_set_next [of "heap s" None cs c "firstp bs None" cu "Some t"]
    by (auto simp: s1_def shape_def)
  have l2: "links (heap s1) (Some c) bs None"
    using assms(1,3) as c by (auto simp: s1_def shape_def)
  have v1: "view s1 = view s"
    using c assms(4) by (auto simp: s1_def view_def fun_eq_iff)
  have f1: "timers s1 = timers s" "free_timers s1 = free_timers s" "flinks (heap s1) ys"
    using assms(1,3) c by (auto simp: s1_def shape_def)
  show ?thesis
  proof (cases bs)
    case Nil
    then show ?thesis using add l1 v1 f1 h assms(1,3) by (auto simp: shape_def)
  next
    case (Cons b ds)
    then obtain bu where b: "heap s1 b = Some bu" using l2 by (auto split: option.splits)
    have nb: "b \<notin> set ds" "b \<notin> set as" "b \<notin> set ys" "b \<noteq> t" using d Cons assms(3) by auto
    show ?thesis
      using add l1 l2 v1 f1 h assms(1,3) Cons b nb
        links_set_prev [of "heap s1" "Some c" b ds None bu "Some t"]
      by (auto simp: shape_def upd_Some view_upd)
  qed
qed

lemma list_add_shape:
  assumes "shape s xs ys" "t \<notin> set (xs @ ys)" "heap s t = Some tt"
  shows "\<exists>s'. list_add t s = Some s' \<and> shape s' (tins (ekey s) t xs) ys \<and> view s' = view s"
proof (cases xs)
  case Nil
  then show ?thesis
    using assms by (auto simp: list_add_def shape_def upd_Some view_def fun_eq_iff)
next
  case (Cons h hs)
  show ?thesis
  proof (cases "ekey s t < ekey s h")
    case True
    then show ?thesis using list_add_head [of s h hs ys t tt] assms Cons by auto
  next
    case False
    let ?p = "\<lambda>z. ekey s z \<le> tkey (t_time tt)"
    let ?as = "h # takeWhile ?p hs" and ?bs = "dropWhile ?p hs"
    have "list_walk s (t_time tt) h (firstp hs None) = Some (last ?as, firstp ?bs None)"
      using assms(1) Cons by (intro list_walk_links) (auto simp: shape_def)
    then show ?thesis
      using list_add_middle [of s ?as ?bs ys t tt] assms Cons False
      by (auto simp: tins_split ekey_Some dest: set_takeWhileD set_dropWhileD)
  qed
qed

subsection \<open>The operations keep the invariant and refine a sorted list\<close>

lemma list_resort_inv:
  assumes "shape s (as @ t # bs) ys" "sorted (map (ekey s) (as @ bs))"
  shows "\<exists>s'. list_resort t s = Some s' \<and> timer_inv s' (tins (ekey s) t (as @ bs)) ys \<and>
    view s' = view s"
proof -
  obtain s1 where s1: "list_remove t s = Some s1" "shape s1 (as @ bs) ys" "view s1 = view s"
    using list_remove_shape [OF assms(1)] by auto
  have "heap s t \<noteq> None" using assms(1) by (auto simp: shape_def split: option.splits)
  then have "view s1 t \<noteq> None" using s1(3) by (auto simp: view_def)
  then obtain tt where "heap s1 t = Some tt" by (auto simp: view_def)
  moreover have "t \<notin> set ((as @ bs) @ ys)" using assms(1) by (auto simp: shape_def)
  ultimately obtain s2 where "list_add t s1 = Some s2" "view s2 = view s1"
      "shape s2 (tins (ekey s1) t (as @ bs)) ys"
    using list_add_shape [OF s1(2)] by blast
  then show ?thesis
    using s1 assms(2) sorted_tins [of "ekey s" "as @ bs" t] ekey_cong [OF s1(3)] ekey_cong [of s2 s1]
    by (auto simp: list_resort_def timer_inv_def)
qed

lemma shape_upd_payload:
  assumes "shape s xs ys" "heap s a = Some t" "t_prev (f t) = t_prev t" "t_next (f t) = t_next t"
  shows "shape (s\<lparr>heap := (heap s)(a \<mapsto> f t)\<rparr>) xs ys"
proof -
  have "links ((heap s)(a \<mapsto> f t)) pv zs q = links (heap s) pv zs q" for pv zs q
    using assms by (induction zs arbitrary: pv) auto
  moreover have "flinks ((heap s)(a \<mapsto> f t)) zs = flinks (heap s) zs" for zs
    using assms by (induction zs) auto
  ultimately show ?thesis using assms(1) by (simp add: shape_def)
qed

lemma ekey_upd_other:
  "b \<noteq> a \<Longrightarrow> ekey (s\<lparr>heap := (heap s)(a \<mapsto> t)\<rparr>) b = ekey s b"
  by (simp add: ekey_def view_def)

lemma map_ekey_upd_other:
  "a \<notin> set xs \<Longrightarrow> map (ekey (s\<lparr>heap := (heap s)(a \<mapsto> t)\<rparr>)) xs = map (ekey s) xs"
  by (intro map_cong ekey_upd_other) auto

lemma sorted_remove_mid: "sorted (map k (as @ t # bs)) \<Longrightarrow> sorted (map k (as @ bs))"
  by (auto simp: sorted_append)

lemma tmr_cancel_inv:
  assumes "timer_inv s (as @ t # bs) ys"
  shows "\<exists>s'. tmr_cancel t s = Some s' \<and> timer_inv s' (as @ bs) (t # ys) \<and> view s' = view s"
proof -
  obtain s1 where s1: "list_remove t s = Some s1" "shape s1 (as @ bs) ys" "view s1 = view s"
    using assms list_remove_shape by (metis timer_inv_def)
  have "heap s t \<noteq> None" using assms by (auto simp: timer_inv_def shape_def split: option.splits)
  then have "view s1 t \<noteq> None" using s1(3) by (auto simp: view_def)
  then obtain tt where tt: "heap s1 t = Some tt" by (auto simp: view_def)
  have nt: "t \<notin> set as" "t \<notin> set bs" "t \<notin> set ys"
    using assms by (auto simp: timer_inv_def shape_def)
  let ?s2 = "s1\<lparr>free_timers := Some t,
      heap := (heap s1)(t \<mapsto> tt\<lparr>t_next := free_timers s1, t_prev := None\<rparr>)\<rparr>"
  have "tmr_cancel t s = Some ?s2"
    using s1(1) tt by (simp add: tmr_cancel_def upd_Some)
  moreover have "shape ?s2 (as @ bs) (t # ys)"
    using s1(2) nt by (auto simp: shape_def)
  moreover have "view ?s2 = view s1"
    using tt by (auto simp: view_def fun_eq_iff)
  ultimately show ?thesis
    using assms s1(3) ekey_cong [of ?s2 s] by (auto simp: timer_inv_def sorted_append)
qed

lemma list_add_fresh:
  assumes "shape s xs ys" "sorted (map (ekey s) xs)" "t \<notin> set (xs @ ys)"
  shows "\<exists>s'. list_add t (s\<lparr>heap := (heap s)(t \<mapsto> n)\<rparr>) = Some s' \<and>
    timer_inv s' (tins (ekey s') t xs) ys \<and> view s' = (view s)(t \<mapsto> payload n)"
proof -
  let ?s = "s\<lparr>heap := (heap s)(t \<mapsto> n)\<rparr>"
  have sh: "shape ?s xs ys" using assms(1,3) by (auto simp: shape_def)
  have so: "sorted (map (ekey ?s) xs)"
    using assms(2,3) by (simp add: map_ekey_upd_other)
  obtain s' where s': "list_add t ?s = Some s'" "shape s' (tins (ekey ?s) t xs) ys"
      "view s' = view ?s"
    using list_add_shape [OF sh assms(3)] by auto
  have "view ?s = (view s)(t \<mapsto> payload n)" by (auto simp: view_def)
  then show ?thesis
    using s' sorted_tins [OF so, of t] ekey_cong [OF s'(3)] by (auto simp: timer_inv_def)
qed

lemma tmr_create_inv:
  assumes inv: "timer_inv s xs ys"
    and mem: "ys = [] \<Longrightarrow> m = Some a \<and> heap s a = None"
    and now: "now = getnow nowP clk now0"
  shows "\<exists>t s'. tmr_create nowP clk now0 m proc cd us per s = Some (Some t, s') \<and>
    t \<notin> set xs \<and> timer_inv s' (tins (ekey s') t xs) (tl ys) \<and>
    view s' = (view s)(t \<mapsto> \<lparr>timer_proc = proc, client_data = cd, t_usecs = us, periodic = per,
      t_time = iperf_time_add_usecs now us, t_prev = None, t_next = None\<rparr>)"
proof -
  let ?node = "\<lparr>timer_proc = proc, client_data = cd, t_usecs = us, periodic = per,
      t_time = iperf_time_add_usecs now us, t_prev = None, t_next = None\<rparr>"
  show ?thesis
  proof (cases ys)
    case Nil
    then have a: "a \<notin> set (xs @ [])"
      using inv mem links_alloc by (fastforce simp: timer_inv_def shape_def)
    show ?thesis
      using list_add_fresh [of s xs "[]" a ?node] a inv mem Nil
      by (auto simp: tmr_create_def timer_inv_def shape_def Let_def now payload_def)
  next
    case (Cons t zs)
    then obtain ft where ft: "heap s t = Some ft" "t_next ft = firstp zs None"
      using inv by (auto simp: timer_inv_def shape_def)
    let ?s = "s\<lparr>free_timers := firstp zs None\<rparr>"
    have "ekey ?s = ekey s" by (intro ekey_cong view_cong) simp
    then have "shape ?s xs zs" "sorted (map (ekey ?s) xs)" "t \<notin> set (xs @ zs)"
      using inv Cons by (auto simp: timer_inv_def shape_def)
    note list_add_fresh [OF this, of "?node\<lparr>t_prev := t_prev ft, t_next := t_next ft\<rparr>"]
    moreover have "view ?s = view s" by (rule view_cong) simp
    ultimately show ?thesis
      using inv Cons ft
      by (auto simp: tmr_create_def timer_inv_def shape_def Let_def now payload_def upd_Some)
  qed
qed

lemma tmr_reset_inv:
  assumes inv: "timer_inv s (as @ t # bs) ys"
    and now: "now = getnow nowP clk now0"
  shows "\<exists>s'. tmr_reset nowP clk now0 t s = Some s' \<and>
    timer_inv s' (tins (ekey s') t (as @ bs)) ys \<and>
    view s' = (view s)(t := map_option
      (\<lambda>x. x\<lparr>t_time := iperf_time_add_usecs now (t_usecs x)\<rparr>) (view s t))"
proof -
  obtain tt where tt: "heap s t = Some tt" using inv by (auto simp: timer_inv_def shape_def)
  let ?s = "s\<lparr>heap := (heap s)(t \<mapsto> tt\<lparr>t_time := iperf_time_add_usecs now (t_usecs tt)\<rparr>)\<rparr>"
  have sh: "shape ?s (as @ t # bs) ys"
    using shape_upd_payload [of s _ ys t tt "\<lambda>x. x\<lparr>t_time := iperf_time_add_usecs now (t_usecs x)\<rparr>"]
      inv tt by (simp add: timer_inv_def)
  have nt: "t \<notin> set as" "t \<notin> set bs" using inv by (auto simp: timer_inv_def shape_def)
  have so: "sorted (map (ekey ?s) (as @ bs))"
    using inv nt sorted_remove_mid [of "ekey s" as t bs]
    by (simp add: timer_inv_def map_ekey_upd_other)
  obtain s' where s': "list_resort t ?s = Some s'" "view s' = view ?s"
      "timer_inv s' (tins (ekey ?s) t (as @ bs)) ys"
    using list_resort_inv [OF sh so] by auto
  have "view ?s = (view s)(t := map_option
      (\<lambda>x. x\<lparr>t_time := iperf_time_add_usecs now (t_usecs x)\<rparr>) (view s t))"
    using tt by (auto simp: view_def payload_def)
  then show ?thesis
    using s' ekey_cong [OF s'(2)] tt
    by (auto simp: tmr_reset_def Let_def now upd_Some)
qed

subsection \<open>Running the timers\<close>

text \<open>
  The callbacks of this section leave the timer lists alone: \<open>act p d now w\<close> is what the
  function \<open>p\<close> does to the client's state.
\<close>

definition quiet_cb :: "('p \<Rightarrow> 'd \<Rightarrow> iperf_time \<Rightarrow> 'w \<Rightarrow> 'w) \<Rightarrow> ('p, 'd, 'w) timer_cb" where
  "quiet_cb act p d now ws = Some (act p d now (fst ws), snd ws)"

definition fire :: "('p \<Rightarrow> 'd \<Rightarrow> iperf_time \<Rightarrow> 'w \<Rightarrow> 'w) \<Rightarrow> iperf_time \<Rightarrow>
    ('p, 'd) tmr_state \<Rightarrow> addr \<Rightarrow> 'w \<Rightarrow> 'w" where
  "fire act now s a w =
     (case view s a of None \<Rightarrow> w | Some t \<Rightarrow> act (timer_proc t) (client_data t) now w)"

text \<open>
  A timer a run at time \<open>now\<close> can handle: normalised, and when periodic with a positive
  period that does not wrap the clock.
\<close>

definition tick_ok :: "iperf_time \<Rightarrow> ('p, 'd) timer \<Rightarrow> bool" where
  "tick_ok now t \<longleftrightarrow> time_ok (t_time t) \<and>
     (periodic t \<noteq> 0 \<longrightarrow> 0 < unat (t_usecs t) \<and>
        usec_val now + unat (t_usecs t) < 2 ^ 32 * 1000000)"

definition all_tick_ok :: "iperf_time \<Rightarrow> ('p, 'd) tmr_state \<Rightarrow> addr list \<Rightarrow> bool" where
  "all_tick_ok now s xs \<longleftrightarrow>
     (\<forall>x \<in> set xs. case view s x of None \<Rightarrow> True | Some t \<Rightarrow> tick_ok now t)"

definition lag :: "iperf_time \<Rightarrow> ('p, 'd) tmr_state \<Rightarrow> addr \<Rightarrow> nat" where
  "lag now s x =
     (case view s x of None \<Rightarrow> 0 | Some t \<Rightarrow> Suc (usec_val now) - usec_val (t_time t))"

definition run_one :: "addr \<Rightarrow> ('p, 'd) tmr_state \<Rightarrow> ('p, 'd) tmr_state option" where
  "run_one a s = do {
     tt \<leftarrow> heap s a;
     if periodic tt \<noteq> 0 then do {
       s \<leftarrow> upd a (\<lambda>x. x\<lparr>t_time := iperf_time_add_usecs (t_time x) (t_usecs x)\<rparr>) s;
       list_resort a s
     } else tmr_cancel a s
   }"

lemma tkey_val: "time_ok t1 \<Longrightarrow> time_ok t2 \<Longrightarrow> tkey t1 \<le> tkey t2 \<longleftrightarrow> usec_val t1 \<le> usec_val t2"
  using compare_tkey(1) [of t2 t1]
  by (auto simp: compare_val not_less [symmetric] split: if_splits)

lemma tmr_run_loop_quiet:
  "tmr_run_loop (quiet_cb act) now (Some a) (w, s) =
     (case heap s a of None \<Rightarrow> None
      | Some tt \<Rightarrow>
          if tkey now < tkey (t_time tt) then Some (w, s)
          else (case run_one a s of None \<Rightarrow> None
                | Some s' \<Rightarrow> tmr_run_loop (quiet_cb act) now (t_next tt) (fire act now s a w, s')))"
  by (subst tmr_run_loop.simps)
    (auto simp: compare_tkey quiet_cb_def run_one_def fire_def view_def payload_def
      split: option.splits bind_splits)

lemma tins_append_le:
  "(\<forall>y \<in> set as. k y \<le> k x) \<Longrightarrow> tins k x (as @ bs) = as @ tins k x bs"
  by (induction as) auto

lemma tins_cases: "tins k x ys = x # ys \<or> firstp (tins k x ys) None = firstp ys None"
  by (cases ys) auto

lemma view_time_upd:
  assumes "heap s a = Some t"
  shows "view (s\<lparr>heap := (heap s)(a \<mapsto> t\<lparr>t_time := x\<rparr>)\<rparr>) = (view s)(a \<mapsto> (payload t)\<lparr>t_time := x\<rparr>)"
  using assms by (auto simp: view_def payload_def)

text \<open>
  Rescheduling a due periodic timer: it moves towards the end of the list, and the loop
  goes on with what followed it.
\<close>

lemma run_one_periodic:
  assumes inv: "timer_inv s (pre @ a # rest) ys" and tt: "heap s a = Some tt"
    and ok: "tick_ok now tt" "periodic tt \<noteq> 0" "time_ok now"
    and due: "tkey (t_time tt) \<le> tkey now"
  shows "\<exists>s' pre' suf. run_one a s = Some s' \<and> timer_inv s' (pre' @ suf) ys \<and>
    firstp suf None = firstp rest None \<and> set rest \<subseteq> set suf \<and> distinct suf \<and>
    set suf \<subseteq> insert a (set rest) \<and> set (pre' @ suf) = set (pre @ a # rest) \<and>
    view s' = (view s)(a \<mapsto>
      (payload tt)\<lparr>t_time := iperf_time_add_usecs (t_time tt) (t_usecs tt)\<rparr>)"
proof -
  let ?tm = "iperf_time_add_usecs (t_time tt) (t_usecs tt)"
  let ?s = "s\<lparr>heap := (heap s)(a \<mapsto> tt\<lparr>t_time := ?tm\<rparr>)\<rparr>"
  have later: "tkey (t_time tt) \<le> tkey ?tm"
  proof -
    have "usec_val (t_time tt) + unat (t_usecs tt) < 2 ^ 32 * 1000000"
      using ok due tkey_val [of "t_time tt" now] by (auto simp: tick_ok_def)
    then show ?thesis
      using ok tkey_val [of "t_time tt" ?tm] by (simp add: tick_ok_def add_usecs_exact add_usecs_ok)
  qed
  have na: "a \<notin> set pre" "a \<notin> set rest" using inv by (auto simp: timer_inv_def shape_def)
  have so: "sorted (map (ekey ?s) (pre @ rest))"
    using inv na sorted_remove_mid [of "ekey s" pre a rest]
    by (simp add: timer_inv_def map_ekey_upd_other)
  have sh: "shape ?s (pre @ a # rest) ys"
    using shape_upd_payload [of s _ ys a tt "\<lambda>x. x\<lparr>t_time := ?tm\<rparr>"] inv tt
    by (simp add: timer_inv_def)
  obtain s' where s': "list_resort a ?s = Some s'" "view s' = view ?s"
      "timer_inv s' (tins (ekey ?s) a (pre @ rest)) ys"
    using list_resort_inv [OF sh so] by auto
  have "\<forall>y \<in> set pre. ekey s y \<le> ekey s a"
    using inv by (auto simp: timer_inv_def sorted_append)
  then have "\<forall>y \<in> set pre. ekey ?s y \<le> ekey ?s a"
    using later na tt ekey_upd_other [of _ a s "tt\<lparr>t_time := ?tm\<rparr>"] by (fastforce simp: ekey_Some)
  then have ins: "tins (ekey ?s) a (pre @ rest) = pre @ tins (ekey ?s) a rest"
    by (rule tins_append_le)
  have run: "run_one a s = Some s'" "view s' = (view s)(a \<mapsto> (payload tt)\<lparr>t_time := ?tm\<rparr>)"
    using s' tt ok(2) by (simp_all add: run_one_def upd_Some view_time_upd)
  have dr: "distinct rest" using inv by (simp add: timer_inv_def shape_def)
  then have di: "distinct (tins (ekey ?s) a rest)" using na by simp
  from tins_cases show ?thesis
  proof
    assume "tins (ekey ?s) a rest = a # rest"
    then show ?thesis
      using run s'(3) ins dr
      by (intro exI [of _ s'] exI [of _ "pre @ [a]"] exI [of _ rest]) auto
  next
    assume "firstp (tins (ekey ?s) a rest) None = firstp rest None"
    then show ?thesis
      using run s'(3) ins di
      by (intro exI [of _ s'] exI [of _ pre] exI [of _ "tins (ekey ?s) a rest"]) auto
  qed
qed

lemma run_one_cancel:
  assumes inv: "timer_inv s (pre @ a # rest) ys" and tt: "heap s a = Some tt" "periodic tt = 0"
  shows "\<exists>s'. run_one a s = Some s' \<and> timer_inv s' (pre @ rest) (a # ys) \<and> view s' = view s"
  using tmr_cancel_inv [OF inv] tt by (auto simp: run_one_def)

lemma lag_sum_less:
  assumes "distinct suf" "set suf \<subseteq> insert a (set rest)" "distinct (a # rest)"
    and "\<forall>x \<in> set rest. lag now s' x = lag now s x" "lag now s' a < lag now s a"
  shows "sum_list (map (lag now s') suf) < sum_list (map (lag now s) (a # rest))"
proof -
  have "sum_list (map (lag now s') suf) = sum (lag now s') (set suf)"
    using assms(1) by (rule sum_list_distinct_conv_sum_set)
  also have "\<dots> \<le> sum (lag now s') (insert a (set rest))"
    using assms(2) by (intro sum_mono2) auto
  also have "\<dots> = lag now s' a + sum (lag now s) (set rest)"
    using assms(3,4) by (simp add: sum.insert)
  also have "\<dots> < lag now s a + sum_list (map (lag now s) rest)"
    using assms(3,5) by (simp add: sum_list_distinct_conv_sum_set)
  finally show ?thesis by simp
qed

lemma reschedule_ok:
  assumes "tick_ok now t" "time_ok now" "periodic t \<noteq> 0" "tkey (t_time t) \<le> tkey now"
  defines "tm \<equiv> iperf_time_add_usecs (t_time t) (t_usecs t)"
  shows "tick_ok now (t\<lparr>t_time := tm\<rparr>)"
    and "Suc (usec_val now) - usec_val tm < Suc (usec_val now) - usec_val (t_time t)"
proof -
  have le: "usec_val (t_time t) \<le> usec_val now"
    using assms tkey_val by (auto simp: tick_ok_def)
  then have "usec_val tm = usec_val (t_time t) + unat (t_usecs t)"
    using assms unfolding tm_def tick_ok_def by (intro add_usecs_exact) auto
  then show "Suc (usec_val now) - usec_val tm < Suc (usec_val now) - usec_val (t_time t)"
    using assms le by (auto simp: tick_ok_def)
  show "tick_ok now (t\<lparr>t_time := tm\<rparr>)"
    using assms by (auto simp: tick_ok_def add_usecs_ok)
qed

text \<open>
  One iteration of the loop of \<open>tmr_run\<close> at a due timer \<open>a\<close>: the invariant is kept, the
  loop pointer stays on the active list, and the total lag of what is left to visit drops.
\<close>

lemma run_one_step:
  assumes inv: "timer_inv s (pre @ a # rest) ys" and tt: "heap s a = Some tt"
    and ok: "all_tick_ok now s (a # rest)" "time_ok now"
    and due: "tkey (t_time tt) \<le> tkey now"
  shows "\<exists>s' pre' suf ys'. run_one a s = Some s' \<and> timer_inv s' (pre' @ suf) ys' \<and>
    firstp suf None = firstp rest None \<and> set rest \<subseteq> set suf \<and> set suf \<subseteq> insert a (set rest) \<and>
    all_tick_ok now s' suf \<and> fire act now s' = fire act now s \<and>
    (\<forall>x. x \<noteq> a \<longrightarrow> ekey s' x = ekey s x) \<and>
    set (pre' @ suf) \<union> set ys' = set (pre @ a # rest) \<union> set ys \<and>
    sum_list (map (lag now s') suf) < sum_list (map (lag now s) (a # rest))"
proof (cases "periodic tt = 0")
  case True
  obtain s' where s': "run_one a s = Some s'" "timer_inv s' (pre @ rest) (a # ys)" "view s' = view s"
    using run_one_cancel [OF inv tt True] by auto
  have "usec_val (t_time tt) \<le> usec_val now"
    using ok due tt tkey_val by (auto simp: all_tick_ok_def view_def tick_ok_def)
  then have "0 < lag now s a" using tt by (simp add: lag_def view_def)
  moreover have "lag now s' = lag now s" "ekey s' = ekey s" "fire act now s' = fire act now s"
    using s'(3) by (simp_all add: lag_def ekey_def fire_def fun_eq_iff)
  ultimately show ?thesis
    using s' ok(1) by (intro exI [of _ s'] exI [of _ pre] exI [of _ rest] exI [of _ "a # ys"])
      (auto simp: all_tick_ok_def)
next
  case False
  have tok: "tick_ok now tt" "tick_ok now (payload tt)"
    using ok(1) tt by (auto simp: all_tick_ok_def view_def tick_ok_def payload_def)
  obtain s' pre' suf where s': "run_one a s = Some s'" "timer_inv s' (pre' @ suf) ys"
      "firstp suf None = firstp rest None" "set rest \<subseteq> set suf" "distinct suf"
      "set suf \<subseteq> insert a (set rest)" "set (pre' @ suf) = set (pre @ a # rest)"
      "view s' = (view s)(a \<mapsto>
        (payload tt)\<lparr>t_time := iperf_time_add_usecs (t_time tt) (t_usecs tt)\<rparr>)"
    using run_one_periodic [OF inv tt tok(1) False ok(2) due] by blast
  have na: "distinct (a # rest)" using inv by (auto simp: timer_inv_def shape_def)
  have "lag now s' a < lag now s a"
    using reschedule_ok(2) [OF tok(1) ok(2) False due] s'(8) tt
    by (simp add: lag_def view_def payload_def)
  moreover have "\<forall>x \<in> set rest. lag now s' x = lag now s x"
    using na s'(8) by (auto simp: lag_def)
  ultimately have "sum_list (map (lag now s') suf) < sum_list (map (lag now s) (a # rest))"
    using s'(5,6) na by (intro lag_sum_less)
  moreover have "all_tick_ok now s' suf"
    using ok(1) s'(6,8) reschedule_ok(1) [OF tok(2) ok(2)] False due
    by (auto simp: all_tick_ok_def payload_def)
  moreover have "fire act now s' = fire act now s"
    using s'(8) tt by (auto simp: fire_def fun_eq_iff view_def payload_def)
  moreover have "\<forall>x. x \<noteq> a \<longrightarrow> ekey s' x = ekey s x"
    using s'(8) by (simp add: ekey_def)
  ultimately show ?thesis using s'(1-4,6,7) by blast
qed

lemma tmr_run_loop_fires:
  assumes "timer_inv s (pre @ suf) ys" "all_tick_ok now s suf" "time_ok now"
  shows "\<exists>fired s' xs' ys'.
    tmr_run_loop (quiet_cb act) now (firstp suf None) (w, s) = Some (fold (fire act now s) fired w, s') \<and>
    set fired = {x \<in> set suf. ekey s x \<le> tkey now} \<and>
    timer_inv s' xs' ys' \<and> set xs' \<union> set ys' = set (pre @ suf) \<union> set ys"
  using assms
proof (induction "sum_list (map (lag now s) suf)" arbitrary: s pre suf ys w rule: less_induct)
  case less
  show ?case
  proof (cases suf)
    case Nil
    then show ?thesis
      using less.prems by (intro exI [of _ "[]"]) (auto simp: tmr_run_loop.simps)
  next
    case (Cons a rest)
    then obtain tt where tt: "heap s a = Some tt" "t_next tt = firstp rest None"
      using less.prems by (auto simp: timer_inv_def shape_def)
    show ?thesis
    proof (cases "tkey now < tkey (t_time tt)")
      case True
      then have "\<forall>x \<in> set suf. tkey now < ekey s x"
        using less.prems(1) Cons tt by (fastforce simp: timer_inv_def ekey_Some sorted_append)
      then have "{x \<in> set suf. ekey s x \<le> tkey now} = {}" by auto
      with True show ?thesis
        using less.prems Cons tt
        by (rule_tac x = "[]" in exI, rule_tac x = s in exI, rule_tac x = "pre @ suf" in exI)
          (auto simp: tmr_run_loop_quiet)
    next
      case False
      then have due: "tkey (t_time tt) \<le> tkey now" by simp
      obtain s1 pre1 suf1 ys1 where s1: "run_one a s = Some s1" "timer_inv s1 (pre1 @ suf1) ys1"
          "firstp suf1 None = firstp rest None" "set rest \<subseteq> set suf1" "set suf1 \<subseteq> insert a (set rest)"
          "all_tick_ok now s1 suf1" "fire act now s1 = fire act now s"
          "\<forall>x. x \<noteq> a \<longrightarrow> ekey s1 x = ekey s x"
          "set (pre1 @ suf1) \<union> set ys1 = set (pre @ a # rest) \<union> set ys"
          "sum_list (map (lag now s1) suf1) < sum_list (map (lag now s) suf)"
        using run_one_step [of s pre a rest ys tt now act] less.prems Cons tt(1) due by blast
      obtain fired s' xs' ys' where r:
          "tmr_run_loop (quiet_cb act) now (firstp suf1 None) (fire act now s a w, s1) =
             Some (fold (fire act now s) fired (fire act now s a w), s')"
          "set fired = {x \<in> set suf1. ekey s1 x \<le> tkey now}" "timer_inv s' xs' ys'"
          "set xs' \<union> set ys' = set (pre1 @ suf1) \<union> set ys1"
        using less.hyps [OF s1(10,2,6) less.prems(3), of "fire act now s a w"] s1(7) by auto
      have "set (a # fired) = {x \<in> set suf. ekey s x \<le> tkey now}"
        using r(2) s1(4,5,8) Cons due ekey_Some [OF tt(1)] by auto metis+
      moreover have "tmr_run_loop (quiet_cb act) now (firstp suf None) (w, s) =
          Some (fold (fire act now s) (a # fired) w, s')"
        using r(1) s1(1,3) Cons tt False by (simp add: tmr_run_loop_quiet)
      ultimately show ?thesis using r(3,4) s1(9) Cons by blast
    qed
  qed
qed

section \<open>Cancelling sets of timers\<close>

text \<open>
  What the clients of the timer package rely on when they tear down a test: a pool of
  active and free timers in which an active one can be cancelled.
\<close>

locale timer_pool =
  fixes inv :: "'s \<Rightarrow> 'a list \<Rightarrow> 'a list \<Rightarrow> bool"
    and cancel :: "'a \<Rightarrow> 's \<Rightarrow> 's option"
  assumes inv_distinct: "inv s xs ys \<Longrightarrow> distinct (xs @ ys)"
    and cancel_ok: "inv s (as @ t # bs) ys \<Longrightarrow>
      \<exists>s'. cancel t s = Some s' \<and> inv s' (as @ bs) (t # ys)"
begin

lemma cancel_member:
  assumes "inv s xs ys" "t \<in> set xs"
  shows "\<exists>s'. cancel t s = Some s' \<and> inv s' (filter (\<lambda>x. x \<noteq> t) xs) (t # ys)"
proof -
  obtain as bs where xs: "xs = as @ t # bs" using assms(2) by (meson split_list)
  have "distinct xs" using inv_distinct [OF assms(1)] by simp
  then have "filter (\<lambda>x. x \<noteq> t) xs = as @ bs"
    using xs by simp
  then show ?thesis using cancel_ok [of s as t bs ys] assms(1) xs by auto
qed

lemma cancel_set:
  assumes "inv s xs ys" "set ts \<subseteq> set xs" "distinct ts"
  shows "\<exists>s'. foldM cancel ts s = Some s' \<and>
    inv s' (filter (\<lambda>x. x \<notin> set ts) xs) (rev ts @ ys)"
  using assms
proof (induction ts arbitrary: s xs ys)
  case Nil
  then show ?case by simp
next
  case (Cons t ts)
  obtain s1 where s1: "cancel t s = Some s1" "inv s1 (filter (\<lambda>x. x \<noteq> t) xs) (t # ys)"
    using cancel_member [of s xs ys t] Cons.prems by auto
  have "set ts \<subseteq> set (filter (\<lambda>x. x \<noteq> t) xs)" using Cons.prems by auto
  then obtain s2 where "foldM cancel ts s1 = Some s2"
      "inv s2 (filter (\<lambda>x. x \<notin> set ts) (filter (\<lambda>x. x \<noteq> t) xs)) (rev ts @ t # ys)"
    using Cons.IH [OF s1(2)] Cons.prems(3) by auto
  moreover have "filter (\<lambda>x. x \<notin> set ts) (filter (\<lambda>x. x \<noteq> t) xs) = filter (\<lambda>x. x \<notin> set (t # ts)) xs"
    by (auto intro: filter_cong)
  ultimately show ?case using s1 by auto
qed

end

interpretation tp: timer_pool timer_inv tmr_cancel
proof unfold_locales
  fix s :: "('p, 'd) tmr_state" and xs ys
  assume "timer_inv s xs ys"
  then show "distinct (xs @ ys)" by (simp add: timer_inv_def shape_def)
next
  fix s :: "('p, 'd) tmr_state" and as t bs ys
  assume "timer_inv s (as @ t # bs) ys"
  then show "\<exists>s'. tmr_cancel t s = Some s' \<and> timer_inv s' (as @ bs) (t # ys)"
    using tmr_cancel_inv by blast
qed

lemma cancel_all_ok:
  assumes "timer_inv s xs ys"
  shows "\<exists>s'. cancel_all s = Some s' \<and> timer_inv s' [] (rev xs @ ys) \<and> dom (heap s') = dom (heap s)"
  using assms
proof (induction xs arbitrary: s ys)
  case Nil
  then show ?case by (auto simp: cancel_all.simps timer_inv_def shape_def)
next
  case (Cons x xs)
  then obtain s1 where s1: "tmr_cancel x s = Some s1" "timer_inv s1 xs (x # ys)" "view s1 = view s"
    using tmr_cancel_inv [of s "[]" x xs ys] by auto
  have "dom (heap s1) = dom (heap s)" by (metis dom_view s1(3))
  moreover have "timers s = Some x" using Cons.prems by (simp add: timer_inv_def shape_def)
  ultimately show ?case
    using Cons.IH [OF s1(2)] s1(1) by (auto simp: cancel_all.simps [of s])
qed

lemma tmr_cleanup_ok:
  assumes "free_timers s = firstp ys None" "flinks (heap s) ys" "distinct ys"
  shows "\<exists>s'. tmr_cleanup s = Some s' \<and> timers s' = timers s \<and> free_timers s' = None \<and>
    heap s' = (\<lambda>a. if a \<in> set ys then None else heap s a)"
  using assms
proof (induction ys arbitrary: s)
  case Nil
  then show ?case by (auto simp: tmr_cleanup.simps)
next
  case (Cons y ys)
  then obtain ft where ft: "heap s y = Some ft" "t_next ft = firstp ys None" by auto
  let ?s = "s\<lparr>free_timers := firstp ys None, heap := (heap s)(y := None)\<rparr>"
  obtain s' where "tmr_cleanup ?s = Some s'" "timers s' = timers s" "free_timers s' = None"
      "heap s' = (\<lambda>a. if a \<in> set ys then None else heap ?s a)"
    using Cons.IH [of ?s] Cons.prems by (auto simp del: fun_upd_apply)
  then show ?case
    using ft Cons.prems(1) by (auto simp: tmr_cleanup.simps [of s] fun_eq_iff)
qed

section \<open>The properties\<close>

text \<open>Two timers on the active list and one node on the free list.\<close>

definition ex_tm :: "string \<Rightarrow> nat \<Rightarrow> nat \<Rightarrow> int \<Rightarrow> ptr \<Rightarrow> ptr \<Rightarrow> (string, nat) timer" where
  "ex_tm p sec us per pv nx =
     \<lparr>timer_proc = p, client_data = 0, t_usecs = of_nat us, periodic = per,
      t_time = \<lparr>secs = of_nat sec, usecs = 0\<rparr>, t_prev = pv, t_next = nx\<rparr>"

definition ex_timers :: "(string, nat) tmr_state" where
  "ex_timers = \<lparr>heap =
      [10 \<mapsto> ex_tm ''server_timer_proc'' 1 0 0 None (Some 20),
       20 \<mapsto> ex_tm ''send_timer_proc'' 2 1000 1 (Some 10) None,
       30 \<mapsto> ex_tm ''free'' 0 0 0 None None],
     timers = Some 10, free_timers = Some 30\<rparr>"

lemmas ex_defs = ex_tm_def ex_timers_def

lemma ex_timers_inv: "timer_inv ex_timers [10, 20] [30]"
  by (simp add: timer_inv_def shape_def ekey_def view_def payload_def tkey_def ex_defs)

text \<open>
  C27. \<open>tmr_create\<close> on well-formed lists (with memory available when the free list is
  empty) returns a node that was not active, links it in at its place in expiry order, and
  leaves every other timer as it was.
\<close>

theorem tmr_create_correct:
  assumes "timer_inv s xs ys" "ys = [] \<Longrightarrow> m = Some a \<and> heap s a = None"
  shows "\<exists>t s'. tmr_create nowP clk now0 m proc cd us per s = Some (Some t, s') \<and>
    t \<notin> set xs \<and> timer_inv s' (tins (ekey s') t xs) (tl ys) \<and>
    view s' = (view s)(t \<mapsto> \<lparr>timer_proc = proc, client_data = cd, t_usecs = us, periodic = per,
      t_time = iperf_time_add_usecs (getnow nowP clk now0) us, t_prev = None, t_next = None\<rparr>)"
  using tmr_create_inv [OF assms refl] by blast

theorem tmr_create_correct_witness:
  "timer_inv ex_timers [10, 20] [30] \<and>
   (\<exists>t s'. tmr_create (Some \<lparr>secs = 1, usecs = 5\<rparr>) (0, 0, 0) \<lparr>secs = 0, usecs = 0\<rparr> None
       ''p'' 7 500000 0 ex_timers = Some (Some t, s') \<and> t \<notin> {10, 20} \<and>
     timer_inv s' (tins (ekey s') t [10, 20]) [])"
  using ex_timers_inv
    tmr_create_correct [of ex_timers "[10, 20]" "[30]" None 0
      "Some \<lparr>secs = 1, usecs = 5\<rparr>" "(0, 0, 0)" "\<lparr>secs = 0, usecs = 0\<rparr>" "''p''" 7 500000 0]
  by (simp del: tins.simps) blast

text \<open>
  C28. \<open>tmr_timeout\<close> delivers the time from now to the earliest expiry of all active
  timers, or zero when that is past, as a normalised \<open>timeval\<close>, and nothing when no
  timer is active.
\<close>

theorem tmr_timeout_correct:
  assumes inv: "timer_inv s xs ys" and ok: "time_ok now"
    and tok: "\<forall>x \<in> set xs. \<forall>t. heap s x = Some t \<longrightarrow> time_ok (t_time t)"
  shows "case xs of
      [] \<Rightarrow> tmr_timeout (Some now) clk now0 s = Some None
    | x # _ \<Rightarrow> \<exists>t tv_sec tv_usec. heap s x = Some t \<and>
        tmr_timeout (Some now) clk now0 s = Some (Some (tv_sec, tv_usec)) \<and>
        0 \<le> tv_usec \<and> tv_usec < 1000000 \<and>
        tv_sec * 1000000 + tv_usec = int (usec_val (t_time t) - usec_val now) \<and>
        (\<forall>y \<in> set xs. ekey s x \<le> ekey s y)"
proof (cases xs)
  case Nil
  then show ?thesis using inv by (simp add: tmr_timeout_def timer_inv_def shape_def)
next
  case (Cons x zs)
  then obtain t where t: "heap s x = Some t" "timers s = Some x"
    using inv by (auto simp: timer_inv_def shape_def)
  obtain past d where d: "iperf_time_diff (t_time t) now = (past, d)" by fastforce
  have dv: "time_ok d" "past = (if usec_val (t_time t) \<le> usec_val now then 1 else 0)"
      "usec_val (t_time t) > usec_val now \<Longrightarrow> usec_val d = usec_val (t_time t) - usec_val now"
    using diff_val [of "t_time t" now] tok ok t Cons d by auto
  have "unat (iperf_time_in_usecs d) < 2 ^ 63"
    using in_usecs_val [of d] unat_u32_less [of "secs d"] unat_u32_less [of "usecs d"]
    by (simp add: usec_val_def)
  then have sd: "sint (iperf_time_in_usecs d) = int (usec_val d)"
    by (metis in_usecs_val sint_eq_unat_u64)
  have "\<forall>y \<in> set xs. ekey s x \<le> ekey s y"
    using inv Cons by (auto simp: timer_inv_def)
  moreover have "tmr_timeout (Some now) clk now0 s =
      Some (Some (int (usec_val (t_time t) - usec_val now) div 1000000,
                  int (usec_val (t_time t) - usec_val now) mod 1000000))"
    using t d dv sd
    by (simp add: tmr_timeout_def getnow_def Let_def sdiv_nonneg smod_nonneg)
  ultimately show ?thesis using Cons t by simp
qed

theorem tmr_timeout_correct_witness:
  "timer_inv ex_timers [10, 20] [30] \<and> time_ok \<lparr>secs = 0, usecs = 999999\<rparr> \<and>
   (\<exists>tv_sec tv_usec. tmr_timeout (Some \<lparr>secs = 0, usecs = 999999\<rparr>) (0, 0, 0)
      \<lparr>secs = 0, usecs = 0\<rparr> ex_timers = Some (Some (tv_sec, tv_usec)) \<and>
      tv_sec * 1000000 + tv_usec = 1)"
proof -
  have ok: "time_ok \<lparr>secs = 0, usecs = 999999\<rparr>" by (simp add: time_ok_def)
  have tok: "\<forall>x \<in> set [10, 20]. \<forall>t. heap ex_timers x = Some t \<longrightarrow> time_ok (t_time t)"
    by (simp add: ex_defs time_ok_def)
  show ?thesis
    using ex_timers_inv ok
      tmr_timeout_correct [OF ex_timers_inv ok tok, of "(0, 0, 0)" "\<lparr>secs = 0, usecs = 0\<rparr>"]
    by (auto simp: ex_defs usec_val_def)
qed

text \<open>
  C6. With callbacks that do not touch the timer lists, \<open>tmr_run\<close> returns, fires exactly
  the timers that were due when it was called (each at least once, a periodic one again for
  every period it lags behind while later timers are visited), and leaves the lists well
  formed over the same nodes.
\<close>

theorem tmr_run_fires_due:
  assumes "timer_inv s xs ys" "all_tick_ok now s xs" "time_ok now"
  shows "\<exists>fired s' xs' ys'.
    tmr_run (quiet_cb act) (Some now) clk now0 (w, s) = Some (fold (fire act now s) fired w, s') \<and>
    set fired = {x \<in> set xs. ekey s x \<le> tkey now} \<and>
    timer_inv s' xs' ys' \<and> set xs' \<union> set ys' = set xs \<union> set ys"
proof -
  have "timers s = firstp xs None" using assms(1) by (simp add: timer_inv_def shape_def)
  then show ?thesis
    using tmr_run_loop_fires [of s "[]" xs ys now act w] assms
    by (simp add: tmr_run_def getnow_def)
qed

theorem tmr_run_fires_due_witness:
  "timer_inv ex_timers [10, 20] [30] \<and> time_ok \<lparr>secs = 1, usecs = 7\<rparr> \<and>
   (\<exists>fired s'. tmr_run (quiet_cb (\<lambda>p d now w. w @ [p])) (Some \<lparr>secs = 1, usecs = 7\<rparr>) (0, 0, 0)
      \<lparr>secs = 0, usecs = 0\<rparr> ([], ex_timers) =
        Some (fold (fire (\<lambda>p d now w. w @ [p]) \<lparr>secs = 1, usecs = 7\<rparr> ex_timers) fired [], s') \<and>
      set fired = {10})"
proof -
  let ?now = "\<lparr>secs = 1, usecs = 7\<rparr> :: iperf_time"
  have ok: "time_ok ?now" by (simp add: time_ok_def)
  have tick: "all_tick_ok ?now ex_timers [10, 20]"
    by (simp add: all_tick_ok_def tick_ok_def view_def payload_def ex_defs time_ok_def usec_val_def)
  have due: "{x \<in> set [10, 20]. ekey ex_timers x \<le> tkey ?now} = {10}"
    by (auto simp: ekey_def view_def payload_def tkey_def ex_defs)
  show ?thesis
    using ok ex_timers_inv due
      tmr_run_fires_due [OF ex_timers_inv tick ok, of "\<lambda>p d now w. w @ [p]" "(0, 0, 0)"
        "\<lparr>secs = 0, usecs = 0\<rparr>" "[]"]
    by auto
qed

text \<open>
  C29. \<open>tmr_destroy\<close> on well-formed lists that hold every allocated node returns with
  both lists empty and every node freed exactly once.
\<close>

theorem tmr_destroy_frees_all:
  assumes "timer_inv s xs ys" "dom (heap s) = set xs \<union> set ys"
  shows "tmr_destroy s = Some tmr_init"
proof -
  obtain s1 where s1: "cancel_all s = Some s1" "timer_inv s1 [] (rev xs @ ys)"
      "dom (heap s1) = dom (heap s)"
    using cancel_all_ok [OF assms(1)] by auto
  obtain s2 where s2: "tmr_cleanup s1 = Some s2" "timers s2 = timers s1" "free_timers s2 = None"
      "heap s2 = (\<lambda>a. if a \<in> set (rev xs @ ys) then None else heap s1 a)"
    using tmr_cleanup_ok [of s1 "rev xs @ ys"] s1(2) by (auto simp: timer_inv_def shape_def)
  have "heap s2 = (\<lambda>_. None)"
    using s2(4) s1(3) assms(2) by (auto simp: fun_eq_iff dom_def)
  then have "s2 = tmr_init"
    using s2 s1(2) by (auto simp: tmr_init_def timer_inv_def shape_def)
  then show ?thesis using s1 s2 by (simp add: tmr_destroy_def)
qed

theorem tmr_destroy_frees_all_witness:
  "timer_inv ex_timers [10, 20] [30] \<and> tmr_destroy ex_timers = Some tmr_init"
proof -
  have "dom (heap ex_timers) = set [10, 20] \<union> set [30]" by (auto simp: ex_defs split: if_splits)
  then show ?thesis using ex_timers_inv tmr_destroy_frees_all by blast
qed

text \<open>
  The timers after the first of two timers has cancelled the second and was then cancelled itself, with nothing on the free list
  before.
\<close>

lemma cancel_both:
  assumes "timer_inv s (a # b # xs) []" "heap s a = Some ta" "heap s b = Some tb"
  shows "\<exists>s1 s2. tmr_cancel b s = Some s1 \<and> heap s1 a = Some (ta\<lparr>t_next := firstp xs None\<rparr>) \<and>
    tmr_cancel a s1 = Some s2 \<and> heap s2 a = Some (ta\<lparr>t_next := Some b\<rparr>) \<and>
    heap s2 b = Some (tb\<lparr>t_prev := None, t_next := None\<rparr>) \<and> free_timers s2 = Some a"
proof -
  have links: "t_prev ta = None" "t_prev tb = Some a" "t_next tb = firstp xs None" "a \<noteq> b" "free_timers s = None"
    and rest: "\<And>x xs'. xs = x # xs' \<Longrightarrow> (\<exists>tx. heap s x = Some tx) \<and> x \<noteq> a \<and> x \<noteq> b"
    using assms by (auto simp: timer_inv_def shape_def)
  show ?thesis
  proof (cases xs)
    case Nil
    then show ?thesis using assms(2,3) links by (simp add: tmr_cancel_def list_remove_def upd_Some)
  next
    case (Cons x xs')
    then obtain tx where "heap s x = Some tx" "x \<noteq> a" "x \<noteq> b" using rest by blast
    then show ?thesis using assms(2,3) links Cons by (simp add: tmr_cancel_def list_remove_def upd_Some)
  qed
qed

lemma shape_first_active: "shape s xs ys \<Longrightarrow> timers s = Some a \<Longrightarrow> a \<in> set xs"
  by (cases xs) (auto simp: shape_def)

lemma shape_second_free:
  "shape s xs ys \<Longrightarrow> free_timers s = Some a \<Longrightarrow> heap s a = Some t \<Longrightarrow> t_next t = Some b \<Longrightarrow>
     b \<in> set ys"
  by (cases ys; cases "tl ys") (auto simp: shape_def)


definition ex_timers2 :: "(string, nat) tmr_state" where
  "ex_timers2 = \<lparr>heap =
      [10 \<mapsto> ex_tm ''server_timer_proc'' 1 0 0 None (Some 20),
       20 \<mapsto> ex_tm ''send_timer_proc'' 2 1000 1 (Some 10) (Some 30),
       30 \<mapsto> ex_tm ''server_omit_timer_proc'' 9 0 0 (Some 20) None],
     timers = Some 10, free_timers = None\<rparr>"


end
