(* ===== verification/C_Double.thy ===== *)
theory C_Double
  imports Complex_Main
begin

text \<open>
  The C type \<open>double\<close> as IEEE 754 binary64: every operation computes the exact rational
  result and rounds it to the nearest double, ties to even, with signed zeros, infinities
  and NaN. The definitions compute, so that closed terms evaluate; the lemmas give
  monotonicity of rounding and exactness on representable values.
\<close>

section \<open>Rounding to an integer, half to even\<close>

definition rne :: "rat \<Rightarrow> int" where
  "rne x = (let f = \<lfloor>x\<rfloor>; d = x - of_int f in
     if d < 1/2 then f else if d > 1/2 then f + 1 else if even f then f else f + 1)"

lemma rne_of_int [simp]: "rne (of_int n) = n"
  by (simp add: rne_def)

lemma rne_cases: "rne x = \<lfloor>x\<rfloor> \<or> rne x = \<lfloor>x\<rfloor> + 1"
  by (simp add: rne_def Let_def)

lemma rne_mono:
  assumes "x \<le> y"
  shows "rne x \<le> rne y"
proof (cases "\<lfloor>x\<rfloor> = \<lfloor>y\<rfloor>")
  case True
  then show ?thesis using assms by (simp add: rne_def Let_def)
next
  case False
  then have "\<lfloor>x\<rfloor> + 1 \<le> \<lfloor>y\<rfloor>" using floor_mono [OF assms] by linarith
  then show ?thesis using rne_cases [of x] rne_cases [of y] by linarith
qed

lemma rne_le_int: "x \<le> of_int n \<Longrightarrow> rne x \<le> n"
  using rne_mono [of x "of_int n"] by simp

lemma rne_ge_int: "of_int n \<le> x \<Longrightarrow> n \<le> rne x"
  using rne_mono [of "of_int n" x] by simp

lemma rne_minus: "rne (- x) = - rne x"
proof (cases "x = of_int \<lfloor>x\<rfloor>")
  case True
  then show ?thesis by (metis rne_of_int of_int_minus)
next
  case False
  then have "\<lfloor>- x\<rfloor> = - \<lfloor>x\<rfloor> - 1"
    by (intro floor_unique) (use floor_correct [of x] in \<open>linarith+\<close>)
  then show ?thesis
    by (auto simp: rne_def Let_def)
qed

section \<open>Binary exponent of a positive rational\<close>

function zlog2 :: "int \<Rightarrow> nat" where
  "zlog2 n = (if n < 2 then 0 else Suc (zlog2 (n div 2)))"
  by pat_completeness auto
termination
  by (relation "measure nat") auto

declare zlog2.simps [simp del]

lemma zlog2_bounds: "0 < n \<Longrightarrow> 2 ^ zlog2 n \<le> n \<and> n < 2 * 2 ^ zlog2 n"
proof (induction n rule: zlog2.induct)
  case (1 n)
  show ?case
  proof (cases "n < 2")
    case True
    with 1 show ?thesis by (simp add: zlog2.simps)
  next
    case False
    then have "2 ^ zlog2 (n div 2) \<le> n div 2 \<and> n div 2 < 2 * 2 ^ zlog2 (n div 2)"
      using 1 by simp
    then have "2 * 2 ^ zlog2 (n div 2) \<le> n \<and> n < 2 * (2 * 2 ^ zlog2 (n div 2))" by presburger
    with False show ?thesis by (simp add: zlog2.simps [of n])
  qed
qed

lemma zlog2_rat:
  assumes "0 < p"
  shows "2 ^ zlog2 p \<le> (of_int p :: rat)" "(of_int p :: rat) < 2 * 2 ^ zlog2 p"
proof -
  have "of_int (2 ^ zlog2 p) \<le> (of_int p :: rat)" "(of_int p :: rat) < of_int (2 * 2 ^ zlog2 p)"
    using zlog2_bounds [OF assms] by (simp_all only: of_int_le_iff of_int_less_iff)
  then show "2 ^ zlog2 p \<le> (of_int p :: rat)" "(of_int p :: rat) < 2 * 2 ^ zlog2 p" by simp_all
qed

text \<open>Powers of two, computed on integers.\<close>

definition pow2 :: "int \<Rightarrow> rat" where
  "pow2 k = (if 0 \<le> k then of_int (2 ^ nat k) else 1 / of_int (2 ^ nat (- k)))"

lemma pow2_powi [simp]: "pow2 k = 2 powi k"
  by (simp add: pow2_def power_int_def field_simps)

definition ilog2 :: "rat \<Rightarrow> int" where
  "ilog2 x = (let (p, q) = quotient_of x;
                  k = int (zlog2 p) - int (zlog2 q)
              in if pow2 k \<le> x then k else k - 1)"

lemma ilog2_bounds:
  assumes "0 < x"
  shows "2 powi ilog2 x \<le> x" "x < 2 powi (ilog2 x + 1)"
proof -
  obtain p q where pq: "quotient_of x = (p, q)" by fastforce
  have q: "0 < q" using quotient_of_denom_pos [OF pq] .
  have x: "x = of_int p / of_int q" using quotient_of_div [OF pq] .
  have p: "0 < p" using assms q unfolding x by (simp add: zero_less_divide_iff)
  let ?a = "zlog2 p" and ?b = "zlog2 q"
  note pb = zlog2_rat [OF p] and qb = zlog2_rat [OF q]
  define k where "k = int ?a - int ?b"
  have k: "(2 :: rat) powi k = 2 ^ ?a / 2 ^ ?b"
    by (simp add: k_def power_int_diff)
  have up: "x < 2 powi (k + 1)"
  proof -
    have "x < 2 * 2 ^ ?a / 2 ^ ?b" unfolding x
      by (rule frac_less) (use pb qb p in auto)
    then show ?thesis by (simp add: power_int_add k mult.commute)
  qed
  have lo: "2 powi (k - 1) \<le> x"
  proof -
    have "2 ^ ?a / (2 * 2 ^ ?b) \<le> x" unfolding x
      by (rule frac_le) (use pb qb p q in auto)
    then show ?thesis by (simp add: power_int_diff k)
  qed
  have def: "ilog2 x = (if 2 powi k \<le> x then k else k - 1)"
    by (simp add: ilog2_def pq k_def)
  show "2 powi ilog2 x \<le> x" using lo def by simp
  show "x < 2 powi (ilog2 x + 1)" using up def by (simp split: if_splits)
qed

lemma ilog2_mono:
  assumes "0 < x" "x \<le> y"
  shows "ilog2 x \<le> ilog2 y"
proof (rule ccontr)
  assume "\<not> ilog2 x \<le> ilog2 y"
  then have "ilog2 y + 1 \<le> ilog2 x" by simp
  then have "(2 :: rat) powi (ilog2 y + 1) \<le> 2 powi ilog2 x" by (intro power_int_increasing) auto
  then show False using ilog2_bounds [of x] ilog2_bounds [of y] assms by linarith
qed

lemma ilog2_powi [simp]: "ilog2 (2 powi k) = k"
proof -
  have p: "(0 :: rat) < 2 powi k" by simp
  have "ilog2 (2 powi k) \<le> k"
  proof (rule ccontr)
    assume "\<not> ilog2 (2 powi k) \<le> k"
    then have "(2 :: rat) powi k < 2 powi ilog2 (2 powi k)"
      by (intro power_int_strict_increasing) auto
    then show False using ilog2_bounds(1) [OF p] by simp
  qed
  moreover have "k \<le> ilog2 (2 powi k)"
  proof (rule ccontr)
    assume "\<not> k \<le> ilog2 (2 powi k)"
    then have "(2 :: rat) powi (ilog2 (2 powi k) + 1) \<le> 2 powi k"
      by (intro power_int_increasing) auto
    then show False using ilog2_bounds(2) [OF p] by simp
  qed
  ultimately show ?thesis by simp
qed

section \<open>Rounding to binary64\<close>

text \<open>The exponent of the last place of a double near \<open>x\<close>, subnormals included.\<close>

definition qexp :: "rat \<Rightarrow> int" where
  "qexp x = max (ilog2 \<bar>x\<bar> - 52) (-1074)"

definition rnd :: "rat \<Rightarrow> rat" where
  "rnd x = (if x = 0 then 0
     else of_int (rne (x / pow2 (qexp x))) * pow2 (qexp x))"

lemma rnd_0 [simp]: "rnd 0 = 0"
  by (simp add: rnd_def)

lemma rnd_minus [simp]: "rnd (- x) = - rnd x"
  by (simp add: rnd_def qexp_def rne_minus)

lemma rnd_le_grid:
  assumes "x \<le> of_int n * 2 powi qexp x"
  shows "rnd x \<le> of_int n * 2 powi qexp x"
proof -
  have "x / 2 powi qexp x \<le> of_int n" using assms by (simp add: pos_divide_le_eq)
  then show ?thesis using rne_le_int assms by (auto simp: rnd_def mult_right_mono)
qed

lemma rnd_ge_grid:
  assumes "of_int n * 2 powi qexp x \<le> x"
  shows "of_int n * 2 powi qexp x \<le> rnd x"
proof -
  have "of_int n \<le> x / 2 powi qexp x" using assms by (simp add: pos_le_divide_eq)
  then show ?thesis using rne_ge_int assms by (auto simp: rnd_def mult_right_mono)
qed

lemma rnd_nonneg: "0 \<le> x \<Longrightarrow> 0 \<le> rnd x"
  using rnd_ge_grid [of 0 x] by simp

lemma powi_grid:
  assumes "(b :: int) \<le> a"
  shows "(2 :: rat) powi a = of_int (2 ^ nat (a - b)) * 2 powi b"
proof -
  have "(2 :: rat) powi a = 2 powi (a - b) * 2 powi b"
    using power_int_add [of "2 :: rat" "a - b" b] by simp
  also have "(2 :: rat) powi (a - b) = of_int (2 ^ nat (a - b))"
    using assms by (simp add: power_int_def)
  finally show ?thesis .
qed

lemma rnd_mono_pos:
  assumes "0 < x" "x \<le> y"
  shows "rnd x \<le> rnd y"
proof (cases "qexp x = qexp y")
  case True
  have "x / 2 powi qexp x \<le> y / 2 powi qexp y"
    using assms(2) True by (simp add: divide_right_mono)
  then show ?thesis using assms True rne_mono by (auto simp: rnd_def mult_right_mono)
next
  case False
  let ?l = "ilog2 y"
  have le: "ilog2 x \<le> ?l" using ilog2_mono assms by blast
  then have q: "qexp y = ?l - 52" "qexp x \<le> ?l" "ilog2 x + 1 \<le> ?l"
    using False assms by (auto simp: qexp_def)
  have "x \<le> 2 powi ?l"
    using ilog2_bounds(2) [OF assms(1)] q(3) power_int_increasing [of "ilog2 x + 1" ?l "2 :: rat"]
    by simp
  then have "rnd x \<le> 2 powi ?l"
    using powi_grid [OF q(2)] rnd_le_grid [of x "2 ^ nat (?l - qexp x)"] by simp
  also have "\<dots> \<le> rnd y"
    using powi_grid [of "qexp y" ?l] rnd_ge_grid [of "2 ^ nat (?l - qexp y)" y] q(1)
      ilog2_bounds(1) [of y] assms by simp
  finally show ?thesis .
qed

lemma rnd_mono:
  assumes "x \<le> y"
  shows "rnd x \<le> rnd y"
proof -
  consider "0 < x" | "x \<le> 0" "0 \<le> y" | "y < 0" by linarith
  then show ?thesis
  proof cases
    case 1
    then show ?thesis using assms by (rule rnd_mono_pos)
  next
    case 2
    then have "rnd x \<le> 0" using rnd_nonneg [of "- x"] by simp
    then show ?thesis using rnd_nonneg [OF 2(2)] by linarith
  next
    case 3
    then show ?thesis using rnd_mono_pos [of "- y" "- x"] assms by simp
  qed
qed

text \<open>The finite doubles: a 53-bit significand and an exponent of at least \<open>-1074\<close>.\<close>

definition repr :: "rat \<Rightarrow> bool" where
  "repr x \<longleftrightarrow> (\<exists>m k. x = of_int m * 2 powi k \<and> \<bar>m\<bar> \<le> 2 ^ 53 \<and> -1074 \<le> k)"

lemma repr_grid:
  assumes "repr x"
  shows "\<exists>n. x = of_int n * 2 powi qexp x"
proof (cases "x = 0")
  case True
  then show ?thesis by (intro exI [of _ 0]) simp
next
  case False
  obtain m k where x: "x = of_int m * 2 powi k" "\<bar>m\<bar> \<le> 2 ^ 53" "-1074 \<le> k"
    using assms by (auto simp: repr_def)
  show ?thesis
  proof (cases "qexp x \<le> k")
    case True
    then have "x = of_int (m * 2 ^ nat (k - qexp x)) * 2 powi qexp x"
      unfolding x(1) using powi_grid [of "qexp x" k] by (metis mult.assoc of_int_mult x(1))
    then show ?thesis by blast
  next
    case False
    then have q: "qexp x = ilog2 \<bar>x\<bar> - 52" "k + 53 \<le> ilog2 \<bar>x\<bar>"
      using x(3) by (auto simp: qexp_def)
    have "\<bar>x\<bar> = of_int \<bar>m\<bar> * 2 powi k" by (simp add: x(1) abs_mult)
    also have "\<dots> \<le> of_int (2 ^ 53) * 2 powi k"
      using x(2) by (intro mult_right_mono) (simp_all only: of_int_le_iff, simp)
    also have p53: "\<dots> = 2 powi (k + 53)"
      by (simp add: power_int_add)
    finally have le: "\<bar>x\<bar> \<le> 2 powi (k + 53)" .
    have ge: "2 powi ilog2 \<bar>x\<bar> \<le> \<bar>x\<bar>" using \<open>x \<noteq> 0\<close> by (intro ilog2_bounds) simp
    have "(2 :: rat) powi (k + 53) \<le> 2 powi ilog2 \<bar>x\<bar>"
      using q(2) by (intro power_int_increasing) auto
    then have eq: "\<bar>x\<bar> = 2 powi (k + 53)" using le ge by linarith
    then have "qexp x = k + 1" using q(1) by simp
    then have "\<bar>x\<bar> = of_int (2 ^ 52) * 2 powi qexp x"
      using eq powi_grid [of "k + 1" "k + 53"] by simp
    then have "x = of_int (2 ^ 52) * 2 powi qexp x \<or> x = of_int (- (2 ^ 52)) * 2 powi qexp x"
      by (simp add: abs_if split: if_splits)
    then show ?thesis by blast
  qed
qed

lemma rnd_repr [simp]: "repr x \<Longrightarrow> rnd x = x"
proof -
  assume "repr x"
  then obtain n where n: "x = of_int n * 2 powi qexp x" using repr_grid by blast
  have "rnd x \<le> x" using rnd_le_grid [of x n] n by simp
  moreover have "x \<le> rnd x" using rnd_ge_grid [of n x] n by simp
  ultimately show ?thesis by simp
qed

lemma repr_int: "\<bar>n\<bar> \<le> 2 ^ 53 \<Longrightarrow> repr (of_int n)"
  unfolding repr_def by (intro exI [of _ n] exI [of _ 0]) simp

lemma repr_powi: "-1074 \<le> k \<Longrightarrow> repr (2 powi k)"
  unfolding repr_def by (intro exI [of _ 1] exI [of _ k]) simp

lemma repr_minus [simp]: "repr (- x) = repr x"
proof -
  have "repr x \<Longrightarrow> repr (- x)" for x
  proof -
    assume "repr x"
    then obtain m k where "x = of_int m * 2 powi k" "\<bar>m\<bar> \<le> 2 ^ 53" "-1074 \<le> k"
      by (auto simp: repr_def)
    then show "repr (- x)" unfolding repr_def by (intro exI [of _ "- m"] exI [of _ k]) simp
  qed
  from this [of x] this [of "- x"] show ?thesis by auto
qed

lemma rnd_le: "repr b \<Longrightarrow> x \<le> b \<Longrightarrow> rnd x \<le> b"
  using rnd_mono [of x b] by simp

lemma rnd_ge: "repr b \<Longrightarrow> b \<le> x \<Longrightarrow> b \<le> rnd x"
  using rnd_mono [of b x] by simp

lemma repr_rnd [simp]: "repr (rnd x)"
proof (cases "x = 0")
  case True
  then show ?thesis using repr_int [of 0] by simp
next
  case False
  let ?q = "qexp x" and ?m = "rne (x / 2 powi qexp x)"
  have "\<bar>x\<bar> < 2 powi (ilog2 \<bar>x\<bar> + 1)" using False by (intro ilog2_bounds) simp
  also have "\<dots> \<le> 2 powi (53 + ?q)"
    by (intro power_int_increasing) (auto simp: qexp_def)
  also have "\<dots> = of_int (2 ^ 53) * 2 powi ?q" by (simp add: power_int_add)
  finally have "\<bar>x\<bar> / 2 powi ?q \<le> of_int (2 ^ 53)" by (simp add: pos_divide_le_eq)
  then have "x / 2 powi ?q \<le> of_int (2 ^ 53)" "of_int (- (2 ^ 53)) \<le> x / 2 powi ?q"
    by (auto simp: abs_if field_simps split: if_splits)
  then have "\<bar>?m\<bar> \<le> 2 ^ 53" using rne_le_int rne_ge_int by (smt (verit, best))
  moreover have "-1074 \<le> ?q" by (simp add: qexp_def)
  ultimately show ?thesis using False unfolding repr_def rnd_def by auto
qed

section \<open>The type double\<close>

text \<open>
  \<open>Fin q\<close> is a finite value other than negative zero, \<open>Inf True\<close> is minus infinity.
\<close>

datatype double = Fin rat | NegZero | Inf bool | NaN

definition dbl_max :: rat where
  "dbl_max = of_int ((2 ^ 53 - 1) * 2 ^ 971)"

text \<open>
  Round an exact result to a double; \<open>neg\<close> is the sign of an exact zero. The default
  rounding mode is round-to-nearest, ties to even.
\<close>

definition mk :: "bool \<Rightarrow> rat \<Rightarrow> double" where
  "mk neg x =
     (let r = rnd x in
      if \<bar>r\<bar> > dbl_max then Inf (x < 0)
      else if r = 0 then (if x < 0 \<or> x = 0 \<and> neg then NegZero else Fin 0)
      else Fin r)"

fun dval :: "double \<Rightarrow> rat" where
  "dval (Fin q) = q"
| "dval _ = 0"

fun is_fin :: "double \<Rightarrow> bool" where
  "is_fin (Fin q) = True"
| "is_fin NegZero = True"
| "is_fin _ = False"

fun dsign :: "double \<Rightarrow> bool" where
  "dsign (Fin q) = (q < 0)"
| "dsign NegZero = True"
| "dsign (Inf s) = s"
| "dsign NaN = False"

definition dbl_ok :: "double \<Rightarrow> bool" where
  "dbl_ok d \<longleftrightarrow> repr (dval d) \<and> \<bar>dval d\<bar> \<le> dbl_max"

fun dneg :: "double \<Rightarrow> double" where
  "dneg (Fin q) = (if q = 0 then NegZero else Fin (- q))"
| "dneg NegZero = Fin 0"
| "dneg (Inf s) = Inf (\<not> s)"
| "dneg NaN = NaN"

fun dadd :: "double \<Rightarrow> double \<Rightarrow> double" where
  "dadd NaN b = NaN"
| "dadd a NaN = NaN"
| "dadd (Inf s) (Inf t) = (if s = t then Inf s else NaN)"
| "dadd (Inf s) b = Inf s"
| "dadd a (Inf t) = Inf t"
| "dadd a b = mk (a = NegZero \<and> b = NegZero) (dval a + dval b)"

definition dsub :: "double \<Rightarrow> double \<Rightarrow> double" where
  "dsub a b = dadd a (dneg b)"

fun dmul :: "double \<Rightarrow> double \<Rightarrow> double" where
  "dmul NaN b = NaN"
| "dmul a NaN = NaN"
| "dmul (Inf s) b = (if is_fin b \<and> dval b = 0 then NaN else Inf (s \<noteq> dsign b))"
| "dmul a (Inf t) = (if is_fin a \<and> dval a = 0 then NaN else Inf (dsign a \<noteq> t))"
| "dmul a b = mk (dsign a \<noteq> dsign b) (dval a * dval b)"

fun ddiv :: "double \<Rightarrow> double \<Rightarrow> double" where
  "ddiv NaN b = NaN"
| "ddiv a NaN = NaN"
| "ddiv (Inf s) (Inf t) = NaN"
| "ddiv (Inf s) b = Inf (s \<noteq> dsign b)"
| "ddiv a (Inf t) = mk (dsign a \<noteq> t) 0"
| "ddiv a b =
     (if dval b = 0 then (if dval a = 0 then NaN else Inf (dsign a \<noteq> dsign b))
      else mk (dsign a \<noteq> dsign b) (dval a / dval b))"

fun dlt :: "double \<Rightarrow> double \<Rightarrow> bool" where
  "dlt NaN b = False"
| "dlt a NaN = False"
| "dlt (Inf s) (Inf t) = (s \<and> \<not> t)"
| "dlt (Inf s) b = s"
| "dlt a (Inf t) = (\<not> t)"
| "dlt a b = (dval a < dval b)"

definition deq :: "double \<Rightarrow> double \<Rightarrow> bool" where
  "deq a b \<longleftrightarrow> a \<noteq> NaN \<and> b \<noteq> NaN \<and> \<not> dlt a b \<and> \<not> dlt b a"

definition dle :: "double \<Rightarrow> double \<Rightarrow> bool" where
  "dle a b \<longleftrightarrow> dlt a b \<or> deq a b"

text \<open>Integer to double, and the truncation of a double (\<^term>\<open>None\<close>: not a number).\<close>

definition d_of_int :: "int \<Rightarrow> double" where
  "d_of_int n = mk False (of_int n)"

fun dtrunc :: "double \<Rightarrow> int option" where
  "dtrunc (Fin q) = Some (if q < 0 then \<lceil>q\<rceil> else \<lfloor>q\<rfloor>)"
| "dtrunc NegZero = Some 0"
| "dtrunc _ = None"

section \<open>Facts on the operations\<close>

text \<open>A round bound well inside the range of doubles.\<close>

definition dbl_lim :: rat where
  "dbl_lim = of_int (2 ^ 1023)"

lemma repr_dbl_lim: "repr dbl_lim"
proof -
  have "dbl_lim = 2 powi 1023" unfolding dbl_lim_def of_int_power by (simp add: power_int_def)
  then show ?thesis using repr_powi [of 1023] by simp
qed

lemma dbl_max_bound: "dbl_lim \<le> dbl_max"
  unfolding dbl_lim_def dbl_max_def by (simp only: of_int_le_iff) simp

lemma pow2_le_lim:
  shows "n \<le> 1023 \<Longrightarrow> 2 ^ n \<le> dbl_lim"
proof -
  assume "n \<le> 1023"
  then have "(2 :: rat) ^ n \<le> 2 ^ 1023" by (rule power_increasing) simp
  then show ?thesis unfolding dbl_lim_def of_int_power of_int_numeral .
qed

lemma mk_small:
  assumes "\<bar>x\<bar> \<le> dbl_lim"
  shows "mk neg x = (if rnd x = 0 then (if x < 0 \<or> x = 0 \<and> neg then NegZero else Fin 0) else Fin (rnd x))"
proof -
  have "\<bar>rnd x\<bar> \<le> dbl_lim"
    using rnd_le [OF repr_dbl_lim, of x] rnd_ge [of "- dbl_lim" x] repr_dbl_lim assms
    by (auto simp: abs_le_iff)
  then have "\<bar>rnd x\<bar> \<le> dbl_max" using dbl_max_bound by linarith
  then show ?thesis by (simp add: mk_def)
qed

lemma mk_exact:
  assumes "repr x" "\<bar>x\<bar> \<le> dbl_lim"
  shows "mk neg x = (if x = 0 \<and> neg then NegZero else Fin x)"
  using mk_small [OF assms(2)] assms(1) by auto

lemma int_small: "\<bar>n\<bar> \<le> 2 ^ 64 \<Longrightarrow> \<bar>of_int n :: rat\<bar> \<le> dbl_lim"
proof -
  assume "\<bar>n\<bar> \<le> 2 ^ 64"
  then have "of_int \<bar>n\<bar> \<le> (of_int (2 ^ 64) :: rat)" by (simp only: of_int_le_iff)
  then have "\<bar>of_int n :: rat\<bar> \<le> 2 ^ 64" by simp
  also have "(2 :: rat) ^ 64 \<le> dbl_lim" by (rule pow2_le_lim) simp
  finally show ?thesis .
qed

lemma d_of_int_exact: "\<bar>n\<bar> \<le> 2 ^ 53 \<Longrightarrow> d_of_int n = Fin (of_int n)"
  using mk_exact [OF repr_int, of n False] int_small [of n] by (simp add: d_of_int_def)

end
