(* ===== verification/C_Stdlib.thy ===== *)
theory C_Stdlib
  imports Prelude C_Double "HOL-Library.Signed_Division"
begin

text \<open>
  The functions of the C library that the program calls on strings and numbers:
  character classes, \<open>strtod\<close> (also as the \<open>%lf\<close> conversion of \<open>sscanf\<close>),
  \<open>strtol\<close> with base detection, and decimal output as \<open>printf\<close> does it for
  \<open>%d\<close> and \<open>%w.pf\<close>. A string is a list of bytes without its terminator.
\<close>

section \<open>Characters\<close>

definition chr_code :: "char \<Rightarrow> int" where
  "chr_code c = of_char c"

definition isdigit :: "char \<Rightarrow> bool" where
  "isdigit c \<longleftrightarrow> 48 \<le> chr_code c \<and> chr_code c \<le> 57"

definition isupper :: "char \<Rightarrow> bool" where
  "isupper c \<longleftrightarrow> 65 \<le> chr_code c \<and> chr_code c \<le> 90"

definition islower :: "char \<Rightarrow> bool" where
  "islower c \<longleftrightarrow> 97 \<le> chr_code c \<and> chr_code c \<le> 122"

definition isspace :: "char \<Rightarrow> bool" where
  "isspace c \<longleftrightarrow> chr_code c = 32 \<or> 9 \<le> chr_code c \<and> chr_code c \<le> 13"

definition toupper :: "char \<Rightarrow> char" where
  "toupper c = (if islower c then char_of (chr_code c - 32) else c)"

definition tolower :: "char \<Rightarrow> char" where
  "tolower c = (if isupper c then char_of (chr_code c + 32) else c)"

text \<open>The value of a digit in any base up to 36.\<close>

definition digit_val :: "char \<Rightarrow> nat option" where
  "digit_val c =
     (if isdigit c then Some (nat (chr_code c - 48))
      else if islower c then Some (nat (chr_code c - 87))
      else if isupper c then Some (nat (chr_code c - 55))
      else None)"

definition is_base :: "nat \<Rightarrow> char \<Rightarrow> bool" where
  "is_base b c \<longleftrightarrow> (case digit_val c of None \<Rightarrow> False | Some d \<Rightarrow> d < b)"

definition base_val :: "nat \<Rightarrow> string \<Rightarrow> nat" where
  "base_val b s = foldl (\<lambda>a c. b * a + (case digit_val c of None \<Rightarrow> 0 | Some d \<Rightarrow> d)) 0 s"

text \<open>The same value, computed on integers.\<close>

definition base_valz :: "nat \<Rightarrow> string \<Rightarrow> int" where
  "base_valz b s = foldl (\<lambda>a c. int b * a + (case digit_val c of None \<Rightarrow> 0 | Some d \<Rightarrow> int d)) 0 s"

lemma base_valz_nat: "base_valz b s = int (base_val b s)"
proof -
  have "foldl (\<lambda>a c. int b * a + (case digit_val c of None \<Rightarrow> 0 | Some d \<Rightarrow> int d)) (int m) s =
      int (foldl (\<lambda>a c. b * a + (case digit_val c of None \<Rightarrow> 0 | Some d \<Rightarrow> d)) m s)" for m
    by (induction s arbitrary: m) (auto split: option.splits simp flip: of_nat_add of_nat_mult)
  from this[of 0] show ?thesis by (simp add: base_valz_def base_val_def)
qed

section \<open>Reading numbers\<close>

definition skip_ws :: "string \<Rightarrow> string" where
  "skip_ws s = dropWhile isspace s"

definition scan_sign :: "string \<Rightarrow> bool \<times> string" where
  "scan_sign s = (case s of
       [] \<Rightarrow> (False, s)
     | c # r \<Rightarrow> if c = CHR ''-'' then (True, r) else if c = CHR ''+'' then (False, r) else (False, s))"

definition pow10 :: "int \<Rightarrow> rat" where
  "pow10 k = (if 0 \<le> k then of_int (10 ^ nat k) else 1 / of_int (10 ^ nat (- k)))"

lemma pow10_powi [simp]: "pow10 k = 10 powi k"
  by (simp add: pow10_def power_int_def field_simps)

text \<open>
  Digits with an optional point: the value of all digits, how many follow the point, and
  the rest; there must be a digit.
\<close>

definition scan_mant :: "nat \<Rightarrow> string \<Rightarrow> (int \<times> nat \<times> string) option" where
  "scan_mant b s =
     (let ip = takeWhile (is_base b) s; r1 = dropWhile (is_base b) s;
          (fp, r2) = (case r1 of
               c # r \<Rightarrow> if c = CHR ''.'' then (takeWhile (is_base b) r, dropWhile (is_base b) r)
                       else ([], r1)
             | [] \<Rightarrow> ([], r1))
      in if ip @ fp = [] then None else Some (base_valz b (ip @ fp), length fp, r2))"

text \<open>An optional exponent: consumed only when a digit follows.\<close>

definition scan_exp :: "char \<Rightarrow> string \<Rightarrow> int \<times> string" where
  "scan_exp m s = (case s of
       [] \<Rightarrow> (0, s)
     | c # r \<Rightarrow>
         if tolower c = m then
           (let (neg, r1) = scan_sign r; ds = takeWhile isdigit r1 in
            if ds = [] then (0, s)
            else (if neg then - int (base_val 10 ds) else int (base_val 10 ds), dropWhile isdigit r1))
         else (0, s))"

definition strip_ci :: "string \<Rightarrow> string \<Rightarrow> string option" where
  "strip_ci p s =
     (if map tolower (take (length p) s) = p then Some (drop (length p) s) else None)"

definition scan_dec :: "bool \<Rightarrow> string \<Rightarrow> (double \<times> string) option" where
  "scan_dec neg s =
     (case scan_mant 10 s of None \<Rightarrow> None
      | Some (v, f, r) \<Rightarrow>
          (let (e, r') = scan_exp (CHR ''e'') r;
               x = of_int v * pow10 (e - int f)
           in Some (mk neg (if neg then - x else x), r')))"

definition scan_hex :: "bool \<Rightarrow> string \<Rightarrow> (double \<times> string) option" where
  "scan_hex neg s =
     (case strip_ci ''0x'' s of None \<Rightarrow> None
      | Some r \<Rightarrow>
         (case scan_mant 16 r of None \<Rightarrow> None
          | Some (v, f, r1) \<Rightarrow>
              (let (e, r2) = scan_exp (CHR ''p'') r1;
                   x = of_int v * pow2 (e - 4 * int f)
               in Some (mk neg (if neg then - x else x), r2))))"

text \<open>\<open>strtod\<close>: the value and the unread rest, \<^term>\<open>None\<close> when no conversion.\<close>

definition strtod :: "string \<Rightarrow> (double \<times> string) option" where
  "strtod s =
     (let (neg, r) = scan_sign (skip_ws s) in
      case strip_ci ''infinity'' r of Some r' \<Rightarrow> Some (Inf neg, r')
      | None \<Rightarrow> (case strip_ci ''inf'' r of Some r' \<Rightarrow> Some (Inf neg, r')
      | None \<Rightarrow> (case strip_ci ''nan'' r of Some r' \<Rightarrow> Some (NaN, r')
      | None \<Rightarrow> (case scan_hex neg r of Some x \<Rightarrow> Some x
      | None \<Rightarrow> scan_dec neg r))))"

text \<open>
  \<open>strtol(s, &ep, 0)\<close> for a \<open>long\<close> of \<open>w\<close> bits: the (saturated) value and the
  rest; without a conversion the value is 0 and the rest is \<open>s\<close>.
\<close>

definition strtol0 :: "nat \<Rightarrow> string \<Rightarrow> int \<times> string" where
  "strtol0 w s =
     (let (neg, r) = scan_sign (skip_ws s);
          (b, r1) = (case strip_ci ''0x'' r of
              Some r' \<Rightarrow> if r' \<noteq> [] \<and> is_base 16 (hd r') then (16, r') else (8, r)
            | None \<Rightarrow> (if r \<noteq> [] \<and> hd r = CHR ''0'' then 8 else 10, r));
          ds = takeWhile (is_base b) r1
      in if ds = [] then (0, s)
         else (let v = (if neg then - int (base_val b ds) else int (base_val b ds))
               in (max (- (2 ^ (w - 1))) (min (2 ^ (w - 1) - 1) v), dropWhile (is_base b) r1)))"

section \<open>Writing numbers\<close>

definition digit_char :: "nat \<Rightarrow> char" where
  "digit_char d = char_of (48 + int d)"

fun nat_str :: "nat \<Rightarrow> string" where
  "nat_str n =
     (if n < 10 then [digit_char n] else nat_str (n div 10) @ [digit_char (n mod 10)])"

declare nat_str.simps [simp del]

text \<open>The same digits, computed on integers.\<close>

function zstr :: "int \<Rightarrow> string" where
  "zstr n =
     (if n < 10 then [char_of (48 + n)] else zstr (n div 10) @ [char_of (48 + n mod 10)])"
  by pat_completeness auto
termination by (relation "measure nat") auto

declare zstr.simps [simp del]

lemma zstr_nat: "zstr (int n) = nat_str n"
proof (induction n rule: nat_str.induct)
  case (1 n)
  then show ?case
    by (subst zstr.simps, subst nat_str.simps)
      (auto simp: digit_char_def zdiv_int zmod_int simp flip: of_nat_less_iff)
qed

definition int_str :: "int \<Rightarrow> string" where
  "int_str n = (if n < 0 then CHR ''-'' # zstr (- n) else zstr n)"

definition pad_left :: "nat \<Rightarrow> char \<Rightarrow> string \<Rightarrow> string" where
  "pad_left w c s = replicate (w - length s) c @ s"

text \<open>\<open>%w.pf\<close>\<close>

definition fmt_f :: "nat \<Rightarrow> nat \<Rightarrow> double \<Rightarrow> string" where
  "fmt_f w p d =
     pad_left w (CHR '' '')
      (case d of
         NaN \<Rightarrow> ''nan''
       | Inf s \<Rightarrow> if s then ''-inf'' else ''inf''
       | _ \<Rightarrow>
           (let ds = pad_left (p + 1) (CHR ''0'') (zstr (rne (\<bar>dval d\<bar> * 10 ^ p)));
                n = length ds - p;
                body = (if p = 0 then ds else take n ds @ CHR ''.'' # drop n ds)
            in if dsign d then CHR ''-'' # body else body))"

text \<open>
  \<open>%1.Pg\<close> of a finite double: \<open>P\<close> significant digits (rounded to nearest, ties to even), in
  fixed notation when the decimal exponent is in \<open>[-4, P)\<close> and with an exponent of at least
  two digits otherwise, without trailing zeros.
\<close>

function zlog10 :: "int \<Rightarrow> nat" where
  "zlog10 n = (if n < 10 then 0 else Suc (zlog10 (n div 10)))"
  by pat_completeness auto
termination by (relation "measure nat") auto

declare zlog10.simps [simp del]

definition ilog10 :: "rat \<Rightarrow> int" where
  "ilog10 x = (let (p, q) = quotient_of x;
                   k = int (zlog10 p) - int (zlog10 q)
               in if pow10 k \<le> x then k else k - 1)"

text \<open>The significant digits as a number below \<open>10 ^ P\<close>, and the exponent of the first.\<close>

definition sig_digits :: "nat \<Rightarrow> rat \<Rightarrow> int \<times> int" where
  "sig_digits P x =
     (let e = ilog10 x; m = rne (x * pow10 (int P - 1 - e))
      in if m = 10 ^ P then (10 ^ (P - 1), e + 1) else (m, e))"

definition strip_zeros :: "string \<Rightarrow> string" where
  "strip_zeros s = rev (dropWhile (\<lambda>c. c = CHR ''0'') (rev s))"

definition with_frac :: "string \<Rightarrow> string \<Rightarrow> string" where
  "with_frac ip fp = (let f = strip_zeros fp in if f = [] then ip else ip @ CHR ''.'' # f)"

definition exp_str :: "int \<Rightarrow> string" where
  "exp_str e = (if e < 0 then CHR ''-'' else CHR ''+'') # pad_left 2 (CHR ''0'') (zstr \<bar>e\<bar>)"

definition fmt_g :: "nat \<Rightarrow> double \<Rightarrow> string" where
  "fmt_g P d =
     (let x = \<bar>dval d\<bar>;
          body = (if x = 0 then ''0''
            else let (m, e) = sig_digits P x; ds = zstr m in
              if -4 \<le> e \<and> e < int P then
                if 0 \<le> e then with_frac (take (nat e + 1) ds) (drop (nat e + 1) ds)
                else with_frac ''0'' (replicate (nat (- e) - 1) (CHR ''0'') @ ds)
              else with_frac (take 1 ds) (drop 1 ds) @ CHR ''e'' # exp_str e)
      in if dsign d then CHR ''-'' # body else body)"

section \<open>Facts\<close>

lemma chr_code_char_of [simp]: "0 \<le> n \<Longrightarrow> n < 256 \<Longrightarrow> chr_code (char_of n) = n"
  by (simp add: chr_code_def)

lemma chr_code_inj: "chr_code c = chr_code d \<Longrightarrow> c = d"
  unfolding chr_code_def by (metis char_of_char)

lemma digit_char: "d < 10 \<Longrightarrow> isdigit (digit_char d) \<and> digit_val (digit_char d) = Some d"
  by (simp add: isdigit_def digit_val_def digit_char_def)

lemma digit_char_0 [simp]: "digit_char 0 = CHR ''0''"
  by code_simp

lemma base_val_snoc: "base_val b (s @ [c]) =
    b * base_val b s + (case digit_val c of None \<Rightarrow> 0 | Some d \<Rightarrow> d)"
  by (simp add: base_val_def)

lemma nat_str_digits: "\<forall>c \<in> set (nat_str n). isdigit c"
proof (induction n rule: nat_str.induct)
  case (1 n)
  then show ?case using digit_char [of n] digit_char [of "n mod 10"]
    by (cases "n < 10") (auto simp: nat_str.simps [of n])
qed

lemma nat_str_val: "base_val 10 (nat_str n) = n"
proof (induction n rule: nat_str.induct)
  case (1 n)
  then show ?case using digit_char [of n] digit_char [of "n mod 10"]
    by (cases "n < 10") (auto simp: nat_str.simps [of n] base_val_snoc, simp add: base_val_def)
qed

lemma nat_str_nonempty [simp]: "nat_str n \<noteq> []"
  by (subst nat_str.simps) simp

lemma nat_str_length: "n < 10 ^ k \<Longrightarrow> 0 < k \<Longrightarrow> length (nat_str n) \<le> k"
proof (induction n arbitrary: k rule: nat_str.induct)
  case (1 n)
  show ?case
  proof (cases "n < 10")
    case True
    with 1 show ?thesis by (subst nat_str.simps) simp
  next
    case False
    then obtain j where k: "k = Suc j" "0 < j" using 1 by (cases k; cases "k - 1") auto
    then have "length (nat_str (n div 10)) \<le> j" using 1 False by simp
    then show ?thesis using False k by (subst nat_str.simps) simp
  qed
qed

lemma is_base_10: "is_base 10 c = isdigit c"
  by (auto simp: is_base_def digit_val_def isdigit_def islower_def isupper_def)

lemma takeWhile_app: "\<forall>x \<in> set xs. P x \<Longrightarrow> ys = [] \<or> \<not> P (hd ys) \<Longrightarrow>
    takeWhile P (xs @ ys) = xs \<and> dropWhile P (xs @ ys) = ys"
  by (induction xs) (auto, (cases ys; simp)+)

text \<open>What \<open>strtod\<close> does on the decimal digits of a natural number.\<close>

definition num_end :: "string \<Rightarrow> bool" where
  "num_end r \<longleftrightarrow> (case r of [] \<Rightarrow> True
     | c # _ \<Rightarrow> \<not> isdigit c \<and> c \<noteq> CHR ''.'' \<and> tolower c \<noteq> CHR ''e'' \<and> tolower c \<noteq> CHR ''x'')"

lemma digit_not_letter:
  assumes "isdigit c"
  shows "tolower c = c" "\<not> isspace c" "c \<noteq> CHR ''-''" "c \<noteq> CHR ''+''"
    "c \<noteq> CHR ''i''" "c \<noteq> CHR ''n''" "c \<noteq> CHR ''x''"
  using assms by (auto simp: isdigit_def tolower_def isupper_def isspace_def chr_code_def)

lemma strip_ci_digit:
  "isdigit c \<Longrightarrow> \<not> isdigit p \<Longrightarrow> strip_ci (p # ps) (c # r) = None"
  by (auto simp: strip_ci_def digit_not_letter)

lemma num_end_stop: "num_end r \<Longrightarrow> r = [] \<or> \<not> isdigit (hd r)"
  by (auto simp: num_end_def split: list.splits)

lemma strip_hex_digits:
  assumes "\<forall>c \<in> set ds. isdigit c" "ds \<noteq> []" "num_end r"
  shows "strip_ci ''0x'' (ds @ r) = None"
proof -
  obtain d ds' where ds: "ds = d # ds'" using assms(2) by (cases ds) auto
  have "map tolower (take 1 (ds' @ r)) \<noteq> ''x''"
    using assms ds by (cases ds'; cases r) (auto simp: num_end_def digit_not_letter)
  then show ?thesis by (simp add: strip_ci_def ds)
qed

lemma scan_mant_digits:
  assumes "\<forall>c \<in> set ds. isdigit c" "ds \<noteq> []" "num_end r"
  shows "scan_mant 10 (ds @ r) = Some (int (base_val 10 ds), 0, r)"
proof -
  have tw: "takeWhile (is_base 10) (ds @ r) = ds" "dropWhile (is_base 10) (ds @ r) = r"
    using takeWhile_app [of ds isdigit r] assms num_end_stop by (auto simp: is_base_10 [abs_def])
  show ?thesis
    unfolding scan_mant_def tw using assms by (cases r) (auto simp: num_end_def base_valz_nat)
qed

lemma strtod_digits:
  assumes "\<forall>c \<in> set ds. isdigit c" "ds \<noteq> []" "num_end r"
  shows "strtod (ds @ r) = Some (mk False (of_nat (base_val 10 ds)), r)"
proof -
  obtain d ds' where ds: "ds = d # ds'" "isdigit d" using assms by (cases ds) auto
  have pre: "scan_sign (skip_ws (ds @ r)) = (False, ds @ r)"
    using ds by (simp add: skip_ws_def scan_sign_def digit_not_letter)
  have no: "strip_ci ''infinity'' (ds @ r) = None" "strip_ci ''inf'' (ds @ r) = None"
      "strip_ci ''nan'' (ds @ r) = None"
    using ds by (auto intro!: strip_ci_digit simp: isdigit_def chr_code_def)
  have hex: "scan_hex False (ds @ r) = None"
    by (simp add: scan_hex_def strip_hex_digits [OF assms])
  have ex: "scan_exp (CHR ''e'') r = (0, r)"
    using assms(3) by (cases r) (auto simp: scan_exp_def num_end_def)
  show ?thesis
    by (simp add: strtod_def pre no hex scan_dec_def scan_mant_digits [OF assms] ex)
qed

lemmas strtod_nat = strtod_digits [OF nat_str_digits nat_str_nonempty, unfolded nat_str_val]

lemma nat_str_hd: "0 < n \<Longrightarrow> hd (nat_str n) \<noteq> CHR ''0''"
proof (induction n rule: nat_str.induct)
  case (1 n)
  show ?case
  proof (cases "n < 10")
    case True
    have "chr_code (digit_char n) \<noteq> chr_code (CHR ''0'')"
      using True 1 by (simp add: digit_char_def) (simp add: chr_code_def)
    then show ?thesis using True by (subst nat_str.simps) auto
  next
    case False
    then have "hd (nat_str (n div 10)) \<noteq> CHR ''0''" using 1 by simp
    then show ?thesis using False by (subst nat_str.simps) simp
  qed
qed

lemma takeWhile_nat_str [simp]:
  "takeWhile (is_base 10) (nat_str n) = nat_str n" "dropWhile (is_base 10) (nat_str n) = []"
  using nat_str_digits [of n] by (simp_all add: is_base_10 [abs_def] takeWhile_eq_all_conv)

lemma scan_sign_nat_str [simp]: "scan_sign (skip_ws (nat_str n)) = (False, nat_str n)"
  using nat_str_digits [of n]
  by (cases "nat_str n") (auto simp: skip_ws_def scan_sign_def digit_not_letter)

lemma strtol0_nat:
  assumes "0 < w"
  shows "strtol0 w (nat_str n) = (min (2 ^ (w - 1) - 1) (int n), [])"
proof (cases "n = 0")
  case True
  have "nat_str 0 = ''0''" by (simp add: nat_str.simps)
  moreover have "is_base 8 (CHR ''0'')" "base_val 8 ''0'' = 0" "strip_ci ''0x'' ''0'' = None"
    by code_simp+
  moreover have "scan_sign (skip_ws ''0'') = (False, ''0'')" by code_simp
  moreover have "(0 :: int) \<le> 2 ^ (w - 1) - 1" "- (2 ^ (w - 1)) \<le> (0 :: int)" by simp_all
  ultimately show ?thesis using True by (simp add: strtol0_def)
next
  case False
  have "strip_ci ''0x'' (nat_str n) = None"
    using strip_hex_digits [OF nat_str_digits nat_str_nonempty, of "[]" n] by (simp add: num_end_def)
  moreover have "- (2 ^ (w - 1)) \<le> min (2 ^ (w - 1) - 1) (int n)" by (simp add: min_def)
  ultimately show ?thesis
    using False nat_str_hd [of n] by (simp add: strtol0_def nat_str_val max_absorb2)
qed

end
