(* ===== verification/Decimal.thy ===== *)
theory Decimal
  imports C_Stdlib
begin

text \<open>
  Printing a double with seventeen significant digits and reading it back gives the same
  double. This is what the number output of \<open>cjson.c\<close> relies on.
\<close>

section \<open>Decimal exponents\<close>

lemma zlog10_bounds: "0 < n \<Longrightarrow> 10 ^ zlog10 n \<le> n \<and> n < 10 * 10 ^ zlog10 n"
proof (induction n rule: zlog10.induct)
  case (1 n)
  show ?case
  proof (cases "n < 10")
    case True
    with 1 show ?thesis by (simp add: zlog10.simps)
  next
    case False
    then have "10 ^ zlog10 (n div 10) \<le> n div 10 \<and> n div 10 < 10 * 10 ^ zlog10 (n div 10)"
      using 1 by simp
    moreover have "n = 10 * (n div 10) + n mod 10" "0 \<le> n mod 10" "n mod 10 < 10" by simp_all
    ultimately have "10 * 10 ^ zlog10 (n div 10) \<le> n \<and> n < 10 * (10 * 10 ^ zlog10 (n div 10))" by linarith
    with False show ?thesis by (simp add: zlog10.simps [of n])
  qed
qed

lemma zlog10_rat:
  assumes "0 < p"
  shows "10 ^ zlog10 p \<le> (of_int p :: rat)" "(of_int p :: rat) < 10 * 10 ^ zlog10 p"
proof -
  have "of_int (10 ^ zlog10 p) \<le> (of_int p :: rat)" "(of_int p :: rat) < of_int (10 * 10 ^ zlog10 p)"
    using zlog10_bounds [OF assms] by (simp_all only: of_int_le_iff of_int_less_iff)
  then show "10 ^ zlog10 p \<le> (of_int p :: rat)" "(of_int p :: rat) < 10 * 10 ^ zlog10 p" by simp_all
qed

lemma ilog10_bounds:
  assumes "0 < x"
  shows "10 powi ilog10 x \<le> x" "x < 10 powi (ilog10 x + 1)"
proof -
  obtain p q where pq: "quotient_of x = (p, q)" by fastforce
  have q: "0 < q" using quotient_of_denom_pos [OF pq] .
  have x: "x = of_int p / of_int q" using quotient_of_div [OF pq] .
  have p: "0 < p" using assms q unfolding x by (simp add: zero_less_divide_iff)
  let ?a = "zlog10 p" and ?b = "zlog10 q"
  note pb = zlog10_rat [OF p] and qb = zlog10_rat [OF q]
  define k where "k = int ?a - int ?b"
  have k: "(10 :: rat) powi k = 10 ^ ?a / 10 ^ ?b"
    by (simp add: k_def power_int_diff)
  have up: "x < 10 powi (k + 1)"
  proof -
    have "x < 10 * 10 ^ ?a / 10 ^ ?b" unfolding x
      by (rule frac_less) (use pb qb p in auto)
    then show ?thesis by (simp add: power_int_add k mult.commute)
  qed
  have lo: "10 powi (k - 1) \<le> x"
  proof -
    have "10 ^ ?a / (10 * 10 ^ ?b) \<le> x" unfolding x
      by (rule frac_le) (use pb qb p q in auto)
    then show ?thesis by (simp add: power_int_diff k)
  qed
  have def: "ilog10 x = (if 10 powi k \<le> x then k else k - 1)"
    by (simp add: ilog10_def pq k_def)
  show "10 powi ilog10 x \<le> x" using lo def by simp
  show "x < 10 powi (ilog10 x + 1)" using up def by (simp split: if_splits)
qed

section \<open>Significant digits\<close>

lemma rne_error: "\<bar>of_int (rne z) - z\<bar> \<le> 1/2"
proof -
  have "of_int \<lfloor>z\<rfloor> \<le> z" "z < of_int \<lfloor>z\<rfloor> + 1" by linarith+
  then show ?thesis unfolding rne_def Let_def by (auto simp: abs_le_iff)
qed

text \<open>The value that the digits stand for.\<close>

abbreviation dec_value :: "nat \<Rightarrow> int \<times> int \<Rightarrow> rat" where
  "dec_value P me \<equiv> of_int (fst me) * 10 powi (snd me - int P + 1)"

lemma sig_digits_range:
  assumes "0 < x" "0 < P"
  shows "10 ^ (P - 1) \<le> fst (sig_digits P x)" "fst (sig_digits P x) < 10 ^ P"
    "\<bar>dec_value P (sig_digits P x) - x\<bar> \<le> x * (10 powi (1 - int P) / 2)"
proof -
  define e where "e = ilog10 x"
  define z where "z = x * 10 powi (int P - 1 - e)"
  note b = ilog10_bounds [OF assms(1), folded e_def]
  have "10 powi e * 10 powi (int P - 1 - e) \<le> z" "z < 10 powi (e + 1) * 10 powi (int P - 1 - e)"
    unfolding z_def using b by (auto intro!: mult_right_mono mult_strict_right_mono)
  then have z: "10 powi (int P - 1) \<le> z" "z < 10 powi int P"
    by (simp_all add: power_int_add [symmetric] flip: power_int_add)
  have P: "(10 :: rat) powi (int P - 1) = of_int (10 ^ (P - 1))" "(10 :: rat) powi int P = of_int (10 ^ P)"
    using assms(2) by (auto simp: power_int_def nat_diff_distrib)
  have m: "10 ^ (P - 1) \<le> rne z" "rne z \<le> 10 ^ P"
    using rne_ge_int [of "10 ^ (P - 1)" z] rne_le_int [of z "10 ^ P"] z P by auto
  have sd: "sig_digits P x = (if rne z = 10 ^ P then (10 ^ (P - 1), e + 1) else (rne z, e))"
    by (simp add: sig_digits_def Let_def z_def e_def)
  show "10 ^ (P - 1) \<le> fst (sig_digits P x)" using m by (simp add: sd)
  have "(10 :: int) ^ (P - 1) < 10 ^ P" using assms(2) by (intro power_strict_increasing) auto
  then show "fst (sig_digits P x) < 10 ^ P" using m(2) by (auto simp: sd)
  have v: "dec_value P (sig_digits P x) = of_int (rne z) * 10 powi (e - int P + 1)"
  proof (cases "rne z = 10 ^ P")
    case True
    have "(10 :: rat) ^ (P - 1) * 10 powi (e + 1 - int P + 1) = 10 ^ P * 10 powi (e - int P + 1)"
      using assms(2) by (cases P) (auto simp: power_int_add power_int_diff)
    then show ?thesis using True by (simp add: sd)
  qed (simp add: sd)
  have x: "x = z * 10 powi (e - int P + 1)"
    by (simp add: z_def mult.assoc flip: power_int_add)
  have "dec_value P (sig_digits P x) - x = (of_int (rne z) - z) * 10 powi (e - int P + 1)"
    unfolding v left_diff_distrib x [symmetric] ..
  then have "\<bar>dec_value P (sig_digits P x) - x\<bar> = \<bar>of_int (rne z) - z\<bar> * 10 powi (e - int P + 1)"
    by (simp add: abs_mult)
  also have "\<dots> \<le> 1/2 * 10 powi (e - int P + 1)"
    by (intro mult_right_mono rne_error) simp
  also have "\<dots> = 10 powi e * (10 powi (1 - int P) / 2)"
    by (simp add: algebra_simps flip: power_int_add)
  also have "\<dots> \<le> x * (10 powi (1 - int P) / 2)"
    by (intro mult_right_mono b(1)) simp
  finally show "\<bar>dec_value P (sig_digits P x) - x\<bar> \<le> x * (10 powi (1 - int P) / 2)" .
qed

text \<open>A number close to a representable one rounds to it.\<close>

lemma rnd_near:
  assumes "x = of_int k * 2 powi qexp y" "\<bar>y - x\<bar> < 2 powi qexp y / 2" "y \<noteq> 0"
  shows "rnd y = x"
proof -
  let ?g = "(2 :: rat) powi qexp y"
  have g: "0 < ?g" by simp
  have "\<bar>y / ?g - of_int k\<bar> < 1/2"
  proof -
    have "\<bar>y / ?g - of_int k\<bar> = \<bar>y - x\<bar> / ?g" using g by (simp add: assms(1) field_simps abs_divide [symmetric])
    then show ?thesis using assms(2) g by (simp add: field_simps)
  qed
  then have "\<bar>of_int (rne (y / ?g)) - of_int k :: rat\<bar> < 1"
    using rne_error [of "y / ?g"] by linarith
  then have "rne (y / ?g) = k" by linarith
  then show ?thesis using assms(1,3) by (simp add: rnd_def)
qed

lemma below_grid:
  assumes "0 < x"
  shows "x < 2 ^ 53 * 2 powi qexp x"
proof -
  have "x < 2 powi (ilog2 x + 1)" by (rule ilog2_bounds(2)[OF assms])
  also have "\<dots> \<le> 2 powi (qexp x + 53)"
    using assms by (intro power_int_increasing) (auto simp: qexp_def)
  also have "\<dots> = 2 ^ 53 * 2 powi qexp x" by (simp add: power_int_add mult.commute)
  finally show ?thesis .
qed

text \<open>Seventeen significant digits determine a double.\<close>

lemma seventeen_digits:
  assumes "repr x" "0 < x"
  shows "rnd (dec_value 17 (sig_digits 17 x)) = x"
proof -
  define y where "y = dec_value 17 (sig_digits 17 x)"
  define gx where "gx = (2 :: rat) powi qexp x"
  define gy where "gy = (2 :: rat) powi qexp y"
  have g: "0 < gx" "0 < gy" by (simp_all add: gx_def gy_def)
  have c: "(10 :: rat) powi (1 - int 17) / 2 = 1 / (2 * 10 ^ 16)" by (simp add: power_int_def field_simps)
  have d: "\<bar>y - x\<bar> \<le> x * (1 / (2 * 10 ^ 16))"
    using sig_digits_range(3)[OF assms(2), of 17] unfolding c y_def by simp
  have "x - y \<le> x * (1 / (2 * 10 ^ 16))" using d by linarith
  then have y0: "0 < y" using assms(2) by (simp add: field_simps)
  obtain n where n: "x = of_int n * gx" using repr_grid[OF assms(1)] by (auto simp: gx_def)
  have "of_int n * gx < 2 ^ 53 * gx" using below_grid[OF assms(2)] unfolding gx_def[symmetric] n[symmetric] .
  then have "(of_int n :: rat) < 2 ^ 53" using g(1) by (simp add: mult_less_cancel_right)
  then have "(of_int n :: rat) < of_int (2 ^ 53)" by simp
  then have "n < 2 ^ 53" by (simp only: of_int_less_iff)
  then have "n \<le> 2 ^ 53 - 1" by simp
  then have "(of_int n :: rat) \<le> of_int (2 ^ 53 - 1)" by (simp only: of_int_le_iff)
  then have "(of_int n :: rat) \<le> 2 ^ 53 - 1" by simp
  then have x: "x \<le> (2 ^ 53 - 1) * gx" unfolding n using g(1) by (intro mult_right_mono) auto
  have du: "y - x \<le> x * (1 / (2 * 10 ^ 16))" and dl: "x - y \<le> x * (1 / (2 * 10 ^ 16))" using d by linarith+
  have "y < 2 ^ 53 * gx" using x du g(1) by simp
  then have yl: "y < 2 powi (qexp x + 53)" by (simp add: gx_def power_int_add mult.commute)
  have "ilog2 y < qexp x + 53"
  proof (rule ccontr)
    assume "\<not> ?thesis"
    then have "(2 :: rat) powi (qexp x + 53) \<le> 2 powi ilog2 y" by (intro power_int_increasing) auto
    with yl ilog2_bounds(1)[OF y0] show False by linarith
  qed
  then have q: "qexp y \<le> qexp x" using y0 by (simp add: qexp_def)
  have "gx = of_int (2 ^ nat (qexp x - qexp y)) * gy"
    unfolding gx_def gy_def using powi_grid[OF q] by simp
  then have "of_int n * gx = of_int (n * 2 ^ nat (qexp x - qexp y)) * gy" by simp
  with n have "x = of_int (n * 2 ^ nat (qexp x - qexp y)) * gy" by (rule trans)
  moreover have "y < 2 ^ 53 * gy" using below_grid[OF y0] by (simp add: gy_def)
  then have "y - x < gy / 2" "x - y < gy / 2" using du dl g(2) by simp_all
  then have "\<bar>y - x\<bar> < gy / 2" by linarith
  ultimately show ?thesis using rnd_near[of x _ y] y0 unfolding gy_def y_def[symmetric] by blast
qed

section \<open>Reading what was printed\<close>

lemma base_val_append:
  assumes "\<forall>c \<in> set b. isdigit c"
  shows "base_val 10 (a @ b) = base_val 10 a * 10 ^ length b + base_val 10 b"
  using assms
proof (induction b rule: rev_induct)
  case (snoc c b)
  then have "base_val 10 (a @ b) = base_val 10 a * 10 ^ length b + base_val 10 b" by simp
  then show ?case by (simp add: base_val_snoc[of 10 "a @ b"] base_val_snoc[of 10 b] algebra_simps flip: append_assoc)
qed (simp add: base_val_def)

lemma base_val_zeros: "base_val 10 (replicate n (CHR ''0'') @ s) = base_val 10 s"
proof (induction n)
  case (Suc n)
  have "digit_val (CHR ''0'') = Some 0" by code_simp
  then have "base_val 10 (CHR ''0'' # t) = base_val 10 t" for t by (simp add: base_val_def)
  with Suc show ?case by simp
qed simp

lemma strip_zeros_split: "\<exists>k. fp = strip_zeros fp @ replicate k (CHR ''0'')"
proof -
  have "rev fp = takeWhile (\<lambda>c. c = CHR ''0'') (rev fp) @ dropWhile (\<lambda>c. c = CHR ''0'') (rev fp)" by simp
  moreover have "takeWhile (\<lambda>c. c = CHR ''0'') (rev fp) =
      replicate (length (takeWhile (\<lambda>c. c = CHR ''0'') (rev fp))) (CHR ''0'')"
    by (rule replicate_eqI) (auto dest: set_takeWhileD)
  ultimately have "fp = strip_zeros fp @ rev (replicate (length (takeWhile (\<lambda>c. c = CHR ''0'') (rev fp))) (CHR ''0''))"
    unfolding strip_zeros_def by (metis rev_append rev_rev_ident)
  then show ?thesis by (metis rev_replicate)
qed

text \<open>Digits, a fraction and the end of the mantissa.\<close>

lemma scan_with_frac:
  assumes "\<forall>c \<in> set (ip @ fp). isdigit c" "ip \<noteq> []"
    "r = [] \<or> \<not> isdigit (hd r) \<and> hd r \<noteq> CHR ''.''"
  shows "\<exists>v f. scan_mant 10 (with_frac ip fp @ r) = Some (v, f, r) \<and>
     of_int v * 10 powi (- int f) = (of_nat (base_val 10 (ip @ fp)) :: rat) * 10 powi (- int (length fp))"
proof -
  let ?f = "strip_zeros fp"
  obtain k where k: "fp = ?f @ replicate k (CHR ''0'')" using strip_zeros_split by blast
  have fd: "\<forall>c \<in> set ?f. isdigit c" "\<forall>c \<in> set ip. isdigit c"
    using assms(1) k by (auto, metis Un_iff set_append)
  have zd: "\<forall>c \<in> set (replicate k (CHR ''0'')). isdigit c" by (auto simp: isdigit_def chr_code_def)
  have z0: "base_val 10 (replicate k (CHR ''0'')) = 0" using base_val_zeros[of k "[]"] by (simp add: base_val_def)
  have bv: "base_val 10 (ip @ fp) = base_val 10 (ip @ ?f) * 10 ^ k"
    using base_val_append[OF zd, of "ip @ ?f"] z0 by (subst k) simp
  have len: "length fp = length ?f + k" by (subst k) simp
  have val: "of_int (int (base_val 10 (ip @ ?f))) * 10 powi (- int (length ?f)) =
     (of_nat (base_val 10 (ip @ fp)) :: rat) * 10 powi (- int (length fp))"
    unfolding bv len by (simp add: power_int_diff power_int_minus field_simps)
  have dot: "\<not> isdigit (CHR ''.'')" by (simp add: isdigit_def chr_code_def)
  show ?thesis
  proof (cases "?f = []")
    case True
    have tw: "takeWhile (is_base 10) (ip @ r) = ip" "dropWhile (is_base 10) (ip @ r) = r"
      using takeWhile_app[of ip isdigit r] fd(2) assms(3) by (auto simp: is_base_10[abs_def])
    have "scan_mant 10 (ip @ r) = Some (int (base_val 10 ip), 0, r)"
      unfolding scan_mant_def tw using assms(2,3) by (cases r) (auto simp: base_valz_nat)
    then show ?thesis using val True by (simp add: with_frac_def)
  next
    case False
    have tw: "takeWhile (is_base 10) (ip @ CHR ''.'' # ?f @ r) = ip"
        "dropWhile (is_base 10) (ip @ CHR ''.'' # ?f @ r) = CHR ''.'' # ?f @ r"
      using takeWhile_app[of ip isdigit "CHR ''.'' # ?f @ r"] fd(2) dot by (auto simp: is_base_10[abs_def])
    have tw2: "takeWhile (is_base 10) (?f @ r) = ?f" "dropWhile (is_base 10) (?f @ r) = r"
      using takeWhile_app[of ?f isdigit r] fd(1) assms(3) by (auto simp: is_base_10[abs_def])
    have "scan_mant 10 (ip @ CHR ''.'' # ?f @ r) = Some (int (base_val 10 (ip @ ?f)), length ?f, r)"
      unfolding scan_mant_def tw using assms(2) by (simp add: tw2 base_valz_nat)
    then show ?thesis using val False by (simp add: with_frac_def Let_def)
  qed
qed

lemma scan_exp_str:
  "scan_exp (CHR ''e'') (CHR ''e'' # exp_str e) = (e, [])"
proof -
  define ds where "ds = pad_left 2 (CHR ''0'') (zstr \<bar>e\<bar>)"
  have z: "\<forall>c \<in> set (zstr \<bar>e\<bar>). isdigit c" "zstr \<bar>e\<bar> = nat_str (nat \<bar>e\<bar>)"
    using nat_str_digits[of "nat \<bar>e\<bar>"] zstr_nat[of "nat \<bar>e\<bar>"] by auto
  have d: "\<forall>c \<in> set ds. isdigit c" "ds \<noteq> []"
    using z by (auto simp: ds_def pad_left_def isdigit_def chr_code_def)
  have tw: "takeWhile isdigit ds = ds" "dropWhile isdigit ds = []"
    using d(1) by (auto simp: takeWhile_eq_all_conv)
  have v: "int (base_val 10 ds) = \<bar>e\<bar>"
    unfolding ds_def pad_left_def base_val_zeros z(2) nat_str_val by simp
  have t: "tolower (CHR ''e'') = CHR ''e''" by code_simp
  have "scan_sign (exp_str e) = (e < 0, ds)" by (simp add: exp_str_def scan_sign_def ds_def)
  then show ?thesis using d(2) v t
    by (simp add: scan_exp_def tw Let_def del: takeWhile_eq_all_conv dropWhile_eq_Nil_conv)
qed

lemma strtod_decimal:
  assumes "\<forall>c \<in> set (ip @ fp). isdigit c" "ip \<noteq> []"
    "r = [] \<and> E = 0 \<or> r = CHR ''e'' # exp_str E"
    "x = of_nat (base_val 10 (ip @ fp)) * 10 powi (E - int (length fp))"
  shows "strtod ((if neg then ''-'' else []) @ with_frac ip fp @ r) =
     Some (mk neg (if neg then - x else x), [])"
proof -
  have r: "r = [] \<or> \<not> isdigit (hd r) \<and> hd r \<noteq> CHR ''.''"
    using assms(3) by (auto simp: isdigit_def chr_code_def)
  obtain v f where m: "scan_mant 10 (with_frac ip fp @ r) = Some (v, f, r)"
    and vf: "of_int v * 10 powi (- int f) = (of_nat (base_val 10 (ip @ fp)) :: rat) * 10 powi (- int (length fp))"
    using scan_with_frac[OF assms(1,2) r] by blast
  have e: "scan_exp (CHR ''e'') r = (E, [])"
    using assms(3) scan_exp_str by (auto simp: scan_exp_def)
  have "of_int v * 10 powi (E - int f) = (of_int v * 10 powi (- int f)) * (10 :: rat) powi E"
    by (simp add: power_int_diff power_int_minus field_simps)
  also have "\<dots> = x" unfolding vf assms(4) by (simp add: power_int_diff power_int_minus field_simps)
  finally have dec: "scan_dec neg (with_frac ip fp @ r) = Some (mk neg (if neg then - x else x), [])"
    by (simp add: scan_dec_def m e)
  obtain c ip' where ip: "ip = c # ip'" "isdigit c" using assms(1,2) by (cases ip) auto
  have "\<exists>t. with_frac ip fp @ r = c # t" by (simp add: with_frac_def Let_def ip)
  then obtain t where b: "with_frac ip fp @ r = c # t" by blast
  let ?ok = "\<lambda>c. isdigit c \<or> c \<in> {CHR ''.'', CHR ''e'', CHR ''+'', CHR ''-''}"
  have "\<forall>c \<in> set (exp_str E). ?ok c"
    using zstr_nat[of "nat \<bar>E\<bar>"] nat_str_digits[of "nat \<bar>E\<bar>"]
    by (auto simp: exp_str_def pad_left_def isdigit_def chr_code_def)
  moreover have "\<forall>c \<in> set (with_frac ip fp). ?ok c"
    using assms(1) strip_zeros_split[of fp] unfolding with_frac_def Let_def
    by (auto, metis Un_iff set_append)
  ultimately have "\<forall>c \<in> set (with_frac ip fp @ r). ?ok c" using assms(3) by auto
  then have "\<forall>c \<in> set t. ?ok c" unfolding b by simp
  moreover have "tolower c \<noteq> CHR ''x''" if "?ok c" for c
  proof -
    have "tolower (CHR ''.'') \<noteq> CHR ''x''" "tolower (CHR ''e'') \<noteq> CHR ''x''"
      "tolower (CHR ''+'') \<noteq> CHR ''x''" "tolower (CHR ''-'') \<noteq> CHR ''x''" by code_simp+
    then show ?thesis using that digit_not_letter[of c] by auto
  qed
  ultimately have t: "t = [] \<or> tolower (hd t) \<noteq> CHR ''x''" by (cases t) auto
  have no: "strip_ci ''infinity'' (c # t) = None" "strip_ci ''inf'' (c # t) = None" "strip_ci ''nan'' (c # t) = None"
    using ip(2) by (auto intro!: strip_ci_digit simp: isdigit_def chr_code_def)
  have hex: "strip_ci ''0x'' (c # t) = None" using t by (cases t) (auto simp: strip_ci_def)
  have pre: "scan_sign (skip_ws ((if neg then ''-'' else []) @ c # t)) = (neg, c # t)"
    using digit_not_letter[OF ip(2)] by (auto simp: skip_ws_def scan_sign_def isspace_def chr_code_def)
  show ?thesis unfolding b
    using dec[unfolded b] by (simp add: strtod_def pre no scan_hex_def hex)
qed

lemma nat_str_length_ge: "10 ^ k \<le> n \<Longrightarrow> k < length (nat_str n)"
proof -
  assume "10 ^ k \<le> n"
  moreover have "base_val 10 s < 10 ^ length s" if "\<forall>c \<in> set s. isdigit c" for s
    using that
  proof (induction s rule: rev_induct)
    case (snoc c s)
    obtain d where d: "digit_val c = Some d" "d < 10"
      using snoc(2) by (auto simp: digit_val_def isdigit_def)
    have "base_val 10 s + 1 \<le> 10 ^ length s" using snoc by simp
    then show ?case using d by (simp add: base_val_snoc)
  qed (simp add: base_val_def)
  from this[OF nat_str_digits[of n]] have "n < 10 ^ length (nat_str n)" by (simp add: nat_str_val)
  ultimately have "(10 :: nat) ^ k < 10 ^ length (nat_str n)" by (rule le_less_trans)
  then show ?thesis by simp
qed

text \<open>The digits of a positive number: exactly \<open>P\<close> of them.\<close>

lemma sig_digits_text:
  assumes "0 < x" "0 < P" "sig_digits P x = (m, e)"
  shows "length (zstr m) = P" "\<forall>c \<in> set (zstr m). isdigit c" "int (base_val 10 (zstr m)) = m"
proof -
  note r = sig_digits_range(1,2)[OF assms(1,2), unfolded assms(3) fst_conv]
  have "0 < m" using r(1) by (rule less_le_trans[rotated]) simp
  then obtain n where n: "m = int n" by (metis zero_le_imp_eq_int less_imp_le)
  have "10 ^ (P - 1) \<le> n" "n < 10 ^ P" using r unfolding n by (simp_all flip: of_nat_le_iff of_nat_less_iff)
  then have "P - 1 < length (nat_str n)" "length (nat_str n) \<le> P"
    using nat_str_length_ge nat_str_length assms(2) by blast+
  then show "length (zstr m) = P" by (simp add: n zstr_nat)
  show "\<forall>c \<in> set (zstr m). isdigit c" "int (base_val 10 (zstr m)) = m"
    unfolding n zstr_nat nat_str_val by (rule nat_str_digits) (rule refl)
qed

lemma strtod_fmt_g:
  assumes "is_fin d" "dval d \<noteq> 0" "0 < P"
  shows "strtod (fmt_g P d) = (let y = dec_value P (sig_digits P \<bar>dval d\<bar>)
     in Some (mk (dsign d) (if dsign d then - y else y), []))"
proof -
  let ?s = "if dsign d then ''-'' else []" and ?Z = "\<lambda>n. replicate n (CHR ''0'')"
  obtain m e where me: "sig_digits P \<bar>dval d\<bar> = (m, e)" by fastforce
  note t = sig_digits_text[OF _ assms(3) me]
  have x0: "0 < \<bar>dval d\<bar>" using assms(2) by simp
  define ds where "ds = zstr m"
  have ds: "length ds = P" "\<forall>c \<in> set ds. isdigit c" "of_nat (base_val 10 ds) = (of_int m :: rat)" "ds \<noteq> []"
    using t(1,2)[OF x0] assms(3) arg_cong[OF t(3)[OF x0], of "of_int :: int \<Rightarrow> rat"] unfolding ds_def by auto
  have val: "strtod (?s @ with_frac ip fp @ r) = (let y = dec_value P (sig_digits P \<bar>dval d\<bar>)
      in Some (mk (dsign d) (if dsign d then - y else y), []))"
    if "\<forall>c \<in> set (ip @ fp). isdigit c" "ip \<noteq> []" "r = [] \<and> E = 0 \<or> r = CHR ''e'' # exp_str E"
      "base_val 10 (ip @ fp) = base_val 10 ds" "E - int (length fp) = e - int P + 1" for ip fp r E
    using strtod_decimal[OF that(1-3) refl, of "dsign d"]
    unfolding that(4,5) ds(3) me by (simp add: Let_def)
  consider "0 \<le> e" "e < int P" | "-4 \<le> e" "e < 0" | "\<not> (-4 \<le> e \<and> e < int P)" by linarith
  then show ?thesis
  proof cases
    case 1
    have "fmt_g P d = ?s @ with_frac (take (nat e + 1) ds) (drop (nat e + 1) ds) @ []"
      using 1 assms(2) me by (simp add: fmt_g_def ds_def Let_def)
    moreover have "0 - int (length (drop (nat e + 1) ds)) = e - int P + 1"
      using 1 ds(1) by (simp add: of_nat_diff)
    ultimately show ?thesis using val[of "take (nat e + 1) ds" "drop (nat e + 1) ds" "[]" 0] ds(2,4) by simp
  next
    case 2
    have "fmt_g P d = ?s @ with_frac ''0'' (?Z (nat (- e) - 1) @ ds) @ []"
      using 2 assms me by (simp add: fmt_g_def ds_def Let_def)
    moreover have "base_val 10 (''0'' @ ?Z (nat (- e) - 1) @ ds) = base_val 10 ds"
      using base_val_zeros[of "Suc (nat (- e) - 1)" ds] by simp
    moreover have "0 - int (length (?Z (nat (- e) - 1) @ ds)) = e - int P + 1"
      using 2 ds(1) by simp
    moreover have "\<forall>c \<in> set (''0'' @ ?Z (nat (- e) - 1) @ ds). isdigit c"
      using ds(2) by (auto simp: isdigit_def chr_code_def)
    ultimately show ?thesis using val[of "''0''" "?Z (nat (- e) - 1) @ ds" "[]" 0] by (simp only: simp_thms list.distinct)
  next
    case 3
    have "fmt_g P d = ?s @ with_frac (take 1 ds) (drop 1 ds) @ CHR ''e'' # exp_str e"
      using 3 assms(2) me by (auto simp: fmt_g_def ds_def Let_def)
    then show ?thesis using val[of "take 1 ds" "drop 1 ds" _ e] ds assms(3) by (simp add: of_nat_diff)
  qed
qed

lemma strtod_fmt_g_zero: "is_fin d \<Longrightarrow> dval d = 0 \<Longrightarrow> strtod (fmt_g P d) = Some (if d = NegZero then NegZero else Fin 0, [])"
proof -
  assume d: "is_fin d" "dval d = 0"
  have "strtod ''0'' = Some (Fin 0, [])" "strtod ''-0'' = Some (NegZero, [])" by code_simp+
  then show ?thesis using d by (cases d) (auto simp: fmt_g_def)
qed

text \<open>Seventeen digits determine a double; a shorter text is only used when it does, too.\<close>

lemma strtod_fmt_g_17:
  assumes "is_fin d" "dbl_ok d" "dval d \<noteq> 0"
  shows "strtod (fmt_g 17 d) = Some (d, [])"
proof -
  obtain x where x: "d = Fin x" "x \<noteq> 0" "repr x" "\<bar>x\<bar> \<le> dbl_max"
    using assms by (cases d) (auto simp: dbl_ok_def)
  have "repr \<bar>x\<bar>" using x(3) by (simp add: abs_if)
  define y where "y = dec_value 17 (sig_digits 17 \<bar>x\<bar>)"
  have r: "rnd y = \<bar>x\<bar>" unfolding y_def using seventeen_digits[OF \<open>repr \<bar>x\<bar>\<close>] x(2) by simp
  have "mk (x < 0) (if x < 0 then - y else y) = Fin x"
    using r x by (auto simp: mk_def Let_def)
  then show ?thesis using strtod_fmt_g[OF assms(1,3), of 17] unfolding x(1) dval.simps dsign.simps y_def[symmetric] Let_def by simp
qed

lemma deq_fin: "deq a b \<Longrightarrow> is_fin b \<Longrightarrow> dval b \<noteq> 0 \<Longrightarrow> a = b"
  by (cases a; cases b) (auto simp: deq_def split: if_splits)

section \<open>The length of a printed number\<close>

lemma powi10_less: "(10 :: rat) powi a < 10 powi b \<Longrightarrow> a < b"
  by (rule ccontr) (use power_int_increasing[of b a "10 :: rat"] in auto)

lemma ilog10_range:
  assumes "repr x" "0 < x" "x \<le> dbl_max"
  shows "-400 \<le> ilog10 x" "ilog10 x < 400"
proof -
  obtain m k where x: "x = of_int m * 2 powi k" "-1074 \<le> k" using assms(1) by (auto simp: repr_def)
  then have "0 < (of_int m :: rat) * 2 powi k" using assms(2) by simp
  then have "(0 :: rat) < of_int m" by (rule zero_less_mult_pos2) simp
  then have "0 < m" by simp
  have "(of_int (2 ^ 1074) :: rat) \<le> of_int (10 ^ 399)" by (simp only: of_int_le_iff) simp
  then have "(2 :: rat) ^ 1074 \<le> 10 ^ 399" by (simp only: of_int_power of_int_numeral)
  moreover have "0 < (2 :: rat) ^ 1074" by (rule zero_less_power) simp
  ultimately have "inverse ((10 :: rat) ^ 399) \<le> inverse (2 ^ 1074)" by (rule le_imp_inverse_le)
  then have "(10 :: rat) powi (-399) \<le> 2 powi (-1074)" by (simp only: power_int_minus power_int_numeral)
  also have "\<dots> \<le> 2 powi k" using x(2) by (intro power_int_increasing) auto
  also have "\<dots> \<le> x" unfolding x(1) using \<open>0 < m\<close> by simp
  finally have "(10 :: rat) powi (-399) \<le> x" .
  also have "x < 10 powi (ilog10 x + 1)" by (rule ilog10_bounds(2)[OF assms(2)])
  finally have "-399 < ilog10 x + 1" by (rule powi10_less)
  then show "-400 \<le> ilog10 x" by simp
  have "dbl_max < of_int (10 ^ 400)" unfolding dbl_max_def by (simp only: of_int_less_iff) simp
  also have "of_int (10 ^ 400) = (10 :: rat) powi 400" by (simp only: of_int_power of_int_numeral power_int_numeral)
  finally have "x < (10 :: rat) powi 400" by (rule le_less_trans[OF assms(3)])
  with ilog10_bounds(1)[OF assms(2)] have "10 powi ilog10 x < (10 :: rat) powi 400" by (rule le_less_trans)
  then show "ilog10 x < 400" by (rule powi10_less)
qed

lemma with_frac_length: "length (with_frac ip fp) \<le> length ip + length fp + 1"
  using length_dropWhile_le[of _ "rev fp"] by (simp add: with_frac_def Let_def strip_zeros_def le_SucI)

lemma with_frac_split_length: "length (with_frac (take n ds) (drop n ds)) \<le> length ds + 1"
proof -
  have "length (take n ds) + length (drop n ds) = length ds" by (metis append_take_drop_id length_append)
  then show ?thesis using with_frac_length[of "take n ds" "drop n ds"] by linarith
qed

lemma fmt_g_length:
  assumes "is_fin d" "dbl_ok d" "0 < P" "P \<le> 17"
  shows "length (fmt_g P d) \<le> 24"
proof (cases "dval d = 0")
  case True
  then show ?thesis by (simp add: fmt_g_def Let_def)
next
  case False
  let ?x = "\<bar>dval d\<bar>"
  obtain m e where me: "sig_digits P ?x = (m, e)" by fastforce
  have x0: "0 < ?x" using False by simp
  have "repr ?x" using assms(2) by (simp add: dbl_ok_def abs_if)
  then have "-400 \<le> ilog10 ?x" "ilog10 ?x < 400"
    using ilog10_range[OF _ x0] assms(2) by (simp_all add: dbl_ok_def)
  moreover have "e = ilog10 ?x \<or> e = ilog10 ?x + 1"
    using me by (auto simp: sig_digits_def Let_def split: if_splits)
  ultimately have "\<bar>e\<bar> < 1000" by linarith
  then have "nat \<bar>e\<bar> < 10 ^ 3" by simp
  then have "length (zstr \<bar>e\<bar>) \<le> 3" using nat_str_length[of "nat \<bar>e\<bar>" 3] zstr_nat[of "nat \<bar>e\<bar>"] by simp
  then have el: "length (exp_str e) \<le> 4" by (simp add: exp_str_def pad_left_def)
  have ds: "length (zstr m) = P" by (rule sig_digits_text(1)[OF x0 assms(3) me])
  have small: "length (with_frac ''0'' (replicate (nat (- e) - 1) (CHR ''0'') @ zstr m)) \<le> P + 5" if "-4 \<le> e"
    using with_frac_length[of "''0''" "replicate (nat (- e) - 1) (CHR ''0'') @ zstr m"] that ds by simp
  define body where "body = (if -4 \<le> e \<and> e < int P then
      if 0 \<le> e then with_frac (take (nat e + 1) (zstr m)) (drop (nat e + 1) (zstr m))
      else with_frac ''0'' (replicate (nat (- e) - 1) (CHR ''0'') @ zstr m)
    else with_frac (take 1 (zstr m)) (drop 1 (zstr m)) @ CHR ''e'' # exp_str e)"
  have "length body \<le> 23"
    using small el assms(4) with_frac_split_length[of "nat e + 1" "zstr m"] with_frac_split_length[of 1 "zstr m"]
    unfolding body_def ds by (cases "-4 \<le> e \<and> e < int P"; cases "0 \<le> e") simp_all
  moreover have "fmt_g P d = (if dsign d then CHR ''-'' # body else body)"
    using False by (simp add: fmt_g_def Let_def me body_def)
  ultimately show ?thesis by simp
qed
end
