(* ===== verification/Units.thy ===== *)
theory Units
  imports Decimal
begin

text \<open>
  \<open>units.c\<close>: numbers with the suffixes K, M, G, T on input, and the scaled output of
  byte and bit counts. The numbers are \<open>double\<close>s; where the code leaves \<open>n\<close> unset
  because the string holds no number, its indeterminate value is the parameter \<open>n0\<close>.
\<close>

section \<open>Input\<close>

definition KILO_UNIT :: double where "KILO_UNIT = Fin 1024"
definition MEGA_UNIT :: double where "MEGA_UNIT = dmul (Fin 1024) (Fin 1024)"
definition GIGA_UNIT :: double where "GIGA_UNIT = dmul (dmul (Fin 1024) (Fin 1024)) (Fin 1024)"
definition TERA_UNIT :: double where
  "TERA_UNIT = dmul (dmul (dmul (Fin 1024) (Fin 1024)) (Fin 1024)) (Fin 1024)"

definition KILO_RATE_UNIT :: double where "KILO_RATE_UNIT = Fin 1000"
definition MEGA_RATE_UNIT :: double where "MEGA_RATE_UNIT = dmul (Fin 1000) (Fin 1000)"
definition GIGA_RATE_UNIT :: double where "GIGA_RATE_UNIT = dmul (dmul (Fin 1000) (Fin 1000)) (Fin 1000)"
definition TERA_RATE_UNIT :: double where
  "TERA_RATE_UNIT = dmul (dmul (dmul (Fin 1000) (Fin 1000)) (Fin 1000)) (Fin 1000)"

text \<open>\<open>sscanf(s, "%lf%c", &n, &suffix)\<close> with \<open>suffix\<close> preset to NUL.\<close>

definition scan_lf_c :: "double \<Rightarrow> string \<Rightarrow> double \<times> char" where
  "scan_lf_c n0 s = (case strtod s of
       None \<Rightarrow> (n0, CHR 0x00)
     | Some (n, r) \<Rightarrow> (n, case r of [] \<Rightarrow> CHR 0x00 | c # _ \<Rightarrow> c))"

definition unit_atof :: "double \<Rightarrow> string \<Rightarrow> double" where
  "unit_atof n0 s =
     (let (n, suffix) = scan_lf_c n0 s in
      if suffix = CHR ''t'' \<or> suffix = CHR ''T'' then dmul n TERA_UNIT
      else if suffix = CHR ''g'' \<or> suffix = CHR ''G'' then dmul n GIGA_UNIT
      else if suffix = CHR ''m'' \<or> suffix = CHR ''M'' then dmul n MEGA_UNIT
      else if suffix = CHR ''k'' \<or> suffix = CHR ''K'' then dmul n KILO_UNIT
      else n)"

definition unit_atof_rate :: "double \<Rightarrow> string \<Rightarrow> double" where
  "unit_atof_rate n0 s =
     (let (n, suffix) = scan_lf_c n0 s in
      if suffix = CHR ''t'' \<or> suffix = CHR ''T'' then dmul n TERA_RATE_UNIT
      else if suffix = CHR ''g'' \<or> suffix = CHR ''G'' then dmul n GIGA_RATE_UNIT
      else if suffix = CHR ''m'' \<or> suffix = CHR ''M'' then dmul n MEGA_RATE_UNIT
      else if suffix = CHR ''k'' \<or> suffix = CHR ''K'' then dmul n KILO_RATE_UNIT
      else n)"

text \<open>
  The conversion \<open>(iperf_size_t) n\<close>; \<^term>\<open>None\<close> where C leaves it undefined (the
  truncated value is no \<open>uint64_t\<close>).
\<close>

definition d_to_u64 :: "double \<Rightarrow> u64 option" where
  "d_to_u64 d = (case dtrunc d of None \<Rightarrow> None
     | Some k \<Rightarrow> if 0 \<le> k \<and> k < 2 ^ 64 then Some (word_of_int k) else None)"

definition unit_atoi :: "double \<Rightarrow> string \<Rightarrow> u64 option" where
  "unit_atoi n0 s =
     (let (n, suffix) = scan_lf_c n0 s in
      d_to_u64
       (if suffix = CHR ''t'' \<or> suffix = CHR ''T'' then dmul n TERA_UNIT
        else if suffix = CHR ''g'' \<or> suffix = CHR ''G'' then dmul n GIGA_UNIT
        else if suffix = CHR ''m'' \<or> suffix = CHR ''M'' then dmul n MEGA_UNIT
        else if suffix = CHR ''k'' \<or> suffix = CHR ''K'' then dmul n KILO_UNIT
        else n))"

section \<open>Output\<close>

text \<open>Indices into the tables: unit, kilo, mega, giga, tera.\<close>

definition TERA_CONV :: nat where "TERA_CONV = 4"

definition conversion_bytes :: "double list" where
  "conversion_bytes =
     [Fin 1, ddiv (Fin 1) (Fin 1024), ddiv (ddiv (Fin 1) (Fin 1024)) (Fin 1024),
      ddiv (ddiv (ddiv (Fin 1) (Fin 1024)) (Fin 1024)) (Fin 1024),
      ddiv (ddiv (ddiv (ddiv (Fin 1) (Fin 1024)) (Fin 1024)) (Fin 1024)) (Fin 1024)]"

definition conversion_bits :: "double list" where
  "conversion_bits =
     [Fin 1, ddiv (Fin 1) (Fin 1000), ddiv (ddiv (Fin 1) (Fin 1000)) (Fin 1000),
      ddiv (ddiv (ddiv (Fin 1) (Fin 1000)) (Fin 1000)) (Fin 1000),
      ddiv (ddiv (ddiv (ddiv (Fin 1) (Fin 1000)) (Fin 1000)) (Fin 1000)) (Fin 1000)]"

definition label_byte :: "string list" where
  "label_byte = [''Byte'', ''KByte'', ''MByte'', ''GByte'', ''TByte'']"

definition label_bit :: "string list" where
  "label_bit = [''bit'', ''Kbit'', ''Mbit'', ''Gbit'', ''Tbit'']"

text \<open>The two loops of the adaptive format, with \<open>base\<close> 1024.0 or 1000.0.\<close>

function adapt :: "double \<Rightarrow> double \<Rightarrow> nat \<Rightarrow> nat" where
  "adapt base tmpNum conv =
     (if dle base tmpNum \<and> conv < TERA_CONV then adapt base (ddiv tmpNum base) (conv + 1) else conv)"
  by pat_completeness auto
termination
  by (relation "measure (\<lambda>(b, t, c). TERA_CONV - c)") auto

declare adapt.simps [simp del]

definition unit_conv :: "double \<Rightarrow> char \<Rightarrow> nat" where
  "unit_conv inNum inFormat =
     (let f = toupper inFormat in
      if f = CHR ''B'' then 0 else if f = CHR ''K'' then 1 else if f = CHR ''M'' then 2
      else if f = CHR ''G'' then 3 else if f = CHR ''T'' then 4
      else if isupper inFormat then adapt (Fin 1024) inNum 0
      else adapt (Fin 1000) inNum 0)"

text \<open>What \<open>unit_snprintf\<close> writes to its buffer of \<open>inLen\<close> bytes.\<close>

definition unit_format :: "double \<Rightarrow> string \<Rightarrow> string" where
  "unit_format inNum suffix =
     (if dlt inNum (mk False (9995 / 1000)) then fmt_f 4 2 inNum
      else if dlt inNum (mk False (9995 / 100)) then fmt_f 4 1 inNum
      else if dlt inNum (mk False (9995 / 10)) then fmt_f 4 0 inNum
      else fmt_f 4 0 inNum) @ CHR '' '' # suffix"

definition unit_snprintf :: "nat \<Rightarrow> double \<Rightarrow> char \<Rightarrow> string" where
  "unit_snprintf inLen inNum0 inFormat =
     (let inNum = (if \<not> isupper inFormat then dmul inNum0 (Fin 8) else inNum0);
          conv = unit_conv inNum inFormat;
          (inNum', suffix) =
            (if \<not> isupper inFormat
             then (dmul inNum (conversion_bits ! conv), label_bit ! conv)
             else (dmul inNum (conversion_bytes ! conv), label_byte ! conv))
      in take (inLen - 1) (unit_format inNum' suffix))"

section \<open>Exactness of the input conversions\<close>

lemma fin_mult_exact:
  assumes "repr (x * y)" "\<bar>x * y\<bar> \<le> dbl_lim" "0 < x" "0 < y"
  shows "dmul (Fin x) (Fin y) = Fin (x * y)"
  using mk_exact [OF assms(1,2)] assms(3,4) by simp

lemma fin_mult_int:
  "0 < n \<Longrightarrow> 0 < k \<Longrightarrow> n * k \<le> 2 ^ 53 \<Longrightarrow>
     dmul (Fin (of_int n)) (Fin (of_int k)) = Fin (of_int (n * k))"
  using fin_mult_exact [of "of_int n" "of_int k"] repr_int [of "n * k"] int_small [of "n * k"]
  by (simp add: abs_mult)

lemma unit_values:
  "KILO_UNIT = Fin (of_int (2 ^ 10))" "MEGA_UNIT = Fin (of_int (2 ^ 20))"
  "GIGA_UNIT = Fin (of_int (2 ^ 30))" "TERA_UNIT = Fin (of_int (2 ^ 40))"
  using fin_mult_int [of 1024 1024] fin_mult_int [of 1048576 1024] fin_mult_int [of 1073741824 1024]
  by (simp_all add: KILO_UNIT_def MEGA_UNIT_def GIGA_UNIT_def TERA_UNIT_def)

lemma rate_unit_values:
  "KILO_RATE_UNIT = Fin (of_int (10 ^ 3))" "MEGA_RATE_UNIT = Fin (of_int (10 ^ 6))"
  "GIGA_RATE_UNIT = Fin (of_int (10 ^ 9))" "TERA_RATE_UNIT = Fin (of_int (10 ^ 12))"
  using fin_mult_int [of 1000 1000] fin_mult_int [of 1000000 1000] fin_mult_int [of 1000000000 1000]
  by (simp_all add: KILO_RATE_UNIT_def MEGA_RATE_UNIT_def GIGA_RATE_UNIT_def TERA_RATE_UNIT_def)

text \<open>The binary and the decimal multiplier of a suffix.\<close>

definition suffix_exp :: "char \<Rightarrow> nat" where
  "suffix_exp c = (let u = toupper c in
     if u = CHR ''T'' then 4 else if u = CHR ''G'' then 3 else if u = CHR ''M'' then 2
     else if u = CHR ''K'' then 1 else 0)"

definition unit_suffix :: "char \<Rightarrow> bool" where
  "unit_suffix c \<longleftrightarrow> c \<in> set ''kKmMgGtT''"

lemma unit_suffix_num_end: "unit_suffix c \<Longrightarrow> num_end [c]"
proof -
  have "\<forall>c \<in> set ''kKmMgGtT''. num_end [c]" by code_simp
  then show "unit_suffix c \<Longrightarrow> num_end [c]" unfolding unit_suffix_def by blast
qed

lemma suffix_exp_simps:
  "suffix_exp (CHR ''k'') = 1" "suffix_exp (CHR ''K'') = 1" "suffix_exp (CHR ''m'') = 2"
  "suffix_exp (CHR ''M'') = 2" "suffix_exp (CHR ''g'') = 3" "suffix_exp (CHR ''G'') = 3"
  "suffix_exp (CHR ''t'') = 4" "suffix_exp (CHR ''T'') = 4"
  by code_simp+

lemma scan_nat_suffix:
  assumes "unit_suffix c" "n \<le> 2 ^ 53"
  shows "scan_lf_c n0 (nat_str n @ [c]) = (Fin (of_nat n), c)"
  using strtod_nat [OF unit_suffix_num_end [OF assms(1)], of n] d_of_int_exact [of "int n"] assms(2)
  by (simp add: scan_lf_c_def d_of_int_def)

lemma repr_scale: "n \<le> 2 ^ 53 \<Longrightarrow> repr (of_nat n * 2 ^ j)"
  unfolding repr_def by (intro exI [of _ "int n"] exI [of _ "int j"]) (simp add: power_int_def)

lemma scale_exact:
  assumes "n \<le> 2 ^ 53" "j \<le> 40"
  shows "dmul (Fin (of_nat n)) (Fin (2 ^ j)) = Fin (of_nat (n * 2 ^ j))"
proof -
  have "n * 2 ^ j \<le> 2 ^ 53 * 2 ^ 40" using assms by (intro mult_mono power_increasing) auto
  then have "n * 2 ^ j \<le> 2 ^ 93" by (simp flip: power_add)
  then have "of_nat (n * 2 ^ j) \<le> (of_nat (2 ^ 93) :: rat)" by (simp only: of_nat_le_iff)
  also have "\<dots> \<le> dbl_lim" using pow2_le_lim [of 93] by (simp only: of_nat_power) simp
  finally have "\<bar>of_nat n * 2 ^ j :: rat\<bar> \<le> dbl_lim" by simp
  then show ?thesis using mk_exact [OF repr_scale [OF assms(1), of j]] by simp
qed

lemma d_to_u64_nat: "n < 2 ^ 64 \<Longrightarrow> d_to_u64 (Fin (of_nat n)) = Some (of_nat n)"
  by (simp add: d_to_u64_def)

lemma unit_atoi_scaled:
  assumes "unit_suffix c" "n \<le> 2 ^ 53"
  shows "unit_atoi n0 (nat_str n @ [c]) =
    d_to_u64 (dmul (Fin (of_nat n)) (Fin (2 ^ (10 * suffix_exp c))))"
  using assms(1) unfolding unit_atoi_def scan_nat_suffix [OF assms]
  by (auto simp: unit_suffix_def suffix_exp_simps unit_values simp del: dmul.simps)

text \<open>
  C38. \<open>unit_atoi\<close> reads a decimal number followed by one of the suffixes K, M, G, T in
  either case exactly: the number times the power of 1024, for every product that fits the
  64-bit result and a number of at most 53 bits.
\<close>

theorem unit_atoi_exact:
  assumes "unit_suffix c" "n \<le> 2 ^ 53" "n * 1024 ^ suffix_exp c < 2 ^ 64"
  shows "unit_atoi n0 (nat_str n @ [c]) = Some (of_nat (n * 1024 ^ suffix_exp c))"
proof -
  have "(1024 :: nat) ^ suffix_exp c = 2 ^ (10 * suffix_exp c)"
    by (simp add: power_mult)
  moreover have "10 * suffix_exp c \<le> 40" by (simp add: suffix_exp_def Let_def)
  ultimately show ?thesis
    using unit_atoi_scaled [OF assms(1,2)] scale_exact [OF assms(2), of "10 * suffix_exp c"]
      d_to_u64_nat [OF assms(3)] by simp
qed

theorem unit_atoi_exact_witness:
  "unit_suffix (CHR ''M'') \<and> unit_atoi NaN ''12M'' = Some 12582912"
proof -
  have s: "unit_suffix (CHR ''M'')" "suffix_exp (CHR ''M'') = 2"
    by (simp_all add: unit_suffix_def suffix_exp_simps)
  have "nat_str 12 = ''12''" by code_simp
  then show ?thesis using s unit_atoi_exact [of "CHR ''M''" 12 NaN] by simp
qed

lemma unit_atof_rate_scaled:
  assumes "unit_suffix c" "n \<le> 2 ^ 53"
  shows "unit_atof_rate n0 (nat_str n @ [c]) =
    dmul (Fin (of_nat n)) (Fin (of_int (1000 ^ suffix_exp c)))"
  using assms(1) unfolding unit_atof_rate_def scan_nat_suffix [OF assms]
  by (auto simp: unit_suffix_def suffix_exp_simps rate_unit_values simp del: dmul.simps)

text \<open>
  \<open>unit_atof_rate\<close> reads a positive decimal number followed by a suffix exactly as
  the number times the power of 1000, for products of at most 53 bits.
\<close>

theorem unit_atof_rate_exact:
  assumes "unit_suffix c" "0 < n" "n * 1000 ^ suffix_exp c \<le> 2 ^ 53"
  shows "unit_atof_rate n0 (nat_str n @ [c]) = Fin (of_nat (n * 1000 ^ suffix_exp c))"
proof -
  have "n * 1 \<le> n * 1000 ^ suffix_exp c" by (intro mult_left_mono) simp_all
  then have n: "n \<le> 2 ^ 53" using assms(3) by linarith
  have "int (n * 1000 ^ suffix_exp c) \<le> int (2 ^ 53)" using assms(3) by (simp only: of_nat_le_iff)
  then have "int n * 1000 ^ suffix_exp c \<le> 2 ^ 53" by simp
  then show ?thesis
    using unit_atof_rate_scaled [OF assms(1) n] fin_mult_int [of "int n" "1000 ^ suffix_exp c"] assms(2)
    by simp
qed

theorem unit_atof_rate_exact_witness:
  "unit_suffix (CHR ''k'') \<and> unit_atof_rate NaN ''5k'' = Fin 5000"
proof -
  have s: "unit_suffix (CHR ''k'')" "suffix_exp (CHR ''k'') = 1"
    by (simp_all add: unit_suffix_def suffix_exp_simps)
  have "nat_str 5 = ''5''" by code_simp
  then show ?thesis using s unit_atof_rate_exact [of "CHR ''k''" 5 NaN] by simp
qed

section \<open>Width of the output\<close>

lemma repr_div_pow2:
  assumes "repr x" "1 \<le> x" "j \<le> 900"
  shows "repr (x / 2 ^ j)"
proof -
  obtain m k where x: "x = of_int m * 2 powi k" "\<bar>m\<bar> \<le> 2 ^ 53" "-1074 \<le> k"
    using assms(1) by (auto simp: repr_def)
  have "-100 \<le> k"
  proof (rule ccontr)
    assume "\<not> -100 \<le> k"
    then have "(2 :: rat) powi k \<le> 2 powi (-100)" by (intro power_int_increasing) auto
    moreover have "of_int m \<le> (2 ^ 53 :: rat)"
    proof -
      have "m \<le> 2 ^ 53" using x(2) by linarith
      then have "(of_int m :: rat) \<le> of_int (2 ^ 53)" by (simp only: of_int_le_iff)
      then show ?thesis by simp
    qed
    ultimately have "x \<le> 2 ^ 53 * 2 powi (-100)"
      unfolding x(1) by (intro mult_mono) auto
    also have "\<dots> < 1" by code_simp
    finally show False using assms(2) by simp
  qed
  moreover have "x / 2 ^ j = of_int m * 2 powi (k - int j)"
    by (simp add: x(1) power_int_diff)
  ultimately show ?thesis using x(2) assms(3) unfolding repr_def by fastforce
qed

lemma fin_div_1024:
  assumes "repr x" "1024 \<le> x" "x \<le> dbl_lim"
  shows "ddiv (Fin x) (Fin 1024) = Fin (x / 1024)"
proof -
  have "repr (x / 1024)" using repr_div_pow2 [OF assms(1), of 10] assms(2) by simp
  moreover have "x / 1024 \<le> dbl_lim" using assms by linarith
  ultimately show ?thesis using mk_exact [of "x / 1024"] assms(2) by simp
qed

lemma adapt_1024:
  assumes "repr x" "0 \<le> x" "x \<le> dbl_lim" "c \<le> TERA_CONV"
  shows "\<exists>k. adapt (Fin 1024) (Fin x) c = c + k \<and> c + k \<le> TERA_CONV \<and>
    (x / 1024 ^ k < 1024 \<or> c + k = TERA_CONV) \<and> (k = 0 \<or> 1024 ^ k \<le> x)"
  using assms
proof (induction "TERA_CONV - c" arbitrary: x c)
  case 0
  then show ?case by (intro exI [of _ 0]) (simp add: adapt.simps)
next
  case (Suc n)
  show ?case
  proof (cases "1024 \<le> x")
    case True
    have "repr (x / 1024)" using repr_div_pow2 [OF Suc.prems(1), of 10] True by simp
    moreover have "x / 1024 \<le> dbl_lim" "0 \<le> x / 1024" using Suc.prems by linarith+
    moreover have "n = TERA_CONV - (c + 1)" "c + 1 \<le> TERA_CONV" using Suc.hyps(2) by linarith+
    ultimately obtain k where k: "adapt (Fin 1024) (Fin (x / 1024)) (c + 1) = c + 1 + k"
        "c + 1 + k \<le> TERA_CONV" "x / 1024 / 1024 ^ k < 1024 \<or> c + 1 + k = TERA_CONV"
        "k = 0 \<or> 1024 ^ k \<le> x / 1024"
      using Suc.hyps(1) [of "c + 1" "x / 1024"] by blast
    have "adapt (Fin 1024) (Fin x) c = adapt (Fin 1024) (ddiv (Fin x) (Fin 1024)) (c + 1)"
      using True Suc.hyps(2) by (subst adapt.simps) (auto simp: dle_def deq_def)
    also have "\<dots> = c + Suc k" using k(1) fin_div_1024 [OF Suc.prems(1) True Suc.prems(3)] by simp
    finally show ?thesis
      using k True by (intro exI [of _ "Suc k"]) (auto simp: field_simps)
  next
    case False
    then show ?thesis
      using Suc.prems by (intro exI [of _ 0]) (auto simp: adapt.simps dle_def deq_def)
  qed
qed

lemma conversion_bytes_val: "c \<le> TERA_CONV \<Longrightarrow> conversion_bytes ! c = Fin (1 / 1024 ^ c)"
proof -
  have eq: "conversion_bytes = [Fin 1, Fin (1 / 1024), Fin (1 / 1024 ^ 2), Fin (1 / 1024 ^ 3),
      Fin (1 / 1024 ^ 4)]" by code_simp
  have "\<forall>c \<in> {0, 1, 2, 3, 4}. conversion_bytes ! c = Fin (1 / 1024 ^ c)"
    unfolding eq by simp
  moreover assume "c \<le> TERA_CONV"
  then have "c \<in> {0, 1, 2, 3, 4}" by (auto simp: TERA_CONV_def)
  ultimately show ?thesis by blast
qed

lemma length_pad_left: "length (pad_left w c s) = max w (length s)"
  by (simp add: pad_left_def)

lemma fmt_f_width:
  assumes "0 \<le> x" "rne (x * 10 ^ p) < 10 ^ k" "p < k"
  shows "length (fmt_f 4 p (Fin x)) \<le> max 4 (if p = 0 then k else k + 1)"
proof -
  define ds where "ds = pad_left (p + 1) (CHR ''0'') (zstr (rne (x * 10 ^ p)))"
  have n: "0 \<le> rne (x * 10 ^ p)" using rne_ge_int [of 0 "x * 10 ^ p"] assms(1) by simp
  then have "nat (rne (x * 10 ^ p)) < 10 ^ k" using assms(2) by (simp add: nat_less_iff)
  then have "length (nat_str (nat (rne (x * 10 ^ p)))) \<le> k" using assms(3) by (intro nat_str_length) auto
  then have "length ds \<le> k" using assms(3) n zstr_nat [of "nat (rne (x * 10 ^ p))"]
    by (simp add: ds_def length_pad_left)
  moreover have "fmt_f 4 p (Fin x) = pad_left 4 (CHR '' '')
      (if p = 0 then ds else take (length ds - p) ds @ CHR ''.'' # drop (length ds - p) ds)"
    using assms(1) by (simp add: fmt_f_def ds_def Let_def)
  ultimately show ?thesis by (auto simp: length_pad_left)
qed

lemma threshold_values:
  "mk False (9995 / 1000) = Fin (rnd (9995 / 1000))" "mk False (9995 / 100) = Fin (rnd (9995 / 100))"
  "mk False (9995 / 10) = Fin (rnd (9995 / 10))"
  by code_simp+

lemma rne_lt_half: "x < of_int n + 1/2 \<Longrightarrow> rne x \<le> n"
proof -
  assume x: "x < of_int n + 1/2"
  then have "\<lfloor>x\<rfloor> \<le> n" by linarith
  then show ?thesis using x by (cases "\<lfloor>x\<rfloor> = n") (auto simp: rne_def Let_def)
qed

lemma below_rnd: "repr y \<Longrightarrow> y < rnd t \<Longrightarrow> y < t"
  using rnd_mono [of t y] by (cases "y < t") auto

lemma unit_format_width:
  assumes "repr y" "0 \<le> y" "y < 9999 + 1/2"
  shows "length (unit_format (Fin y) suffix) \<le> 5 + length suffix"
proof -
  have "y < rnd (9995 / 1000) \<Longrightarrow> rne (y * 10 ^ 2) \<le> 999"
    using below_rnd [OF assms(1)] by (intro rne_lt_half) fastforce
  moreover have "y < rnd (9995 / 100) \<Longrightarrow> rne (y * 10 ^ 1) \<le> 999"
    using below_rnd [OF assms(1)] by (intro rne_lt_half) fastforce
  moreover have "rne (y * 10 ^ 0) \<le> 9999"
    using rne_lt_half [of y 9999] assms(3) by simp
  ultimately have "y < rnd (9995 / 1000) \<Longrightarrow> length (fmt_f 4 2 (Fin y)) \<le> 4"
    and "y < rnd (9995 / 100) \<Longrightarrow> length (fmt_f 4 1 (Fin y)) \<le> 4"
    and "length (fmt_f 4 0 (Fin y)) \<le> 4"
    using fmt_f_width [of y 2 3] fmt_f_width [of y 1 3] fmt_f_width [of y 0 4] assms by auto
  then show ?thesis unfolding unit_format_def threshold_values by auto
qed

lemma unit_format_wide:
  assumes "9999 + 1/2 \<le> y"
  shows "6 + length suffix \<le> length (unit_format (Fin y) suffix)"
proof -
  have "rne (9999 + 1/2) = 10000" by code_simp
  then have n: "10000 \<le> rne y" using rne_mono [OF assms] by simp
  then have "4 < length (zstr (rne y))"
    using nat_str_length_ge [of 4 "nat (rne y)"] zstr_nat [of "nat (rne y)"] by simp
  then have "5 \<le> length (fmt_f 4 0 (Fin y))"
    using assms by (auto simp: fmt_f_def length_pad_left Let_def)
  moreover have "rnd (9995 / 1000) \<le> 9999" "rnd (9995 / 100) \<le> 9999" by code_simp+
  then have "unit_format (Fin y) suffix = fmt_f 4 0 (Fin y) @ CHR '' '' # suffix"
    using assms unfolding unit_format_def threshold_values by auto
  ultimately show ?thesis by simp
qed

text \<open>
  C39. The adaptive byte format, for every count up to \<open>2\<^sup>64\<close>: the count is divided by the largest power of 1024 that
  it reaches, up to the one of TByte. A count below 9999.5 TByte is written in at most ten characters, so the buffer of eleven
  bytes that the function asks for holds it with its terminator and nothing is cut off; from 9999.5 TByte on the text
  has at least eleven characters and does not fit that buffer.
\<close>

theorem unit_snprintf_adaptive_fits:
  assumes "repr x" "0 \<le> x" "x \<le> 2 ^ 64" "11 \<le> inLen"
  shows "\<exists>conv y. conv \<le> TERA_CONV \<and> y = x / 1024 ^ conv \<and> (y < 1024 \<or> conv = TERA_CONV) \<and> (1 \<le> y \<or> conv = 0) \<and>
    unit_snprintf inLen (Fin x) (CHR ''A'') = take (inLen - 1) (unit_format (Fin y) (label_byte ! conv)) \<and>
    (if x < (9999 + 1/2) * 1024 ^ 4
     then unit_snprintf inLen (Fin x) (CHR ''A'') = unit_format (Fin y) (label_byte ! conv) \<and>
       length (unit_snprintf inLen (Fin x) (CHR ''A'')) \<le> 10
     else 11 \<le> length (unit_format (Fin y) (label_byte ! conv)))"
proof -
  have lim: "x \<le> dbl_lim" using pow2_le_lim [of 64] assms(3) by simp
  obtain k where k: "adapt (Fin 1024) (Fin x) 0 = k" "k \<le> TERA_CONV"
      "x / 1024 ^ k < 1024 \<or> k = TERA_CONV" "k = 0 \<or> 1024 ^ k \<le> x"
    using adapt_1024 [OF assms(1,2) lim, of 0] by auto
  let ?y = "x / 1024 ^ k" and ?t = "unit_format (Fin (x / 1024 ^ k)) (label_byte ! k)"
  have y: "0 \<le> ?y" "?y \<le> x" "1 \<le> ?y \<or> k = 0" using k(4) assms(2) by (auto simp: divide_le_eq mult_le_cancel_left1)
  have up: "isupper (CHR ''A'')" "unit_conv (Fin x) (CHR ''A'') = k"
    using k(1) by (simp_all add: isupper_def unit_conv_def toupper_def islower_def chr_code_def)
  have ry: "repr ?y"
  proof (cases "k = 0")
    case False
    then have "1 \<le> x" using k(4) order_trans [OF one_le_power [of "1024 :: rat" k]] by simp
    then have "repr (x / 2 ^ (10 * k))"
      using assms(1) k(2) by (intro repr_div_pow2) (simp_all add: TERA_CONV_def)
    then show ?thesis by (simp add: power_mult)
  qed (use assms(1) in simp)
  then have "dmul (Fin x) (conversion_bytes ! k) = Fin ?y"
    using mk_exact [of ?y] y lim assms(2) conversion_bytes_val [OF k(2)] by (auto simp: divide_le_0_iff)
  then have out: "unit_snprintf inLen (Fin x) (CHR ''A'') = take (inLen - 1) ?t"
    using up by (simp add: unit_snprintf_def)
  have "length (label_byte ! k) \<le> 5"
  proof -
    have "\<forall>s \<in> set label_byte. length s \<le> 5" by (simp add: label_byte_def)
    moreover have "label_byte ! k \<in> set label_byte"
      using k(2) by (intro nth_mem) (simp add: label_byte_def TERA_CONV_def)
    ultimately show ?thesis by blast
  qed
  then have fits: "length ?t \<le> 10" if "?y < 9999 + 1/2"
    using unit_format_width [OF ry y(1) that, of "label_byte ! k"] by simp
  show ?thesis
  proof (cases "x < (9999 + 1/2) * 1024 ^ 4")
    case True
    from k(3) have "?y < 9999 + 1/2"
    proof
      assume "k = TERA_CONV"
      then show ?thesis using True by (simp add: TERA_CONV_def)
    qed linarith
    then show ?thesis using True k(2,3) y(3) out fits assms(4) by (intro exI [of _ k] exI [of _ ?y]) auto
  next
    case False
    have "k = TERA_CONV"
    proof (rule ccontr)
      assume n: "k \<noteq> TERA_CONV"
      then have "x < 1024 * 1024 ^ k" using k(3) by (simp add: divide_less_eq)
      also have "\<dots> \<le> 1024 * 1024 ^ 3"
        using n k(2) by (intro mult_left_mono power_increasing) (simp_all add: TERA_CONV_def)
      finally show False using False by simp
    qed
    moreover from this have "9999 + 1/2 \<le> ?y" using False by (simp add: TERA_CONV_def)
    ultimately show ?thesis
      using False k(2) out unit_format_wide [of ?y "label_byte ! k"] y(3)
      by (intro exI [of _ k] exI [of _ ?y]) (auto simp: label_byte_def TERA_CONV_def)
  qed
qed

text \<open>4096 TByte, the largest value that the test program of the repository writes.\<close>

theorem unit_snprintf_adaptive_fits_witness:
  "length (unit_snprintf 11 (Fin (4096 * 1024 ^ 4)) (CHR ''A'')) \<le> 10 \<and>
   unit_snprintf 11 (Fin (4096 * 1024 ^ 4)) (CHR ''A'') = ''4096 TByte''"
proof -
  have r: "repr (4096 * 1024 ^ 4)" using repr_int [of "4096 * 1024 ^ 4"] by simp
  have "unit_snprintf 11 (Fin (4096 * 1024 ^ 4)) (CHR ''A'') = ''4096 TByte''" by code_simp
  then show ?thesis using unit_snprintf_adaptive_fits [OF r, of 11] by auto
qed

end
