(* ===== verification/Dscp.thy ===== *)
theory Dscp
  imports C_Stdlib
begin

text \<open>
  \<open>dscp.c\<close>: the table of type-of-service names, the parser of the \<open>--dscp\<close> option
  and the function that names a value.
\<close>

definition ipqos :: "(string \<times> int) list" where
  "ipqos =
     [(''af11'', 0x28), (''af12'', 0x30), (''af13'', 0x38),
      (''af21'', 0x48), (''af22'', 0x50), (''af23'', 0x58),
      (''af31'', 0x68), (''af32'', 0x70), (''af33'', 0x78),
      (''af41'', 0x88), (''af42'', 0x90), (''af43'', 0x98),
      (''cs0'', 0x00), (''cs1'', 0x20), (''cs2'', 0x40), (''cs3'', 0x60),
      (''cs4'', 0x80), (''cs5'', 0xa0), (''cs6'', 0xc0), (''cs7'', 0xe0),
      (''ef'', 0xb8), (''lowdelay'', 0x10), (''throughput'', 0x08), (''reliability'', 0x04)]"

definition strcaseeq :: "string \<Rightarrow> string \<Rightarrow> bool" where
  "strcaseeq s t \<longleftrightarrow> map tolower s = map tolower t"

fun qos_lookup :: "string \<Rightarrow> (string \<times> int) list \<Rightarrow> int option" where
  "qos_lookup cp [] = None"
| "qos_lookup cp ((name, val) # t) = (if strcaseeq cp name then Some val else qos_lookup cp t)"

text \<open>\<open>w\<close> is the width of \<open>long\<close>.\<close>

definition parse_qos :: "nat \<Rightarrow> string option \<Rightarrow> int" where
  "parse_qos w cp0 = (case cp0 of
       None \<Rightarrow> -1
     | Some cp \<Rightarrow>
         (case qos_lookup cp ipqos of
            Some val \<Rightarrow> val
          | None \<Rightarrow>
              (let (val, ep) = strtol0 w cp in
               if cp = [] \<or> ep \<noteq> [] \<or> val < 0 \<or> val > 255 then -1 else val)))"

fun tos_lookup :: "int \<Rightarrow> (string \<times> int) list \<Rightarrow> string option" where
  "tos_lookup v [] = None"
| "tos_lookup v ((name, val) # t) = (if val = v then Some name else tos_lookup v t)"

definition hex_digit :: "nat \<Rightarrow> char" where
  "hex_digit d = (if d < 10 then digit_char d else char_of (87 + int d))"

text \<open>\<open>"0x%02x"\<close> of a value below 256, cut to the four characters of the buffer.\<close>

definition hex02 :: "int \<Rightarrow> string" where
  "hex02 v = take 4 (''0x'' @ [hex_digit (nat (v div 16)), hex_digit (nat (v mod 16))])"

definition iptos2str :: "int \<Rightarrow> string" where
  "iptos2str iptos0 =
     (let iptos = (if iptos0 < 0 \<or> iptos0 > 64 then 0 else iptos0) in
      case tos_lookup iptos ipqos of Some name \<Rightarrow> name | None \<Rightarrow> hex02 iptos)"

section \<open>Properties\<close>

lemma qos_lookup_in: "qos_lookup cp t = Some v \<Longrightarrow> v \<in> snd ` set t"
  by (induction t) (auto split: if_splits)

lemma ipqos_range: "v \<in> snd ` set ipqos \<Longrightarrow> 0 \<le> v \<and> v \<le> 255"
  by (auto simp: ipqos_def)

lemma map_tolower_digits: "\<forall>c \<in> set ds. isdigit c \<Longrightarrow> map tolower ds = ds"
  by (induction ds) (auto simp: digit_not_letter)

lemma qos_lookup_none: "\<forall>(n, v) \<in> set t. \<not> strcaseeq cp n \<Longrightarrow> qos_lookup cp t = None"
  by (induction t) auto

lemma qos_lookup_number:
  assumes "\<forall>c \<in> set ds. isdigit c" "ds \<noteq> []"
  shows "qos_lookup ds ipqos = None"
proof (rule qos_lookup_none, clarify)
  fix n v assume "(n, v) \<in> set ipqos" and eq: "strcaseeq ds n"
  moreover have "\<forall>(n, v) \<in> set ipqos. \<not> isdigit (hd (map tolower n))" by code_simp
  ultimately have "\<not> isdigit (hd (map tolower n))" by blast
  moreover have "map tolower n = ds" using eq assms(1) by (simp add: strcaseeq_def map_tolower_digits)
  ultimately show False using assms by (cases ds) auto
qed

text \<open>
  A decimal number given as \<open>--dscp\<close> is taken as it is up to 255 and refused
  above, whatever the width of \<open>long\<close>.
\<close>

theorem parse_qos_number:
  assumes "16 \<le> w"
  shows "parse_qos w (Some (nat_str n)) = (if n \<le> 255 then int n else -1)"
proof -
  have "(2 :: int) ^ 15 \<le> 2 ^ (w - 1)" using assms by (intro power_increasing) auto
  then show ?thesis
    using assms strtol0_nat [of w n] qos_lookup_number [OF nat_str_digits nat_str_nonempty, of n]
    by (auto simp: parse_qos_def min_def)
qed

theorem parse_qos_number_witness: "parse_qos 64 (Some ''184'') = 184"
proof -
  have "nat_str 184 = ''184''" by code_simp
  then show ?thesis using parse_qos_number [of 64 184] by simp
qed

text \<open>
  Every name of the table, in any case, parses to its value, and a result of the parser
  is -1 or a value of one byte.
\<close>

theorem parse_qos_names:
  "map (\<lambda>(name, val). (parse_qos w (Some name), parse_qos w (Some (map toupper name)))) ipqos =
     map (\<lambda>(name, val). (val, val)) ipqos \<and>
   -1 \<le> parse_qos w cp \<and> parse_qos w cp \<le> 255"
proof -
  have t: "\<forall>(name, val) \<in> set ipqos. qos_lookup name ipqos = Some val \<and>
      qos_lookup (map toupper name) ipqos = Some val"
    by code_simp
  have "-1 \<le> parse_qos w cp \<and> parse_qos w cp \<le> 255"
    by (auto simp: parse_qos_def Let_def dest!: qos_lookup_in ipqos_range
        split: option.splits prod.splits)
  then show ?thesis using t by (auto simp: parse_qos_def)
qed

text \<open>
  \<open>iptos2str\<close> inverts the table for values up to 64 only: every name with a larger
  value (af21 and above, cs3 and above, ef) comes back as \<open>cs0\<close>.
\<close>

theorem iptos2str_table:
  "map (\<lambda>(name, val). iptos2str val) ipqos =
   map (\<lambda>(name, val). if val \<le> 64 then name else ''cs0'') ipqos"
  by code_simp

end
