(* ===== verification/Net.thy ===== *)
theory Net
  imports C_Stdlib "HOL-Library.State_Monad"
begin

unbundle bit_operations_syntax

text \<open>
  \<open>net.c\<close>: connecting, listening, and the loops that read, write and send whole blocks.
  The operating system is a parameter: a function from a system call and the state of the
  outside world to the call's answer and the new world. Every call made is recorded with
  its answer, so that the lemmas can say which resources a function has acquired and
  released, whatever the system answers.
\<close>

section \<open>System calls\<close>

text \<open>
  A socket address: that of an \<open>addrinfo\<close> (with its port replaced or not), or the
  wildcard address of a family and a port.
\<close>

datatype sockaddr = AiAddr int "int option" | AnyAddr int int

datatype syscall =
    Read int nat
  | Write int "u8 list"
  | Sendfile int int int nat
  | Socket int int
  | Bind int sockaddr
  | Connect int sockaddr
  | Listen int
  | Close int
  | Fcntl_getfl int
  | Fcntl_setfl int int
  | Poll int int
  | Setsockopt int string int
  | Getsockopt int string
  | Getaddrinfo "string option" "string option" int int int
  | Freeaddrinfo int
  | Getsockname int
  | Recvfrom int nat
  | Recv int nat
  | Accept int
  | Select int "int set" "int set" "(int \<times> int) option"
  | Clock_gettime
  | Getpeername int
  | Tcp_info int
  | Mkstemp
  | Unlink
  | Ftruncate int int
  | Mmap int int
  | Munmap int
  | Open string int
  | Fsync int
  | Fread_random nat
  | Clock
  | Getrusage
  | Malloc

text \<open>
  An answer: the returned integer, \<open>errno\<close> (meaningful when the call failed), the bytes
  delivered, an integer delivered through a pointer (an option's value, an
  \<open>addrinfo\<close>, the seconds of a clock, an address), a second one (an address family, the nanoseconds of a
  clock), the descriptors that \<open>select\<close> reports, and the fields of a delivered structure.
\<close>

record sysres =
  s_ret :: int
  s_err :: int
  s_bytes :: "u8 list"
  s_val :: int
  s_fam :: int
  s_rset :: "int set"
  s_wset :: "int set"
  s_vals :: "int list"

type_synonym 'w os = "syscall \<Rightarrow> 'w \<Rightarrow> sysres \<times> 'w"

record 'w net =
  world :: 'w
  errno :: int
  gerror :: int
  calls :: "(syscall \<times> sysres) list"

type_synonym ('w, 'a) io = "('w net, 'a) state"

abbreviation ret :: "'a \<Rightarrow> ('w, 'a) io" where
  "ret \<equiv> State_Monad.return"

definition sys :: "'w os \<Rightarrow> syscall \<Rightarrow> ('w, sysres) io" where
  "sys os c = State (\<lambda>s.
     let (a, w) = os c (world s)
     in (a, s\<lparr>world := w, errno := (if s_ret a < 0 then s_err a else errno s),
              calls := calls s @ [(c, a)]\<rparr>))"

definition get_errno :: "('w, int) io" where
  "get_errno = State (\<lambda>s. (errno s, s))"

definition set_errno :: "int \<Rightarrow> ('w, unit) io" where
  "set_errno e = State (\<lambda>s. ((), s\<lparr>errno := e\<rparr>))"

definition set_gerror :: "int \<Rightarrow> ('w, unit) io" where
  "set_gerror e = State (\<lambda>s. ((), s\<lparr>gerror := e\<rparr>))"

definition EINTR :: int where "EINTR = 4"
definition EAGAIN :: int where "EAGAIN = 11"
definition ENOMEM :: int where "ENOMEM = 12"
definition EAFNOSUPPORT :: int where "EAFNOSUPPORT = 97"
definition ENOBUFS :: int where "ENOBUFS = 105"
definition ETIMEDOUT :: int where "ETIMEDOUT = 110"
definition EINPROGRESS :: int where "EINPROGRESS = 115"
definition AF_UNSPEC :: int where "AF_UNSPEC = 0"
definition AF_INET :: int where "AF_INET = 2"
definition AF_INET6 :: int where "AF_INET6 = 10"
definition SOCK_STREAM :: int where "SOCK_STREAM = 1"
definition SOCK_DGRAM :: int where "SOCK_DGRAM = 2"
definition O_NONBLOCK :: int where "O_NONBLOCK = 2048"
definition AI_PASSIVE :: int where "AI_PASSIVE = 1"
definition NET_SOFTERROR :: int where "NET_SOFTERROR = -1"
definition NET_HARDERROR :: int where "NET_HARDERROR = -2"

text \<open>The port a 16-bit \<open>sin_port\<close> field holds.\<close>

definition htons_port :: "int \<Rightarrow> int" where
  "htons_port p = p mod 65536"

section \<open>Connecting and listening\<close>

definition timeout_connect :: "'w os \<Rightarrow> int \<Rightarrow> sockaddr \<Rightarrow> int \<Rightarrow> ('w, int) io" where
  "timeout_connect os s name timeout = do {
     flags \<leftarrow> (if timeout \<noteq> -1 then do { r \<leftarrow> sys os (Fcntl_getfl s); ret (s_ret r) } else ret 0);
     fail \<leftarrow> (if timeout \<noteq> -1
              then do { r \<leftarrow> sys os (Fcntl_setfl s (flags OR O_NONBLOCK)); ret (s_ret r = -1) }
              else ret False);
     if fail then ret (-1)
     else do {
       r \<leftarrow> sys os (Connect s name);
       e \<leftarrow> get_errno;
       rc \<leftarrow> (if s_ret r \<noteq> 0 \<and> e = EINPROGRESS then do {
                p \<leftarrow> sys os (Poll s timeout);
                if s_ret p = 1 then do {
                  g \<leftarrow> sys os (Getsockopt s ''SO_ERROR'');
                  if s_ret g = 0 then do {
                    _ \<leftarrow> set_errno (s_val g);
                    ret (if s_val g = 0 then 0 else -1)
                  } else ret (s_ret g)
                } else if s_ret p = 0 then do {
                  _ \<leftarrow> set_errno ETIMEDOUT;
                  ret (-1)
                } else ret (-1)
              } else ret (s_ret r));
       if timeout \<noteq> -1 then do {
         f \<leftarrow> sys os (Fcntl_setfl s flags);
         ret (if s_ret f = -1 then -1 else rc)
       } else ret rc
     }
   }"

text \<open>
  \<open>close\<close>, freeing of the results \<open>ais\<close> and restoring of \<open>errno\<close>, as the error exits
  do it.
\<close>

fun free_all :: "'w os \<Rightarrow> int list \<Rightarrow> ('w, unit) io" where
  "free_all os [] = ret ()"
| "free_all os (a # as) = do { _ \<leftarrow> sys os (Freeaddrinfo a); free_all os as }"

definition close_fail :: "'w os \<Rightarrow> int \<Rightarrow> int list \<Rightarrow> ('w, int) io" where
  "close_fail os s ais = do {
     saved_errno \<leftarrow> get_errno;
     _ \<leftarrow> sys os (Close s);
     _ \<leftarrow> free_all os ais;
     _ \<leftarrow> set_errno saved_errno;
     ret (-1)
   }"

text \<open>The last part of \<open>netdial\<close>, once the socket is bound: connect and return it.\<close>

definition netdial_connect :: "'w os \<Rightarrow> int \<Rightarrow> sysres \<Rightarrow> int \<Rightarrow> int \<Rightarrow> ('w, int) io" where
  "netdial_connect os s server_res port timeout = do {
     r \<leftarrow> timeout_connect os s (AiAddr (s_val server_res) (Some (htons_port port))) timeout;
     e \<leftarrow> get_errno;
     if r < 0 \<and> e \<noteq> EINPROGRESS then close_fail os s [s_val server_res]
     else do {
       _ \<leftarrow> sys os (Freeaddrinfo (s_val server_res));
       ret s
     }
   }"


text \<open>
  \<open>netdial\<close> from the creation of the socket on: \<open>lres\<close> is the resolved local address when a
  local name was given.
\<close>

definition netdial_socket ::
  "'w os \<Rightarrow> int \<Rightarrow> sysres option \<Rightarrow> int \<Rightarrow> sysres \<Rightarrow> int \<Rightarrow> int \<Rightarrow> ('w, int) io" where
  "netdial_socket os proto lres local_port server_res port timeout = do {
     sk \<leftarrow> sys os (Socket (s_fam server_res) proto);
     if s_ret sk < 0 then do {
       _ \<leftarrow> (case lres of Some l \<Rightarrow> free_all os [s_val l] | None \<Rightarrow> ret ());
       _ \<leftarrow> sys os (Freeaddrinfo (s_val server_res));
       ret (-1)
     } else (case lres of
       Some l \<Rightarrow> do {
         b \<leftarrow> sys os (Bind (s_ret sk) (AiAddr (s_val l)
                (if local_port \<noteq> 0 then Some (htons_port local_port) else None)));
         if s_ret b < 0 then close_fail os (s_ret sk) [s_val l, s_val server_res]
         else do {
           _ \<leftarrow> sys os (Freeaddrinfo (s_val l));
           netdial_connect os (s_ret sk) server_res port timeout
         }
       }
     | None \<Rightarrow>
         if local_port \<noteq> 0 then
           if s_fam server_res = AF_INET \<or> s_fam server_res = AF_INET6 then do {
             b \<leftarrow> sys os (Bind (s_ret sk) (AnyAddr (s_fam server_res) (htons_port local_port)));
             if s_ret b < 0 then close_fail os (s_ret sk) [s_val server_res]
             else netdial_connect os (s_ret sk) server_res port timeout
           } else do {
             _ \<leftarrow> set_errno EAFNOSUPPORT;
             ret (-1)
           }
         else netdial_connect os (s_ret sk) server_res port timeout)
   }"

definition netdial ::
  "'w os \<Rightarrow> int \<Rightarrow> int \<Rightarrow> string option \<Rightarrow> int \<Rightarrow> string \<Rightarrow> int \<Rightarrow> int \<Rightarrow> ('w, int) io" where
  "netdial os domain proto local local_port server port timeout = do {
     lres \<leftarrow> (case local of
         None \<Rightarrow> ret (Some None)
       | Some l \<Rightarrow> do {
           r \<leftarrow> sys os (Getaddrinfo (Some l) None domain proto 0);
           _ \<leftarrow> set_gerror (s_ret r);
           ret (if s_ret r \<noteq> 0 then None else Some (Some r))
         });
     case lres of
       None \<Rightarrow> ret (-1)
     | Some lr \<Rightarrow> do {
         r \<leftarrow> sys os (Getaddrinfo (Some server) None domain proto 0);
         _ \<leftarrow> set_gerror (s_ret r);
         if s_ret r \<noteq> 0 then ret (-1)
         else netdial_socket os proto lr local_port r port timeout
       }
   }"

text \<open>
  \<open>netannounce\<close> once the address is resolved. The port is passed to \<open>getaddrinfo\<close> as a
  string of at most five characters (\<open>portstr\<close> has six bytes).
\<close>

definition netannounce_socket :: "'w os \<Rightarrow> int \<Rightarrow> int \<Rightarrow> sysres \<Rightarrow> ('w, int) io" where
  "netannounce_socket os domain proto res = do {
     sk \<leftarrow> sys os (Socket (s_fam res) proto);
     if s_ret sk < 0 then do {
       _ \<leftarrow> sys os (Freeaddrinfo (s_val res));
       ret (-1)
     } else do {
       o1 \<leftarrow> sys os (Setsockopt (s_ret sk) ''SO_REUSEADDR'' 1);
       if s_ret o1 < 0 then close_fail os (s_ret sk) [s_val res]
       else do {
         o2 \<leftarrow> (if s_fam res = AF_INET6 \<and> (domain = AF_UNSPEC \<or> domain = AF_INET6)
                then do {
                  r \<leftarrow> sys os (Setsockopt (s_ret sk) ''IPV6_V6ONLY''
                                 (if domain = AF_UNSPEC then 0 else 1));
                  ret (s_ret r)
                } else ret 0);
         if o2 < 0 then close_fail os (s_ret sk) [s_val res]
         else do {
           b \<leftarrow> sys os (Bind (s_ret sk) (AiAddr (s_val res) None));
           if s_ret b < 0 then close_fail os (s_ret sk) [s_val res]
           else do {
             _ \<leftarrow> sys os (Freeaddrinfo (s_val res));
             if proto = SOCK_STREAM then do {
               l \<leftarrow> sys os (Listen (s_ret sk));
               if s_ret l < 0 then close_fail os (s_ret sk) [] else ret (s_ret sk)
             } else ret (s_ret sk)
           }
         }
       }
     }
   }"

definition netannounce ::
  "'w os \<Rightarrow> int \<Rightarrow> int \<Rightarrow> string option \<Rightarrow> int \<Rightarrow> ('w, int) io" where
  "netannounce os domain proto local port = do {
     r \<leftarrow> sys os (Getaddrinfo local (Some (take 5 (int_str port)))
            (if domain = AF_UNSPEC \<and> local = None then AF_INET6 else domain) proto AI_PASSIVE);
     _ \<leftarrow> set_gerror (s_ret r);
     if s_ret r \<noteq> 0 then ret (-1) else netannounce_socket os domain proto r
   }"

definition setnonblocking :: "'w os \<Rightarrow> int \<Rightarrow> bool \<Rightarrow> ('w, int) io" where
  "setnonblocking os fd nonblocking = do {
     r \<leftarrow> sys os (Fcntl_getfl fd);
     if s_ret r < 0 then ret (-1)
     else
       let flags = s_ret r;
           newflags = (if nonblocking then flags OR O_NONBLOCK else flags AND NOT O_NONBLOCK)
       in if newflags \<noteq> flags then do {
            r2 \<leftarrow> sys os (Fcntl_setfl fd newflags);
            ret (if s_ret r2 < 0 then -1 else 0)
          } else ret 0
   }"

definition getsockdomain :: "'w os \<Rightarrow> int \<Rightarrow> ('w, int) io" where
  "getsockdomain os sock = do {
     r \<leftarrow> sys os (Getsockname sock);
     ret (if s_ret r < 0 then -1 else s_fam r)
   }"

section \<open>Reading and writing whole blocks\<close>

text \<open>
  The loops of \<open>Nread\<close>, \<open>Nwrite\<close> and \<open>Nsendfile\<close>. \<open>nleft\<close> is a natural number: with a system
  that answers at most what it was asked for (\<open>io_law\<close>), the subtraction is that of
  \<open>size_t\<close>. A loop returns the error code, if any, what is left, and for \<open>Nread\<close> the bytes
  stored in the buffer. The returned counts are converted to \<open>int\<close>.
\<close>

definition c_int :: "int \<Rightarrow> int" where
  "c_int n = sint (word_of_int n :: u32)"

lemma c_int_id: "- (2 ^ 31) \<le> n \<Longrightarrow> n < 2 ^ 31 \<Longrightarrow> c_int n = n"
  by (simp add: c_int_def sint_sbintrunc' signed_take_bit_int_eq_self)

function Nread_loop ::
  "'w os \<Rightarrow> int \<Rightarrow> nat \<Rightarrow> u8 list \<Rightarrow> 'w net \<Rightarrow> (int option \<times> nat \<times> u8 list) \<times> 'w net" where
  "Nread_loop os fd nleft buf s =
     (if nleft = 0 then ((None, nleft, buf), s)
      else let (r, s1) = run_state (sys os (Read fd nleft)) s in
        if s_ret r < 0 then
          if errno s1 = EINTR \<or> errno s1 = EAGAIN then ((None, nleft, buf), s1)
          else ((Some NET_HARDERROR, nleft, buf), s1)
        else if s_ret r = 0 then ((None, nleft, buf), s1)
        else Nread_loop os fd (nleft - nat (s_ret r)) (buf @ s_bytes r) s1)"
  by pat_completeness auto
termination by (relation "measure (\<lambda>(os, fd, nleft, buf, s). nleft)") auto

definition Nread :: "'w os \<Rightarrow> int \<Rightarrow> nat \<Rightarrow> ('w, int \<times> u8 list) io" where
  "Nread os fd count = State (\<lambda>s.
     let ((e, nleft, buf), s') = Nread_loop os fd count [] s
     in ((case e of Some h \<Rightarrow> h | None \<Rightarrow> c_int (int (count - nleft)), buf), s'))"

function Nwrite_loop ::
  "'w os \<Rightarrow> int \<Rightarrow> u8 list \<Rightarrow> nat \<Rightarrow> 'w net \<Rightarrow> int \<times> 'w net" where
  "Nwrite_loop os fd data nleft s =
     (let count = length data in
      if nleft = 0 then (c_int (int count), s)
      else let (r, s1) = run_state (sys os (Write fd (drop (count - nleft) data))) s in
        if s_ret r < 0 then
          if errno s1 = EINTR \<or> errno s1 = EAGAIN then (c_int (int (count - nleft)), s1)
          else if errno s1 = ENOBUFS then (NET_SOFTERROR, s1)
          else (NET_HARDERROR, s1)
        else if s_ret r = 0 then (NET_SOFTERROR, s1)
        else Nwrite_loop os fd data (nleft - nat (s_ret r)) s1)"
  by pat_completeness auto
termination by (relation "measure (\<lambda>(os, fd, data, nleft, s). nleft)") auto

definition Nwrite :: "'w os \<Rightarrow> int \<Rightarrow> u8 list \<Rightarrow> ('w, int) io" where
  "Nwrite os fd data = State (\<lambda>s. Nwrite_loop os fd data (length data) s)"

definition has_sendfile :: int where
  "has_sendfile = 1"

function Nsendfile_loop ::
  "'w os \<Rightarrow> int \<Rightarrow> int \<Rightarrow> nat \<Rightarrow> nat \<Rightarrow> 'w net \<Rightarrow> int \<times> 'w net" where
  "Nsendfile_loop os fromfd tofd count nleft s =
     (if nleft = 0 then (c_int (int count), s)
      else let (r, s1) = run_state (sys os (Sendfile tofd fromfd (int (count - nleft)) nleft)) s in
        if s_ret r < 0 then
          if errno s1 = EINTR \<or> errno s1 = EAGAIN then
            if count = nleft then (NET_SOFTERROR, s1) else (c_int (int (count - nleft)), s1)
          else if errno s1 = ENOBUFS \<or> errno s1 = ENOMEM then (NET_SOFTERROR, s1)
          else (NET_HARDERROR, s1)
        else if s_ret r = 0 then (NET_SOFTERROR, s1)
        else Nsendfile_loop os fromfd tofd count (nleft - nat (s_ret r)) s1)"
  by pat_completeness auto
termination by (relation "measure (\<lambda>(os, fromfd, tofd, count, nleft, s). nleft)") auto

definition Nsendfile :: "'w os \<Rightarrow> int \<Rightarrow> int \<Rightarrow> nat \<Rightarrow> ('w, int) io" where
  "Nsendfile os fromfd tofd count = State (\<lambda>s. Nsendfile_loop os fromfd tofd count count s)"

declare Nread_loop.simps [simp del]
declare Nwrite_loop.simps [simp del]
declare Nsendfile_loop.simps [simp del]

section \<open>Weakest preconditions\<close>

text \<open>
  \<open>wp m Q s\<close>: running \<open>m\<close> from \<open>s\<close> ends in a result and a state that satisfy \<open>Q\<close>. The rule for
  a system call leaves its answer arbitrary.
\<close>

definition wp :: "('w, 'a) io \<Rightarrow> ('a \<Rightarrow> 'w net \<Rightarrow> bool) \<Rightarrow> 'w net \<Rightarrow> bool" where
  "wp m Q s = (case run_state m s of (r, s') \<Rightarrow> Q r s')"

abbreviation after_call :: "syscall \<Rightarrow> 'w net \<Rightarrow> sysres \<Rightarrow> 'w \<Rightarrow> 'w net" where
  "after_call c s a w \<equiv>
     s\<lparr>world := w, errno := (if s_ret a < 0 then s_err a else errno s),
       calls := calls s @ [(c, a)]\<rparr>"

lemma run_sys:
  "run_state (sys os c) s = (let (a, w) = os c (world s) in (a, after_call c s a w))"
  by (simp add: sys_def)

lemma wp_bind [c_simps]: "wp (m \<bind> f) Q s = wp m (\<lambda>r. wp (f r) Q) s"
  by (simp add: wp_def split: prod.splits)

lemma wp_ret [c_simps]: "wp (ret x) Q s = Q x s"
  by (simp add: wp_def)

lemma wp_get_errno [c_simps]: "wp get_errno Q s = Q (errno s) s"
  by (simp add: wp_def get_errno_def)

lemma wp_set_errno [c_simps]: "wp (set_errno e) Q s = Q () (s\<lparr>errno := e\<rparr>)"
  by (simp add: wp_def set_errno_def)

lemma wp_set_gerror [c_simps]: "wp (set_gerror e) Q s = Q () (s\<lparr>gerror := e\<rparr>)"
  by (simp add: wp_def set_gerror_def)

lemma wp_sys: "(\<And>a w. Q a (after_call c s a w)) \<Longrightarrow> wp (sys os c) Q s"
  by (simp add: wp_def run_sys split: prod.splits)

lemma wp_sys_law:
  assumes "\<And>a w. os c (world s) = (a, w) \<Longrightarrow> Q a (after_call c s a w)"
  shows "wp (sys os c) Q s"
  using assms by (simp add: wp_def run_sys split: prod.splits)

lemma wp_if [c_simps]: "wp (if b then m else n) Q s = ((b \<longrightarrow> wp m Q s) \<and> (\<not> b \<longrightarrow> wp n Q s))"
  by simp

lemma wp_run: "wp m Q s \<Longrightarrow> run_state m s = (r, s') \<Longrightarrow> Q r s'"
  by (simp add: wp_def)

lemma wp_I: "(\<And>r s'. run_state m s = (r, s') \<Longrightarrow> Q r s') \<Longrightarrow> wp m Q s"
  by (simp add: wp_def split: prod.splits)

lemma wp_mono: "wp m Q s \<Longrightarrow> (\<And>r s'. Q r s' \<Longrightarrow> R r s') \<Longrightarrow> wp m R s"
  by (auto simp: wp_def)
end
