(* ===== verification/Json.thy ===== *)
theory Json
  imports C_Stdlib
begin

unbundle bit_operations_syntax

text \<open>
  The data of \<open>cjson.c\<close>: the item (\<open>struct cJSON\<close>) with its type flags, the constructors and
  the queries. An item is a tree; the chain of children linked by \<open>next\<close> and \<open>prev\<close> is the
  list \<open>child\<close> of the parent. A C string is a list of characters without its
  terminator, \<open>NULL\<close> is \<^const>\<open>None\<close>. \<open>can n\<close> says whether the allocation of \<open>n\<close> bytes succeeds.
\<close>

section \<open>Items\<close>

definition cJSON_Invalid :: int where "cJSON_Invalid = 0"
definition cJSON_False :: int where "cJSON_False = 1"
definition cJSON_True :: int where "cJSON_True = 2"
definition cJSON_NULL :: int where "cJSON_NULL = 4"
definition cJSON_Number :: int where "cJSON_Number = 8"
definition cJSON_String :: int where "cJSON_String = 16"
definition cJSON_Array :: int where "cJSON_Array = 32"
definition cJSON_Object :: int where "cJSON_Object = 64"
definition cJSON_Raw :: int where "cJSON_Raw = 128"
definition cJSON_IsReference :: int where "cJSON_IsReference = 256"
definition cJSON_StringIsConst :: int where "cJSON_StringIsConst = 512"

lemmas json_types = cJSON_Invalid_def cJSON_False_def cJSON_True_def cJSON_NULL_def
  cJSON_Number_def cJSON_String_def cJSON_Array_def cJSON_Object_def cJSON_Raw_def
  cJSON_IsReference_def cJSON_StringIsConst_def

datatype cJSON = Item
  (jtype: int)
  (valuestring: "string option")
  (valueint: int)
  (valuedouble: double)
  (jstring: "string option")
  (child: "cJSON list")

definition sizeof_cJSON :: nat where
  "sizeof_cJSON = 64"

text \<open>Field assignments.\<close>

primrec set_type :: "int \<Rightarrow> cJSON \<Rightarrow> cJSON" where
  "set_type t (Item _ vs vi vd s c) = Item t vs vi vd s c"
primrec set_valuestring :: "string option \<Rightarrow> cJSON \<Rightarrow> cJSON" where
  "set_valuestring v (Item t _ vi vd s c) = Item t v vi vd s c"
primrec set_valueint :: "int \<Rightarrow> cJSON \<Rightarrow> cJSON" where
  "set_valueint v (Item t vs _ vd s c) = Item t vs v vd s c"
primrec set_valuedouble :: "double \<Rightarrow> cJSON \<Rightarrow> cJSON" where
  "set_valuedouble v (Item t vs vi _ s c) = Item t vs vi v s c"
primrec set_string :: "string option \<Rightarrow> cJSON \<Rightarrow> cJSON" where
  "set_string v (Item t vs vi vd _ c) = Item t vs vi vd v c"
primrec set_child :: "cJSON list \<Rightarrow> cJSON \<Rightarrow> cJSON" where
  "set_child v (Item t vs vi vd s _) = Item t vs vi vd s v"

definition cJSON_blank :: cJSON where
  "cJSON_blank = Item cJSON_Invalid None 0 (Fin 0) None []"

definition cJSON_New_Item :: "(nat \<Rightarrow> bool) \<Rightarrow> cJSON option" where
  "cJSON_New_Item can = (if can sizeof_cJSON then Some cJSON_blank else None)"

definition cJSON_strdup :: "(nat \<Rightarrow> bool) \<Rightarrow> string option \<Rightarrow> string option" where
  "cJSON_strdup can s = (case s of None \<Rightarrow> None
     | Some t \<Rightarrow> if can (length t + 1) then Some t else None)"

text \<open>
  \<open>case_insensitive_strcmp\<close> of two strings that are not the same object: the difference of the
  first characters (or the terminators) that differ in lower case.
\<close>

fun ci_cmp :: "string \<Rightarrow> string \<Rightarrow> int" where
  "ci_cmp [] [] = 0"
| "ci_cmp [] (d # ds) = 0 - chr_code (tolower d)"
| "ci_cmp (c # cs) [] = chr_code (tolower c)"
| "ci_cmp (c # cs) (d # ds) =
     (if tolower c = tolower d then ci_cmp cs ds else chr_code (tolower c) - chr_code (tolower d))"

definition case_insensitive_strcmp :: "string option \<Rightarrow> string option \<Rightarrow> int" where
  "case_insensitive_strcmp s1 s2 = (case (s1, s2) of (Some a, Some b) \<Rightarrow> ci_cmp a b | _ \<Rightarrow> 1)"

text \<open>A double as the 64-bit \<open>valueint\<close>: saturated.\<close>

definition LLONG_MAX :: int where "LLONG_MAX = 9223372036854775807"
definition LLONG_MIN :: int where "LLONG_MIN = -9223372036854775808"

definition saturate :: "double \<Rightarrow> int" where
  "saturate d =
     (if dle (d_of_int LLONG_MAX) d then LLONG_MAX
      else if dle d (d_of_int LLONG_MIN) then LLONG_MIN
      else case dtrunc d of Some n \<Rightarrow> n | None \<Rightarrow> 0)"

definition cJSON_SetNumberHelper :: "cJSON \<Rightarrow> double \<Rightarrow> cJSON \<times> double" where
  "cJSON_SetNumberHelper object number =
     (set_valuedouble number (set_valueint (saturate number) object), number)"

section \<open>Constructors\<close>

definition cJSON_CreateNull :: "(nat \<Rightarrow> bool) \<Rightarrow> cJSON option" where
  "cJSON_CreateNull can = map_option (set_type cJSON_NULL) (cJSON_New_Item can)"

definition cJSON_CreateTrue :: "(nat \<Rightarrow> bool) \<Rightarrow> cJSON option" where
  "cJSON_CreateTrue can = map_option (set_type cJSON_True) (cJSON_New_Item can)"

definition cJSON_CreateFalse :: "(nat \<Rightarrow> bool) \<Rightarrow> cJSON option" where
  "cJSON_CreateFalse can = map_option (set_type cJSON_False) (cJSON_New_Item can)"

definition cJSON_CreateBool :: "(nat \<Rightarrow> bool) \<Rightarrow> bool \<Rightarrow> cJSON option" where
  "cJSON_CreateBool can b =
     map_option (set_type (if b then cJSON_True else cJSON_False)) (cJSON_New_Item can)"

definition cJSON_CreateNumber :: "(nat \<Rightarrow> bool) \<Rightarrow> double \<Rightarrow> cJSON option" where
  "cJSON_CreateNumber can num =
     map_option (\<lambda>item. set_valueint (saturate num) (set_valuedouble num (set_type cJSON_Number item)))
       (cJSON_New_Item can)"

definition cJSON_CreateText :: "(nat \<Rightarrow> bool) \<Rightarrow> int \<Rightarrow> string option \<Rightarrow> cJSON option" where
  "cJSON_CreateText can t s =
     (case cJSON_New_Item can of None \<Rightarrow> None
      | Some item \<Rightarrow> (case cJSON_strdup can s of None \<Rightarrow> None
          | Some c \<Rightarrow> Some (set_valuestring (Some c) (set_type t item))))"

definition cJSON_CreateString :: "(nat \<Rightarrow> bool) \<Rightarrow> string option \<Rightarrow> cJSON option" where
  "cJSON_CreateString can s = cJSON_CreateText can cJSON_String s"

definition cJSON_CreateRaw :: "(nat \<Rightarrow> bool) \<Rightarrow> string option \<Rightarrow> cJSON option" where
  "cJSON_CreateRaw can s = cJSON_CreateText can cJSON_Raw s"

definition cJSON_CreateArray :: "(nat \<Rightarrow> bool) \<Rightarrow> cJSON option" where
  "cJSON_CreateArray can = map_option (set_type cJSON_Array) (cJSON_New_Item can)"

definition cJSON_CreateObject :: "(nat \<Rightarrow> bool) \<Rightarrow> cJSON option" where
  "cJSON_CreateObject can = map_option (set_type cJSON_Object) (cJSON_New_Item can)"

text \<open>
  The loop shared by the four array constructors: \<open>mk\<close> makes the item of an element, and each
  item is appended to the list so far.
\<close>

fun fill_array :: "('a \<Rightarrow> cJSON option) \<Rightarrow> 'a list \<Rightarrow> cJSON \<Rightarrow> cJSON option" where
  "fill_array mk_item [] a = Some a"
| "fill_array mk_item (x # xs) a = (case mk_item x of
       None \<Rightarrow> None
     | Some n \<Rightarrow> fill_array mk_item xs (set_child (child a @ [n]) a))"

definition cJSON_CreateIntArray :: "(nat \<Rightarrow> bool) \<Rightarrow> int list \<Rightarrow> int \<Rightarrow> cJSON option" where
  "cJSON_CreateIntArray can numbers n =
     (if n < 0 then None
      else Option.bind (cJSON_CreateArray can)
             (fill_array (\<lambda>x. cJSON_CreateNumber can (d_of_int x)) (take (nat n) numbers)))"

definition cJSON_CreateDoubleArray :: "(nat \<Rightarrow> bool) \<Rightarrow> double list \<Rightarrow> int \<Rightarrow> cJSON option" where
  "cJSON_CreateDoubleArray can numbers n =
     (if n < 0 then None
      else Option.bind (cJSON_CreateArray can)
             (fill_array (cJSON_CreateNumber can) (take (nat n) numbers)))"

definition cJSON_CreateStringArray :: "(nat \<Rightarrow> bool) \<Rightarrow> string option list \<Rightarrow> int \<Rightarrow> cJSON option" where
  "cJSON_CreateStringArray can strings n =
     (if n < 0 then None
      else Option.bind (cJSON_CreateArray can)
             (fill_array (cJSON_CreateString can) (take (nat n) strings)))"

section \<open>Queries\<close>

definition type_is :: "int \<Rightarrow> cJSON option \<Rightarrow> bool" where
  "type_is t item = (case item of None \<Rightarrow> False | Some i \<Rightarrow> jtype i AND 255 = t)"

definition cJSON_IsInvalid :: "cJSON option \<Rightarrow> bool" where "cJSON_IsInvalid = type_is cJSON_Invalid"
definition cJSON_IsFalse :: "cJSON option \<Rightarrow> bool" where "cJSON_IsFalse = type_is cJSON_False"
definition cJSON_IsTrue :: "cJSON option \<Rightarrow> bool" where "cJSON_IsTrue = type_is cJSON_True"
definition cJSON_IsBool :: "cJSON option \<Rightarrow> bool" where
  "cJSON_IsBool item = (case item of None \<Rightarrow> False
     | Some i \<Rightarrow> jtype i AND (cJSON_True OR cJSON_False) \<noteq> 0)"
definition cJSON_IsNull :: "cJSON option \<Rightarrow> bool" where "cJSON_IsNull = type_is cJSON_NULL"
definition cJSON_IsNumber :: "cJSON option \<Rightarrow> bool" where "cJSON_IsNumber = type_is cJSON_Number"
definition cJSON_IsString :: "cJSON option \<Rightarrow> bool" where "cJSON_IsString = type_is cJSON_String"
definition cJSON_IsArray :: "cJSON option \<Rightarrow> bool" where "cJSON_IsArray = type_is cJSON_Array"
definition cJSON_IsObject :: "cJSON option \<Rightarrow> bool" where "cJSON_IsObject = type_is cJSON_Object"
definition cJSON_IsRaw :: "cJSON option \<Rightarrow> bool" where "cJSON_IsRaw = type_is cJSON_Raw"

definition cJSON_GetArraySize :: "cJSON \<Rightarrow> int" where
  "cJSON_GetArraySize a = sint (word_of_int (int (length (child a))) :: u32)"

fun get_nth :: "cJSON list \<Rightarrow> nat \<Rightarrow> cJSON option" where
  "get_nth [] i = None"
| "get_nth (c # cs) i = (if i > 0 then get_nth cs (i - 1) else Some c)"

definition get_array_item :: "cJSON option \<Rightarrow> nat \<Rightarrow> cJSON option" where
  "get_array_item a i = (case a of None \<Rightarrow> None | Some x \<Rightarrow> get_nth (child x) i)"

definition cJSON_GetArrayItem :: "cJSON option \<Rightarrow> int \<Rightarrow> cJSON option" where
  "cJSON_GetArrayItem a i = (if i < 0 then None else get_array_item a (nat i))"

text \<open>
  The search of \<open>get_object_item\<close>. With case sensitivity \<open>strcmp\<close> is called on the key of every
  element passed, which has to be there: \<^const>\<open>None\<close> is the access through \<open>NULL\<close>.
\<close>

fun find_key :: "bool \<Rightarrow> string \<Rightarrow> cJSON list \<Rightarrow> cJSON option option" where
  "find_key cs name [] = Some None"
| "find_key cs name (e # es) =
     (if cs then (case jstring e of None \<Rightarrow> None
                  | Some k \<Rightarrow> if name = k then Some (Some e) else find_key cs name es)
      else if case_insensitive_strcmp (Some name) (jstring e) = 0 then Some (Some e)
      else find_key cs name es)"

definition get_object_item :: "cJSON option \<Rightarrow> string option \<Rightarrow> bool \<Rightarrow> cJSON option option" where
  "get_object_item obj name cs = (case (obj, name) of
       (Some ob, Some n) \<Rightarrow> find_key cs n (child ob)
     | _ \<Rightarrow> Some None)"

text \<open>Without case sensitivity the search never reaches through \<open>NULL\<close>.\<close>

lemma find_key_ci: "\<exists>r. find_key False name cs = Some r"
  by (induction cs) auto

definition cJSON_GetObjectItem :: "cJSON option \<Rightarrow> string option \<Rightarrow> cJSON option" where
  "cJSON_GetObjectItem obj name = Option.bind (get_object_item obj name False) id"

definition cJSON_GetObjectItemCaseSensitive :: "cJSON option \<Rightarrow> string option \<Rightarrow> cJSON option option" where
  "cJSON_GetObjectItemCaseSensitive obj name = get_object_item obj name True"

definition cJSON_HasObjectItem :: "cJSON option \<Rightarrow> string option \<Rightarrow> bool" where
  "cJSON_HasObjectItem obj name = (cJSON_GetObjectItem obj name \<noteq> None)"

section \<open>Building\<close>

definition cJSON_AddItemToArray :: "cJSON option \<Rightarrow> cJSON option \<Rightarrow> cJSON option" where
  "cJSON_AddItemToArray array item = (case (array, item) of
       (Some a, Some i) \<Rightarrow> Some (set_child (child a @ [i]) a)
     | _ \<Rightarrow> array)"

definition cJSON_AddItemToObjectCS :: "cJSON option \<Rightarrow> string option \<Rightarrow> cJSON option \<Rightarrow> cJSON option" where
  "cJSON_AddItemToObjectCS object key item = (case item of
       None \<Rightarrow> object
     | Some i \<Rightarrow> cJSON_AddItemToArray object
         (Some (set_type (jtype i OR cJSON_StringIsConst) (set_string key i))))"

text \<open>
  \<open>cJSON_AddItemToObject\<close> clears the constant-key flag of the item after it was linked in; a
  missing item is dereferenced there (\<^const>\<open>None\<close>).
\<close>

definition cJSON_AddItemToObject ::
  "(nat \<Rightarrow> bool) \<Rightarrow> cJSON option \<Rightarrow> string option \<Rightarrow> cJSON option \<Rightarrow> cJSON option option" where
  "cJSON_AddItemToObject can object key item = (case item of
       None \<Rightarrow> None
     | Some i \<Rightarrow> Some (cJSON_AddItemToArray object
         (Some (set_type ((jtype i OR cJSON_StringIsConst) AND NOT cJSON_StringIsConst)
            (set_string (cJSON_strdup can key) i)))))"

definition create_reference :: "(nat \<Rightarrow> bool) \<Rightarrow> cJSON \<Rightarrow> cJSON option" where
  "create_reference can item = (case cJSON_New_Item can of None \<Rightarrow> None
     | Some _ \<Rightarrow> Some (set_type (jtype item OR cJSON_IsReference) (set_string None item)))"

definition cJSON_AddItemReferenceToArray ::
  "(nat \<Rightarrow> bool) \<Rightarrow> cJSON option \<Rightarrow> cJSON \<Rightarrow> cJSON option" where
  "cJSON_AddItemReferenceToArray can array item =
     cJSON_AddItemToArray array (create_reference can item)"

definition cJSON_AddItemReferenceToObject ::
  "(nat \<Rightarrow> bool) \<Rightarrow> cJSON option \<Rightarrow> string option \<Rightarrow> cJSON \<Rightarrow> cJSON option option" where
  "cJSON_AddItemReferenceToObject can object key item =
     cJSON_AddItemToObject can object key (create_reference can item)"

end
