(* ===== verification/Iperf.thy ===== *)
theory Iperf
  imports Iperf_Time Net Json
begin

text \<open>
  The shared state of a test (\<open>iperf.h\<close>, \<open>iperf_api.h\<close>): settings, stream results, streams and the
  test itself, with the constants of the control protocol. The fields carry the prefix
  of their structure (\<open>cfg\<close> for \<open>iperf_settings\<close>, \<open>ir\<close> for an interval, \<open>res\<close> for a stream's
  result, \<open>sp\<close> for a stream, \<open>t\<close> for the test). An \<open>int\<close> is an integer, with the conversion
  written out where a value may leave its range, \<open>uint64_t\<close> is a 64-bit word, an \<open>fd_set\<close> a
  set, a \<open>char *\<close> an optional string. Functions that the code reaches through a stream's
  back pointer \<open>sp->test\<close> take the test as an argument.
\<close>

section \<open>Constants\<close>

definition Ptcp :: int where "Ptcp = SOCK_STREAM"
definition Pudp :: int where "Pudp = SOCK_DGRAM"
definition Psctp :: int where "Psctp = 12"
definition DEFAULT_UDP_BLKSIZE :: int where "DEFAULT_UDP_BLKSIZE = 1460"
definition DEFAULT_TCP_BLKSIZE :: int where "DEFAULT_TCP_BLKSIZE = 128 * 1024"

definition TEST_START :: int where "TEST_START = 1"
definition TEST_RUNNING :: int where "TEST_RUNNING = 2"
definition TEST_END :: int where "TEST_END = 4"
definition PARAM_EXCHANGE :: int where "PARAM_EXCHANGE = 9"
definition CREATE_STREAMS :: int where "CREATE_STREAMS = 10"
definition SERVER_TERMINATE :: int where "SERVER_TERMINATE = 11"
definition CLIENT_TERMINATE :: int where "CLIENT_TERMINATE = 12"
definition EXCHANGE_RESULTS :: int where "EXCHANGE_RESULTS = 13"
definition DISPLAY_RESULTS :: int where "DISPLAY_RESULTS = 14"
definition IPERF_START :: int where "IPERF_START = 15"
definition IPERF_DONE :: int where "IPERF_DONE = 16"
definition ACCESS_DENIED :: int where "ACCESS_DENIED = -1"
definition SERVER_ERROR :: int where "SERVER_ERROR = -2"

lemmas iperf_states = TEST_START_def TEST_RUNNING_def TEST_END_def PARAM_EXCHANGE_def
  CREATE_STREAMS_def SERVER_TERMINATE_def CLIENT_TERMINATE_def EXCHANGE_RESULTS_def
  DISPLAY_RESULTS_def IPERF_START_def IPERF_DONE_def ACCESS_DENIED_def SERVER_ERROR_def

definition SENDER :: int where "SENDER = 1"
definition RECEIVER :: int where "RECEIVER = 0"
definition BIDIRECTIONAL :: int where "BIDIRECTIONAL = -1"

lemmas iperf_modes = SENDER_def RECEIVER_def BIDIRECTIONAL_def

definition UDP_BUFFER_EXTRA :: int where "UDP_BUFFER_EXTRA = 1024"
definition MIN_UDP_BLOCKSIZE :: int where "MIN_UDP_BLOCKSIZE = 4 + 4 + 8"
definition MAX_UDP_BLOCKSIZE :: int where "MAX_UDP_BLOCKSIZE = 65535 - 8 - 20"
definition COOKIE_SIZE :: nat where "COOKIE_SIZE = 37"

text \<open>The error numbers that the modelled functions store in \<open>i_errno\<close>.\<close>

definition IENONE :: int where "IENONE = 0"
definition IEINITTEST :: int where "IEINITTEST = 101"
definition IELISTEN :: int where "IELISTEN = 102"
definition IECONNECT :: int where "IECONNECT = 103"
definition IEACCEPT :: int where "IEACCEPT = 104"
definition IESENDCOOKIE :: int where "IESENDCOOKIE = 105"
definition IERECVCOOKIE :: int where "IERECVCOOKIE = 106"
definition IECTRLWRITE :: int where "IECTRLWRITE = 107"
definition IECTRLREAD :: int where "IECTRLREAD = 108"
definition IECTRLCLOSE :: int where "IECTRLCLOSE = 109"
definition IEMESSAGE :: int where "IEMESSAGE = 110"
definition IESENDMESSAGE :: int where "IESENDMESSAGE = 111"
definition IERECVMESSAGE :: int where "IERECVMESSAGE = 112"
definition IESENDPARAMS :: int where "IESENDPARAMS = 113"
definition IERECVPARAMS :: int where "IERECVPARAMS = 114"
definition IEPACKAGERESULTS :: int where "IEPACKAGERESULTS = 115"
definition IESENDRESULTS :: int where "IESENDRESULTS = 116"
definition IERECVRESULTS :: int where "IERECVRESULTS = 117"
definition IECLIENTTERM :: int where "IECLIENTTERM = 119"
definition IESERVERTERM :: int where "IESERVERTERM = 120"
definition IEACCESSDENIED :: int where "IEACCESSDENIED = 121"
definition IESETNODELAY :: int where "IESETNODELAY = 122"
definition IESETMSS :: int where "IESETMSS = 123"
definition IESETBUF :: int where "IESETBUF = 124"
definition IESETTOS :: int where "IESETTOS = 125"
definition IESETCOS :: int where "IESETCOS = 126"
definition IEREUSEADDR :: int where "IEREUSEADDR = 128"
definition IEPROTOCOL :: int where "IEPROTOCOL = 131"
definition IEV6ONLY :: int where "IEV6ONLY = 136"
definition IESETBUF2 :: int where "IESETBUF2 = 141"
definition IECREATESTREAM :: int where "IECREATESTREAM = 200"
definition IEINITSTREAM :: int where "IEINITSTREAM = 201"
definition IESTREAMLISTEN :: int where "IESTREAMLISTEN = 202"
definition IESTREAMCONNECT :: int where "IESTREAMCONNECT = 203"
definition IESTREAMACCEPT :: int where "IESTREAMACCEPT = 204"
definition IESTREAMWRITE :: int where "IESTREAMWRITE = 205"
definition IESTREAMREAD :: int where "IESTREAMREAD = 206"
definition IESTREAMID :: int where "IESTREAMID = 208"

section \<open>Structures\<close>

record iperf_settings =
  cfg_domain :: int
  cfg_socket_bufsize :: int
  cfg_blksize :: int
  cfg_rate :: u64
  cfg_fqrate :: u64
  cfg_pacing_timer :: int
  cfg_burst :: int
  cfg_mss :: int
  cfg_ttl :: int
  cfg_tos :: int
  cfg_flowlabel :: int
  cfg_bytes :: u64
  cfg_blocks :: u64
  cfg_unit_format :: char
  cfg_num_ostreams :: int
  cfg_connect_timeout :: int

text \<open>An interval of a stream. \<open>ir_interval_duration\<close> is a \<open>float\<close> in the code and kept at the
  precision it is computed in; the opaque \<open>tcpInfo\<close> and \<open>custom_data\<close> are left out.\<close>

record iperf_interval_results =
  ir_bytes_transferred :: u64
  ir_interval_start_time :: iperf_time
  ir_interval_end_time :: iperf_time
  ir_interval_duration :: double
  ir_interval_packet_count :: int
  ir_interval_outoforder_packets :: int
  ir_interval_cnt_error :: int
  ir_packet_count :: int
  ir_jitter :: double
  ir_outoforder_packets :: int
  ir_cnt_error :: int
  ir_omitted :: bool
  ir_interval_retrans :: int
  ir_snd_cwnd :: int
  ir_rtt :: int
  ir_rttvar :: int
  ir_pmtu :: int

record iperf_stream_result =
  res_bytes_received :: u64
  res_bytes_sent :: u64
  res_bytes_received_this_interval :: u64
  res_bytes_sent_this_interval :: u64
  res_bytes_sent_omit :: u64
  res_stream_prev_total_retrans :: int
  res_stream_retrans :: int
  res_stream_max_rtt :: int
  res_stream_min_rtt :: int
  res_stream_sum_rtt :: int
  res_stream_count_rtt :: int
  res_stream_max_snd_cwnd :: int
  res_start_time :: iperf_time
  res_end_time :: iperf_time
  res_start_time_fixed :: iperf_time
  res_sender_time :: double
  res_receiver_time :: double
  res_interval_results :: "iperf_interval_results list"

record iperf_stream =
  sp_socket :: int
  sp_id :: int
  sp_sender :: bool
  sp_result :: iperf_stream_result
  sp_send_timer :: ptr
  sp_green_light :: bool
  sp_buffer :: "u8 list"
  sp_packet_count :: int
  sp_peer_packet_count :: int
  sp_omitted_packet_count :: int
  sp_jitter :: double
  sp_prev_transit :: double
  sp_outoforder_packets :: int
  sp_omitted_outoforder_packets :: int
  sp_cnt_error :: int
  sp_omitted_cnt_error :: int
  sp_buffer_fd :: int
  sp_diskfile_fd :: int
  sp_diskfile_left :: int

record iperf_test =
  t_role :: char
  t_mode :: int
  t_sender_has_retransmits :: int
  t_other_side_has_retransmits :: int
  t_protocol :: int
  t_protocols :: "int list"
  t_state :: int
  t_server_hostname :: string
  t_bind_address :: "string option"
  t_bind_port :: int
  t_server_port :: int
  t_omit :: int
  t_duration :: int
  t_affinity :: int
  t_server_affinity :: int
  t_title :: "string option"
  t_extra_data :: "string option"
  t_congestion :: "string option"
  t_congestion_used :: "string option"
  t_remote_congestion_used :: "string option"
  t_ctrl_sck :: int
  t_listener :: int
  t_prot_listener :: int
  t_ctrl_sck_mss :: int
  t_no_delay :: bool
  t_reverse :: bool
  t_bidirectional :: bool
  t_json_output :: bool
  t_zerocopy :: bool
  t_get_server_output :: int
  t_udp_counters_64bit :: int
  t_multisend :: int
  t_repeating_payload :: int
  t_max_fd :: int
  t_read_set :: "int set"
  t_write_set :: "int set"
  t_omitting :: bool
  t_stats_interval :: double
  t_reporter_interval :: double
  t_omit_timer :: ptr
  t_timer :: ptr
  t_done :: bool
  t_stats_timer :: ptr
  t_reporter_timer :: ptr
  t_cpu_util :: "double \<times> double \<times> double"
  t_remote_cpu_util :: "double \<times> double \<times> double"
  t_num_streams :: int
  t_bytes_sent :: u64
  t_blocks_sent :: u64
  t_bytes_received :: u64
  t_blocks_received :: u64
  t_cookie :: "u8 list"
  t_streams :: "iperf_stream list"
  t_settings :: iperf_settings
  t_json_start :: "cJSON option"
  t_json_top :: "cJSON option"
  t_json_server_output :: "cJSON option"
  t_server_output_text :: "string option"
  t_server_output_list :: "string list"
  t_diskfile_name :: "string option"
  i_errno :: int

text \<open>
  \<open>iperf_time_in_secs\<close>, and the clock as a system call.
\<close>

definition iperf_time_in_secs :: "iperf_time \<Rightarrow> double" where
  "iperf_time_in_secs time =
     dadd (d_of_int (uint (secs time))) (ddiv (d_of_int (uint (usecs time))) (Fin 1000000))"

definition time_now :: "'w os \<Rightarrow> iperf_time \<Rightarrow> ('w, int \<times> iperf_time) io" where
  "time_now os time1 = do {
     r \<leftarrow> sys os Clock_gettime;
     ret (iperf_time_now (s_ret r, s_val r, s_fam r) time1)
   }"

text \<open>
  The same into a local variable that is not initialised: where the clock fails, it keeps whatever
  was on the stack, which the answer supplies.
\<close>

definition stack_time :: "sysres \<Rightarrow> iperf_time" where
  "stack_time r = (case s_vals r of a # b # _ \<Rightarrow> \<lparr>secs = word_of_int a, usecs = word_of_int b\<rparr>
     | _ \<Rightarrow> \<lparr>secs = 0, usecs = 0\<rparr>)"

definition local_time_now :: "'w os \<Rightarrow> ('w, int \<times> iperf_time) io" where
  "local_time_now os = do {
     r \<leftarrow> sys os Clock_gettime;
     ret (iperf_time_now (s_ret r, s_val r, s_fam r) (stack_time r))
   }"

text \<open>The conversion of an \<open>int\<close> to \<open>size_t\<close>.\<close>

definition size_t :: "int \<Rightarrow> nat" where
  "size_t n = nat (n mod 2 ^ 64)"

lemma size_t_id [simp]: "0 \<le> n \<Longrightarrow> n < 2 ^ 64 \<Longrightarrow> size_t n = nat n"
  by (simp add: size_t_def)

text \<open>The bytes of a number in network order, and back.\<close>

definition be_bytes :: "nat \<Rightarrow> int \<Rightarrow> u8 list" where
  "be_bytes n v = map (\<lambda>i. word_of_int (v div 256 ^ (n - 1 - i))) [0..<n]"

definition be_val :: "u8 list \<Rightarrow> int" where
  "be_val bs = foldl (\<lambda>a b. a * 256 + uint b) 0 bs"

section \<open>The JSON macros\<close>

text \<open>
  The macros of \<open>cjson.h\<close> that create an item and add it to an object, where memory is
  available. Adding to \<open>NULL\<close> does nothing.
\<close>

abbreviation mem :: "nat \<Rightarrow> bool" where
  "mem \<equiv> \<lambda>_. True"

definition cJSON_AddTrueToObject :: "cJSON option \<Rightarrow> string \<Rightarrow> cJSON option" where
  "cJSON_AddTrueToObject object name = the (cJSON_AddItemToObject mem object (Some name) (cJSON_CreateTrue mem))"

definition cJSON_AddNumberToObject :: "cJSON option \<Rightarrow> string \<Rightarrow> double \<Rightarrow> cJSON option" where
  "cJSON_AddNumberToObject object name n =
     the (cJSON_AddItemToObject mem object (Some name) (cJSON_CreateNumber mem n))"

definition cJSON_AddStringToObject :: "cJSON option \<Rightarrow> string \<Rightarrow> string \<Rightarrow> cJSON option" where
  "cJSON_AddStringToObject object name s =
     the (cJSON_AddItemToObject mem object (Some name) (cJSON_CreateString mem (Some s)))"

end
