(* ===== verification/Udp.thy ===== *)
theory Udp
  imports Iperf
begin

text \<open>
  \<open>iperf_udp.c\<close>: the packet header, sending, receiving with the accounting of lost and
  reordered packets and the jitter, and the simulated connection of UDP streams.
  An uninitialised timestamp that the clock fills starts as zero.
\<close>

section \<open>Receiving\<close>

definition overlay :: "u8 list \<Rightarrow> u8 list \<Rightarrow> u8 list" where
  "overlay bs buf = bs @ drop (length bs) buf"

text \<open>The header at the start of the buffer: seconds, microseconds and the sequence number.\<close>

definition udp_header :: "int \<Rightarrow> u8 list \<Rightarrow> iperf_time \<times> u64" where
  "udp_header counters_64bit buf =
     (let sec = be_val (take 4 buf);
          usec = be_val (take 4 (drop 4 buf));
          pcount = (if counters_64bit \<noteq> 0 then be_val (take 8 (drop 8 buf)) else be_val (take 4 (drop 8 buf)))
      in (\<lparr>secs = word_of_int sec, usecs = word_of_int usec\<rparr>, word_of_int pcount))"

text \<open>
  The accounting of a sequence number. The comparison is done in \<open>uint64_t\<close>: the \<open>int\<close>
  \<open>packet_count + 1\<close> is sign-extended; the results are converted back to \<open>int\<close>.
\<close>

definition udp_account :: "u64 \<Rightarrow> iperf_stream \<Rightarrow> iperf_stream" where
  "udp_account pcount sp =
     (let expected = (word_of_int (c_int (sp_packet_count sp + 1)) :: u64) in
      if expected \<le> pcount then
        let sp1 = (if expected < pcount
                   then sp\<lparr>sp_cnt_error := c_int (uint ((word_of_int (sp_cnt_error sp) :: u64) +
                               ((pcount - 1) - word_of_int (sp_packet_count sp))))\<rparr>
                   else sp)
        in sp1\<lparr>sp_packet_count := c_int (uint pcount)\<rparr>
      else
        let sp1 = sp\<lparr>sp_outoforder_packets := c_int (sp_outoforder_packets sp + 1)\<rparr>
        in if sp_cnt_error sp1 > 0 then sp1\<lparr>sp_cnt_error := sp_cnt_error sp1 - 1\<rparr> else sp1)"

definition udp_jitter :: "iperf_time \<Rightarrow> iperf_time \<Rightarrow> iperf_stream \<Rightarrow> iperf_stream" where
  "udp_jitter arrival_time sent_time sp =
     (let transit = iperf_time_in_secs (snd (iperf_time_diff arrival_time sent_time));
          d = dsub transit (sp_prev_transit sp);
          d' = (if dlt d (Fin 0) then dneg d else d)
      in sp\<lparr>sp_prev_transit := transit,
            sp_jitter := dadd (sp_jitter sp) (ddiv (dsub d' (sp_jitter sp)) (Fin 16))\<rparr>)"

definition add_received :: "int \<Rightarrow> iperf_stream_result \<Rightarrow> iperf_stream_result" where
  "add_received r rp = rp\<lparr>res_bytes_received := res_bytes_received rp + word_of_int r,
     res_bytes_received_this_interval := res_bytes_received_this_interval rp + word_of_int r\<rparr>"

definition add_sent :: "int \<Rightarrow> iperf_stream_result \<Rightarrow> iperf_stream_result" where
  "add_sent r rp = rp\<lparr>res_bytes_sent := res_bytes_sent rp + word_of_int r,
     res_bytes_sent_this_interval := res_bytes_sent_this_interval rp + word_of_int r\<rparr>"

definition iperf_udp_recv :: "'w os \<Rightarrow> iperf_test \<Rightarrow> iperf_stream \<Rightarrow> ('w, int \<times> iperf_stream) io" where
  "iperf_udp_recv os test sp = do {
     (r, bs) \<leftarrow> Nread os (sp_socket sp) (size_t (cfg_blksize (t_settings test)));
     let sp0 = sp\<lparr>sp_buffer := overlay bs (sp_buffer sp)\<rparr>;
     if r \<le> 0 then ret (r, sp0)
     else if t_state test = TEST_RUNNING then do {
       let sp1 = sp0\<lparr>sp_result := add_received r (sp_result sp0)\<rparr>;
       let (sent_time, pcount) = udp_header (t_udp_counters_64bit test) (sp_buffer sp1);
       let sp2 = udp_account pcount sp1;
       (_, arrival_time) \<leftarrow> local_time_now os;
       ret (r, udp_jitter arrival_time sent_time sp2)
     } else ret (r, sp0)
   }"

section \<open>Sending\<close>

definition udp_make_header :: "int \<Rightarrow> iperf_time \<Rightarrow> int \<Rightarrow> u8 list" where
  "udp_make_header counters_64bit before packet_count =
     be_bytes 4 (uint (secs before)) @ be_bytes 4 (uint (usecs before)) @
     be_bytes (if counters_64bit \<noteq> 0 then 8 else 4) packet_count"

definition iperf_udp_send :: "'w os \<Rightarrow> iperf_test \<Rightarrow> iperf_stream \<Rightarrow> ('w, int \<times> iperf_stream) io" where
  "iperf_udp_send os test sp = do {
     let size = size_t (cfg_blksize (t_settings test));
     (_, before) \<leftarrow> local_time_now os;
     let sp1 = sp\<lparr>sp_packet_count := c_int (sp_packet_count sp + 1)\<rparr>;
     let sp2 = sp1\<lparr>sp_buffer := overlay (udp_make_header (t_udp_counters_64bit test) before (sp_packet_count sp1))
                                  (sp_buffer sp1)\<rparr>;
     r \<leftarrow> Nwrite os (sp_socket sp2) (take size (sp_buffer sp2));
     if r < 0 then ret (r, sp2)
     else ret (r, sp2\<lparr>sp_result := add_sent r (sp_result sp2)\<rparr>)
   }"

section \<open>Socket buffers and the simulated connection\<close>

text \<open>
  \<open>iperf_udp_buffercheck\<close>: \<open>0\<close>, \<open>-1\<close> with \<open>i_errno\<close>, or \<open>1\<close> when a block does not fit a buffer.
\<close>

definition iperf_udp_buffercheck :: "'w os \<Rightarrow> iperf_test \<Rightarrow> int \<Rightarrow> ('w, int \<times> iperf_test) io" where
  "iperf_udp_buffercheck os test s = do {
     let opt = cfg_socket_bufsize (t_settings test);
     let fail = (\<lambda>e. ret (-1, test\<lparr>i_errno := e\<rparr>));
     bad \<leftarrow> (if opt \<noteq> 0 then do {
               r1 \<leftarrow> sys os (Setsockopt s ''SO_RCVBUF'' opt);
               if s_ret r1 < 0 then ret True
               else do { r2 \<leftarrow> sys os (Setsockopt s ''SO_SNDBUF'' opt); ret (s_ret r2 < 0) }
             } else ret False);
     if bad then fail IESETBUF
     else do {
       g1 \<leftarrow> sys os (Getsockopt s ''SO_SNDBUF'');
       if s_ret g1 < 0 then fail IESETBUF
       else if opt \<noteq> 0 \<and> opt > s_val g1 then fail IESETBUF2
       else do {
         let rc1 = (if cfg_blksize (t_settings test) > s_val g1 then 1 else 0);
         g2 \<leftarrow> sys os (Getsockopt s ''SO_RCVBUF'');
         if s_ret g2 < 0 then fail IESETBUF
         else if opt \<noteq> 0 \<and> opt > s_val g2 then fail IESETBUF2
         else do {
           let rc2 = (if cfg_blksize (t_settings test) > s_val g2 then 1 else rc1);
           let j = (if t_json_output test then
                      cJSON_AddNumberToObject (cJSON_AddNumberToObject (cJSON_AddNumberToObject (t_json_start test)
                        ''sock_bufsize'' (d_of_int opt)) ''sndbuf_actual'' (d_of_int (s_val g1)))
                        ''rcvbuf_actual'' (d_of_int (s_val g2))
                    else t_json_start test);
           ret (rc2, test\<lparr>t_json_start := j\<rparr>)
         }
       }
     }
   }"

text \<open>The check, and the second attempt with a larger buffer that accept and connect share.\<close>

definition udp_check_grow :: "'w os \<Rightarrow> iperf_test \<Rightarrow> int \<Rightarrow> ('w, int \<times> iperf_test) io" where
  "udp_check_grow os test s = do {
     (rc, test1) \<leftarrow> iperf_udp_buffercheck os test s;
     if rc < 0 then ret (rc, test1)
     else if rc > 0 \<and> cfg_socket_bufsize (t_settings test1) = 0 then do {
       let bufsize = c_int (cfg_blksize (t_settings test1) + UDP_BUFFER_EXTRA);
       iperf_udp_buffercheck os (test1\<lparr>t_settings := (t_settings test1)\<lparr>cfg_socket_bufsize := bufsize\<rparr>\<rparr>) s
     } else ret (rc, test1)
   }"

definition int_bytes :: "int \<Rightarrow> u8 list" where
  "int_bytes v = rev (be_bytes 4 v)"

definition iperf_udp_accept :: "'w os \<Rightarrow> iperf_test \<Rightarrow> ('w, int \<times> iperf_test) io" where
  "iperf_udp_accept os test = do {
     let s = t_prot_listener test;
     r \<leftarrow> sys os (Recvfrom (t_prot_listener test) 4);
     if s_ret r < 0 then ret (-1, test\<lparr>i_errno := IESTREAMACCEPT\<rparr>)
     else do {
       c \<leftarrow> sys os (Connect s (AiAddr (s_val r) None));
       if s_ret c < 0 then ret (-1, test\<lparr>i_errno := IESTREAMACCEPT\<rparr>)
       else do {
         (rc, test1) \<leftarrow> udp_check_grow os test s;
         if rc < 0 then ret (rc, test1)
         else do {
           l \<leftarrow> netannounce os (cfg_domain (t_settings test1)) Pudp (t_bind_address test1) (t_server_port test1);
           let test2 = test1\<lparr>t_prot_listener := l\<rparr>;
           if l < 0 then ret (-1, test2\<lparr>i_errno := IESTREAMLISTEN\<rparr>)
           else do {
             let test3 = test2\<lparr>t_read_set := insert l (t_read_set test2),
                               t_max_fd := (if t_max_fd test2 < l then l else t_max_fd test2)\<rparr>;
             w \<leftarrow> sys os (Write s (int_bytes 987654321));
             if s_ret w < 0 then ret (-1, test3\<lparr>i_errno := IESTREAMWRITE\<rparr>)
             else ret (s, test3)
           }
         }
       }
     }
   }"

definition iperf_udp_listen :: "'w os \<Rightarrow> iperf_test \<Rightarrow> ('w, int \<times> iperf_test) io" where
  "iperf_udp_listen os test = do {
     s \<leftarrow> netannounce os (cfg_domain (t_settings test)) Pudp (t_bind_address test) (t_server_port test);
     if s < 0 then ret (-1, test\<lparr>i_errno := IESTREAMLISTEN\<rparr>) else ret (s, test)
   }"

definition iperf_udp_connect :: "'w os \<Rightarrow> iperf_test \<Rightarrow> ('w, int \<times> iperf_test) io" where
  "iperf_udp_connect os test = do {
     s \<leftarrow> netdial os (cfg_domain (t_settings test)) Pudp (t_bind_address test) (t_bind_port test)
            (t_server_hostname test) (t_server_port test) (-1);
     if s < 0 then ret (-1, test\<lparr>i_errno := IESTREAMCONNECT\<rparr>)
     else do {
       (rc, test1) \<leftarrow> udp_check_grow os test s;
       if rc < 0 then ret (rc, test1)
       else do {
         _ \<leftarrow> sys os (Setsockopt s ''SO_RCVTIMEO'' 30);
         w \<leftarrow> sys os (Write s (int_bytes 123456789));
         if s_ret w < 0 then ret (-1, test1\<lparr>i_errno := IESTREAMWRITE\<rparr>)
         else do {
           r \<leftarrow> sys os (Recv s 4);
           if s_ret r < 0 then ret (-1, test1\<lparr>i_errno := IESTREAMREAD\<rparr>)
           else ret (s, test1)
         }
       }
     }
   }"

definition iperf_udp_init :: "iperf_test \<Rightarrow> int" where
  "iperf_udp_init test = 0"

end
