(* ===== verification/Tcp.thy ===== *)
theory Tcp
  imports Udp
begin

text \<open>
  \<open>iperf_tcp.c\<close>: sending and receiving blocks, and the data connections with their socket
  options. The configured build has neither flow labels nor socket pacing.
\<close>

section \<open>Data\<close>

definition iperf_tcp_recv :: "'w os \<Rightarrow> iperf_test \<Rightarrow> iperf_stream \<Rightarrow> ('w, int \<times> iperf_stream) io" where
  "iperf_tcp_recv os test sp = do {
     (r, bs) \<leftarrow> Nread os (sp_socket sp) (size_t (cfg_blksize (t_settings test)));
     let sp0 = sp\<lparr>sp_buffer := overlay bs (sp_buffer sp)\<rparr>;
     if r < 0 then ret (r, sp0)
     else if t_state test = TEST_RUNNING then ret (r, sp0\<lparr>sp_result := add_received r (sp_result sp0)\<rparr>)
     else ret (r, sp0)
   }"

definition iperf_tcp_send :: "'w os \<Rightarrow> iperf_test \<Rightarrow> iperf_stream \<Rightarrow> ('w, int \<times> iperf_stream) io" where
  "iperf_tcp_send os test sp = do {
     let size = size_t (cfg_blksize (t_settings test));
     r \<leftarrow> (if t_zerocopy test then Nsendfile os (sp_buffer_fd sp) (sp_socket sp) size
           else Nwrite os (sp_socket sp) (take size (sp_buffer sp)));
     if r < 0 then ret (r, sp)
     else ret (r, sp\<lparr>sp_result := add_sent r (sp_result sp)\<rparr>)
   }"

section \<open>Accepting a stream\<close>

definition c_str :: "u8 list \<Rightarrow> u8 list" where
  "c_str bs = takeWhile (\<lambda>b. b \<noteq> 0) bs"

text \<open>
  \<open>junk\<close> is the previous content of the local array \<open>cookie\<close>. A connection with a wrong
  cookie is closed, and its number is returned: the caller asks \<open>is_closed\<close>.
\<close>

definition iperf_tcp_accept :: "'w os \<Rightarrow> u8 list \<Rightarrow> iperf_test \<Rightarrow> ('w, int \<times> iperf_test) io" where
  "iperf_tcp_accept os junk test = do {
     a \<leftarrow> sys os (Accept (t_listener test));
     let s = s_ret a;
     if s < 0 then ret (-1, test\<lparr>i_errno := IESTREAMCONNECT\<rparr>)
     else do {
       (r, bs) \<leftarrow> Nread os s COOKIE_SIZE;
       if r < 0 then ret (-1, test\<lparr>i_errno := IERECVCOOKIE\<rparr>)
       else if c_str (t_cookie test) \<noteq> c_str (overlay bs junk) then do {
         w \<leftarrow> Nwrite os s [word_of_int ACCESS_DENIED];
         if w < 0 then ret (-1, test\<lparr>i_errno := IESENDMESSAGE\<rparr>)
         else do { _ \<leftarrow> sys os (Close s); ret (s, test) }
       } else ret (s, test)
     }
   }"

section \<open>Socket options\<close>

text \<open>The options of a data socket, in the order they are set, with the error each reports.\<close>

definition tcp_options :: "iperf_test \<Rightarrow> (string \<times> int \<times> int) list" where
  "tcp_options test =
     (if t_no_delay test then [(''TCP_NODELAY'', 1, IESETNODELAY)] else []) @
     (if cfg_mss (t_settings test) \<noteq> 0 then [(''TCP_MAXSEG'', cfg_mss (t_settings test), IESETMSS)] else []) @
     (if cfg_socket_bufsize (t_settings test) \<noteq> 0
      then [(''SO_RCVBUF'', cfg_socket_bufsize (t_settings test), IESETBUF),
            (''SO_SNDBUF'', cfg_socket_bufsize (t_settings test), IESETBUF)] else [])"

fun set_options :: "'w os \<Rightarrow> int \<Rightarrow> (string \<times> int \<times> int) list \<Rightarrow> ('w, int option) io" where
  "set_options os s [] = ret None"
| "set_options os s ((name, val, err) # opts) = do {
     r \<leftarrow> sys os (Setsockopt s name val);
     if s_ret r < 0 then ret (Some err) else set_options os s opts
   }"

text \<open>The error exits: close the socket, free the lists \<open>ais\<close>, keep \<open>errno\<close>, store \<open>i_errno\<close>.\<close>

definition tcp_fail :: "'w os \<Rightarrow> iperf_test \<Rightarrow> int \<Rightarrow> int list \<Rightarrow> int \<Rightarrow> ('w, int \<times> iperf_test) io" where
  "tcp_fail os test s ais err = do {
     r \<leftarrow> close_fail os s ais;
     ret (r, test\<lparr>i_errno := err\<rparr>)
   }"

text \<open>
  Reading back the buffer sizes: the two sizes, or the result of the failure. A size that is
  smaller than the one asked for returns without closing anything.
\<close>

definition tcp_verify ::
  "'w os \<Rightarrow> iperf_test \<Rightarrow> int \<Rightarrow> int list \<Rightarrow> ('w, (int \<times> iperf_test) + iperf_test) io" where
  "tcp_verify os test s ais = do {
     let want = cfg_socket_bufsize (t_settings test);
     g1 \<leftarrow> sys os (Getsockopt s ''SO_SNDBUF'');
     if s_ret g1 < 0 then do { f \<leftarrow> tcp_fail os test s ais IESETBUF; ret (Inl f) }
     else if want \<noteq> 0 \<and> want > s_val g1 then ret (Inl (-1, test\<lparr>i_errno := IESETBUF2\<rparr>))
     else do {
       g2 \<leftarrow> sys os (Getsockopt s ''SO_RCVBUF'');
       if s_ret g2 < 0 then do { f \<leftarrow> tcp_fail os test s ais IESETBUF; ret (Inl f) }
       else if want \<noteq> 0 \<and> want > s_val g2 then ret (Inl (-1, test\<lparr>i_errno := IESETBUF2\<rparr>))
       else ret (Inr (if t_json_output test then
           test\<lparr>t_json_start := cJSON_AddNumberToObject (cJSON_AddNumberToObject (cJSON_AddNumberToObject
             (t_json_start test) ''sock_bufsize'' (d_of_int want)) ''sndbuf_actual'' (d_of_int (s_val g1)))
             ''rcvbuf_actual'' (d_of_int (s_val g2))\<rparr>
         else test))
     }
   }"

section \<open>Listening\<close>

text \<open>The new listener, once its address is resolved.\<close>

definition tcp_listen_socket :: "'w os \<Rightarrow> iperf_test \<Rightarrow> sysres \<Rightarrow> ('w, int \<times> iperf_test) io" where
  "tcp_listen_socket os test res = do {
     sk \<leftarrow> sys os (Socket (s_fam res) SOCK_STREAM);
     let s = s_ret sk;
     if s < 0 then do {
       _ \<leftarrow> sys os (Freeaddrinfo (s_val res));
       ret (-1, test\<lparr>i_errno := IESTREAMLISTEN\<rparr>)
     } else do {
       e \<leftarrow> set_options os s (tcp_options test @ [(''SO_REUSEADDR'', 1, IEREUSEADDR)] @
              (if s_fam res = AF_INET6 \<and>
                  (cfg_domain (t_settings test) = AF_UNSPEC \<or> cfg_domain (t_settings test) = AF_INET)
               then [(''IPV6_V6ONLY'', if cfg_domain (t_settings test) = AF_UNSPEC then 0 else 1, IEV6ONLY)]
               else []));
       case e of
         Some err \<Rightarrow> tcp_fail os test s [s_val res] err
       | None \<Rightarrow> do {
           b \<leftarrow> sys os (Bind s (AiAddr (s_val res) None));
           if s_ret b < 0 then tcp_fail os test s [s_val res] IESTREAMLISTEN
           else do {
             _ \<leftarrow> sys os (Freeaddrinfo (s_val res));
             l \<leftarrow> sys os (Listen s);
             if s_ret l < 0 then ret (-1, test\<lparr>i_errno := IESTREAMLISTEN\<rparr>)
             else ret (s, test\<lparr>t_listener := s\<rparr>)
           }
         }
     }
   }"

definition iperf_tcp_listen :: "'w os \<Rightarrow> iperf_test \<Rightarrow> ('w, int \<times> iperf_test) io" where
  "iperf_tcp_listen os test = do {
     l \<leftarrow> (if t_no_delay test \<or> cfg_mss (t_settings test) \<noteq> 0 \<or> cfg_socket_bufsize (t_settings test) \<noteq> 0
       then do {
         let test0 = test\<lparr>t_read_set := t_read_set test - {t_listener test}\<rparr>;
         _ \<leftarrow> sys os (Close (t_listener test));
         r \<leftarrow> sys os (Getaddrinfo (t_bind_address test) (Some (take 5 (int_str (t_server_port test))))
                (if cfg_domain (t_settings test) = AF_UNSPEC \<and> t_bind_address test = None then AF_INET6
                 else cfg_domain (t_settings test)) SOCK_STREAM AI_PASSIVE);
         _ \<leftarrow> set_gerror (s_ret r);
         if s_ret r \<noteq> 0 then ret (Inl (-1, test0\<lparr>i_errno := IESTREAMLISTEN\<rparr>))
         else do {
           (s, test1) \<leftarrow> tcp_listen_socket os test0 r;
           ret (if s < 0 then Inl (s, test1) else Inr (s, test1))
         }
       } else ret (Inr (t_listener test, test)));
     case l of
       Inl f \<Rightarrow> ret f
     | Inr (s, test1) \<Rightarrow> do {
         v \<leftarrow> tcp_verify os test1 s [];
         ret (case v of Inl f \<Rightarrow> f | Inr test2 \<Rightarrow> (s, test2))
       }
   }"

section \<open>Connecting\<close>

text \<open>The last part: options, verification, connection and the cookie.\<close>

definition tcp_connect_socket :: "'w os \<Rightarrow> iperf_test \<Rightarrow> int \<Rightarrow> sysres \<Rightarrow> ('w, int \<times> iperf_test) io" where
  "tcp_connect_socket os test s server_res = do {
     e \<leftarrow> set_options os s (tcp_options test);
     case e of
       Some err \<Rightarrow> tcp_fail os test s [s_val server_res] err
     | None \<Rightarrow> do {
         v \<leftarrow> tcp_verify os test s [s_val server_res];
         case v of
           Inl f \<Rightarrow> ret f
         | Inr test1 \<Rightarrow> do {
             c \<leftarrow> sys os (Connect s (AiAddr (s_val server_res) None));
             e \<leftarrow> get_errno;
             if s_ret c < 0 \<and> e \<noteq> EINPROGRESS then tcp_fail os test1 s [s_val server_res] IESTREAMCONNECT
             else do {
               _ \<leftarrow> sys os (Freeaddrinfo (s_val server_res));
               w \<leftarrow> Nwrite os s (t_cookie test1);
               if w < 0 then tcp_fail os test1 s [] IESENDCOOKIE
               else ret (s, test1)
             }
           }
       }
   }"

definition tcp_connect_bind ::
  "'w os \<Rightarrow> iperf_test \<Rightarrow> sysres option \<Rightarrow> sysres \<Rightarrow> ('w, int \<times> iperf_test) io" where
  "tcp_connect_bind os test lres server_res = do {
     sk \<leftarrow> sys os (Socket (s_fam server_res) SOCK_STREAM);
     let s = s_ret sk;
     if s < 0 then do {
       _ \<leftarrow> (case lres of Some l \<Rightarrow> free_all os [s_val l] | None \<Rightarrow> ret ());
       _ \<leftarrow> sys os (Freeaddrinfo (s_val server_res));
       ret (-1, test\<lparr>i_errno := IESTREAMCONNECT\<rparr>)
     } else (case lres of
       Some l \<Rightarrow> do {
         b \<leftarrow> sys os (Bind s (AiAddr (s_val l) (Some (htons_port (t_bind_port test)))));
         if s_ret b < 0 then tcp_fail os test s [s_val l, s_val server_res] IESTREAMCONNECT
         else do {
           _ \<leftarrow> sys os (Freeaddrinfo (s_val l));
           tcp_connect_socket os test s server_res
         }
       }
     | None \<Rightarrow>
         if t_bind_port test \<noteq> 0 then
           if s_fam server_res = AF_INET \<or> s_fam server_res = AF_INET6 then do {
             b \<leftarrow> sys os (Bind s (AnyAddr (s_fam server_res) (htons_port (t_bind_port test))));
             if s_ret b < 0 then tcp_fail os test s [s_val server_res] IESTREAMCONNECT
             else tcp_connect_socket os test s server_res
           } else tcp_fail os test s [s_val server_res] IEPROTOCOL
         else tcp_connect_socket os test s server_res)
   }"

definition iperf_tcp_connect :: "'w os \<Rightarrow> iperf_test \<Rightarrow> ('w, int \<times> iperf_test) io" where
  "iperf_tcp_connect os test = do {
     lres \<leftarrow> (case t_bind_address test of
         None \<Rightarrow> ret (Some None)
       | Some l \<Rightarrow> do {
           r \<leftarrow> sys os (Getaddrinfo (Some l) None (cfg_domain (t_settings test)) SOCK_STREAM 0);
           _ \<leftarrow> set_gerror (s_ret r);
           ret (if s_ret r \<noteq> 0 then None else Some (Some r))
         });
     case lres of
       None \<Rightarrow> ret (-1, test\<lparr>i_errno := IESTREAMCONNECT\<rparr>)
     | Some lr \<Rightarrow> do {
         r \<leftarrow> sys os (Getaddrinfo (Some (t_server_hostname test)) (Some (take 5 (int_str (t_server_port test))))
                (cfg_domain (t_settings test)) SOCK_STREAM 0);
         _ \<leftarrow> set_gerror (s_ret r);
         if s_ret r \<noteq> 0 then do {
           _ \<leftarrow> (case lr of Some l \<Rightarrow> free_all os [s_val l] | None \<Rightarrow> ret ());
           ret (-1, test\<lparr>i_errno := IESTREAMCONNECT\<rparr>)
         } else tcp_connect_bind os test lr r
       }
   }"

end
