(* ===== verification/Api.thy ===== *)
theory Api
  imports Iperf
begin

text \<open>
  \<open>iperf_api.c\<close>, the configuration of a test: the defaults, the protocols, the role and the
  direction, and the list of streams. The callbacks are not part of the state: the
  functions that the defaults install are called directly.
\<close>

section \<open>Direction\<close>

text \<open>Linux with \<open>TCP_MD5SIG\<close>: the kernel counts retransmissions.\<close>

definition has_tcpinfo :: bool where "has_tcpinfo = True"
definition has_tcpinfo_retransmits :: bool where "has_tcpinfo_retransmits = True"

definition check_sender_has_retransmits :: "iperf_test \<Rightarrow> iperf_test" where
  "check_sender_has_retransmits ipt = ipt\<lparr>t_sender_has_retransmits :=
     (if t_mode ipt \<noteq> RECEIVER \<and> t_protocol ipt = Ptcp \<and> has_tcpinfo_retransmits then 1 else 0)\<rparr>"

definition iperf_set_test_role :: "iperf_test \<Rightarrow> char \<Rightarrow> iperf_test" where
  "iperf_set_test_role ipt role =
     (let ipt1 = ipt\<lparr>t_role := role\<rparr>;
          ipt2 = (if \<not> t_reverse ipt1 then
                    if t_bidirectional ipt1 then ipt1\<lparr>t_mode := BIDIRECTIONAL\<rparr>
                    else if role = CHR ''c'' then ipt1\<lparr>t_mode := SENDER\<rparr>
                    else if role = CHR ''s'' then ipt1\<lparr>t_mode := RECEIVER\<rparr> else ipt1
                  else if role = CHR ''c'' then ipt1\<lparr>t_mode := RECEIVER\<rparr>
                  else if role = CHR ''s'' then ipt1\<lparr>t_mode := SENDER\<rparr> else ipt1)
      in check_sender_has_retransmits ipt2)"

definition iperf_set_test_reverse :: "iperf_test \<Rightarrow> bool \<Rightarrow> iperf_test" where
  "iperf_set_test_reverse ipt reverse =
     (let ipt1 = ipt\<lparr>t_reverse := reverse\<rparr>;
          ipt2 = (if \<not> t_reverse ipt1 then
                    if t_role ipt1 = CHR ''c'' then ipt1\<lparr>t_mode := SENDER\<rparr>
                    else if t_role ipt1 = CHR ''s'' then ipt1\<lparr>t_mode := RECEIVER\<rparr> else ipt1
                  else if t_role ipt1 = CHR ''c'' then ipt1\<lparr>t_mode := RECEIVER\<rparr>
                  else if t_role ipt1 = CHR ''s'' then ipt1\<lparr>t_mode := SENDER\<rparr> else ipt1)
      in check_sender_has_retransmits ipt2)"

definition iperf_set_test_bidirectional :: "iperf_test \<Rightarrow> bool \<Rightarrow> iperf_test" where
  "iperf_set_test_bidirectional ipt bidirectional =
     (let ipt1 = ipt\<lparr>t_bidirectional := bidirectional\<rparr>
      in if bidirectional then ipt1\<lparr>t_mode := BIDIRECTIONAL\<rparr>
         else iperf_set_test_reverse ipt1 (t_reverse ipt1))"

section \<open>Protocols\<close>

definition get_protocol :: "iperf_test \<Rightarrow> int \<Rightarrow> int option \<times> iperf_test" where
  "get_protocol test prot_id =
     (if prot_id \<in> set (t_protocols test) then (Some prot_id, test)
      else (None, test\<lparr>i_errno := IEPROTOCOL\<rparr>))"

definition set_protocol :: "iperf_test \<Rightarrow> int \<Rightarrow> int \<times> iperf_test" where
  "set_protocol test prot_id =
     (if prot_id \<in> set (t_protocols test)
      then (0, check_sender_has_retransmits (test\<lparr>t_protocol := prot_id\<rparr>))
      else (-1, test\<lparr>i_errno := IEPROTOCOL\<rparr>))"

section \<open>A new test\<close>

text \<open>All bytes zero, as \<open>iperf_new_test\<close> leaves it. No protocol is selected.\<close>

definition iperf_new_test :: iperf_test where
  "iperf_new_test = \<lparr>t_role = CHR 0x00, t_mode = RECEIVER, t_sender_has_retransmits = 0,
     t_other_side_has_retransmits = 0, t_protocol = 0, t_protocols = [], t_state = 0, t_server_hostname = [],
     t_bind_address = None, t_bind_port = 0, t_server_port = 0, t_omit = 0, t_duration = 0, t_affinity = 0,
     t_server_affinity = 0, t_title = None, t_extra_data = None, t_congestion = None, t_congestion_used = None,
     t_remote_congestion_used = None, t_ctrl_sck = 0, t_listener = 0, t_prot_listener = 0, t_ctrl_sck_mss = 0,
     t_no_delay = False, t_reverse = False, t_bidirectional = False, t_json_output = False, t_zerocopy = False,
     t_get_server_output = 0, t_udp_counters_64bit = 0, t_multisend = 0, t_repeating_payload = 0, t_max_fd = 0,
     t_read_set = {}, t_write_set = {}, t_omitting = False, t_stats_interval = Fin 0, t_reporter_interval = Fin 0,
     t_omit_timer = None, t_timer = None, t_done = False, t_stats_timer = None, t_reporter_timer = None,
     t_cpu_util = (Fin 0, Fin 0, Fin 0), t_remote_cpu_util = (Fin 0, Fin 0, Fin 0), t_num_streams = 0,
     t_bytes_sent = 0, t_blocks_sent = 0, t_bytes_received = 0, t_blocks_received = 0,
     t_cookie = replicate COOKIE_SIZE 0, t_streams = [],
     t_settings = \<lparr>cfg_domain = 0, cfg_socket_bufsize = 0, cfg_blksize = 0, cfg_rate = 0, cfg_fqrate = 0,
       cfg_pacing_timer = 0, cfg_burst = 0, cfg_mss = 0, cfg_ttl = 0, cfg_tos = 0, cfg_flowlabel = 0,
       cfg_bytes = 0, cfg_blocks = 0, cfg_unit_format = CHR 0x00, cfg_num_ostreams = 0, cfg_connect_timeout = 0\<rparr>,
     t_json_start = None, t_json_top = None, t_json_server_output = None, t_server_output_text = None,
     t_server_output_list = [], t_diskfile_name = None, i_errno = 0\<rparr>"

definition PORT :: int where "PORT = 5201"
definition OMIT :: int where "OMIT = 0"
definition DURATION :: int where "DURATION = 10"

definition iperf_defaults :: "iperf_test \<Rightarrow> iperf_test" where
  "iperf_defaults testp =
     snd (set_protocol (testp\<lparr>t_omit := OMIT, t_duration := DURATION, t_affinity := -1, t_server_affinity := -1,
       t_title := None, t_extra_data := None, t_congestion := None, t_congestion_used := None,
       t_remote_congestion_used := None, t_server_port := PORT, t_ctrl_sck := -1, t_prot_listener := -1,
       t_other_side_has_retransmits := 0, t_stats_interval := Fin 1, t_reporter_interval := Fin 1, t_num_streams := 1,
       t_settings := (t_settings testp)\<lparr>cfg_domain := AF_UNSPEC, cfg_unit_format := CHR ''a'', cfg_socket_bufsize := 0,
         cfg_blksize := DEFAULT_TCP_BLKSIZE, cfg_rate := 0, cfg_fqrate := 0, cfg_pacing_timer := 1000, cfg_burst := 0,
         cfg_mss := 0, cfg_bytes := 0, cfg_blocks := 0, cfg_connect_timeout := -1\<rparr>,
       t_cookie := replicate COOKIE_SIZE 0, t_multisend := 10, t_streams := [], t_protocols := [Ptcp, Pudp],
       t_server_output_list := []\<rparr>) Ptcp)"

section \<open>The list of streams\<close>

text \<open>\<open>iperf_add_stream\<close>: the list with the new stream at its end, numbered.\<close>

definition iperf_add_stream :: "iperf_stream list \<Rightarrow> iperf_stream \<Rightarrow> iperf_stream list" where
  "iperf_add_stream streams sp =
     (if streams = [] then [sp\<lparr>sp_id := 1\<rparr>]
      else let i = foldl (\<lambda>i n. i + 1) 2 streams in streams @ [sp\<lparr>sp_id := i\<rparr>])"

text \<open>
  The streams that \<open>iperf_add_stream\<close> builds have the numbers 1, 3, 4, and so on: they are
  pairwise distinct and the same on both sides, which the exchange of results relies on.
\<close>

theorem add_stream_ids:
  "map sp_id (foldl iperf_add_stream [] sps) =
     map (\<lambda>k. if k = 0 then 1 else int k + 2) [0..<length sps] \<and>
   distinct (map sp_id (foldl iperf_add_stream [] sps))"
proof -
  have count: "foldl (\<lambda>i n. i + 1) (k :: int) xs = k + int (length xs)" for k and xs :: "iperf_stream list"
    by (induction xs arbitrary: k) simp_all
  have step: "map sp_id (iperf_add_stream xs sp) = map sp_id xs @ [if xs = [] then 1 else 2 + int (length xs)]" for xs sp
    by (simp add: iperf_add_stream_def count)
  have "map sp_id (foldl iperf_add_stream [] sps) = map (\<lambda>k. if k = 0 then 1 else int k + 2) [0..<length sps]"
  proof (induction sps rule: rev_induct)
    case (snoc sp sps)
    have len: "length (foldl iperf_add_stream [] sps) = length sps"
      using arg_cong[OF snoc, of length] by simp
    then have "foldl iperf_add_stream [] sps = [] \<longleftrightarrow> sps = []" by (metis length_0_conv)
    then show ?case using snoc len by (simp add: step)
  qed simp
  moreover have "distinct (map (\<lambda>k. if k = 0 then 1 else int k + 2) [0..<length sps])"
    by (auto simp: distinct_map inj_on_def)
  ultimately show ?thesis by simp
qed

end
