(* ===== verification/Json_Parse.thy ===== *)
theory Json_Parse
  imports Json
begin

unbundle bit_operations_syntax

text \<open>
  The parser of \<open>cjson.c\<close>, over the bytes of the text with its terminator and an offset, as
  the code has it. Every access to the input is checked against the buffer's length and
  every write to an allocated string against its size; a violation is \<open>Fault\<close>. The
  recursion and the loops over elements run on fuel, and running out of it is \<open>Timeout\<close>.
  Both are shown never to happen.
\<close>

section \<open>Outcomes and the buffer\<close>

text \<open>\<open>Err off\<close>: the parser gives up with the buffer's offset at \<open>off\<close>.\<close>

datatype 'a outcome = Ok 'a | Err nat | Fault | Timeout

primrec obind :: "'a outcome \<Rightarrow> ('a \<Rightarrow> 'b outcome) \<Rightarrow> 'b outcome" where
  "obind (Ok x) f = f x"
| "obind (Err n) f = Err n"
| "obind Fault f = Fault"
| "obind Timeout f = Timeout"

definition rd :: "string \<Rightarrow> nat \<Rightarrow> (char \<Rightarrow> 'a outcome) \<Rightarrow> 'a outcome" where
  "rd content i k = (if i < length content then k (content ! i) else Fault)"

definition can_access :: "string \<Rightarrow> nat \<Rightarrow> bool" where
  "can_access content off \<longleftrightarrow> off < length content"

text \<open>\<open>buffer_skip_whitespace\<close>: the new offset.\<close>

definition is_blank :: "char \<Rightarrow> bool" where
  "is_blank c \<longleftrightarrow> chr_code c \<le> 32"

definition buffer_skip_whitespace :: "string \<Rightarrow> nat \<Rightarrow> nat" where
  "buffer_skip_whitespace content off =
     (let o1 = off + length (takeWhile is_blank (drop off content))
      in if o1 = length content then o1 - 1 else o1)"

section \<open>Numbers\<close>

definition num_char :: "char \<Rightarrow> bool" where
  "num_char c \<longleftrightarrow> isdigit c \<or> c \<in> {CHR ''+'', CHR ''-'', CHR ''e'', CHR ''E'', CHR ''.''}"

text \<open>The decimal point of the locale is the point. \<open>number_c_string\<close> holds 63 characters.\<close>

definition parse_number :: "string \<Rightarrow> cJSON \<Rightarrow> nat \<Rightarrow> (cJSON \<times> nat) outcome" where
  "parse_number content item off =
     (let number_c_string = takeWhile num_char (take 63 (drop off content)) in
      case strtod number_c_string of
        None \<Rightarrow> Err off
      | Some (number, rest) \<Rightarrow>
          Ok (set_type cJSON_Number
                (set_valueint (saturate number) (set_valuedouble number item)),
              off + (length number_c_string - length rest)))"

section \<open>Strings\<close>

definition hex_val :: "char \<Rightarrow> int option" where
  "hex_val c =
     (if 48 \<le> chr_code c \<and> chr_code c \<le> 57 then Some (chr_code c - 48)
      else if 65 \<le> chr_code c \<and> chr_code c \<le> 70 then Some (10 + chr_code c - 65)
      else if 97 \<le> chr_code c \<and> chr_code c \<le> 102 then Some (10 + chr_code c - 97)
      else None)"

text \<open>\<open>i\<close> digits are to be read at \<open>pos\<close>, \<open>h\<close> is the value so far.\<close>

fun parse_hex4_from :: "string \<Rightarrow> nat \<Rightarrow> nat \<Rightarrow> int \<Rightarrow> int outcome" where
  "parse_hex4_from content pos 0 h = Ok h"
| "parse_hex4_from content pos (Suc i) h =
     rd content pos (\<lambda>c. case hex_val c of
         None \<Rightarrow> Ok 0
       | Some d \<Rightarrow> parse_hex4_from content (pos + 1) i (if i > 0 then (h + d) * 16 else h + d))"

definition parse_hex4 :: "string \<Rightarrow> nat \<Rightarrow> int outcome" where
  "parse_hex4 content pos = parse_hex4_from content pos 4 0"

text \<open>The bytes of a code point, and their writing to a buffer of \<open>cap\<close> bytes.\<close>

definition utf8_length :: "int \<Rightarrow> nat option" where
  "utf8_length cp =
     (if cp < 0x80 then Some 1 else if cp < 0x800 then Some 2
      else if cp < 0x10000 then Some 3 else if cp \<le> 0x10FFFF then Some 4 else None)"

definition first_byte_mark :: "nat \<Rightarrow> int" where
  "first_byte_mark n = (if n = 2 then 0xC0 else if n = 3 then 0xE0 else if n = 4 then 0xF0 else 0)"

fun utf8_tail :: "nat \<Rightarrow> int \<Rightarrow> string \<Rightarrow> int \<times> string" where
  "utf8_tail 0 cp acc = (cp, acc)"
| "utf8_tail (Suc n) cp acc =
     utf8_tail n (drop_bit 6 cp) (char_of ((cp OR 0x80) AND 0xBF) # acc)"

definition utf8_bytes :: "nat \<Rightarrow> int \<Rightarrow> string" where
  "utf8_bytes n cp =
     (let (c, tl) = utf8_tail (n - 1) cp []
      in char_of (if n > 1 then (c OR first_byte_mark n) AND 0xFF else c AND 0x7F) # tl)"

definition put :: "nat \<Rightarrow> string \<Rightarrow> string \<Rightarrow> string outcome" where
  "put cap out bs = (if length out + length bs \<le> cap then Ok (out @ bs) else Fault)"

text \<open>
  \<open>utf16_literal_to_utf8\<close> for the literal at \<open>pos\<close> in a string that ends at \<open>iend\<close>: the length
  of the sequence (0: invalid) and the output.
\<close>

definition utf16_literal_to_utf8 ::
  "string \<Rightarrow> nat \<Rightarrow> nat \<Rightarrow> nat \<Rightarrow> string \<Rightarrow> (nat \<times> string) outcome" where
  "utf16_literal_to_utf8 content pos iend cap out =
     (let finish = (\<lambda>sequence_length codepoint.
            case utf8_length codepoint of
              None \<Rightarrow> Ok (0, out)
            | Some n \<Rightarrow> obind (put cap out (utf8_bytes n codepoint)) (\<lambda>out'. Ok (sequence_length, out')))
      in
      if iend - pos < 6 then Ok (0, out)
      else obind (parse_hex4 content (pos + 2)) (\<lambda>first_code.
        if 0xDC00 \<le> first_code \<and> first_code \<le> 0xDFFF then Ok (0, out)
        else if 0xD800 \<le> first_code \<and> first_code \<le> 0xDBFF then
          if iend - (pos + 6) < 6 then Ok (0, out)
          else rd content (pos + 6) (\<lambda>c0. rd content (pos + 7) (\<lambda>c1.
            if c0 \<noteq> CHR 0x5C \<or> c1 \<noteq> CHR ''u'' then Ok (0, out)
            else obind (parse_hex4 content (pos + 8)) (\<lambda>second_code.
              if second_code < 0xDC00 \<or> second_code > 0xDFFF then Ok (0, out)
              else finish 12 (0x10000 + (push_bit 10 (first_code AND 0x3FF) OR (second_code AND 0x3FF))))))
        else finish 6 first_code))"

text \<open>
  The first pass of \<open>parse_string\<close>: the position of the closing quote and the number of
  escapes, or \<^const>\<open>None\<close> when the text ends first.
\<close>

function scan_string :: "string \<Rightarrow> nat \<Rightarrow> nat \<Rightarrow> (nat \<times> nat) option" where
  "scan_string content pos skipped =
     (if pos < length content \<and> content ! pos \<noteq> CHR ''\"'' then
        if content ! pos = CHR 0x5C then
          if pos + 1 \<ge> length content then None
          else scan_string content (pos + 2) (skipped + 1)
        else scan_string content (pos + 1) skipped
      else if pos \<ge> length content then None
      else Some (pos, skipped))"
  by pat_completeness auto
termination by (relation "measure (\<lambda>(content, pos, skipped). length content - pos)") auto

declare scan_string.simps [simp del]

definition escape_char :: "char \<Rightarrow> char option" where
  "escape_char c =
     (if c = CHR ''b'' then Some (CHR 0x08) else if c = CHR ''f'' then Some (CHR 0x0C)
      else if c = CHR ''n'' then Some (CHR 0x0A) else if c = CHR ''r'' then Some (CHR 0x0D)
      else if c = CHR ''t'' then Some (CHR 0x09)
      else if c \<in> {CHR ''\"'', CHR 0x5C, CHR ''/''} then Some c else None)"

text \<open>The second pass: copies the string up to \<open>iend\<close>, undoing the escapes.\<close>

function unescape :: "string \<Rightarrow> nat \<Rightarrow> nat \<Rightarrow> nat \<Rightarrow> string \<Rightarrow> string outcome" where
  "unescape content pos iend cap out =
     (if pos < iend then
        rd content pos (\<lambda>c.
          if c \<noteq> CHR 0x5C then
            obind (put cap out [c]) (\<lambda>out'. unescape content (pos + 1) iend cap out')
          else rd content (pos + 1) (\<lambda>e.
            if e = CHR ''u'' then
              case utf16_literal_to_utf8 content pos iend cap out of
                Ok (n, out') \<Rightarrow> if n = 0 then Err pos else unescape content (pos + n) iend cap out'
              | Err k \<Rightarrow> Err k | Fault \<Rightarrow> Fault | Timeout \<Rightarrow> Timeout
            else case escape_char e of
              None \<Rightarrow> Err pos
            | Some x \<Rightarrow> obind (put cap out [x]) (\<lambda>out'. unescape content (pos + 2) iend cap out')))
      else Ok out)"
  by pat_completeness auto
termination by (relation "measure (\<lambda>(content, pos, iend, cap, out). iend - pos)") auto

declare unescape.simps [simp del]

text \<open>
  Whether an allocation succeeds depends on its place and its size. The place is 0 for the item
  that \<open>cJSON_ParseWithOpts\<close> allocates, and one more than the offset otherwise: of the opening
  quote for a string, and for the item of an element, of what its loop stands on (the bracket,
  a blank before the first element, or a comma). No two allocations of one call of the parser
  have the same place, so a predicate on the places lets any of them fail and the others succeed.
\<close>

type_synonym allocator = "nat \<Rightarrow> nat \<Rightarrow> bool"

definition parse_string :: "allocator \<Rightarrow> string \<Rightarrow> cJSON \<Rightarrow> nat \<Rightarrow> (cJSON \<times> nat) outcome" where
  "parse_string can content item off =
     rd content off (\<lambda>q.
       if q \<noteq> CHR ''\"'' then Err (off + 1)
       else case scan_string content (off + 1) 0 of
         None \<Rightarrow> Err (off + 1)
       | Some (iend, skipped) \<Rightarrow>
           (let allocation_length = iend - off - skipped in
            if \<not> can (Suc off) (allocation_length + 1) then Err (off + 1)
            else obind (unescape content (off + 1) iend (allocation_length + 1) []) (\<lambda>out.
              obind (put (allocation_length + 1) out [CHR 0x00]) (\<lambda>_.
                Ok (set_valuestring (Some out) (set_type cJSON_String item), iend + 1)))))"

section \<open>Values\<close>

definition CJSON_NESTING_LIMIT :: nat where
  "CJSON_NESTING_LIMIT = 1000"

definition has_word :: "string \<Rightarrow> nat \<Rightarrow> string \<Rightarrow> bool" where
  "has_word content off w \<longleftrightarrow> off + length w \<le> length content \<and> take (length w) (drop off content) = w"

text \<open>
  \<open>parse_array\<close> and \<open>parse_object\<close> call \<open>parse_value\<close>, which is their argument \<open>pv\<close> (of the depth,
  the item and the offset); \<open>array_elems\<close> and \<open>object_elems\<close> are their \<open>do\<close> loops, with fuel. The
  results are the item (the elements) and the offset. \<open>depth\<close> is passed down, as every
  successful return restores it.
\<close>

type_synonym parser = "nat \<Rightarrow> cJSON \<Rightarrow> nat \<Rightarrow> (cJSON \<times> nat) outcome"

fun array_elems ::
  "allocator \<Rightarrow> string \<Rightarrow> parser \<Rightarrow> nat \<Rightarrow> nat \<Rightarrow> cJSON list \<Rightarrow> nat \<Rightarrow> (cJSON list \<times> nat) outcome"
where
  "array_elems can content pv 0 depth acc off = Timeout"
| "array_elems can content pv (Suc n) depth acc off =
     (case cJSON_New_Item (can (Suc off)) of
        None \<Rightarrow> Err off
      | Some new_item \<Rightarrow>
          obind (pv depth new_item (buffer_skip_whitespace content (off + 1))) (\<lambda>(v, o2).
            let o3 = buffer_skip_whitespace content o2 in
            if can_access content o3 \<and> content ! o3 = CHR '','' then
              array_elems can content pv n depth (acc @ [v]) o3
            else Ok (acc @ [v], o3)))"

definition parse_array :: "allocator \<Rightarrow> string \<Rightarrow> parser \<Rightarrow> parser" where
  "parse_array can content pv depth item off =
     (if depth \<ge> CJSON_NESTING_LIMIT then Err off
      else rd content off (\<lambda>c.
        if c \<noteq> CHR ''['' then Err off
        else let o1 = buffer_skip_whitespace content (off + 1) in
          if can_access content o1 \<and> content ! o1 = CHR '']'' then
            Ok (set_child [] (set_type cJSON_Array item), o1 + 1)
          else if \<not> can_access content o1 then Err (o1 - 1)
          else obind (array_elems can content pv (length content) (depth + 1) [] (o1 - 1)) (\<lambda>(es, o2).
            if \<not> can_access content o2 \<or> content ! o2 \<noteq> CHR '']'' then Err o2
            else Ok (set_child es (set_type cJSON_Array item), o2 + 1))))"

fun object_elems ::
  "allocator \<Rightarrow> string \<Rightarrow> parser \<Rightarrow> nat \<Rightarrow> nat \<Rightarrow> cJSON list \<Rightarrow> nat \<Rightarrow> (cJSON list \<times> nat) outcome"
where
  "object_elems can content pv 0 depth acc off = Timeout"
| "object_elems can content pv (Suc n) depth acc off =
     (case cJSON_New_Item (can (Suc off)) of
        None \<Rightarrow> Err off
      | Some new_item \<Rightarrow>
          obind (parse_string can content new_item (buffer_skip_whitespace content (off + 1))) (\<lambda>(nm, o2).
            let o3 = buffer_skip_whitespace content o2;
                cur = set_valuestring None (set_string (valuestring nm) nm)
            in if \<not> can_access content o3 \<or> content ! o3 \<noteq> CHR '':'' then Err o3
               else obind (pv depth cur (buffer_skip_whitespace content (o3 + 1))) (\<lambda>(v, o5).
                   let o6 = buffer_skip_whitespace content o5 in
                   if can_access content o6 \<and> content ! o6 = CHR '','' then
                     object_elems can content pv n depth (acc @ [v]) o6
                   else Ok (acc @ [v], o6))))"

definition parse_object :: "allocator \<Rightarrow> string \<Rightarrow> parser \<Rightarrow> parser" where
  "parse_object can content pv depth item off =
     (if depth \<ge> CJSON_NESTING_LIMIT then Err off
      else if \<not> can_access content off \<or> content ! off \<noteq> CHR ''{'' then Err off
      else let o1 = buffer_skip_whitespace content (off + 1) in
        if can_access content o1 \<and> content ! o1 = CHR ''}'' then
          Ok (set_child [] (set_type cJSON_Object item), o1 + 1)
        else if \<not> can_access content o1 then Err (o1 - 1)
        else obind (object_elems can content pv (length content) (depth + 1) [] (o1 - 1)) (\<lambda>(es, o2).
          if \<not> can_access content o2 \<or> content ! o2 \<noteq> CHR ''}'' then Err o2
          else Ok (set_child es (set_type cJSON_Object item), o2 + 1)))"

text \<open>The recursion is as deep as the nesting, which the limit bounds: that is the fuel.\<close>

primrec parse_value :: "nat \<Rightarrow> allocator \<Rightarrow> string \<Rightarrow> parser" where
  "parse_value 0 can content = (\<lambda>depth item off. Timeout)"
| "parse_value (Suc fuel) can content = (\<lambda>depth item off.
     (if has_word content off ''null'' then Ok (set_type cJSON_NULL item, off + 4)
      else if has_word content off ''false'' then Ok (set_type cJSON_False item, off + 5)
      else if has_word content off ''true'' then
        Ok (set_valueint 1 (set_type cJSON_True item), off + 4)
      else if can_access content off \<and> content ! off = CHR ''\"'' then
        parse_string can content item off
      else if can_access content off \<and>
          (content ! off = CHR ''-'' \<or> isdigit (content ! off)) then
        parse_number content item off
      else if can_access content off \<and> content ! off = CHR ''['' then
        parse_array can content (parse_value fuel can content) depth item off
      else if can_access content off \<and> content ! off = CHR ''{'' then
        parse_object can content (parse_value fuel can content) depth item off
      else Err off))"

text \<open>
  \<open>cJSON_ParseWithOpts\<close>: the item with the position where the parse ended, or the position of
  the error (\<open>return_parse_end\<close> or \<open>global_error\<close>); \<open>Err\<close> positions are already clipped to
  the text. The text is \<open>value\<close> with its terminator.
\<close>

definition cJSON_ParseWithOpts ::
  "allocator \<Rightarrow> string option \<Rightarrow> bool \<Rightarrow> (cJSON \<times> nat) outcome" where
  "cJSON_ParseWithOpts can val require_null_terminated =
     (case val of None \<Rightarrow> Err 0
      | Some v \<Rightarrow>
        (let content = v @ [CHR 0x00];
             clip = (\<lambda>off. if off < length content then off else length content - 1)
         in case cJSON_New_Item (can 0) of
              None \<Rightarrow> Err 0
            | Some item \<Rightarrow>
               (case parse_value (Suc CJSON_NESTING_LIMIT) can content 0 item
                       (buffer_skip_whitespace content 0) of
                  Ok (i, off) \<Rightarrow>
                    if require_null_terminated then
                      (let o1 = buffer_skip_whitespace content off in
                       if o1 \<ge> length content \<or> content ! o1 \<noteq> CHR 0x00 then Err (clip o1)
                       else Ok (i, o1))
                    else Ok (i, off)
                | Err off \<Rightarrow> Err (clip off)
                | Fault \<Rightarrow> Fault
                | Timeout \<Rightarrow> Timeout)))"

definition cJSON_Parse :: "allocator \<Rightarrow> string option \<Rightarrow> cJSON option" where
  "cJSON_Parse can val = (case cJSON_ParseWithOpts can val False of Ok (i, _) \<Rightarrow> Some i | _ \<Rightarrow> None)"

end
