(* ===== verification/Json_Print.thy ===== *)
theory Json_Print
  imports Json_Parse
begin

unbundle bit_operations_syntax

text \<open>
  The printer of \<open>cjson.c\<close>, on its growing buffer. The memory of the buffer is a list of
  bytes, \<^const>\<open>None\<close> where nothing was written yet. A write outside of it, or reading a byte that
  was never written, is \<open>Fault\<close>; \<open>Err\<close> is a return of \<open>false\<close>. Below, \<open>print_spec\<close> is the text
  that the functions are meant to write.
\<close>

section \<open>The buffer\<close>

record printbuffer =
  buffer :: "char option list option"
  plength :: nat
  poffset :: nat
  pdepth :: nat
  noalloc :: bool
  pformat :: bool

definition size_limit :: nat where
  "size_limit = nat LLONG_MAX"

text \<open>
  \<open>ensure\<close> with the hooks at their defaults (\<open>realloc\<close> is available). When \<open>realloc\<close> fails the
  buffer is lost and the function returns \<open>NULL + offset\<close>: \<open>NULL\<close> for offset 0, else a wild pointer
  that the caller writes through, which is \<open>Fault\<close>.
\<close>

definition ensure :: "(nat \<Rightarrow> bool) \<Rightarrow> printbuffer \<Rightarrow> nat \<Rightarrow> printbuffer outcome" where
  "ensure can p needed =
     (case buffer p of None \<Rightarrow> Err 0
      | Some m \<Rightarrow>
        if plength p > 0 \<and> poffset p \<ge> plength p then Err 0
        else if int needed > LLONG_MAX then Err 0
        else let n = needed + poffset p + 1 in
          if n \<le> plength p then Ok p
          else if noalloc p then Err 0
          else if int n > LLONG_MAX div 2 \<and> int n > LLONG_MAX then Err 0
          else let newsize = (if int n > LLONG_MAX div 2 then nat LLONG_MAX else n * 2) in
            if can newsize then
              Ok (p\<lparr>plength := newsize,
                    buffer := Some (take newsize m @ replicate (newsize - length m) None)\<rparr>)
            else if poffset p = 0 then Err 0 else Fault)"

lemma ensure_nat:
  "ensure can p needed =
     (case buffer p of None \<Rightarrow> Err 0
      | Some m \<Rightarrow>
        if plength p > 0 \<and> poffset p \<ge> plength p then Err 0
        else if needed > size_limit then Err 0
        else let n = needed + poffset p + 1 in
          if n \<le> plength p then Ok p
          else if noalloc p then Err 0
          else if n > size_limit div 2 \<and> n > size_limit then Err 0
          else let newsize = (if n > size_limit div 2 then size_limit else n * 2) in
            if can newsize then
              Ok (p\<lparr>plength := newsize,
                    buffer := Some (take newsize m @ replicate (newsize - length m) None)\<rparr>)
            else if poffset p = 0 then Err 0 else Fault)"
proof -
  have l: "(int k > LLONG_MAX) = (k > size_limit)" "(int k > LLONG_MAX div 2) = (k > size_limit div 2)" for k
    by (auto simp: size_limit_def LLONG_MAX_def)
  show ?thesis unfolding ensure_def l size_limit_def[symmetric] ..
qed

text \<open>Writing bytes at a position, and \<open>strlen\<close> from a position.\<close>

definition poke :: "printbuffer \<Rightarrow> nat \<Rightarrow> string \<Rightarrow> printbuffer outcome" where
  "poke p i bs = (case buffer p of None \<Rightarrow> Fault
     | Some m \<Rightarrow> if i + length bs \<le> length m
                then Ok (p\<lparr>buffer := Some (take i m @ map Some bs @ drop (i + length bs) m)\<rparr>)
                else Fault)"

fun c_strlen :: "char option list \<Rightarrow> nat outcome" where
  "c_strlen [] = Fault"
| "c_strlen (None # m) = Fault"
| "c_strlen (Some c # m) =
     (if c = CHR 0x00 then Ok 0 else obind (c_strlen m) (\<lambda>n. Ok (Suc n)))"

definition update_offset :: "printbuffer \<Rightarrow> printbuffer outcome" where
  "update_offset p = (case buffer p of None \<Rightarrow> Ok p
     | Some m \<Rightarrow> obind (c_strlen (drop (poffset p) m)) (\<lambda>n. Ok (p\<lparr>poffset := poffset p + n\<rparr>)))"

text \<open>The pattern of all writers: reserve, write at the offset, advance it.\<close>

definition emit :: "(nat \<Rightarrow> bool) \<Rightarrow> nat \<Rightarrow> string \<Rightarrow> nat \<Rightarrow> printbuffer \<Rightarrow> printbuffer outcome" where
  "emit can needed bs adv p =
     obind (ensure can p needed) (\<lambda>p1.
     obind (poke p1 (poffset p1) bs) (\<lambda>p2. Ok (p2\<lparr>poffset := poffset p2 + adv\<rparr>)))"

section \<open>Numbers and strings\<close>

definition number_text :: "double \<Rightarrow> string" where
  "number_text d =
     (if \<not> deq (dmul d (Fin 0)) (Fin 0) then ''null''
      else let s = fmt_g 15 d in
        case strtod s of
          Some (test, _) \<Rightarrow> if deq test d then s else fmt_g 17 d
        | None \<Rightarrow> fmt_g 17 d)"

definition print_number :: "(nat \<Rightarrow> bool) \<Rightarrow> cJSON \<Rightarrow> printbuffer \<Rightarrow> printbuffer outcome" where
  "print_number can item p =
     (let s = number_text (valuedouble item) in
      if length s > 25 then Err 0
      else emit can (length s) (s @ [CHR 0x00]) (length s) p)"

definition plain_char :: "char \<Rightarrow> bool" where
  "plain_char c \<longleftrightarrow> chr_code c > 31 \<and> c \<noteq> CHR ''\"'' \<and> c \<noteq> CHR 0x5C"

definition short_escape :: "char \<Rightarrow> char option" where
  "short_escape c =
     (if c = CHR 0x5C then Some (CHR 0x5C) else if c = CHR ''\"'' then Some (CHR ''\"'')
      else if c = CHR 0x08 then Some (CHR ''b'') else if c = CHR 0x0C then Some (CHR ''f'')
      else if c = CHR 0x0A then Some (CHR ''n'') else if c = CHR 0x0D then Some (CHR ''r'')
      else if c = CHR 0x09 then Some (CHR ''t'') else None)"

definition hexdigit :: "int \<Rightarrow> char" where
  "hexdigit n = (if n < 10 then char_of (48 + n) else char_of (87 + n))"

text \<open>\<open>u%04x\<close> of a character.\<close>

definition u04x :: "char \<Rightarrow> string" where
  "u04x c = [CHR ''u'', CHR ''0'', CHR ''0'', hexdigit (chr_code c div 16), hexdigit (chr_code c mod 16)]"

definition escape_count :: "char \<Rightarrow> nat" where
  "escape_count c =
     (if short_escape c \<noteq> None then 1 else if chr_code c < 32 then 5 else 0)"

text \<open>The copying loop: \<open>pos\<close> is the output position. \<open>sprintf\<close> also writes its terminator.\<close>

fun put_escaped :: "string \<Rightarrow> nat \<Rightarrow> printbuffer \<Rightarrow> printbuffer outcome" where
  "put_escaped [] pos p = Ok p"
| "put_escaped (c # cs) pos p =
     (if plain_char c then obind (poke p pos [c]) (put_escaped cs (pos + 1))
      else obind (poke p pos [CHR 0x5C]) (\<lambda>p1.
        case short_escape c of
          Some e \<Rightarrow> obind (poke p1 (pos + 1) [e]) (put_escaped cs (pos + 2))
        | None \<Rightarrow> obind (poke p1 (pos + 1) (u04x c @ [CHR 0x00])) (put_escaped cs (pos + 6))))"

definition print_string_ptr :: "(nat \<Rightarrow> bool) \<Rightarrow> string option \<Rightarrow> printbuffer \<Rightarrow> printbuffer outcome" where
  "print_string_ptr can input p = (case input of
       None \<Rightarrow> emit can 3 [CHR ''\"'', CHR ''\"'', CHR 0x00] 0 p
     | Some s \<Rightarrow>
         let escape_characters = sum_list (map escape_count s);
             output_length = length s + escape_characters
         in obind (ensure can p (output_length + 3)) (\<lambda>p1.
              let out = poffset p1 in
              if escape_characters = 0 then
                poke p1 out (CHR ''\"'' # s @ [CHR ''\"'', CHR 0x00])
              else obind (poke p1 out [CHR ''\"'']) (\<lambda>p2.
                   obind (put_escaped s (out + 1) p2) (\<lambda>p3.
                   poke p3 (out + output_length + 1) [CHR ''\"'', CHR 0x00]))))"

definition print_string :: "(nat \<Rightarrow> bool) \<Rightarrow> cJSON \<Rightarrow> printbuffer \<Rightarrow> printbuffer outcome" where
  "print_string can item p = print_string_ptr can (valuestring item) p"

section \<open>Values\<close>

type_synonym printer = "cJSON \<Rightarrow> printbuffer \<Rightarrow> printbuffer outcome"

text \<open>The loops over the elements, for a printer \<open>pv\<close> of values.\<close>

fun print_elems :: "(nat \<Rightarrow> bool) \<Rightarrow> printer \<Rightarrow> cJSON list \<Rightarrow> printbuffer \<Rightarrow> printbuffer outcome" where
  "print_elems can pv [] p = Ok p"
| "print_elems can pv (e # es) p =
     obind (pv e p) (\<lambda>p1.
     obind (update_offset p1) (\<lambda>p2.
     if es \<noteq> [] then
       let len = (if pformat p2 then 2 else 1) in
       obind (emit can (len + 1)
                ((if pformat p2 then '', '' else '','') @ [CHR 0x00]) len p2)
         (print_elems can pv es)
     else print_elems can pv es p2))"

lemma print_elems_cong [fundef_cong]:
  "can = can' \<Longrightarrow> es = es' \<Longrightarrow> p = p' \<Longrightarrow> (\<And>e q. e \<in> set es' \<Longrightarrow> pv e q = pv' e q) \<Longrightarrow>
     print_elems can pv es p = print_elems can' pv' es' p'"
proof (induction es arbitrary: es' p p' can')
  case (Cons e es)
  then show ?case by (auto intro!: arg_cong2[where f = obind] ext simp: Let_def)
qed auto

definition print_array :: "(nat \<Rightarrow> bool) \<Rightarrow> printer \<Rightarrow> cJSON list \<Rightarrow> printbuffer \<Rightarrow> printbuffer outcome" where
  "print_array can pv es p =
     obind (emit can 1 ''['' 1 p) (\<lambda>p1.
     obind (print_elems can pv es (p1\<lparr>pdepth := pdepth p1 + 1\<rparr>)) (\<lambda>p2.
     obind (emit can 2 ('']'' @ [CHR 0x00]) 0 p2) (\<lambda>p3.
     Ok (p3\<lparr>pdepth := pdepth p3 - 1\<rparr>))))"

lemma print_array_cong [fundef_cong]:
  "can = can' \<Longrightarrow> es = es' \<Longrightarrow> p = p' \<Longrightarrow> (\<And>e q. e \<in> set es' \<Longrightarrow> pv e q = pv' e q) \<Longrightarrow>
     print_array can pv es p = print_array can' pv' es' p'"
  unfolding print_array_def by (auto cong: print_elems_cong intro!: arg_cong2[where f = obind] ext)

fun print_members :: "(nat \<Rightarrow> bool) \<Rightarrow> printer \<Rightarrow> cJSON list \<Rightarrow> printbuffer \<Rightarrow> printbuffer outcome" where
  "print_members can pv [] p = Ok p"
| "print_members can pv (e # es) p =
     obind (if pformat p then emit can (pdepth p) (replicate (pdepth p) (CHR 0x09)) (pdepth p) p
            else Ok p) (\<lambda>p1.
     obind (print_string_ptr can (jstring e) p1) (\<lambda>p2.
     obind (update_offset p2) (\<lambda>p3.
     let len = (if pformat p3 then 2 else 1) in
     obind (emit can len (if pformat p3 then [CHR '':'', CHR 0x09] else '':'') len p3) (\<lambda>p4.
     obind (pv e p4) (\<lambda>p5.
     obind (update_offset p5) (\<lambda>p6.
     let len = (if pformat p6 then 1 else 0) + (if es \<noteq> [] then 1 else 0) in
     obind (emit can (len + 1)
              ((if es \<noteq> [] then '','' else []) @ (if pformat p6 then [CHR 0x0A] else []) @ [CHR 0x00])
              len p6)
       (print_members can pv es)))))))"

lemma print_members_cong [fundef_cong]:
  "can = can' \<Longrightarrow> es = es' \<Longrightarrow> p = p' \<Longrightarrow> (\<And>e q. e \<in> set es' \<Longrightarrow> pv e q = pv' e q) \<Longrightarrow>
     print_members can pv es p = print_members can' pv' es' p'"
proof (induction es arbitrary: es' p p' can')
  case (Cons e es)
  then show ?case by (auto intro!: arg_cong2[where f = obind] ext simp: Let_def)
qed auto

definition print_object :: "(nat \<Rightarrow> bool) \<Rightarrow> printer \<Rightarrow> cJSON list \<Rightarrow> printbuffer \<Rightarrow> printbuffer outcome" where
  "print_object can pv es p =
     (let len = (if pformat p then 2 else 1) in
     obind (emit can (len + 1) (if pformat p then [CHR ''{'', CHR 0x0A] else ''{'') len p) (\<lambda>p1.
     obind (print_members can pv es (p1\<lparr>pdepth := pdepth p1 + 1\<rparr>)) (\<lambda>p2.
     obind (emit can (if pformat p2 then pdepth p2 + 1 else 2)
              ((if pformat p2 then replicate (pdepth p2 - 1) (CHR 0x09) else []) @ ''}'' @ [CHR 0x00]) 0 p2) (\<lambda>p3.
     Ok (p3\<lparr>pdepth := pdepth p3 - 1\<rparr>)))))"

lemma print_object_cong [fundef_cong]:
  "can = can' \<Longrightarrow> es = es' \<Longrightarrow> p = p' \<Longrightarrow> (\<And>e q. e \<in> set es' \<Longrightarrow> pv e q = pv' e q) \<Longrightarrow>
     print_object can pv es p = print_object can' pv' es' p'"
  unfolding print_object_def Let_def
  by (auto cong: print_members_cong intro!: arg_cong2[where f = obind] ext)

lemma size_child: "c \<in> set (child item) \<Longrightarrow> size c < size item"
  by (cases item) (auto simp: less_Suc_eq_le size_list_estimation' dest: size_list_estimation')

text \<open>
  A raw item without text frees the buffer of a growing print before it returns \<open>false\<close>: this
  is \<open>Err 1\<close>.
\<close>

function print_value :: "(nat \<Rightarrow> bool) \<Rightarrow> cJSON \<Rightarrow> printbuffer \<Rightarrow> printbuffer outcome" where
  "print_value can item p =
     (let t = jtype item AND 255 in
      if t = cJSON_NULL then emit can 5 (''null'' @ [CHR 0x00]) 0 p
      else if t = cJSON_False then emit can 6 (''false'' @ [CHR 0x00]) 0 p
      else if t = cJSON_True then emit can 5 (''true'' @ [CHR 0x00]) 0 p
      else if t = cJSON_Number then print_number can item p
      else if t = cJSON_Raw then
        (case valuestring item of None \<Rightarrow> Err (if noalloc p then 0 else 1)
         | Some raw \<Rightarrow> emit can (length raw + 1) (raw @ [CHR 0x00]) 0 p)
      else if t = cJSON_String then print_string can item p
      else if t = cJSON_Array then print_array can (print_value can) (child item) p
      else if t = cJSON_Object then print_object can (print_value can) (child item) p
      else Err 0)"
  by pat_completeness auto
termination by (relation "measure (\<lambda>(can, item, p). size item)") (auto simp: size_child)

declare print_value.simps [simp del]


section \<open>Entry points\<close>

text \<open>
  \<open>Ok\<close> is the returned text, \<open>Err\<close> is \<open>NULL\<close>. \<open>print\<close> starts with 256 bytes but with
  \<open>length\<close> 0, and its error exit frees the buffer again if \<open>print_value\<close> had freed it (\<open>Fault\<close>).
\<close>

fun c_text :: "char option list \<Rightarrow> string outcome" where
  "c_text [] = Fault"
| "c_text (None # m) = Fault"
| "c_text (Some c # m) = (if c = CHR 0x00 then Ok [] else obind (c_text m) (\<lambda>t. Ok (c # t)))"

definition text_of :: "printbuffer \<Rightarrow> string outcome" where
  "text_of p = (case buffer p of None \<Rightarrow> Err 0 | Some m \<Rightarrow> c_text m)"

definition print :: "(nat \<Rightarrow> bool) \<Rightarrow> cJSON \<Rightarrow> bool \<Rightarrow> string outcome" where
  "print can item fmt =
     (if \<not> can 256 then Err 0
      else case print_value can item
        \<lparr>buffer = Some (replicate 256 None), plength = 0, poffset = 0, pdepth = 0,
         noalloc = False, pformat = fmt\<rparr> of
          Ok p \<Rightarrow> obind (update_offset p) (\<lambda>p1.
            if can (plength p1)
            then text_of (p1\<lparr>buffer := map_option (take (plength p1)) (buffer p1)\<rparr>)
            else Err 0)
        | Err e \<Rightarrow> if e = 0 then Err 0 else Fault
        | Fault \<Rightarrow> Fault
        | Timeout \<Rightarrow> Timeout)"

definition cJSON_Print :: "(nat \<Rightarrow> bool) \<Rightarrow> cJSON \<Rightarrow> string outcome" where
  "cJSON_Print can item = print can item True"

definition cJSON_PrintUnformatted :: "(nat \<Rightarrow> bool) \<Rightarrow> cJSON \<Rightarrow> string outcome" where
  "cJSON_PrintUnformatted can item = print can item False"

definition cJSON_PrintBuffered :: "(nat \<Rightarrow> bool) \<Rightarrow> cJSON \<Rightarrow> int \<Rightarrow> bool \<Rightarrow> string outcome" where
  "cJSON_PrintBuffered can item prebuffer fmt =
     (if prebuffer < 0 \<or> \<not> can (nat prebuffer) then Err 0
      else obind (print_value can item
        \<lparr>buffer = Some (replicate (nat prebuffer) None), plength = nat prebuffer, poffset = 0,
         pdepth = 0, noalloc = False, pformat = fmt\<rparr>) text_of)"

text \<open>
  \<open>cJSON_PrintPreallocated\<close> into the memory \<open>buf\<close> of the caller, which says that it has \<open>len\<close>
  bytes: the memory afterwards, or failure.
\<close>

definition cJSON_PrintPreallocated ::
  "cJSON \<Rightarrow> char option list \<Rightarrow> int \<Rightarrow> bool \<Rightarrow> char option list outcome" where
  "cJSON_PrintPreallocated item buf len fmt =
     (if len < 0 then Err 0
      else obind (print_value (\<lambda>_. False) item
        \<lparr>buffer = Some buf, plength = nat len, poffset = 0, pdepth = 0, noalloc = True,
         pformat = fmt\<rparr>) (\<lambda>p. case buffer p of None \<Rightarrow> Err 0 | Some m \<Rightarrow> Ok m))"

section \<open>The text to be written\<close>

definition escape_text :: "char \<Rightarrow> string" where
  "escape_text c =
     (if plain_char c then [c]
      else case short_escape c of Some e \<Rightarrow> [CHR 0x5C, e] | None \<Rightarrow> CHR 0x5C # u04x c)"

definition quoted :: "string option \<Rightarrow> string" where
  "quoted s = CHR ''\"'' # concat (map escape_text (case s of None \<Rightarrow> [] | Some t \<Rightarrow> t)) @ ''\"''"

fun elems_spec :: "bool \<Rightarrow> (cJSON \<Rightarrow> string option) \<Rightarrow> cJSON list \<Rightarrow> string option" where
  "elems_spec fmt sp [] = Some []"
| "elems_spec fmt sp (e # es) = (case (sp e, elems_spec fmt sp es) of
     (Some t, Some r) \<Rightarrow>
       Some (t @ (if es \<noteq> [] then (if fmt then '', '' else '','') else []) @ r)
   | _ \<Rightarrow> None)"

lemma elems_spec_cong [fundef_cong]:
  "fmt = fmt' \<Longrightarrow> es = es' \<Longrightarrow> (\<And>e. e \<in> set es' \<Longrightarrow> sp e = sp' e) \<Longrightarrow>
     elems_spec fmt sp es = elems_spec fmt' sp' es'"
  by (induction es arbitrary: es') auto

fun members_spec :: "bool \<Rightarrow> nat \<Rightarrow> (cJSON \<Rightarrow> string option) \<Rightarrow> cJSON list \<Rightarrow> string option" where
  "members_spec fmt d sp [] = Some []"
| "members_spec fmt d sp (e # es) = (case (sp e, members_spec fmt d sp es) of
     (Some t, Some r) \<Rightarrow>
       Some ((if fmt then replicate d (CHR 0x09) else []) @ quoted (jstring e) @
         (if fmt then [CHR '':'', CHR 0x09] else '':'') @ t @
         (if es \<noteq> [] then '','' else []) @ (if fmt then [CHR 0x0A] else []) @ r)
   | _ \<Rightarrow> None)"

lemma members_spec_cong [fundef_cong]:
  "fmt = fmt' \<Longrightarrow> d = d' \<Longrightarrow> es = es' \<Longrightarrow> (\<And>e. e \<in> set es' \<Longrightarrow> sp e = sp' e) \<Longrightarrow>
     members_spec fmt d sp es = members_spec fmt' d' sp' es'"
  by (induction es arbitrary: es') auto

function print_spec :: "bool \<Rightarrow> nat \<Rightarrow> cJSON \<Rightarrow> string option" where
  "print_spec fmt d item =
     (let t = jtype item AND 255 in
      if t = cJSON_NULL then Some ''null''
      else if t = cJSON_False then Some ''false''
      else if t = cJSON_True then Some ''true''
      else if t = cJSON_Number then
        (let s = number_text (valuedouble item) in if length s > 25 then None else Some s)
      else if t = cJSON_Raw then valuestring item
      else if t = cJSON_String then Some (quoted (valuestring item))
      else if t = cJSON_Array then
        map_option (\<lambda>r. ''['' @ r @ '']'') (elems_spec fmt (print_spec fmt (d + 1)) (child item))
      else if t = cJSON_Object then
        map_option (\<lambda>r. ''{'' @ (if fmt then [CHR 0x0A] else []) @ r @
            (if fmt then replicate d (CHR 0x09) else []) @ ''}'')
          (members_spec fmt (d + 1) (print_spec fmt (d + 1)) (child item))
      else None)"
  by pat_completeness auto
termination by (relation "measure (\<lambda>(fmt, d, item). size item)") (auto simp: size_child)

declare print_spec.simps [simp del]

end
