(* ===== verification/Exchange.thy ===== *)
theory Exchange
  imports Tcp Api Json_Parse Json_Print
begin

text \<open>
  \<open>iperf_api.c\<close>, the exchange of parameters and results over the control connection: a JSON
  object, preceded by its length. Memory is available (\<^const>\<open>mem\<close>); reading through a
  null pointer and writing beyond an allocation is \<open>Fault\<close>. A local variable that a short
  read leaves uninitialised has the content \<open>junk\<close>.
\<close>

section \<open>JSON on the control connection\<close>

definition bytes_of :: "string \<Rightarrow> u8 list" where
  "bytes_of s = map (\<lambda>c. word_of_int (chr_code c)) s"

definition string_of :: "u8 list \<Rightarrow> string" where
  "string_of bs = map (\<lambda>b. char_of (uint b)) bs"

text \<open>The length is a \<open>uint32_t\<close>.\<close>

definition JSON_write :: "'w os \<Rightarrow> int \<Rightarrow> cJSON \<Rightarrow> ('w, int) io" where
  "JSON_write os fd json = (case cJSON_PrintUnformatted mem json of
       Ok str \<Rightarrow> do {
         let hsize = int (length str) mod 2 ^ 32;
         r1 \<leftarrow> Nwrite os fd (be_bytes 4 hsize);
         if r1 < 0 then ret (-1)
         else do {
           r2 \<leftarrow> Nwrite os fd (take (nat hsize) (bytes_of str));
           ret (if r2 < 0 then -1 else 0)
         }
       }
     | _ \<Rightarrow> ret (-1))"

text \<open>
  The buffer has \<open>hsize + 1\<close> bytes, computed in \<open>uint32_t\<close>, all of them zero (\<open>calloc\<close>); storing more
  than that is a fault. What the parser is given is the buffer up to its first zero byte, and a
  buffer without one is a fault as well. \<open>can\<close> says whether \<open>calloc\<close> succeeds, \<open>pcan\<close> which of the
  parser's allocations do.
\<close>

definition buffer_text :: "nat \<Rightarrow> u8 list \<Rightarrow> string outcome" where
  "buffer_text n b =
     (let str = b @ replicate (n - length b) 0
      in if 0 \<in> set str then Ok (string_of (takeWhile (\<lambda>c. c \<noteq> 0) str)) else Fault)"

definition JSON_read ::
  "(nat \<Rightarrow> bool) \<Rightarrow> allocator \<Rightarrow> 'w os \<Rightarrow> u8 list \<Rightarrow> int \<Rightarrow> ('w, cJSON option outcome) io" where
  "JSON_read can pcan os junk fd = do {
     (r1, b1) \<leftarrow> Nread os fd 4;
     if r1 \<ge> 0 then do {
       let hsize = be_val (take 4 (overlay b1 junk));
       let n = nat ((hsize + 1) mod 2 ^ 32);
       if \<not> can n then ret (Ok None)
       else do {
         (rc, b2) \<leftarrow> Nread os fd (nat hsize);
         ret (if length b2 > n then Fault
              else if rc \<ge> 0 \<and> rc = hsize then
                obind (buffer_text n b2) (\<lambda>str. Ok (cJSON_Parse pcan (Some str)))
              else Ok None)
       }
     } else ret (Ok None)
   }"

section \<open>Sending the parameters\<close>

text \<open>The value of a member, and the macro that adds it.\<close>

datatype jval = JTrue | JNumber double | JString string

definition add_field :: "cJSON option \<Rightarrow> string \<Rightarrow> jval \<Rightarrow> cJSON option" where
  "add_field j name v = (case v of
       JTrue \<Rightarrow> cJSON_AddTrueToObject j name
     | JNumber d \<Rightarrow> cJSON_AddNumberToObject j name d
     | JString s \<Rightarrow> cJSON_AddStringToObject j name s)"

text \<open>A list of conditional members, added in order.\<close>

type_synonym fields = "(bool \<times> string \<times> jval) list"

definition add_fields :: "fields \<Rightarrow> cJSON option \<Rightarrow> cJSON option" where
  "add_fields fs j = fold (\<lambda>(b, name, v) j. if b then add_field j name v else j) fs j"

definition d_of_u64 :: "u64 \<Rightarrow> double" where
  "d_of_u64 w = d_of_int (uint w)"

definition opt_field :: "string \<Rightarrow> string option \<Rightarrow> bool \<times> string \<times> jval" where
  "opt_field name s = (s \<noteq> None, name, JString (case s of None \<Rightarrow> [] | Some t \<Rightarrow> t))"

definition IPERF_VERSION :: string where
  "IPERF_VERSION = ''3.7+''"

definition param_fields :: "iperf_test \<Rightarrow> fields" where
  "param_fields test =
     (let cfg = t_settings test in
      [(t_protocol test = Ptcp, ''tcp'', JTrue),
       (t_protocol test \<noteq> Ptcp \<and> t_protocol test = Pudp, ''udp'', JTrue),
       (t_protocol test \<noteq> Ptcp \<and> t_protocol test \<noteq> Pudp \<and> t_protocol test = Psctp, ''sctp'', JTrue),
       (True, ''omit'', JNumber (d_of_int (t_omit test))),
       (t_server_affinity test \<noteq> -1, ''server_affinity'', JNumber (d_of_int (t_server_affinity test))),
       (True, ''time'', JNumber (d_of_int (t_duration test))),
       (cfg_bytes cfg \<noteq> 0, ''num'', JNumber (d_of_u64 (cfg_bytes cfg))),
       (cfg_blocks cfg \<noteq> 0, ''blockcount'', JNumber (d_of_u64 (cfg_blocks cfg))),
       (cfg_mss cfg \<noteq> 0, ''MSS'', JNumber (d_of_int (cfg_mss cfg))),
       (t_no_delay test, ''nodelay'', JTrue),
       (True, ''parallel'', JNumber (d_of_int (t_num_streams test))),
       (t_reverse test, ''reverse'', JTrue),
       (t_bidirectional test, ''bidirectional'', JTrue),
       (cfg_socket_bufsize cfg \<noteq> 0, ''window'', JNumber (d_of_int (cfg_socket_bufsize cfg))),
       (cfg_blksize cfg \<noteq> 0, ''len'', JNumber (d_of_int (cfg_blksize cfg))),
       (cfg_rate cfg \<noteq> 0, ''bandwidth'', JNumber (d_of_u64 (cfg_rate cfg))),
       (cfg_fqrate cfg \<noteq> 0, ''fqrate'', JNumber (d_of_u64 (cfg_fqrate cfg))),
       (cfg_pacing_timer cfg \<noteq> 0, ''pacing_timer'', JNumber (d_of_int (cfg_pacing_timer cfg))),
       (cfg_burst cfg \<noteq> 0, ''burst'', JNumber (d_of_int (cfg_burst cfg))),
       (cfg_tos cfg \<noteq> 0, ''TOS'', JNumber (d_of_int (cfg_tos cfg))),
       (cfg_flowlabel cfg \<noteq> 0, ''flowlabel'', JNumber (d_of_int (cfg_flowlabel cfg))),
       opt_field ''title'' (t_title test),
       opt_field ''extra_data'' (t_extra_data test),
       opt_field ''congestion'' (t_congestion test),
       opt_field ''congestion_used'' (t_congestion_used test),
       (t_get_server_output test \<noteq> 0, ''get_server_output'', JNumber (d_of_int (t_get_server_output test))),
       (t_udp_counters_64bit test \<noteq> 0, ''udp_counters_64bit'', JNumber (d_of_int (t_udp_counters_64bit test))),
       (t_repeating_payload test \<noteq> 0, ''repeating_payload'', JNumber (d_of_int (t_repeating_payload test))),
       (True, ''client_version'', JString IPERF_VERSION)])"

definition send_parameters :: "'w os \<Rightarrow> iperf_test \<Rightarrow> ('w, int \<times> iperf_test) io" where
  "send_parameters os test = (case add_fields (param_fields test) (cJSON_CreateObject mem) of
       None \<Rightarrow> ret (-1, test\<lparr>i_errno := IESENDPARAMS\<rparr>)
     | Some j \<Rightarrow> do {
         r \<leftarrow> JSON_write os (t_ctrl_sck test) j;
         ret (if r < 0 then (-1, test\<lparr>i_errno := IESENDPARAMS\<rparr>) else (0, test))
       })"

section \<open>Receiving the parameters\<close>

text \<open>What is done with a member that is there; the string functions read through \<open>valuestring\<close>.\<close>

type_synonym action = "cJSON \<Rightarrow> iperf_test \<Rightarrow> iperf_test outcome"

definition on_int :: "(int \<Rightarrow> iperf_test \<Rightarrow> iperf_test) \<Rightarrow> action" where
  "on_int f j_p test = Ok (f (valueint j_p) test)"

definition on_string :: "(string \<Rightarrow> iperf_test \<Rightarrow> iperf_test) \<Rightarrow> action" where
  "on_string f j_p test = (case valuestring j_p of None \<Rightarrow> Fault | Some s \<Rightarrow> Ok (f s test))"

definition on_flag :: "(iperf_test \<Rightarrow> iperf_test) \<Rightarrow> action" where
  "on_flag f j_p test = Ok (f test)"

definition run_actions :: "cJSON \<Rightarrow> (string \<times> action) list \<Rightarrow> iperf_test \<Rightarrow> iperf_test outcome" where
  "run_actions j acts test = fold (\<lambda>(name, act) m. obind m (\<lambda>test.
     case cJSON_GetObjectItem (Some j) (Some name) of None \<Rightarrow> Ok test | Some j_p \<Rightarrow> act j_p test)) acts (Ok test)"

definition upd_settings :: "(iperf_settings \<Rightarrow> iperf_settings) \<Rightarrow> iperf_test \<Rightarrow> iperf_test" where
  "upd_settings f test = test\<lparr>t_settings := f (t_settings test)\<rparr>"

definition param_actions :: "(string \<times> action) list" where
  "param_actions =
     [(''tcp'', on_flag (\<lambda>t. snd (set_protocol t Ptcp))),
      (''udp'', on_flag (\<lambda>t. snd (set_protocol t Pudp))),
      (''sctp'', on_flag (\<lambda>t. snd (set_protocol t Psctp))),
      (''omit'', on_int (\<lambda>n t. t\<lparr>t_omit := c_int n\<rparr>)),
      (''server_affinity'', on_int (\<lambda>n t. t\<lparr>t_server_affinity := c_int n\<rparr>)),
      (''time'', on_int (\<lambda>n t. t\<lparr>t_duration := c_int n\<rparr>)),
      (''num'', on_int (\<lambda>n. upd_settings (\<lambda>c. c\<lparr>cfg_bytes := word_of_int n\<rparr>))),
      (''blockcount'', on_int (\<lambda>n. upd_settings (\<lambda>c. c\<lparr>cfg_blocks := word_of_int n\<rparr>))),
      (''MSS'', on_int (\<lambda>n. upd_settings (\<lambda>c. c\<lparr>cfg_mss := c_int n\<rparr>))),
      (''nodelay'', on_flag (\<lambda>t. t\<lparr>t_no_delay := True\<rparr>)),
      (''parallel'', on_int (\<lambda>n t. t\<lparr>t_num_streams := c_int n\<rparr>)),
      (''reverse'', on_flag (\<lambda>t. iperf_set_test_reverse t True)),
      (''bidirectional'', on_flag (\<lambda>t. iperf_set_test_bidirectional t True)),
      (''window'', on_int (\<lambda>n. upd_settings (\<lambda>c. c\<lparr>cfg_socket_bufsize := c_int n\<rparr>))),
      (''len'', on_int (\<lambda>n. upd_settings (\<lambda>c. c\<lparr>cfg_blksize := c_int n\<rparr>))),
      (''bandwidth'', on_int (\<lambda>n. upd_settings (\<lambda>c. c\<lparr>cfg_rate := word_of_int n\<rparr>))),
      (''fqrate'', on_int (\<lambda>n. upd_settings (\<lambda>c. c\<lparr>cfg_fqrate := word_of_int n\<rparr>))),
      (''pacing_timer'', on_int (\<lambda>n. upd_settings (\<lambda>c. c\<lparr>cfg_pacing_timer := c_int n\<rparr>))),
      (''burst'', on_int (\<lambda>n. upd_settings (\<lambda>c. c\<lparr>cfg_burst := c_int n\<rparr>))),
      (''TOS'', on_int (\<lambda>n. upd_settings (\<lambda>c. c\<lparr>cfg_tos := c_int n\<rparr>))),
      (''flowlabel'', on_int (\<lambda>n. upd_settings (\<lambda>c. c\<lparr>cfg_flowlabel := c_int n\<rparr>))),
      (''title'', on_string (\<lambda>s t. t\<lparr>t_title := Some s\<rparr>)),
      (''extra_data'', on_string (\<lambda>s t. t\<lparr>t_extra_data := Some s\<rparr>)),
      (''congestion'', on_string (\<lambda>s t. t\<lparr>t_congestion := Some s\<rparr>)),
      (''congestion_used'', on_string (\<lambda>s t. t\<lparr>t_congestion_used := Some s\<rparr>)),
      (''get_server_output'', on_flag (\<lambda>t. t\<lparr>t_get_server_output := 1\<rparr>)),
      (''udp_counters_64bit'', on_flag (\<lambda>t. t\<lparr>t_udp_counters_64bit := 1\<rparr>)),
      (''repeating_payload'', on_flag (\<lambda>t. t\<lparr>t_repeating_payload := 1\<rparr>))]"

definition get_parameters :: "'w os \<Rightarrow> u8 list \<Rightarrow> iperf_test \<Rightarrow> ('w, (int \<times> iperf_test) outcome) io" where
  "get_parameters os junk test = do {
     jr \<leftarrow> JSON_read mem (\<lambda>_. mem) os junk (t_ctrl_sck test);
     ret (obind jr (\<lambda>jo. case jo of
         None \<Rightarrow> Ok (-1, test\<lparr>i_errno := IERECVPARAMS\<rparr>)
       | Some j \<Rightarrow> obind (run_actions j param_actions test) (\<lambda>test1.
           let test2 = (if t_mode test1 \<noteq> 0 \<and> t_protocol test1 = Ptcp \<and> has_tcpinfo_retransmits
                        then test1\<lparr>t_sender_has_retransmits := 1\<rparr> else test1);
               test3 = (if cfg_rate (t_settings test2) \<noteq> 0
                        then test2\<lparr>t_json_start := cJSON_AddNumberToObject (t_json_start test2) ''target_bitrate''
                               (d_of_u64 (cfg_rate (t_settings test2)))\<rparr>
                        else test2)
           in Ok (0, test3))))
   }"

section \<open>Sending the results\<close>

definition stream_fields :: "iperf_test \<Rightarrow> iperf_stream \<Rightarrow> fields" where
  "stream_fields test sp =
     (let rp = sp_result sp;
          bytes_transferred = (if sp_sender sp then res_bytes_sent rp - res_bytes_sent_omit rp else res_bytes_received rp);
          retransmits = (if sp_sender sp \<and> t_sender_has_retransmits test \<noteq> 0 then res_stream_retrans rp else -1);
          start_time = iperf_time_in_secs (snd (iperf_time_diff (res_start_time rp) (res_start_time rp)));
          end_time = iperf_time_in_secs (snd (iperf_time_diff (res_start_time rp) (res_end_time rp)))
      in [(True, ''id'', JNumber (d_of_int (sp_id sp))),
          (True, ''bytes'', JNumber (d_of_u64 bytes_transferred)),
          (True, ''retransmits'', JNumber (d_of_int retransmits)),
          (True, ''jitter'', JNumber (sp_jitter sp)),
          (True, ''errors'', JNumber (d_of_int (sp_cnt_error sp))),
          (True, ''packets'', JNumber (d_of_int (sp_packet_count sp))),
          (True, ''start_time'', JNumber start_time),
          (True, ''end_time'', JNumber end_time)])"

definition results_head :: "iperf_test \<Rightarrow> fields" where
  "results_head test =
     (case t_cpu_util test of (tot, user, system) \<Rightarrow>
      [(True, ''cpu_util_total'', JNumber tot),
       (True, ''cpu_util_user'', JNumber user),
       (True, ''cpu_util_system'', JNumber system),
       (True, ''sender_has_retransmits'',
         JNumber (d_of_int (if t_mode test = RECEIVER then -1 else t_sender_has_retransmits test))),
       opt_field ''congestion_used'' (t_congestion_used test)])"

text \<open>
  The server's output: its JSON document as a reference, or the collected lines. A reference to a
  document that is not there copies from \<open>NULL\<close>.
\<close>

definition add_server_output :: "iperf_test \<Rightarrow> cJSON option \<Rightarrow> cJSON option outcome" where
  "add_server_output test j =
     (if t_role test = CHR ''s'' \<and> t_get_server_output test \<noteq> 0 then
        if t_json_output test then
          (case t_json_top test of None \<Rightarrow> Fault
           | Some doc \<Rightarrow> Ok (the (cJSON_AddItemReferenceToObject mem j (Some ''server_output_json'') doc)))
        else Ok (cJSON_AddStringToObject j ''server_output_text'' (concat (t_server_output_list test)))
      else Ok j)"

definition streams_json :: "iperf_test \<Rightarrow> cJSON option" where
  "streams_json test =
     fold (\<lambda>sp arr. cJSON_AddItemToArray arr (add_fields (stream_fields test sp) (cJSON_CreateObject mem)))
       (t_streams test) (cJSON_CreateArray mem)"

definition results_json :: "iperf_test \<Rightarrow> cJSON option outcome" where
  "results_json test =
     obind (add_server_output test (add_fields (results_head test) (cJSON_CreateObject mem))) (\<lambda>j.
       Ok (the (cJSON_AddItemToObject mem j (Some ''streams'') (streams_json test))))"

definition send_results :: "'w os \<Rightarrow> iperf_test \<Rightarrow> ('w, (int \<times> iperf_test) outcome) io" where
  "send_results os test = (case results_json test of
       Ok None \<Rightarrow> ret (Ok (-1, test\<lparr>i_errno := IEPACKAGERESULTS\<rparr>))
     | Ok (Some j) \<Rightarrow> do {
         r \<leftarrow> JSON_write os (t_ctrl_sck test) j;
         ret (Ok (if r < 0 then (-1, test\<lparr>i_errno := IESENDRESULTS\<rparr>) else (0, test)))
       }
     | Err k \<Rightarrow> ret (Err k)
     | Fault \<Rightarrow> ret Fault
     | Timeout \<Rightarrow> ret Timeout)"

section \<open>Receiving the results\<close>

text \<open>The first stream with the number \<open>sid\<close> is updated; \<^const>\<open>None\<close>: there is none.\<close>

fun update_stream :: "int \<Rightarrow> (iperf_stream \<Rightarrow> iperf_stream) \<Rightarrow> iperf_stream list \<Rightarrow> iperf_stream list option" where
  "update_stream sid f [] = None"
| "update_stream sid f (sp # sps) =
     (if sp_id sp = sid then Some (f sp # sps) else map_option (\<lambda>r. sp # r) (update_stream sid f sps))"

text \<open>The report of the peer for one stream.\<close>

definition apply_report ::
  "int \<Rightarrow> u64 \<Rightarrow> int \<Rightarrow> double \<Rightarrow> int \<Rightarrow> double \<Rightarrow> iperf_stream \<Rightarrow> iperf_stream" where
  "apply_report pcount bytes_transferred retransmits jitter cerror elapsed sp =
     (if sp_sender sp then
        sp\<lparr>sp_jitter := jitter, sp_cnt_error := cerror, sp_peer_packet_count := pcount,
           sp_result := (sp_result sp)\<lparr>res_bytes_received := bytes_transferred, res_receiver_time := elapsed\<rparr>\<rparr>
      else
        sp\<lparr>sp_peer_packet_count := pcount,
           sp_result := (sp_result sp)\<lparr>res_bytes_sent := bytes_transferred, res_stream_retrans := retransmits,
                                       res_sender_time := elapsed\<rparr>\<rparr>)"

definition get_stream_result :: "cJSON option \<Rightarrow> int \<times> iperf_test \<Rightarrow> int \<times> iperf_test" where
  "get_stream_result j_stream rt = (case rt of (r, test) \<Rightarrow>
     (let item = (\<lambda>name. cJSON_GetObjectItem j_stream (Some name));
          fail = (\<lambda>e. (-1, test\<lparr>i_errno := e\<rparr>))
      in case j_stream of
        None \<Rightarrow> fail IERECVRESULTS
      | Some _ \<Rightarrow>
        (case (item ''id'', item ''bytes'', item ''retransmits'', item ''jitter'', item ''errors'', item ''packets'') of
           (Some j_id, Some j_bytes, Some j_retransmits, Some j_jitter, Some j_errors, Some j_packets) \<Rightarrow>
             (let elapsed = (case (item ''start_time'', item ''end_time'') of
                            (Some j_start_time, Some j_end_time) \<Rightarrow> dsub (valuedouble j_end_time) (valuedouble j_start_time)
                          | _ \<Rightarrow> Fin 0)
              in case update_stream (c_int (valueint j_id))
                   (apply_report (c_int (valueint j_packets)) (word_of_int (valueint j_bytes)) (c_int (valueint j_retransmits))
                      (valuedouble j_jitter) (c_int (valueint j_errors)) elapsed) (t_streams test) of
                   None \<Rightarrow> fail IESTREAMID
                 | Some sps \<Rightarrow> (r, test\<lparr>t_streams := sps\<rparr>))
         | _ \<Rightarrow> fail IERECVRESULTS)))"

text \<open>\<open>cJSON_DetachItemFromObject\<close>: the item, and the object without it.\<close>

fun remove_key :: "string \<Rightarrow> cJSON list \<Rightarrow> cJSON list" where
  "remove_key name [] = []"
| "remove_key name (e # es) =
     (if case_insensitive_strcmp (Some name) (jstring e) = 0 then es else e # remove_key name es)"

definition cJSON_DetachItemFromObject :: "cJSON \<Rightarrow> string \<Rightarrow> cJSON option \<times> cJSON" where
  "cJSON_DetachItemFromObject j name = (case cJSON_GetObjectItem (Some j) (Some name) of
       None \<Rightarrow> (None, j)
     | Some item \<Rightarrow> (Some item, set_child (remove_key name (child j)) j))"

definition get_server_output :: "cJSON \<Rightarrow> iperf_test \<Rightarrow> (cJSON \<times> iperf_test) outcome" where
  "get_server_output j test =
     (if t_role test = CHR ''c'' \<and> t_get_server_output test \<noteq> 0 then
        case cJSON_DetachItemFromObject j ''server_output_json'' of
          (Some out, j') \<Rightarrow> Ok (j', test\<lparr>t_json_server_output := Some out\<rparr>)
        | (None, _) \<Rightarrow>
           (case cJSON_GetObjectItem (Some j) (Some ''server_output_text'') of
              None \<Rightarrow> Ok (j, test)
            | Some out \<Rightarrow> (case valuestring out of None \<Rightarrow> Fault
                | Some s \<Rightarrow> Ok (j, test\<lparr>t_server_output_text := Some s\<rparr>)))
      else Ok (j, test))"

definition read_results :: "cJSON \<Rightarrow> iperf_test \<Rightarrow> (int \<times> cJSON \<times> iperf_test) outcome" where
  "read_results j test =
     (let item = (\<lambda>name. cJSON_GetObjectItem (Some j) (Some name)) in
      case (item ''cpu_util_total'', item ''cpu_util_user'', item ''cpu_util_system'', item ''sender_has_retransmits'') of
        (Some tot, Some user, Some system, Some has) \<Rightarrow>
          (let test1 = test\<lparr>t_remote_cpu_util := (valuedouble tot, valuedouble user, valuedouble system)\<rparr>;
               result_has_retransmits = c_int (valueint has);
               test2 = (if t_mode test1 = RECEIVER
                        then test1\<lparr>t_sender_has_retransmits := result_has_retransmits, t_other_side_has_retransmits := 0\<rparr>
                        else if t_mode test1 = BIDIRECTIONAL
                        then test1\<lparr>t_other_side_has_retransmits := result_has_retransmits\<rparr>
                        else test1)
           in case item ''streams'' of
                None \<Rightarrow> Ok (-1, j, test2\<lparr>i_errno := IERECVRESULTS\<rparr>)
              | Some j_streams \<Rightarrow>
                  (let (r, test3) = fold (\<lambda>i. get_stream_result (cJSON_GetArrayItem (Some j_streams) (int i)))
                                      [0..<nat (cJSON_GetArraySize j_streams)] (0, test2)
                   in obind (get_server_output j test3) (\<lambda>(j', test4). Ok (r, j', test4))))
      | _ \<Rightarrow> Ok (-1, j, test\<lparr>i_errno := IERECVRESULTS\<rparr>))"

definition get_results :: "'w os \<Rightarrow> u8 list \<Rightarrow> iperf_test \<Rightarrow> ('w, (int \<times> iperf_test) outcome) io" where
  "get_results os junk test = do {
     jr \<leftarrow> JSON_read mem (\<lambda>_. mem) os junk (t_ctrl_sck test);
     ret (obind jr (\<lambda>jo. case jo of
         None \<Rightarrow> Ok (-1, test\<lparr>i_errno := IERECVRESULTS\<rparr>)
       | Some j \<Rightarrow> obind (read_results j test) (\<lambda>(r, j', test1).
           case cJSON_GetObjectItem (Some j') (Some ''congestion_used'') of
             None \<Rightarrow> Ok (r, test1)
           | Some c \<Rightarrow> (case valuestring c of None \<Rightarrow> Fault
               | Some s \<Rightarrow> Ok (r, test1\<lparr>t_remote_congestion_used := Some s\<rparr>)))))
   }"

section \<open>The two exchanges\<close>

definition iperf_set_send_state :: "'w os \<Rightarrow> iperf_test \<Rightarrow> int \<Rightarrow> ('w, int \<times> iperf_test) io" where
  "iperf_set_send_state os test state = do {
     let test1 = test\<lparr>t_state := state\<rparr>;
     r \<leftarrow> Nwrite os (t_ctrl_sck test1) [word_of_int state];
     ret (if r < 0 then (-1, test1\<lparr>i_errno := IESENDMESSAGE\<rparr>) else (0, test1))
   }"

definition prot_listen :: "'w os \<Rightarrow> iperf_test \<Rightarrow> ('w, int \<times> iperf_test) io" where
  "prot_listen os test = (if t_protocol test = Pudp then iperf_udp_listen os test else iperf_tcp_listen os test)"

text \<open>The number of an error for the peer.\<close>

definition send_number :: "'w os \<Rightarrow> iperf_test \<Rightarrow> int \<Rightarrow> ('w, int) io" where
  "send_number os test n = Nwrite os (t_ctrl_sck test) (be_bytes 4 n)"

definition iperf_exchange_parameters ::
  "'w os \<Rightarrow> u8 list \<Rightarrow> iperf_test \<Rightarrow> ('w, (int \<times> iperf_test) outcome) io" where
  "iperf_exchange_parameters os junk test =
     (if t_role test = CHR ''c'' then do {
        (r, test1) \<leftarrow> send_parameters os test;
        ret (Ok (if r < 0 then -1 else 0, test1))
      } else do {
        g \<leftarrow> get_parameters os junk test;
        case g of
          Ok (r, test1) \<Rightarrow>
            if r < 0 then ret (Ok (-1, test1))
            else do {
              (s, test2) \<leftarrow> prot_listen os test1;
              if s < 0 then do {
                (r, test3) \<leftarrow> iperf_set_send_state os test2 SERVER_ERROR;
                if r \<noteq> 0 then ret (Ok (-1, test3))
                else do {
                  w1 \<leftarrow> send_number os test3 (i_errno test3);
                  if w1 < 0 then ret (Ok (-1, test3\<lparr>i_errno := IECTRLWRITE\<rparr>))
                  else do {
                    e \<leftarrow> get_errno;
                    w2 \<leftarrow> send_number os test3 e;
                    if w2 < 0 then ret (Ok (-1, test3\<lparr>i_errno := IECTRLWRITE\<rparr>))
                    else ret (Ok (-1, test3))
                  }
                }
              } else do {
                let test3 = test2\<lparr>t_read_set := insert s (t_read_set test2),
                                  t_max_fd := (if s > t_max_fd test2 then s else t_max_fd test2), t_prot_listener := s\<rparr>;
                (r, test4) \<leftarrow> iperf_set_send_state os test3 CREATE_STREAMS;
                ret (Ok (if r \<noteq> 0 then -1 else 0, test4))
              }
            }
        | Err k \<Rightarrow> ret (Err k)
        | Fault \<Rightarrow> ret Fault
        | Timeout \<Rightarrow> ret Timeout
      })"

definition iperf_exchange_results ::
  "'w os \<Rightarrow> u8 list \<Rightarrow> iperf_test \<Rightarrow> ('w, (int \<times> iperf_test) outcome) io" where
  "iperf_exchange_results os junk test =
     (if t_role test = CHR ''c'' then do {
        x \<leftarrow> send_results os test;
        case x of
          Ok (r, test1) \<Rightarrow>
            if r < 0 then ret (Ok (-1, test1))
            else do {
              g \<leftarrow> get_results os junk test1;
              ret (obind g (\<lambda>(r, test2). Ok (if r < 0 then -1 else 0, test2)))
            }
        | Err k \<Rightarrow> ret (Err k)
        | Fault \<Rightarrow> ret Fault
        | Timeout \<Rightarrow> ret Timeout
      } else do {
        g \<leftarrow> get_results os junk test;
        case g of
          Ok (r, test1) \<Rightarrow>
            if r < 0 then ret (Ok (-1, test1))
            else do {
              x \<leftarrow> send_results os test1;
              ret (obind x (\<lambda>(r, test2). Ok (if r < 0 then -1 else 0, test2)))
            }
        | Err k \<Rightarrow> ret (Err k)
        | Fault \<Rightarrow> ret Fault
        | Timeout \<Rightarrow> ret Timeout
      })"

end
