(* ===== verification/Streams.thy ===== *)
theory Streams
  imports Exchange Units
begin

text \<open>
  The data streams of a test: sending and receiving blocks with throttling (\<open>iperf_api.c\<close>:
  \<open>iperf_send\<close>, \<open>iperf_recv\<close>, \<open>iperf_check_throttle\<close>), the file behind a stream (\<open>diskfile_send\<close>,
  \<open>diskfile_recv\<close>), the creation of a stream, the interval statistics with the kernel's
  figures (\<open>tcp_info.c\<close>), and the helpers of \<open>iperf_util.c\<close> that these use. The pointers \<open>snd\<close> and \<open>rcv\<close> of a
  stream are arguments of the loops. Undefined behaviour is \<^const>\<open>Fault\<close>. Messages to the user
  are left out.
\<close>

section \<open>Figures of the kernel\<close>

record tcp_info =
  tcpi_total_retrans :: u32
  tcpi_snd_cwnd :: u32
  tcpi_snd_mss :: u32
  tcpi_rtt :: u32
  tcpi_rttvar :: u32
  tcpi_pmtu :: u32

definition tcp_info_of :: "int list \<Rightarrow> tcp_info" where
  "tcp_info_of vs = (let v = (\<lambda>i. word_of_int ((vs @ replicate 6 0) ! i)) in
     \<lparr>tcpi_total_retrans = v 0, tcpi_snd_cwnd = v 1, tcpi_snd_mss = v 2, tcpi_rtt = v 3, tcpi_rttvar = v 4, tcpi_pmtu = v 5\<rparr>)"

text \<open>A failing call leaves the structure as it was.\<close>

definition save_tcpinfo :: "'w os \<Rightarrow> iperf_stream \<Rightarrow> tcp_info \<Rightarrow> ('w, tcp_info) io" where
  "save_tcpinfo os sp old = do {
     r \<leftarrow> sys os (Tcp_info (sp_socket sp));
     ret (if s_ret r < 0 then old else tcp_info_of (s_vals r))
   }"

definition get_total_retransmits :: "tcp_info \<Rightarrow> int" where
  "get_total_retransmits ti = uint (tcpi_total_retrans ti)"

definition get_snd_cwnd :: "tcp_info \<Rightarrow> int" where
  "get_snd_cwnd ti = uint (tcpi_snd_cwnd ti * tcpi_snd_mss ti)"

definition get_rtt :: "tcp_info \<Rightarrow> int" where
  "get_rtt ti = uint (tcpi_rtt ti)"

definition get_rttvar :: "tcp_info \<Rightarrow> int" where
  "get_rttvar ti = uint (tcpi_rttvar ti)"

definition get_pmtu :: "tcp_info \<Rightarrow> int" where
  "get_pmtu ti = uint (tcpi_pmtu ti)"

section \<open>Throttling\<close>

text \<open>
  The rate so far against the target rate. The product wraps at 64 bits; the conversion of the quotient to
  \<open>uint64_t\<close> is undefined when it does not fit.
\<close>

definition iperf_check_throttle ::
  "iperf_time \<Rightarrow> iperf_test \<times> iperf_stream \<Rightarrow> (iperf_test \<times> iperf_stream) outcome" where
  "iperf_check_throttle now ts = (case ts of (test, sp) \<Rightarrow>
     if t_done test then Ok (test, sp)
     else
       let seconds = iperf_time_in_secs (snd (iperf_time_diff (res_start_time_fixed (sp_result sp)) now))
       in case d_to_u64 (ddiv (d_of_u64 (res_bytes_sent (sp_result sp) * 8)) seconds) of
            None \<Rightarrow> Fault
          | Some bits_per_second \<Rightarrow>
              if bits_per_second < cfg_rate (t_settings test)
              then Ok (test\<lparr>t_write_set := insert (sp_socket sp) (t_write_set test)\<rparr>, sp\<lparr>sp_green_light := True\<rparr>)
              else Ok (test\<lparr>t_write_set := t_write_set test - {sp_socket sp}\<rparr>, sp\<lparr>sp_green_light := False\<rparr>))"

section \<open>Sending\<close>

type_synonym 'w transfer = "iperf_test \<Rightarrow> iperf_stream \<Rightarrow> ('w, int \<times> iperf_test \<times> iperf_stream) io"

text \<open>The send and receive functions of the protocol.\<close>

definition prot_send :: "'w os \<Rightarrow> 'w transfer" where
  "prot_send os test sp = do {
     (r, sp1) \<leftarrow> (if t_protocol test = Pudp then iperf_udp_send os test sp else iperf_tcp_send os test sp);
     ret (r, test, sp1)
   }"

definition prot_recv :: "'w os \<Rightarrow> 'w transfer" where
  "prot_recv os test sp = do {
     (r, sp1) \<leftarrow> (if t_protocol test = Pudp then iperf_udp_recv os test sp else iperf_tcp_recv os test sp);
     ret (r, test, sp1)
   }"

text \<open>With a file: the buffer is filled from it before, and its rest moved to the front after sending.\<close>

definition diskfile_fill :: "'w os \<Rightarrow> iperf_test \<Rightarrow> iperf_stream \<Rightarrow> ('w, iperf_test \<times> iperf_stream) io" where
  "diskfile_fill os test sp =
     (let blksize = cfg_blksize (t_settings test) in
      if sp_diskfile_left sp < blksize \<and> \<not> t_done test then do {
        r \<leftarrow> sys os (Read (sp_diskfile_fd sp) (nat (blksize - sp_diskfile_left sp)));
        ret (if s_ret r = 0 \<and> sp_diskfile_left sp = 0 then test\<lparr>t_done := True\<rparr> else test,
             if s_ret r > 0 then sp\<lparr>sp_buffer := overlay (s_bytes r) (sp_buffer sp)\<rparr> else sp)
      } else ret (test, sp))"

definition diskfile_send :: "'w os \<Rightarrow> 'w transfer \<Rightarrow> 'w transfer" where
  "diskfile_send os snd2 test sp = do {
     (test1, sp1) \<leftarrow> diskfile_fill os test sp;
     (r, test2, sp2) \<leftarrow> snd2 test1 sp1;
     if r < 0 then ret (r, test2, sp2)
     else do {
       let blksize = cfg_blksize (t_settings test2);
       let left = blksize - r;
       let sp3 = sp2\<lparr>sp_diskfile_left := left\<rparr>;
       ret (r, test2,
         if left \<noteq> 0 \<and> left < blksize
         then sp3\<lparr>sp_buffer := overlay (take (nat left) (drop (nat (blksize - left)) (sp_buffer sp3))) (sp_buffer sp3)\<rparr>
         else sp3)
     }
   }"

definition diskfile_recv :: "'w os \<Rightarrow> 'w transfer \<Rightarrow> 'w transfer" where
  "diskfile_recv os rcv2 test sp = do {
     (r, test1, sp1) \<leftarrow> rcv2 test sp;
     if r > 0 then do {
       _ \<leftarrow> sys os (Write (sp_diskfile_fd sp1) (take (nat r) (sp_buffer sp1)));
       _ \<leftarrow> sys os (Fsync (sp_diskfile_fd sp1));
       ret (r, test1, sp1)
     } else ret (r, test1, sp1)
   }"

text \<open>The pointers that \<open>iperf_new_stream\<close> sets: through the file when there is one.\<close>

definition stream_snd :: "'w os \<Rightarrow> 'w transfer" where
  "stream_snd os test sp =
     (if sp_diskfile_fd sp \<noteq> -1 then diskfile_send os (prot_send os) test sp else prot_send os test sp)"

definition stream_rcv :: "'w os \<Rightarrow> 'w transfer" where
  "stream_rcv os test sp =
     (if sp_diskfile_fd sp \<noteq> -1 then diskfile_recv os (prot_recv os) test sp else prot_recv os test sp)"

definition limit_reached :: "iperf_test \<Rightarrow> bool" where
  "limit_reached test \<longleftrightarrow>
     cfg_bytes (t_settings test) \<noteq> 0 \<and> t_bytes_sent test \<ge> cfg_bytes (t_settings test) \<or>
     cfg_blocks (t_settings test) \<noteq> 0 \<and> t_blocks_sent test \<ge> cfg_blocks (t_settings test)"

text \<open>
  One round over the streams, \<open>k\<close> rounds being left: the return value of an early return, whether a
  stream was active, the test and the streams. \<open>ws = None\<close> is the null pointer.
\<close>

type_synonym round_result = "(int option \<times> bool \<times> iperf_test \<times> iperf_stream list) outcome"

definition after_stream :: "iperf_stream \<Rightarrow> round_result \<Rightarrow> round_result" where
  "after_stream sp m = obind m (\<lambda>(e, act, test, sps). Ok (e, act, test, sp # sps))"

definition paced :: "iperf_test \<Rightarrow> bool" where
  "paced test \<longleftrightarrow> cfg_rate (t_settings test) \<noteq> 0 \<and> cfg_burst (t_settings test) = 0"

text \<open>May the stream be sent to; and the bookkeeping after it was.\<close>

definition may_send :: "int set option \<Rightarrow> iperf_stream \<Rightarrow> bool" where
  "may_send ws sp \<longleftrightarrow> sp_green_light sp \<and> sp_sender sp \<and> (case ws of None \<Rightarrow> True | Some w \<Rightarrow> sp_socket sp \<in> w)"

definition count_sent :: "iperf_time \<Rightarrow> int \<Rightarrow> iperf_test \<Rightarrow> iperf_stream \<Rightarrow> (iperf_test \<times> iperf_stream) outcome" where
  "count_sent now r test sp =
     (let test1 = test\<lparr>t_bytes_sent := t_bytes_sent test + word_of_int r, t_blocks_sent := t_blocks_sent test + 1\<rparr>
      in if paced test1 then iperf_check_throttle now (test1, sp) else Ok (test1, sp))"

fun send_round ::
  "'w transfer \<Rightarrow> nat \<Rightarrow> iperf_time \<Rightarrow> int set option \<Rightarrow> iperf_test \<Rightarrow> bool \<Rightarrow> iperf_stream list \<Rightarrow>
     ('w, round_result) io" where
  "send_round tx k now ws test act [] = ret (Ok (None, act, test, []))"
| "send_round tx k now ws test act (sp # sps) =
     (if may_send ws sp then do {
        (r, test0, sp1) \<leftarrow> tx test sp;
        if r < 0 then
          if r = NET_SOFTERROR then ret (Ok (None, act, test0, sp1 # sps))
          else ret (Ok (Some r, act, test0\<lparr>i_errno := IESTREAMWRITE\<rparr>, sp1 # sps))
        else (case count_sent now r test0 sp1 of
            Ok (test2, sp2) \<Rightarrow>
              if k > 1 \<and> limit_reached test2 then ret (Ok (None, True, test2, sp2 # sps))
              else do { m \<leftarrow> send_round tx k now ws test2 True sps; ret (after_stream sp2 m) }
          | _ \<Rightarrow> ret Fault)
      } else do { m \<leftarrow> send_round tx k now ws test act sps; ret (after_stream sp m) })"

fun send_rounds ::
  "'w os \<Rightarrow> 'w transfer \<Rightarrow> nat \<Rightarrow> iperf_time \<Rightarrow> int set option \<Rightarrow> iperf_test \<Rightarrow> ('w, (int option \<times> iperf_test) outcome) io" where
  "send_rounds os tx 0 now ws test = ret (Ok (None, test))"
| "send_rounds os tx (Suc k) now ws test = do {
     (_, now1) \<leftarrow> (if paced test then time_now os now else ret (0, now));
     m \<leftarrow> send_round tx (Suc k) now1 ws test False (t_streams test);
     case m of
       Ok (e, act, test1, sps) \<Rightarrow>
         let test2 = test1\<lparr>t_streams := sps\<rparr> in
         if e \<noteq> None then ret (Ok (e, test2))
         else if act then send_rounds os tx k now1 ws test2
         else ret (Ok (None, test2))
     | _ \<Rightarrow> ret Fault
   }"

fun throttle_all :: "iperf_time \<Rightarrow> iperf_test \<Rightarrow> iperf_stream list \<Rightarrow> (iperf_test \<times> iperf_stream list) outcome" where
  "throttle_all now test [] = Ok (test, [])"
| "throttle_all now test (sp # sps) =
     obind (iperf_check_throttle now (test, sp)) (\<lambda>(test1, sp1).
       obind (throttle_all now test1 sps) (\<lambda>(test2, sps1). Ok (test2, sp1 # sps1)))"

definition multisend_of :: "iperf_test \<Rightarrow> int" where
  "multisend_of test =
     (if cfg_burst (t_settings test) \<noteq> 0 then cfg_burst (t_settings test)
      else if cfg_rate (t_settings test) = 0 then t_multisend test else 1)"

definition iperf_send_via ::
  "'w os \<Rightarrow> 'w transfer \<Rightarrow> iperf_time \<Rightarrow> iperf_test \<Rightarrow> int set option \<Rightarrow> ('w, (int \<times> iperf_test \<times> int set option) outcome) io" where
  "iperf_send_via os tx now0 test ws = do {
     m \<leftarrow> send_rounds os tx (nat (multisend_of test)) now0 ws test;
     case m of
       Ok (Some r, test1) \<Rightarrow> ret (Ok (r, test1, ws))
     | Ok (None, test1) \<Rightarrow> do {
         m2 \<leftarrow> (if cfg_burst (t_settings test1) \<noteq> 0 then do {
                  (_, now) \<leftarrow> time_now os now0;
                  ret (obind (throttle_all now test1 (t_streams test1)) (\<lambda>(t, sps). Ok (t\<lparr>t_streams := sps\<rparr>)))
                } else ret (Ok test1));
         ret (obind m2 (\<lambda>test2. Ok (0, test2, map_option (\<lambda>w. w - sp_socket ` set (t_streams test2)) ws)))
       }
     | _ \<Rightarrow> ret Fault
   }"

definition iperf_send ::
  "'w os \<Rightarrow> iperf_time \<Rightarrow> iperf_test \<Rightarrow> int set option \<Rightarrow> ('w, (int \<times> iperf_test \<times> int set option) outcome) io" where
  "iperf_send os now0 test ws = iperf_send_via os (stream_snd os) now0 test ws"

section \<open>Receiving\<close>

fun recv_round ::
  "'w transfer \<Rightarrow> int set \<Rightarrow> iperf_test \<Rightarrow> iperf_stream list \<Rightarrow> ('w, int \<times> int set \<times> iperf_test \<times> iperf_stream list) io" where
  "recv_round rcv rs test [] = ret (0, rs, test, [])"
| "recv_round rcv rs test (sp # sps) =
     (if sp_socket sp \<in> rs \<and> \<not> sp_sender sp then do {
        (r, test0, sp1) \<leftarrow> rcv test sp;
        if r < 0 then ret (r, rs, test0\<lparr>i_errno := IESTREAMREAD\<rparr>, sp1 # sps)
        else do {
          let test1 = test0\<lparr>t_bytes_received := t_bytes_received test0 + word_of_int r,
                            t_blocks_received := t_blocks_received test0 + 1\<rparr>;
          (e, rs', test2, sps') \<leftarrow> recv_round rcv (rs - {sp_socket sp1}) test1 sps;
          ret (e, rs', test2, sp1 # sps')
        }
      } else do {
        (e, rs', test2, sps') \<leftarrow> recv_round rcv rs test sps;
        ret (e, rs', test2, sp # sps')
      })"

definition iperf_recv_via :: "'w transfer \<Rightarrow> iperf_test \<Rightarrow> int set \<Rightarrow> ('w, int \<times> iperf_test \<times> int set) io" where
  "iperf_recv_via rcv test rs = do {
     (r, rs', test1, sps) \<leftarrow> recv_round rcv rs test (t_streams test);
     ret (r, test1\<lparr>t_streams := sps\<rparr>, rs')
   }"

definition iperf_recv :: "'w os \<Rightarrow> iperf_test \<Rightarrow> int set \<Rightarrow> ('w, int \<times> iperf_test \<times> int set) io" where
  "iperf_recv os test rs = iperf_recv_via (stream_rcv os) test rs"

end
