(* ===== verification/Stats.thy ===== *)
theory Stats
  imports Streams
begin

text \<open>
  \<open>iperf_api.c\<close>: the start of a test, the interval statistics and their reset after the omitted
  period, and the creation and release of a stream; \<open>iperf_util.c\<close>: payload, cookie, closed
  descriptors, processor time. A local structure that a failing call leaves uninitialised has
  the content \<open>junk\<close>.
\<close>

section \<open>Start of a test\<close>

definition zero_time :: iperf_time where
  "zero_time = \<lparr>secs = 0, usecs = 0\<rparr>"

definition on_result :: "(iperf_stream_result \<Rightarrow> iperf_stream_result) \<Rightarrow> iperf_stream \<Rightarrow> iperf_stream" where
  "on_result f sp = sp\<lparr>sp_result := f (sp_result sp)\<rparr>"

definition iperf_init_test :: "'w os \<Rightarrow> iperf_test \<Rightarrow> ('w, int \<times> iperf_test) io" where
  "iperf_init_test os test =
     (if t_protocol test = Pudp \<and> iperf_udp_init test < 0 then ret (-1, test)
      else do {
        (r, now) \<leftarrow> local_time_now os;
        ret (if r < 0 then (-1, test\<lparr>i_errno := IEINITTEST\<rparr>)
             else (0, test\<lparr>t_streams := map (on_result (\<lambda>rp. rp\<lparr>res_start_time := now, res_start_time_fixed := now\<rparr>))
                                    (t_streams test)\<rparr>))
      })"

section \<open>Intervals\<close>

text \<open>The code copies into what \<open>malloc\<close> returns without a check; memory is available here.\<close>

definition add_to_interval_list :: "iperf_interval_results \<Rightarrow> iperf_stream_result \<Rightarrow> iperf_stream_result" where
  "add_to_interval_list new rp = rp\<lparr>res_interval_results := res_interval_results rp @ [new]\<rparr>"

text \<open>The figures of TCP, when this side counts retransmissions.\<close>

definition tcp_figures :: "tcp_info \<Rightarrow> iperf_interval_results \<times> iperf_stream_result \<Rightarrow>
    iperf_interval_results \<times> iperf_stream_result" where
  "tcp_figures ti x = (case x of (temp, rp) \<Rightarrow>
     let total_retrans = get_total_retransmits ti;
         interval_retrans = c_int (total_retrans - res_stream_prev_total_retrans rp);
         snd_cwnd = c_int (get_snd_cwnd ti);
         rtt = c_int (get_rtt ti)
     in (temp\<lparr>ir_interval_retrans := interval_retrans, ir_snd_cwnd := snd_cwnd, ir_rtt := rtt,
              ir_rttvar := c_int (get_rttvar ti), ir_pmtu := c_int (get_pmtu ti)\<rparr>,
         rp\<lparr>res_stream_retrans := c_int (res_stream_retrans rp + interval_retrans),
            res_stream_prev_total_retrans := c_int total_retrans,
            res_stream_max_snd_cwnd := (if snd_cwnd > res_stream_max_snd_cwnd rp then snd_cwnd else res_stream_max_snd_cwnd rp),
            res_stream_max_rtt := (if rtt > res_stream_max_rtt rp then rtt else res_stream_max_rtt rp),
            res_stream_min_rtt := (if res_stream_min_rtt rp = 0 \<or> rtt < res_stream_min_rtt rp then rtt else res_stream_min_rtt rp),
            res_stream_sum_rtt := c_int (res_stream_sum_rtt rp + rtt),
            res_stream_count_rtt := c_int (res_stream_count_rtt rp + 1)\<rparr>))"

text \<open>The figures of the other protocols: the differences to the previous interval.\<close>

definition packet_figures :: "iperf_stream \<Rightarrow> iperf_interval_results \<Rightarrow> iperf_interval_results" where
  "packet_figures sp temp =
     (let irs = res_interval_results (sp_result sp);
          prev = (\<lambda>f. if irs = [] then 0 else f (last irs))
      in temp\<lparr>ir_interval_packet_count := c_int (sp_packet_count sp - prev ir_packet_count),
              ir_interval_outoforder_packets := c_int (sp_outoforder_packets sp - prev ir_outoforder_packets),
              ir_interval_cnt_error := c_int (sp_cnt_error sp - prev ir_cnt_error),
              ir_packet_count := sp_packet_count sp, ir_jitter := sp_jitter sp,
              ir_outoforder_packets := sp_outoforder_packets sp, ir_cnt_error := sp_cnt_error sp\<rparr>)"

text \<open>\<open>temp\<close> and the structure of the kernel in it live across the streams.\<close>

definition stream_interval ::
  "'w os \<Rightarrow> iperf_test \<Rightarrow> iperf_interval_results \<times> tcp_info \<Rightarrow> iperf_stream \<Rightarrow>
     ('w, (iperf_interval_results \<times> tcp_info) \<times> iperf_stream) io" where
  "stream_interval os test x sp = (case x of (temp0, ti0) \<Rightarrow> do {
     let rp = sp_result sp;
     (_, end_time) \<leftarrow> time_now os (res_end_time rp);
     let start = (if res_interval_results rp \<noteq> [] then res_end_time rp else res_start_time rp);
     let temp1 = temp0\<lparr>ir_omitted := t_omitting test,
       ir_bytes_transferred := (if sp_sender sp then res_bytes_sent_this_interval rp else res_bytes_received_this_interval rp),
       ir_interval_start_time := start, ir_interval_end_time := end_time,
       ir_interval_duration := iperf_time_in_secs (snd (iperf_time_diff start end_time))\<rparr>;
     let rp1 = rp\<lparr>res_end_time := end_time\<rparr>;
     ((temp2, rp2), ti1) \<leftarrow>
       (if t_protocol test = Ptcp then
          if has_tcpinfo then do {
            ti \<leftarrow> save_tcpinfo os sp ti0;
            ret (if t_sender_has_retransmits test = 1 then tcp_figures ti (temp1, rp1) else (temp1, rp1), ti)
          } else ret ((temp1, rp1), ti0)
        else ret ((packet_figures sp temp1, rp1), ti0));
     let rp3 = add_to_interval_list temp2 rp2;
     ret ((temp2, ti1),
       sp\<lparr>sp_result := rp3\<lparr>res_bytes_sent_this_interval := 0, res_bytes_received_this_interval := 0\<rparr>\<rparr>)
   })"

fun stream_intervals ::
  "'w os \<Rightarrow> iperf_test \<Rightarrow> iperf_interval_results \<times> tcp_info \<Rightarrow> iperf_stream list \<Rightarrow> ('w, iperf_stream list) io" where
  "stream_intervals os test x [] = ret []"
| "stream_intervals os test x (sp # sps) = do {
     (x1, sp1) \<leftarrow> stream_interval os test x sp;
     sps1 \<leftarrow> stream_intervals os test x1 sps;
     ret (sp1 # sps1)
   }"

definition iperf_stats_callback ::
  "'w os \<Rightarrow> iperf_interval_results \<times> tcp_info \<Rightarrow> iperf_test \<Rightarrow> ('w, iperf_test) io" where
  "iperf_stats_callback os junk test = do {
     sps \<leftarrow> stream_intervals os test junk (t_streams test);
     ret (test\<lparr>t_streams := sps\<rparr>)
   }"

definition reset_stream ::
  "'w os \<Rightarrow> iperf_time \<Rightarrow> tcp_info \<Rightarrow> iperf_test \<Rightarrow> iperf_stream \<Rightarrow> ('w, iperf_stream) io" where
  "reset_stream os now junk test sp = do {
     let rp = sp_result sp;
     let rp1 = rp\<lparr>res_bytes_sent_omit := res_bytes_sent rp, res_bytes_received := 0,
                  res_bytes_sent_this_interval := 0, res_bytes_received_this_interval := 0\<rparr>;
     rp2 \<leftarrow> (if t_sender_has_retransmits test = 1 then do {
               ti \<leftarrow> save_tcpinfo os sp junk;
               ret (rp1\<lparr>res_stream_prev_total_retrans := c_int (get_total_retransmits ti)\<rparr>)
             } else ret rp1);
     ret (sp\<lparr>sp_omitted_packet_count := sp_packet_count sp, sp_omitted_cnt_error := sp_cnt_error sp,
             sp_omitted_outoforder_packets := sp_outoforder_packets sp, sp_jitter := Fin 0,
             sp_result := rp2\<lparr>res_stream_retrans := 0, res_start_time := now\<rparr>\<rparr>)
   }"

fun reset_streams ::
  "'w os \<Rightarrow> iperf_time \<Rightarrow> tcp_info \<Rightarrow> iperf_test \<Rightarrow> iperf_stream list \<Rightarrow> ('w, iperf_stream list) io" where
  "reset_streams os now junk test [] = ret []"
| "reset_streams os now junk test (sp # sps) = do {
     sp1 \<leftarrow> reset_stream os now junk test sp;
     sps1 \<leftarrow> reset_streams os now junk test sps;
     ret (sp1 # sps1)
   }"

definition iperf_reset_stats :: "'w os \<Rightarrow> tcp_info \<Rightarrow> iperf_test \<Rightarrow> ('w, iperf_test) io" where
  "iperf_reset_stats os junk test = do {
     let test1 = test\<lparr>t_bytes_sent := 0, t_blocks_sent := 0\<rparr>;
     (_, now) \<leftarrow> local_time_now os;
     sps \<leftarrow> reset_streams os now junk test1 (t_streams test1);
     ret (test1\<lparr>t_streams := sps\<rparr>)
   }"

section \<open>Utilities\<close>

text \<open>\<open>readentropy\<close> ends the process on failure: \<^const>\<open>None\<close>.\<close>

definition readentropy :: "'w os \<Rightarrow> nat \<Rightarrow> ('w, u8 list option) io" where
  "readentropy os outsize =
     (if outsize = 0 then ret (Some [])
      else do {
        r \<leftarrow> sys os (Fread_random outsize);
        ret (if s_ret r = int outsize then Some (take outsize (s_bytes r @ replicate outsize 0)) else None)
      })"

fun repeating :: "int \<Rightarrow> nat \<Rightarrow> u8 list" where
  "repeating counter 0 = []"
| "repeating counter (Suc n) = word_of_int (48 + counter) # repeating (if counter \<ge> 9 then 0 else counter + 1) n"

definition fill_with_repeating_pattern :: "nat \<Rightarrow> u8 list" where
  "fill_with_repeating_pattern outsize = (if outsize = 0 then [] else repeating 0 outsize)"

definition rndchars :: string where
  "rndchars = ''abcdefghijklmnopqrstuvwxyz234567''"

definition make_cookie :: "'w os \<Rightarrow> ('w, u8 list option) io" where
  "make_cookie os = do {
     e \<leftarrow> readentropy os COOKIE_SIZE;
     ret (map_option (\<lambda>out. map (\<lambda>b. word_of_int (chr_code (rndchars ! nat (uint b mod int (length rndchars)))))
            (take (COOKIE_SIZE - 1) out) @ [0]) e)
   }"

definition EBADF :: int where "EBADF = 9"

definition is_closed :: "'w os \<Rightarrow> int \<Rightarrow> ('w, bool) io" where
  "is_closed os fd = do {
     r \<leftarrow> sys os (Select (fd + 1) {fd} {} (Some (0, 0)));
     e \<leftarrow> get_errno;
     ret (s_ret r < 0 \<and> e = EBADF)
   }"

section \<open>A new stream\<close>

definition iperf_init_stream :: "'w os \<Rightarrow> iperf_stream \<Rightarrow> iperf_test \<Rightarrow> ('w, int \<times> iperf_test) io" where
  "iperf_init_stream os sp test = do {
     a \<leftarrow> sys os (Getsockname (sp_socket sp));
     if s_ret a < 0 then ret (-1, test\<lparr>i_errno := IEINITSTREAM\<rparr>)
     else do {
       b \<leftarrow> sys os (Getpeername (sp_socket sp));
       if s_ret b < 0 then ret (-1, test\<lparr>i_errno := IEINITSTREAM\<rparr>)
       else if cfg_tos (t_settings test) \<noteq> 0 then do {
         d \<leftarrow> getsockdomain os (sp_socket sp);
         if d = AF_INET6 then do {
           r \<leftarrow> sys os (Setsockopt (sp_socket sp) ''IPV6_TCLASS'' (cfg_tos (t_settings test)));
           ret (if s_ret r < 0 then (-1, test\<lparr>i_errno := IESETCOS\<rparr>) else (0, test))
         } else do {
           r \<leftarrow> sys os (Setsockopt (sp_socket sp) ''IP_TOS'' (cfg_tos (t_settings test)));
           ret (if s_ret r < 0 then (-1, test\<lparr>i_errno := IESETTOS\<rparr>) else (0, test))
         }
       } else ret (0, test)
     }
   }"

definition IEFILE :: int where "IEFILE = 14"

definition blank_result :: iperf_stream_result where
  "blank_result = \<lparr>res_bytes_received = 0, res_bytes_sent = 0, res_bytes_received_this_interval = 0,
     res_bytes_sent_this_interval = 0, res_bytes_sent_omit = 0, res_stream_prev_total_retrans = 0, res_stream_retrans = 0,
     res_stream_max_rtt = 0, res_stream_min_rtt = 0, res_stream_sum_rtt = 0, res_stream_count_rtt = 0,
     res_stream_max_snd_cwnd = 0, res_start_time = zero_time, res_end_time = zero_time, res_start_time_fixed = zero_time,
     res_sender_time = Fin 0, res_receiver_time = Fin 0, res_interval_results = []\<rparr>"

definition blank_stream :: "int \<Rightarrow> bool \<Rightarrow> int \<Rightarrow> int \<Rightarrow> u8 list \<Rightarrow> iperf_stream" where
  "blank_stream s sender buffer_fd diskfile_fd buf = \<lparr>sp_socket = s, sp_id = 0, sp_sender = sender, sp_result = blank_result,
     sp_send_timer = None, sp_green_light = False, sp_buffer = buf, sp_packet_count = 0, sp_peer_packet_count = 0,
     sp_omitted_packet_count = 0, sp_jitter = Fin 0, sp_prev_transit = Fin 0, sp_outoforder_packets = 0,
     sp_omitted_outoforder_packets = 0, sp_cnt_error = 0, sp_omitted_cnt_error = 0, sp_buffer_fd = buffer_fd,
     sp_diskfile_fd = diskfile_fd, sp_diskfile_left = 0\<rparr>"

text \<open>
  The stream once its buffer is mapped. The result is \<^const>\<open>None\<close> when the process ends in \<open>readentropy\<close>,
  \<open>Some (None, test)\<close> for a null pointer, else the new stream, which is in the list.
\<close>

definition new_stream_file ::
  "'w os \<Rightarrow> iperf_test \<Rightarrow> bool \<Rightarrow> ('w, int option) io" where
  "new_stream_file os test sender = (case t_diskfile_name test of
       None \<Rightarrow> ret (Some (-1))
     | Some name \<Rightarrow> do {
         r \<leftarrow> sys os (Open name (if sender then 0 else 577));
         ret (if s_ret r = -1 then None else Some (s_ret r))
       })"

definition new_stream_fill ::
  "'w os \<Rightarrow> iperf_test \<Rightarrow> int \<Rightarrow> bool \<Rightarrow> int \<Rightarrow> int \<Rightarrow> ('w, (iperf_stream option \<times> iperf_test) option) io" where
  "new_stream_fill os test s sender buffer_fd dfd = do {
     let blksize = size_t (cfg_blksize (t_settings test));
     buf \<leftarrow> (if t_repeating_payload test \<noteq> 0 then ret (Some (fill_with_repeating_pattern blksize)) else readentropy os blksize);
     case buf of None \<Rightarrow> ret None
     | Some b \<Rightarrow> do {
         let sp = blank_stream s sender buffer_fd dfd b;
         (r, test1) \<leftarrow> iperf_init_stream os sp test;
         if r < 0 then do {
           _ \<leftarrow> sys os (Close buffer_fd);
           _ \<leftarrow> sys os (Munmap buffer_fd);
           ret (Some (None, test1))
         } else do {
           let streams = iperf_add_stream (t_streams test1) sp;
           ret (Some (Some (last streams), test1\<lparr>t_streams := streams\<rparr>))
         }
       }
   }"

definition iperf_new_stream ::
  "'w os \<Rightarrow> iperf_test \<Rightarrow> int \<Rightarrow> bool \<Rightarrow> ('w, (iperf_stream option \<times> iperf_test) option) io" where
  "iperf_new_stream os test s sender = do {
     let fail = (\<lambda>e. ret (Some (None, test\<lparr>i_errno := e\<rparr>)));
     m1 \<leftarrow> sys os Malloc;
     if s_ret m1 < 0 then fail IECREATESTREAM
     else do {
       m2 \<leftarrow> sys os Malloc;
       if s_ret m2 < 0 then fail IECREATESTREAM
       else do {
         f \<leftarrow> sys os Mkstemp;
         if s_ret f = -1 then fail IECREATESTREAM
         else do {
           u \<leftarrow> sys os Unlink;
           if s_ret u < 0 then fail IECREATESTREAM
           else do {
             t \<leftarrow> sys os (Ftruncate (s_ret f) (cfg_blksize (t_settings test)));
             if s_ret t < 0 then fail IECREATESTREAM
             else do {
               mm \<leftarrow> sys os (Mmap (s_ret f) (cfg_blksize (t_settings test)));
               if s_ret mm < 0 then fail IECREATESTREAM
               else do {
                 d \<leftarrow> new_stream_file os test sender;
                 case d of
                   None \<Rightarrow> do { _ \<leftarrow> sys os (Munmap (s_ret f)); fail IEFILE }
                 | Some dfd \<Rightarrow> new_stream_fill os test s sender (s_ret f) dfd
               }
             }
           }
         }
       }
     }
   }"

end
