(* ===== verification/Json_Safety.thy ===== *)
theory Json_Safety
  imports Json_Parse
begin

unbundle bit_operations_syntax

text \<open>
  Memory safety and termination of the parser of \<open>cjson.c\<close>: on every text, no access leaves
  the input, no write leaves an allocated string, and the recursion and the loops end within
  their fuel.
\<close>

section \<open>Texts\<close>

text \<open>A text ends with its terminator.\<close>

definition terminated :: "string \<Rightarrow> bool" where
  "terminated content \<longleftrightarrow> content \<noteq> [] \<and> last content = CHR 0x00"

lemma terminated_app [simp]: "terminated (v @ [CHR 0x00])"
  by (simp add: terminated_def)

lemma before_last:
  assumes "terminated content" "i < length content" "content ! i \<noteq> CHR 0x00"
  shows "i + 1 < length content"
proof (rule ccontr)
  assume "\<not> ?thesis"
  with assms(2) have "i = length content - 1" by simp
  with assms(1,3) show False by (auto simp: terminated_def last_conv_nth)
qed

lemma skip_ws_bounds:
  assumes "off < length content"
  shows "off \<le> buffer_skip_whitespace content off \<and> buffer_skip_whitespace content off < length content"
proof -
  have "length (takeWhile is_blank (drop off content)) \<le> length content - off"
    using length_takeWhile_le[of is_blank "drop off content"] by simp
  with assms show ?thesis by (auto simp: buffer_skip_whitespace_def Let_def)
qed

lemma has_word_bounds:
  assumes "terminated content" "has_word content off w" "w \<noteq> []" "last w \<noteq> CHR 0x00"
  shows "off + length w < length content"
proof -
  let ?i = "off + (length w - 1)"
  have w: "off + length w \<le> length content" "take (length w) (drop off content) = w"
    using assms(2) by (auto simp: has_word_def)
  have "content ! ?i = w ! (length w - 1)"
    using w assms(3) by (metis (no_types) nth_take nth_drop diff_less length_greater_0_conv
        zero_less_one add_leD1)
  then have "content ! ?i \<noteq> CHR 0x00" using assms(3,4) by (simp add: last_conv_nth)
  moreover have "?i < length content" using w(1) assms(3) by (cases w) auto
  ultimately have "?i + 1 < length content" using before_last[OF assms(1)] by blast
  with assms(3) show ?thesis by (cases w) auto
qed

section \<open>Numbers\<close>

lemma length_dropWhile_lt: "takeWhile P s \<noteq> [] \<Longrightarrow> length (dropWhile P s) < length s"
  by (metis length_append length_greater_0_conv less_add_same_cancel2 takeWhile_dropWhile_id)

lemma scan_mant_shorter:
  "scan_mant b s = Some (v, f, r) \<Longrightarrow> length r < length s"
  unfolding scan_mant_def
  apply (cases "dropWhile (is_base b) s")
   apply (auto simp: Let_def split: if_splits dest: length_dropWhile_lt)
     apply (metis length_dropWhile_le length_Cons le_imp_less_Suc le_trans length_dropWhile_lt order_less_le_trans)+
  done

lemma scan_exp_shorter: "scan_exp m s = (e, r) \<Longrightarrow> length r \<le> length s"
  unfolding scan_exp_def scan_sign_def
  by (auto simp: Let_def split: list.splits if_splits intro: le_trans[OF length_dropWhile_le])

lemma scan_sign_shorter: "length (snd (scan_sign s)) \<le> length s"
  by (auto simp: scan_sign_def split: list.splits)

lemma scan_dec_shorter: "scan_dec neg s = Some (x, r) \<Longrightarrow> length r < length s"
  unfolding scan_dec_def
  by (auto simp: Let_def split: option.splits prod.splits dest!: scan_mant_shorter scan_exp_shorter)

lemma strip_ci_shorter: "strip_ci p s = Some r \<Longrightarrow> p \<noteq> [] \<Longrightarrow> length r < length s"
  by (cases s) (auto simp: strip_ci_def split: if_splits)

lemma scan_hex_shorter: "scan_hex neg s = Some (x, r) \<Longrightarrow> length r < length s"
  unfolding scan_hex_def
  by (auto simp: Let_def split: option.splits prod.splits
      dest!: scan_mant_shorter scan_exp_shorter strip_ci_shorter)

lemma strtod_shorter:
  assumes "strtod s = Some (x, r)"
  shows "length r < length s"
proof -
  let ?r = "snd (scan_sign (skip_ws s))"
  have "length r < length ?r"
    using assms unfolding strtod_def
    by (auto simp: Let_def split: option.splits prod.splits
        dest!: strip_ci_shorter scan_hex_shorter scan_dec_shorter)
  moreover have "length ?r \<le> length s"
    using scan_sign_shorter[of "skip_ws s"] length_dropWhile_le[of isspace s]
    by (simp add: skip_ws_def)
  ultimately show ?thesis by simp
qed

text \<open>\<open>ends P m\<close>: no fault and no timeout, and a result satisfies \<open>P\<close>.\<close>

definition ends :: "('a \<Rightarrow> bool) \<Rightarrow> 'a outcome \<Rightarrow> bool" where
  "ends P m = (case m of Ok x \<Rightarrow> P x | Err _ \<Rightarrow> True | _ \<Rightarrow> False)"

lemma ends_simps [simp]:
  "ends P (Ok x) = P x" "ends P (Err n)" "\<not> ends P Fault" "\<not> ends P Timeout"
  by (simp_all add: ends_def)

lemma ends_obind [simp]: "ends P (obind m f) = ends (\<lambda>x. ends P (f x)) m"
  by (cases m) simp_all

lemma ends_rd [simp]: "ends P (rd content i k) = (i < length content \<and> ends P (k (content ! i)))"
  by (simp add: rd_def)

lemma ends_mono: "ends P m \<Longrightarrow> (\<And>x. P x \<Longrightarrow> Q x) \<Longrightarrow> ends Q m"
  by (cases m) simp_all

text \<open>What every parser promises at an offset inside the text.\<close>

definition advances :: "string \<Rightarrow> nat \<Rightarrow> ('a \<times> nat) outcome \<Rightarrow> bool" where
  "advances content off r \<longleftrightarrow> ends (\<lambda>(_, o'). off < o' \<and> o' < length content) r"

lemma length_takeWhile_take: "length (takeWhile P (take k xs)) \<le> length (takeWhile P xs)"
proof (induction xs arbitrary: k)
  case (Cons x xs)
  then show ?case by (cases k) auto
qed simp

lemma takeWhile_terminated:
  assumes "terminated content" "off < length content" "\<not> P (CHR 0x00)"
  shows "off + length (takeWhile P (take k (drop off content))) < length content"
proof -
  have "length (takeWhile P (take k (drop off content))) \<le> length (takeWhile P (drop off content))"
    by (rule length_takeWhile_take)
  moreover have "length (takeWhile P (drop off content)) \<noteq> length (drop off content)"
  proof
    assume "length (takeWhile P (drop off content)) = length (drop off content)"
    then have "takeWhile P (drop off content) = drop off content"
      by (metis takeWhile_dropWhile_id append_Nil2 length_0_conv length_append add_cancel_right_right)
    then have "P (last (drop off content))"
      using assms(2) by (metis drop_eq_Nil last_in_set not_le set_takeWhileD)
    with assms show False by (simp add: terminated_def)
  qed
  moreover have "length (takeWhile P (drop off content)) \<le> length (drop off content)"
    by (rule length_takeWhile_le)
  ultimately show ?thesis using assms(2) by simp
qed

lemma parse_number_safe:
  assumes "terminated content" "off < length content"
  shows "advances content off (parse_number content item off)"
proof (cases "strtod (takeWhile num_char (take 63 (drop off content)))")
  case None
  then show ?thesis by (simp add: parse_number_def advances_def)
next
  case (Some a)
  obtain x r where a: "a = (x, r)" by fastforce
  have "\<not> num_char (CHR 0x00)" by (simp add: num_char_def isdigit_def chr_code_def)
  note b = takeWhile_terminated[where P = num_char and k = 63, OF assms this]
  have "length r < length (takeWhile num_char (take 63 (drop off content)))"
    using strtod_shorter Some a by blast
  with b show ?thesis by (simp add: parse_number_def Some a advances_def) linarith
qed

section \<open>Strings\<close>

text \<open>
  The escapes that the first pass counts form a set without neighbours, all of it before the
  closing quote.
\<close>

definition escapes :: "nat \<Rightarrow> nat \<Rightarrow> nat set \<Rightarrow> string \<Rightarrow> bool" where
  "escapes pos iend E content \<longleftrightarrow> finite E \<and>
     (\<forall>q \<in> E. pos \<le> q \<and> q + 1 < iend \<and> q + 1 \<notin> E \<and> content ! q = CHR 0x5C)"

lemma scan_string_escapes:
  assumes "scan_string content pos sk = Some (iend, sk')"
  shows "pos \<le> iend \<and> iend < length content \<and> content ! iend = CHR ''\"'' \<and>
     (\<exists>E. escapes pos iend E content \<and> sk' = sk + card E)"
  using assms
proof (induction content pos sk arbitrary: iend sk' rule: scan_string.induct)
  case (1 content pos sk)
  show ?case
  proof (cases "pos < length content \<and> content ! pos \<noteq> CHR ''\"''")
    case False
    with 1(3) have "iend = pos" "sk' = sk" "pos < length content" "content ! pos = CHR ''\"''"
      by (subst (asm) scan_string.simps, auto split: if_splits)+
    then show ?thesis by (auto simp: escapes_def intro!: exI[of _ "{}"])
  next
    case t: True
    show ?thesis
    proof (cases "content ! pos = CHR 0x5C")
      case True
      then have r: "scan_string content (pos + 2) (sk + 1) = Some (iend, sk')" "\<not> pos + 1 \<ge> length content"
        using t 1(3) by (subst (asm) scan_string.simps, auto split: if_splits)+
      from 1(1)[OF t True r(2,1)] obtain E where E: "pos + 2 \<le> iend" "iend < length content"
        "content ! iend = CHR ''\"''" "escapes (pos + 2) iend E content" "sk' = sk + 1 + card E" by auto
      have "pos \<notin> E" "pos + 1 \<notin> E" using E(4) by (auto simp: escapes_def)
      with E True show ?thesis by (auto simp: escapes_def intro!: exI[of _ "insert pos E"])
    next
      case False
      then have r: "scan_string content (pos + 1) sk = Some (iend, sk')"
        using t 1(3) by (subst (asm) scan_string.simps) simp
      from 1(2)[OF t False r] show ?thesis by (fastforce simp: escapes_def)
    qed
  qed
qed

text \<open>How many of them lie at or after a position.\<close>

definition after :: "nat set \<Rightarrow> nat \<Rightarrow> nat" where
  "after E u = card {q \<in> E. u \<le> q}"

lemma after_2:
  assumes "escapes pos iend E content"
  shows "after E u \<le> after E (u + 2) + 1"
proof -
  have f: "finite E" using assms by (simp add: escapes_def)
  have "\<not> (u \<in> E \<and> u + 1 \<in> E)" using assms by (auto simp: escapes_def)
  then have "{q \<in> E. u \<le> q} \<subseteq> insert (if u \<in> E then u else u + 1) {q \<in> E. u + 2 \<le> q}"
    by (auto simp: le_eq_less_or_eq less_Suc_eq) (metis Suc_lessI)+
  then obtain q where "{q \<in> E. u \<le> q} \<subseteq> insert q {q \<in> E. u + 2 \<le> q}" by blast
  then have "card {q \<in> E. u \<le> q} \<le> card (insert q {q \<in> E. u + 2 \<le> q})"
    by (intro card_mono) (auto simp: f)
  also have "\<dots> \<le> card {q \<in> E. u + 2 \<le> q} + 1"
    using card_insert_le_m1 f by (simp add: card_insert_if)
  finally show ?thesis by (simp add: after_def)
qed

lemma after_normal:
  assumes "escapes pos iend E content" "content ! u \<noteq> CHR 0x5C"
  shows "after E u = after E (u + 1)"
proof -
  have "u \<notin> E" using assms by (auto simp: escapes_def)
  then have "{q \<in> E. u \<le> q} = {q \<in> E. u + 1 \<le> q}" by (auto simp: Suc_le_eq le_eq_less_or_eq)
  then show ?thesis by (simp add: after_def)
qed

lemma after_end:
  assumes "escapes pos iend E content" "iend \<le> u + 1"
  shows "after E u = 0"
proof -
  have "{q \<in> E. u \<le> q} = {}" using assms by (fastforce simp: escapes_def)
  then show ?thesis unfolding after_def by (metis card.empty)
qed

lemma after_6: "escapes pos iend E content \<Longrightarrow> after E u \<le> after E (u + 6) + 3"
  using after_2[of pos iend E content u] after_2[of pos iend E content "u + 2"]
    after_2[of pos iend E content "u + 4"] by (simp add: eval_nat_numeral)

lemma after_12: "escapes pos iend E content \<Longrightarrow> after E u \<le> after E (u + 12) + 6"
  using after_6[of pos iend E content u] after_6[of pos iend E content "u + 6"] by (simp add: eval_nat_numeral)

lemma after_le:
  assumes "escapes pos iend E content"
  shows "after E u \<le> iend - u"
proof -
  have "{q \<in> E. u \<le> q} \<subseteq> {u..<iend}" using assms by (auto simp: escapes_def)
  then have "card {q \<in> E. u \<le> q} \<le> card {u..<iend}" by (intro card_mono) auto
  then show ?thesis by (simp add: after_def)
qed

lemma hex_val_range: "hex_val c = Some d \<Longrightarrow> 0 \<le> d \<and> d < 16"
  by (auto simp: hex_val_def split: if_splits)

lemma parse_hex4_safe:
  assumes "pos + 4 \<le> length content"
  shows "\<exists>h. parse_hex4 content pos = Ok h \<and> 0 \<le> h \<and> h < 0x10000"
  using assms
  by (auto simp: parse_hex4_def rd_def eval_nat_numeral split: option.splits dest!: hex_val_range)

lemma utf8_bytes_length: "0 < n \<Longrightarrow> length (utf8_bytes n cp) = n"
proof -
  have "length (snd (utf8_tail m cp acc)) = m + length acc" for m acc
    by (induction m cp acc rule: utf8_tail.induct) auto
  from this[of "n - 1" "[]"] show "0 < n \<Longrightarrow> length (utf8_bytes n cp) = n"
    by (auto simp: utf8_bytes_def split: prod.splits)
qed

lemma utf8_length_le:
  "utf8_length cp = Some n \<Longrightarrow> 0 < n \<and> n \<le> 4 \<and> (cp < 0x10000 \<longrightarrow> n \<le> 3)"
  by (auto simp: utf8_length_def split: if_splits)

text \<open>The room that a UTF-16 literal needs is there when three bytes are (four for a pair).\<close>

lemma utf16_safe:
  assumes "iend \<le> length content" "iend - pos \<ge> 6 \<Longrightarrow> length out + 3 \<le> cap"
    "iend - pos \<ge> 12 \<Longrightarrow> length out + 4 \<le> cap"
  shows "\<exists>n bs. utf16_literal_to_utf8 content pos iend cap out = Ok (n, out @ bs) \<and>
     (n = 0 \<or> n = 6 \<and> 6 \<le> iend - pos \<and> length bs \<le> 3 \<or> n = 12 \<and> 12 \<le> iend - pos \<and> length bs \<le> 4)"
proof (cases "iend - pos < 6")
  case True
  then show ?thesis by (auto simp: utf16_literal_to_utf8_def intro!: exI[of _ "[]"])
next
  case False
  then have "pos + 2 + 4 \<le> length content" using assms(1) by simp
  then obtain h where h: "parse_hex4 content (pos + 2) = Ok h" "0 \<le> h" "h < 0x10000"
    using parse_hex4_safe by blast
  have r: "length out + 3 \<le> cap" using assms(2) False by simp
  have fin: "\<exists>n bs. (case utf8_length cp of None \<Rightarrow> Ok (0, out)
        | Some n \<Rightarrow> obind (put cap out (utf8_bytes n cp)) (\<lambda>out'. Ok (k, out'))) = Ok (n, out @ bs) \<and>
      (n = 0 \<or> n = k \<and> length bs \<le> m)"
    if "length out + m \<le> cap" "m = 4 \<or> m = 3 \<and> cp < 0x10000" for cp k m
    using that by (cases "utf8_length cp") (auto simp: put_def utf8_bytes_length dest!: utf8_length_le)
  have step: "utf16_literal_to_utf8 content pos iend cap out = X" if
    "(if 0xDC00 \<le> h \<and> h \<le> 0xDFFF then Ok (0, out)
        else if 0xD800 \<le> h \<and> h \<le> 0xDBFF then
          if iend - (pos + 6) < 6 then Ok (0, out)
          else rd content (pos + 6) (\<lambda>c0. rd content (pos + 7) (\<lambda>c1.
            if c0 \<noteq> CHR 0x5C \<or> c1 \<noteq> CHR ''u'' then Ok (0, out)
            else obind (parse_hex4 content (pos + 8)) (\<lambda>second_code.
              if second_code < 0xDC00 \<or> second_code > 0xDFFF then Ok (0, out)
              else case utf8_length (0x10000 + (push_bit 10 (h AND 0x3FF) OR (second_code AND 0x3FF))) of
                None \<Rightarrow> Ok (0, out)
              | Some n \<Rightarrow> obind (put cap out (utf8_bytes n
                  (0x10000 + (push_bit 10 (h AND 0x3FF) OR (second_code AND 0x3FF))))) (\<lambda>out'. Ok (12, out')))))
        else case utf8_length h of None \<Rightarrow> Ok (0, out)
           | Some n \<Rightarrow> obind (put cap out (utf8_bytes n h)) (\<lambda>out'. Ok (6, out'))) = X" for X
    unfolding utf16_literal_to_utf8_def Let_def using that False h(1) by simp
  consider (low) "0xDC00 \<le> h \<and> h \<le> 0xDFFF" | (pair) "0xD800 \<le> h \<and> h \<le> 0xDBFF" "\<not> iend - (pos + 6) < 6"
    | (cut) "0xD800 \<le> h \<and> h \<le> 0xDBFF" "iend - (pos + 6) < 6"
    | (single) "h < 0xD800 \<or> 0xDFFF < h" by linarith
  then show ?thesis
  proof cases
    case low
    then show ?thesis by (intro exI[of _ 0] exI[of _ "[]"] conjI step) auto
  next
    case cut
    then show ?thesis by (intro exI[of _ 0] exI[of _ "[]"] conjI step) auto
  next
    case single
    then obtain n :: nat and bs where n: "(case utf8_length h of None \<Rightarrow> Ok (0, out)
        | Some n \<Rightarrow> obind (put cap out (utf8_bytes n h)) (\<lambda>out'. Ok (6, out'))) = Ok (n, out @ bs)"
      "n = 0 \<or> n = 6 \<and> length bs \<le> 3" using fin[of 3 h 6] r h(3) by auto
    have "utf16_literal_to_utf8 content pos iend cap out = Ok (n, out @ bs)"
      by (rule step) (use n(1) single in auto)
    with n(2) False show ?thesis by (intro exI[of _ n] exI[of _ bs]) auto
  next
    case pair
    then have "12 \<le> iend - pos" "pos + 8 + 4 \<le> length content" using assms(1) by auto
    then obtain k where k: "parse_hex4 content (pos + 8) = Ok k" using parse_hex4_safe by blast
    let ?cp = "0x10000 + (push_bit 10 (h AND 0x3FF) OR (k AND 0x3FF))"
    obtain n :: nat and bs where n: "(case utf8_length ?cp of None \<Rightarrow> Ok (0, out)
        | Some n \<Rightarrow> obind (put cap out (utf8_bytes n ?cp)) (\<lambda>out'. Ok (12, out'))) = Ok (n, out @ bs)"
      "n = 0 \<or> n = 12 \<and> length bs \<le> 4"
      using fin[of 4 ?cp 12] assms(3)[OF \<open>12 \<le> iend - pos\<close>] by blast
    let ?bad = "content ! (pos + 6) \<noteq> CHR 0x5C \<or> content ! (pos + 7) \<noteq> CHR ''u'' \<or> k < 0xDC00 \<or> k > 0xDFFF"
    have "utf16_literal_to_utf8 content pos iend cap out = (if ?bad then Ok (0, out) else Ok (n, out @ bs))"
      by (rule step) (use n(1) pair k \<open>pos + 8 + 4 \<le> length content\<close> in \<open>auto simp: rd_def\<close>)
    with n(2) \<open>12 \<le> iend - pos\<close> show ?thesis
      by (cases ?bad) (auto intro!: exI[of _ "[]"])
  qed
qed

lemma unescape_safe:
  assumes "escapes pos0 iend E content" "iend < length content"
    "length out + (iend - pos) \<le> cap0 + after E pos" "cap0 < cap"
  shows "ends (\<lambda>out'. length out' \<le> cap0) (unescape content pos iend cap out)"
  using assms(2-4)
proof (induction "iend - pos" arbitrary: pos out rule: less_induct)
  case less
  note E = assms(1)
  show ?case
  proof (cases "pos < iend")
    case False
    with less(3) after_end[OF E, of pos] show ?thesis by (subst unescape.simps) simp
  next
    case True
    have in1: "pos < length content" "pos + 1 < length content" using True less(2) by simp_all
    consider (normal) "content ! pos \<noteq> CHR 0x5C" | (utf16) "content ! pos = CHR 0x5C" "content ! (pos + 1) = CHR ''u''"
      | (short) "content ! pos = CHR 0x5C" "content ! (pos + 1) \<noteq> CHR ''u''" by blast
    then show ?thesis
    proof cases
      case normal
      have room: "length out + 1 + (iend - (pos + 1)) \<le> cap0 + after E (pos + 1)"
        using less(3) True after_normal[OF E normal] by simp
      then have "length out + 1 \<le> cap0" using after_le[OF E, of "pos + 1"] by linarith
      then show ?thesis
        using less(1)[of "pos + 1" "out @ [content ! pos]"] room True less(2,4) in1 normal
        by (subst unescape.simps) (simp add: rd_def put_def)
    next
      case utf16
      have r6: "length out + 3 + (iend - (pos + 6)) \<le> cap0 + after E (pos + 6)" if "6 \<le> iend - pos"
        using less(3) after_6[OF E, of pos] that by simp
      have r12: "length out + 6 + (iend - (pos + 12)) \<le> cap0 + after E (pos + 12)" if "12 \<le> iend - pos"
        using less(3) after_12[OF E, of pos] that by simp
      have "length out + 3 \<le> cap" if "6 \<le> iend - pos"
        using r6[OF that] after_le[OF E, of "pos + 6"] less(4) by linarith
      moreover have "length out + 4 \<le> cap" if "12 \<le> iend - pos"
        using r12[OF that] after_le[OF E, of "pos + 12"] less(4) by linarith
      ultimately obtain n bs where n: "utf16_literal_to_utf8 content pos iend cap out = Ok (n, out @ bs)"
        "n = 0 \<or> n = 6 \<and> 6 \<le> iend - pos \<and> length bs \<le> 3 \<or> n = 12 \<and> 12 \<le> iend - pos \<and> length bs \<le> 4"
        using utf16_safe[of iend content pos out cap] less(2) by auto
      have "length (out @ bs) + (iend - (pos + n)) \<le> cap0 + after E (pos + n)" if "n \<noteq> 0"
        using n(2) r6 r12 that by auto
      then show ?thesis
        using less(1)[of "pos + n" "out @ bs"] n True less(2,4) in1 utf16
        by (subst unescape.simps) (auto simp: rd_def)
    next
      case short
      have room: "length out + 1 + (iend - (pos + 2)) \<le> cap0 + after E (pos + 2)"
        using less(3) True after_2[OF E, of pos] after_end[OF E, of pos] by (cases "iend = pos + 1") auto
      then have "length out + 1 \<le> cap0" using after_le[OF E, of "pos + 2"] by linarith
      then show ?thesis
        using less(1)[of "pos + 2"] room True less(2,4) in1 short
        by (subst unescape.simps) (auto simp: rd_def put_def split: option.splits)
    qed
  qed
qed

lemma parse_string_safe:
  assumes "terminated content" "off < length content"
  shows "advances content off (parse_string can content item off)"
proof (cases "scan_string content (off + 1) 0")
  case None
  then show ?thesis using assms(2) by (auto simp: parse_string_def rd_def advances_def)
next
  case (Some p)
  obtain iend sk where p: "p = (iend, sk)" by fastforce
  from scan_string_escapes[OF Some[unfolded p]] obtain E where
    i: "off + 1 \<le> iend" "iend < length content" "content ! iend = CHR ''\"''"
    and E: "escapes (off + 1) iend E content" "sk = card E" by auto
  let ?n = "iend - off - sk"
  have "after E (off + 1) = sk" using E by (auto simp: after_def escapes_def intro!: arg_cong[of _ _ card])
  then have "0 + (iend - (off + 1)) \<le> ?n + after E (off + 1)" by simp
  then have u: "ends (\<lambda>out'. length out' \<le> ?n) (unescape content (off + 1) iend (?n + 1) [])"
    using unescape_safe[OF E(1) i(2), of "[]" "off + 1" ?n "?n + 1"] by simp
  have "iend + 1 < length content" using before_last[OF assms(1) i(2)] i(3) by simp
  then have "ends (\<lambda>(_, o'). off < o' \<and> o' < length content)
      (obind (unescape content (off + 1) iend (?n + 1) []) (\<lambda>out.
         obind (put (?n + 1) out [CHR 0x00]) (\<lambda>_. Ok (f out, iend + 1))))" for f :: "string \<Rightarrow> cJSON"
    unfolding ends_obind by (intro ends_mono[OF u]) (use i(1) in \<open>simp add: put_def\<close>)
  then show ?thesis using assms(2)
    unfolding parse_string_def Some p advances_def ends_rd by (simp add: Let_def)
qed

section \<open>Values\<close>

definition safe_parser :: "string \<Rightarrow> nat \<Rightarrow> parser \<Rightarrow> bool" where
  "safe_parser content d pv \<longleftrightarrow>
     (\<forall>item off. off < length content \<longrightarrow> advances content off (pv d item off))"

lemma array_elems_safe:
  assumes "terminated content" "safe_parser content d pv"
    "off + 1 < length content" "length content - off \<le> n"
  shows "advances content off (array_elems can content pv n d acc off)"
  using assms(3,4)
proof (induction n arbitrary: acc off)
  case (Suc n)
  let ?o1 = "buffer_skip_whitespace content (off + 1)"
  have o1: "off + 1 \<le> ?o1" "?o1 < length content" using skip_ws_bounds Suc(2) by blast+
  have pv: "advances content ?o1 (pv d cJSON_blank ?o1)"
    using assms(2) o1 by (simp add: safe_parser_def)
  have "advances content off
     (let o3 = buffer_skip_whitespace content o2 in
       if can_access content o3 \<and> content ! o3 = CHR '','' then array_elems can content pv n d (acc @ [v]) o3
       else Ok (acc @ [v], o3))" if o2: "?o1 < o2" "o2 < length content" for v o2
  proof -
    let ?o3 = "buffer_skip_whitespace content o2"
    have o3: "o2 \<le> ?o3" "?o3 < length content" using skip_ws_bounds o2 by blast+
    have "advances content off (array_elems can content pv n d (acc @ [v]) ?o3)" if "content ! ?o3 = CHR '',''"
    proof -
      have "?o3 + 1 < length content" using before_last[OF assms(1) o3(2)] that by simp
      then have "advances content ?o3 (array_elems can content pv n d (acc @ [v]) ?o3)"
        using Suc(1)[of ?o3] Suc(3) o1 o2 o3 by simp
      then show ?thesis unfolding advances_def by (rule ends_mono) (use o1 o2 o3 in auto)
    qed
    then show ?thesis using o1 o2 o3 by (simp add: Let_def advances_def)
  qed
  then show ?case using pv unfolding advances_def
    by (auto simp: cJSON_New_Item_def elim!: ends_mono)
qed simp

lemma advances_from:
  "advances content o1 m \<Longrightarrow> o0 \<le> o1 \<Longrightarrow> advances content o0 m"
  unfolding advances_def by (erule ends_mono) auto

lemma object_elems_safe:
  assumes "terminated content" "safe_parser content d pv"
    "off + 1 < length content" "length content - off \<le> n"
  shows "advances content off (object_elems can content pv n d acc off)"
  using assms(3,4)
proof (induction n arbitrary: acc off)
  case (Suc n)
  let ?o1 = "buffer_skip_whitespace content (off + 1)"
  have o1: "off + 1 \<le> ?o1" "?o1 < length content" using skip_ws_bounds Suc(2) by blast+
  have ps: "advances content ?o1 (parse_string can content cJSON_blank ?o1)"
    using parse_string_safe[OF assms(1) o1(2)] .
  have tail: "advances content off
     (let o6 = buffer_skip_whitespace content o5 in
       if can_access content o6 \<and> content ! o6 = CHR '','' then object_elems can content pv n d (acc @ [v]) o6
       else Ok (acc @ [v], o6))" if o5: "off < o5" "o5 < length content" for v o5
  proof -
    let ?o6 = "buffer_skip_whitespace content o5"
    have o6: "o5 \<le> ?o6" "?o6 < length content" using skip_ws_bounds o5 by blast+
    have "advances content off (object_elems can content pv n d (acc @ [v]) ?o6)" if "content ! ?o6 = CHR '',''"
    proof -
      have "?o6 + 1 < length content" using before_last[OF assms(1) o6(2)] that by simp
      then have "advances content ?o6 (object_elems can content pv n d (acc @ [v]) ?o6)"
        using Suc(1)[of ?o6] Suc(3) o5 o6 by simp
      then show ?thesis by (rule advances_from) (use o5 o6 in linarith)
    qed
    then show ?thesis using o5 o6 by (simp add: Let_def advances_def)
  qed
  have mid: "advances content off
     (let o3 = buffer_skip_whitespace content o2; cur = set_valuestring None (set_string (valuestring nm) nm)
      in if \<not> can_access content o3 \<or> content ! o3 \<noteq> CHR '':'' then Err o3
         else obind (pv d cur (buffer_skip_whitespace content (o3 + 1))) (\<lambda>(v, o5).
            let o6 = buffer_skip_whitespace content o5 in
            if can_access content o6 \<and> content ! o6 = CHR '','' then object_elems can content pv n d (acc @ [v]) o6
            else Ok (acc @ [v], o6)))" if o2: "?o1 < o2" "o2 < length content" for nm o2
  proof -
    let ?o3 = "buffer_skip_whitespace content o2"
    let ?o4 = "buffer_skip_whitespace content (?o3 + 1)"
    have o3: "o2 \<le> ?o3" "?o3 < length content" using skip_ws_bounds o2 by blast+
    have "advances content off (obind (pv d cur ?o4) (\<lambda>(v, o5).
            let o6 = buffer_skip_whitespace content o5 in
            if can_access content o6 \<and> content ! o6 = CHR '','' then object_elems can content pv n d (acc @ [v]) o6
            else Ok (acc @ [v], o6)))" if c: "content ! ?o3 = CHR '':''" for cur
    proof -
      have o4: "?o3 + 1 \<le> ?o4" "?o4 < length content"
        using skip_ws_bounds[of "?o3 + 1" content] before_last[OF assms(1) o3(2)] c by auto
      then have "ends (\<lambda>(_, o'). ?o4 < o' \<and> o' < length content) (pv d cur ?o4)"
        using assms(2) by (simp add: safe_parser_def advances_def)
      then show ?thesis unfolding advances_def ends_obind
      proof (rule ends_mono, clarify)
        fix v o5 assume "?o4 < o5" "o5 < length content"
        then show "ends (\<lambda>(_, o'). off < o' \<and> o' < length content)
            (let o6 = buffer_skip_whitespace content o5 in
             if can_access content o6 \<and> content ! o6 = CHR '','' then object_elems can content pv n d (acc @ [v]) o6
             else Ok (acc @ [v], o6))"
          using tail[unfolded advances_def, of o5 v] o1 o2 o3 o4 by linarith
      qed
    qed
    then show ?thesis using o3 unfolding Let_def advances_def by auto
  qed
  show ?case using ps mid unfolding advances_def
    by (auto simp: cJSON_New_Item_def Let_def elim!: ends_mono)
qed simp

lemma parse_array_safe:
  assumes "terminated content" "off < length content"
    "depth < CJSON_NESTING_LIMIT \<Longrightarrow> safe_parser content (depth + 1) pv"
  shows "advances content off (parse_array can content pv depth item off)"
proof (cases "depth < CJSON_NESTING_LIMIT \<and> content ! off = CHR ''[''")
  case True
  let ?o1 = "buffer_skip_whitespace content (off + 1)"
  have o1: "off + 1 \<le> ?o1" "?o1 < length content"
    using skip_ws_bounds[of "off + 1" content] before_last[OF assms(1,2)] True by auto
  have el: "advances content (?o1 - 1) (array_elems can content pv (length content) (depth + 1) [] (?o1 - 1))"
    using array_elems_safe[OF assms(1,3), of "?o1 - 1" "length content" can "[]"] o1 True by simp
  have "?o1 + 1 < length content" if "content ! ?o1 = CHR '']''"
    using before_last[OF assms(1) o1(2)] that by simp
  moreover have "advances content off (obind (array_elems can content pv (length content) (depth + 1) [] (?o1 - 1))
     (\<lambda>(es, o2). if \<not> can_access content o2 \<or> content ! o2 \<noteq> CHR '']'' then Err o2
            else Ok (set_child es (set_type cJSON_Array item), o2 + 1)))"
    using el before_last[OF assms(1)] o1 unfolding advances_def ends_obind
    by (auto simp: can_access_def elim!: ends_mono)
  ultimately show ?thesis using assms(2) o1 True
    by (simp add: parse_array_def advances_def can_access_def rd_def Let_def)
qed (use assms(2) in \<open>auto simp: parse_array_def advances_def\<close>)

lemma parse_object_safe:
  assumes "terminated content" "off < length content"
    "depth < CJSON_NESTING_LIMIT \<Longrightarrow> safe_parser content (depth + 1) pv"
  shows "advances content off (parse_object can content pv depth item off)"
proof (cases "depth < CJSON_NESTING_LIMIT \<and> content ! off = CHR ''{''")
  case True
  let ?o1 = "buffer_skip_whitespace content (off + 1)"
  have o1: "off + 1 \<le> ?o1" "?o1 < length content"
    using skip_ws_bounds[of "off + 1" content] before_last[OF assms(1,2)] True by auto
  have el: "advances content (?o1 - 1) (object_elems can content pv (length content) (depth + 1) [] (?o1 - 1))"
    using object_elems_safe[OF assms(1,3), of "?o1 - 1" "length content" can "[]"] o1 True by simp
  have "?o1 + 1 < length content" if "content ! ?o1 = CHR ''}''"
    using before_last[OF assms(1) o1(2)] that by simp
  moreover have "advances content off (obind (object_elems can content pv (length content) (depth + 1) [] (?o1 - 1))
     (\<lambda>(es, o2). if \<not> can_access content o2 \<or> content ! o2 \<noteq> CHR ''}'' then Err o2
            else Ok (set_child es (set_type cJSON_Object item), o2 + 1)))"
    using el before_last[OF assms(1)] o1 unfolding advances_def ends_obind
    by (auto simp: can_access_def elim!: ends_mono)
  ultimately show ?thesis using assms(2) o1 True
    by (simp add: parse_object_def advances_def can_access_def Let_def)
qed (use assms(2) in \<open>auto simp: parse_object_def advances_def\<close>)

lemma parse_value_safe:
  assumes "terminated content" "depth \<le> CJSON_NESTING_LIMIT" "CJSON_NESTING_LIMIT < fuel + depth"
  shows "safe_parser content depth (parse_value fuel can content)"
  using assms(2,3)
proof (induction fuel arbitrary: depth)
  case (Suc fuel)
  have rec: "safe_parser content (depth + 1) (parse_value fuel can content)" if "depth < CJSON_NESTING_LIMIT"
    using Suc that by simp
  have w: "off + 4 < length content" if "has_word content off ''null''" for off
    using has_word_bounds[OF assms(1) that] by simp
  have w2: "off + 5 < length content" if "has_word content off ''false''" for off
    using has_word_bounds[OF assms(1) that] by simp
  have w3: "off + 4 < length content" if "has_word content off ''true''" for off
    using has_word_bounds[OF assms(1) that] by simp
  have "advances content off (parse_value (Suc fuel) can content depth item off)" if "off < length content" for item off
  proof -
    note safe = parse_string_safe[OF assms(1) that] parse_number_safe[OF assms(1) that]
      parse_array_safe[OF assms(1) that rec] parse_object_safe[OF assms(1) that rec]
    show ?thesis using safe w w2 w3
      by (simp add: advances_def)
  qed
  then show ?case by (simp add: safe_parser_def)
qed simp

text \<open>
  C5. The parser is memory safe and terminates: for every text (or \<open>NULL\<close>) and whichever
  of its allocations fail (of the item of the document, of an element's item, of a string), it never reads outside of the text, never writes outside of a string it
  allocated, never exceeds the recursion that the nesting limit allows, and ends with an
  item and an offset inside the text, or with an error position inside it.
\<close>

theorem cJSON_Parse_safe:
  "case cJSON_ParseWithOpts can val req of
     Ok (item, off) \<Rightarrow> (\<exists>v. val = Some v \<and> off \<le> length v)
   | Err off \<Rightarrow> (case val of None \<Rightarrow> off = 0 | Some v \<Rightarrow> off \<le> length v)
   | Fault \<Rightarrow> False
   | Timeout \<Rightarrow> False"
proof (cases "val = None \<or> \<not> can 0 sizeof_cJSON")
  case True
  then show ?thesis
    by (auto simp: cJSON_ParseWithOpts_def cJSON_New_Item_def split: option.splits)
next
  case False
  then obtain v where v: "val = Some v" by auto
  let ?c = "v @ [CHR 0x00]"
  let ?o = "buffer_skip_whitespace ?c 0"
  have o: "?o < length ?c" using skip_ws_bounds[of 0 ?c] by auto
  have "advances ?c ?o (parse_value (Suc CJSON_NESTING_LIMIT) can ?c 0 cJSON_blank ?o)"
    using parse_value_safe[of ?c 0 "Suc CJSON_NESTING_LIMIT" can] o unfolding safe_parser_def by auto
  then show ?thesis
    using False v skip_ws_bounds[of _ ?c]
    by (auto simp: cJSON_ParseWithOpts_def cJSON_New_Item_def Let_def advances_def ends_def less_Suc_eq_le
        simp del: parse_value.simps split: outcome.splits)
qed

text \<open>
  The item of the second element alone cannot be allocated: the parse ends at the comma before it.
\<close>

lemma element_item_refused:
  "cJSON_ParseWithOpts (\<lambda>place n. place \<noteq> 3) (Some ''[1,2]'') False = Err 2"
  by code_simp

text \<open>
  The literal escape \<open>\u\<close> followed by anything but four hexadecimal digits is not refused: it
  becomes a NUL byte.
\<close>

definition bad_hex_text :: string where
  "bad_hex_text = [CHR ''\"'', CHR 0x5C, CHR ''u'', CHR ''z'', CHR ''z'', CHR ''z'', CHR ''z'', CHR ''\"'']"

theorem bad_hex_becomes_nul:
  "map_option valuestring (cJSON_Parse (\<lambda>_ _. True) (Some bad_hex_text)) = Some (Some [CHR 0x00])"
  by code_simp

end
