(* ===== verification/Json_Print_Laws.thy ===== *)
theory Json_Print_Laws
  imports Json_Print
begin

unbundle bit_operations_syntax

text \<open>
  The printer of \<open>cjson.c\<close> refines \<open>print_spec\<close>: it writes exactly the specified text, never
  outside of its buffer, and fails only where the specification has no text, the caller's
  buffer is too small, or the text is longer than the supported sizes.
\<close>

section \<open>The state of the buffer\<close>

text \<open>
  \<open>out p t u\<close>: the text \<open>t\<close> ends at the offset and the bytes \<open>u\<close> follow it.
\<close>

definition out :: "printbuffer \<Rightarrow> string \<Rightarrow> string \<Rightarrow> bool" where
  "out p t u \<longleftrightarrow> (\<exists>m. buffer p = Some m \<and> plength p \<le> length m \<and> poffset p = length t \<and>
     take (length t + length u) m = map Some (t @ u) \<and>
     (length t + length u \<le> plength p \<and> length t < plength p \<or> plength p = 0 \<and> t = [] \<and> u = []))"

text \<open>\<open>post Q E r\<close>: the result satisfies \<open>Q\<close>, and failure is excused by \<open>E\<close>.\<close>

definition post :: "('a \<Rightarrow> bool) \<Rightarrow> bool \<Rightarrow> 'a outcome \<Rightarrow> bool" where
  "post Q E r = (case r of Ok x \<Rightarrow> Q x | Err _ \<Rightarrow> E | _ \<Rightarrow> False)"

lemma post_simps [simp]:
  "post Q E (Ok x) = Q x" "post Q E (Err n) = E" "\<not> post Q E Fault" "\<not> post Q E Timeout"
  by (simp_all add: post_def)

lemma post_obind: "post R E m \<Longrightarrow> (\<And>x. R x \<Longrightarrow> post Q E (f x)) \<Longrightarrow> post Q E (obind m f)"
  by (cases m) simp_all

lemma post_mono: "post R E m \<Longrightarrow> (\<And>x. R x \<Longrightarrow> Q x) \<Longrightarrow> (E \<Longrightarrow> F) \<Longrightarrow> post Q F m"
  by (cases m) simp_all

definition same :: "printbuffer \<Rightarrow> printbuffer \<Rightarrow> bool" where
  "same p q \<longleftrightarrow> pdepth q = pdepth p \<and> noalloc q = noalloc p \<and> pformat q = pformat p \<and>
     (noalloc p \<longrightarrow> plength q = plength p)"

lemma same_refl [simp]: "same p p" and same_trans: "same p q \<Longrightarrow> same q r \<Longrightarrow> same p r"
  by (simp_all add: same_def)

text \<open>When failing is allowed for \<open>n\<close> more bytes after a text of length \<open>k\<close>.\<close>

definition excused :: "(nat \<Rightarrow> bool) \<Rightarrow> printbuffer \<Rightarrow> nat \<Rightarrow> bool \<Rightarrow> bool" where
  "excused can p k E \<longleftrightarrow> (noalloc p \<or> (\<forall>n. can n)) \<and> (noalloc p \<or> size_limit < k \<longrightarrow> E)"

lemma excused_mono: "excused can p k E \<Longrightarrow> j \<le> k \<Longrightarrow> same p q \<Longrightarrow> excused can q j E"
  by (auto simp: excused_def same_def)

lemma size_limit_val: "size_limit = 9223372036854775807"
  by (simp add: size_limit_def LLONG_MAX_def)

lemma ensure_post:
  assumes "out p t []" "excused can p (length t + needed + 1) E"
  shows "post (\<lambda>q. out q t [] \<and> length t + needed + 1 \<le> plength q \<and> same p q) E (ensure can p needed)"
proof -
  obtain m where m: "buffer p = Some m" "plength p \<le> length m" "poffset p = length t"
    "take (length t) m = map Some t" "length t < plength p \<or> plength p = 0 \<and> t = []"
    using assms(1) by (auto simp: out_def)
  have lt: "length t \<le> length m" using m by auto
  let ?n = "needed + length t + 1"
  let ?new = "if ?n > size_limit div 2 then size_limit else ?n * 2"
  let ?m' = "take ?new m @ replicate (?new - length m) None"
  have e: "ensure can p needed =
     (if needed > size_limit then Err 0 else if ?n \<le> plength p then Ok p
      else if noalloc p then Err 0 else if ?n > size_limit div 2 \<and> ?n > size_limit then Err 0
      else if can ?new then Ok (p\<lparr>plength := ?new, buffer := Some ?m'\<rparr>)
      else if poffset p = 0 then Err 0 else Fault)"
    unfolding ensure_nat m(1,3) option.case Let_def using m(5) by auto
  show ?thesis
  proof (cases "?n \<le> plength p \<or> noalloc p \<or> ?n > size_limit")
    case True
    then have "ensure can p needed = Err 0 \<and> (noalloc p \<or> size_limit < ?n) \<or>
        ensure can p needed = Ok p \<and> ?n \<le> plength p"
      unfolding e by auto
    then show ?thesis using assms by (auto simp: excused_def)
  next
    case False
    then have c: "can k" for k using assms(2) by (simp add: excused_def)
    have new: "?n \<le> ?new" using False by auto
    have "take (length t) ?m' = map Some t"
      using new lt m(4) by (simp add: min_absorb1)
    moreover have "length ?m' = ?new" by simp
    ultimately have "out (p\<lparr>plength := ?new, buffer := Some ?m'\<rparr>) t []"
      using new m(3) by (simp add: out_def)
    moreover have "ensure can p needed = Ok (p\<lparr>plength := ?new, buffer := Some ?m'\<rparr>)"
      unfolding e using False c by auto
    moreover have "\<not> noalloc p" using False by simp
    ultimately show ?thesis using new by (simp add: same_def)
  qed
qed

lemma poke_out:
  assumes "out p t []" "length t + length bs \<le> plength p" "bs \<noteq> []"
  shows "\<exists>q. poke p (poffset p) bs = Ok q \<and> out q t bs \<and> plength q = plength p \<and> same p q"
  using assms by (auto simp: out_def poke_def same_def)

lemma advance_out:
  assumes "out p t (a @ b)" "b \<noteq> [] \<or> length t + length a < plength p"
  shows "out (p\<lparr>poffset := poffset p + length a\<rparr>) (t @ a) b"
  using assms by (cases b) (auto simp: out_def add.assoc)

lemma emit_post:
  assumes "out p t []" "excused can p (length t + needed + 1) E"
    "length (a @ b) \<le> needed + 1" "length a \<le> needed" "a @ b \<noteq> []"
  shows "post (\<lambda>q. out q (t @ a) b \<and> same p q) E (emit can needed (a @ b) (length a) p)"
  unfolding emit_def
proof (rule post_obind[OF ensure_post[OF assms(1,2)]])
  fix q assume q: "out q t [] \<and> length t + needed + 1 \<le> plength q \<and> same p q"
  then obtain r where r: "poke q (poffset q) (a @ b) = Ok r" "out r t (a @ b)" "plength r = plength q" "same q r"
    using poke_out[of q t "a @ b"] assms(3,5) by auto
  moreover have "out (r\<lparr>poffset := poffset r + length a\<rparr>) (t @ a) b"
    using advance_out[OF r(2)] q r(3) assms(4) by auto
  moreover have "same p (r\<lparr>poffset := poffset r + length a\<rparr>)"
    using q r(4) by (auto simp: same_def)
  ultimately show "post (\<lambda>q. out q (t @ a) b \<and> same p q) E
      (obind (poke q (poffset q) (a @ b)) (\<lambda>p2. Ok (p2\<lparr>poffset := poffset p2 + length a\<rparr>)))"
    by simp
qed

lemma out_prefix: "out p t u \<Longrightarrow> out p t []"
proof -
  assume "out p t u"
  then obtain m where "buffer p = Some m" "plength p \<le> length m" "poffset p = length t"
    "take (length t + length u) m = map Some (t @ u)"
    "length t + length u \<le> plength p \<and> length t < plength p \<or> plength p = 0 \<and> t = [] \<and> u = []"
    by (auto simp: out_def)
  moreover from this(4) have "take (length t) (take (length t + length u) m) = take (length t) (map Some (t @ u))"
    by simp
  then have "take (length t) m = map Some t" by simp
  ultimately show ?thesis by (auto simp: out_def)
qed

definition no_nul :: "string \<Rightarrow> bool" where
  "no_nul s \<longleftrightarrow> CHR 0x00 \<notin> set s"

lemma c_strlen_text: "no_nul u \<Longrightarrow> c_strlen (map Some u @ Some (CHR 0x00) # m) = Ok (length u)"
  by (induction u) (auto simp: no_nul_def)

lemma update_offset_out:
  assumes "out p t (u @ [CHR 0x00])" "no_nul u"
  shows "\<exists>q. update_offset p = Ok q \<and> out q (t @ u) [] \<and> same p q \<and> buffer q = buffer p \<and> plength q = plength p"
proof -
  obtain m where m: "buffer p = Some m" "poffset p = length t"
    "take (length t + (length u + 1)) m = map Some (t @ u @ [CHR 0x00])"
    using assms(1) by (auto simp: out_def)
  have "m = take (length t + (length u + 1)) m @ drop (length t + (length u + 1)) m" by simp
  then have "m = map Some t @ map Some u @ Some (CHR 0x00) # drop (length t + (length u + 1)) m"
    unfolding m(3) by simp
  from arg_cong[OF this, of "drop (length t)"]
  have "drop (length t) m = map Some u @ Some (CHR 0x00) # drop (length t + (length u + 1)) m" by simp
  then have "update_offset p = Ok (p\<lparr>poffset := poffset p + length u\<rparr>)"
    using m c_strlen_text[OF assms(2)] by (simp add: update_offset_def)
  moreover have "out (p\<lparr>poffset := poffset p + length u\<rparr>) (t @ u) []"
    using advance_out[of p t u "[CHR 0x00]"] assms(1) out_prefix by fastforce
  ultimately show ?thesis by (auto simp: same_def)
qed


section \<open>Strings\<close>

lemma out_shorter: "out p t (u @ v) \<Longrightarrow> out p t u"
proof -
  assume "out p t (u @ v)"
  then obtain m where m: "buffer p = Some m" "plength p \<le> length m" "poffset p = length t"
    "take (length t + length (u @ v)) m = map Some (t @ u @ v)"
    "length t + length (u @ v) \<le> plength p \<and> length t < plength p \<or> plength p = 0 \<and> t = [] \<and> u @ v = []"
    by (auto simp: out_def)
  from arg_cong[OF this(4), of "take (length t + length u)"]
  have "take (length t + length u) m = map Some (t @ u)" by simp
  with m show ?thesis by (auto simp: out_def)
qed

lemma poke_more:
  assumes "out p t u" "length t + length u + length bs \<le> plength p" "bs \<noteq> []"
  shows "\<exists>q. poke p (length t + length u) bs = Ok q \<and> out q t (u @ bs) \<and> plength q = plength p \<and> same p q"
proof -
  obtain m where m: "buffer p = Some m" "plength p \<le> length m" "poffset p = length t"
    "take (length t + length u) m = map Some (t @ u)" using assms(1) by (auto simp: out_def)
  have "length t < plength p" using assms(2,3) by (cases bs) auto
  with m assms(2) show ?thesis by (simp add: poke_def out_def same_def)
qed

lemma escape_text_length: "length (escape_text c) = 1 + escape_count c"
proof -
  have "\<forall>c. length (escape_text c) = 1 + escape_count c" by code_simp
  then show ?thesis by blast
qed

lemma escaped_length: "length (concat (map escape_text s)) = length s + sum_list (map escape_count s)"
  by (induction s) (auto simp: escape_text_length)

lemma escape_text_plain: "escape_count c = 0 \<Longrightarrow> escape_text c = [c]"
proof -
  have "\<forall>c. escape_count c = 0 \<longrightarrow> escape_text c = [c]" by code_simp
  then show "escape_count c = 0 \<Longrightarrow> escape_text c = [c]" by blast
qed

lemma escaped_plain: "sum_list (map escape_count s) = 0 \<Longrightarrow> concat (map escape_text s) = s"
  by (induction s) (auto simp: escape_text_plain)

lemma put_escaped_out:
  assumes "out p t u" "u \<noteq> []" "length t + length u + length (concat (map escape_text cs)) + 2 \<le> plength p"
  shows "\<exists>q. put_escaped cs (length t + length u) p = Ok q \<and>
     out q t (u @ concat (map escape_text cs)) \<and> plength q = plength p \<and> same p q"
  using assms
proof (induction cs arbitrary: p u)
  case (Cons c cs)
  have len: "length t + length u + length (escape_text c) + length (concat (map escape_text cs)) + 2 \<le> plength p"
    using Cons(4) by simp
  have rec: "\<exists>r. put_escaped cs (length t + length (u @ escape_text c)) q = Ok r \<and>
     out r t (u @ concat (map escape_text (c # cs))) \<and> plength r = plength p \<and> same p r"
    if "out q t (u @ escape_text c)" "plength q = plength p" "same p q" for q
  proof -
    from Cons(1)[OF that(1)] len that(2) Cons(3) obtain r where
      "put_escaped cs (length t + length (u @ escape_text c)) q = Ok r"
      "out r t ((u @ escape_text c) @ concat (map escape_text cs))" "plength r = plength q" "same q r"
      by auto
    then show ?thesis using that same_trans by auto
  qed
  show ?case
  proof (cases "plain_char c")
    case True
    then have e: "escape_text c = [c]" by (simp add: escape_text_def)
    then obtain q where "poke p (length t + length u) [c] = Ok q" "out q t (u @ [c])"
      "plength q = plength p" "same p q"
      using poke_more[OF Cons(2), of "[c]"] len by auto
    then show ?thesis using rec[of q] True e by simp
  next
    case False
    have two: "2 \<le> length (escape_text c)" using False by (auto simp: escape_text_def u04x_def split: option.splits)
    obtain q where q: "poke p (length t + length u) [CHR 0x5C] = Ok q" "out q t (u @ [CHR 0x5C])"
      "plength q = plength p" "same p q" using poke_more[OF Cons(2), of "[CHR 0x5C]"] len two by auto
    show ?thesis
    proof (cases "short_escape c")
      case (Some e)
      have e: "escape_text c = [CHR 0x5C, e]" using False Some by (simp add: escape_text_def)
      obtain r where "poke q (length t + length u + 1) [e] = Ok r" "out r t (u @ escape_text c)"
        "plength r = plength p" "same p r"
        using poke_more[OF q(2), of "[e]"] len q(3,4) same_trans by (auto simp: e)
      then show ?thesis using rec[of r] False Some q(1) e by simp
    next
      case None
      have e: "escape_text c = CHR 0x5C # u04x c" "length (u04x c) = 5"
        using False None by (simp_all add: escape_text_def u04x_def)
      obtain r where r: "poke q (length t + length u + 1) (u04x c @ [CHR 0x00]) = Ok r"
        "out r t ((u @ escape_text c) @ [CHR 0x00])" "plength r = plength p" "same p r"
        using poke_more[OF q(2), of "u04x c @ [CHR 0x00]"] len q(3,4) same_trans e(2) by (auto simp: e(1))
      then show ?thesis using rec[OF out_shorter[OF r(2)] r(3,4)] False None q(1) e by (simp add: eval_nat_numeral)
    qed
  qed
qed simp

lemma print_string_post:
  assumes "out p t []" "excused can p (length t + length (quoted s) + 2) E"
  shows "post (\<lambda>q. out q t (quoted s @ [CHR 0x00]) \<and> same p q) E (print_string_ptr can s p)"
proof (cases s)
  case None
  then show ?thesis
    using emit_post[OF assms(1), where needed = 3 and a = "[]" and b = "[CHR ''\"'', CHR ''\"'', CHR 0x00]" and can = can and E = E]
      assms(2) by (simp add: print_string_ptr_def quoted_def eval_nat_numeral)
next
  case (Some x)
  let ?e = "concat (map escape_text x)"
  let ?n = "length x + sum_list (map escape_count x)"
  have n: "length ?e = ?n" by (rule escaped_length)
  have ens: "post (\<lambda>q. out q t [] \<and> length t + (?n + 3) + 1 \<le> plength q \<and> same p q) E (ensure can p (?n + 3))"
    by (rule ensure_post[OF assms(1)], rule excused_mono[OF assms(2)]) (simp_all add: Some quoted_def n)
  show ?thesis unfolding print_string_ptr_def Some option.case Let_def
  proof (rule post_obind[OF ens])
    fix q assume "out q t [] \<and> length t + (?n + 3) + 1 \<le> plength q \<and> same p q"
    then have q: "out q t []" "length t + ?n + 4 \<le> plength q" "same p q" "poffset q = length t"
      by (auto simp: out_def)
    show "post (\<lambda>q. out q t (quoted (Some x) @ [CHR 0x00]) \<and> same p q) E
      (if sum_list (map escape_count x) = 0 then poke q (poffset q) (CHR ''\"'' # x @ [CHR ''\"'', CHR 0x00])
       else obind (poke q (poffset q) [CHR ''\"'']) (\<lambda>p2.
            obind (put_escaped x (poffset q + 1) p2) (\<lambda>p3.
            poke p3 (poffset q + ?n + 1) [CHR ''\"'', CHR 0x00])))"
    proof (cases "sum_list (map escape_count x) = 0")
      case True
      then obtain r where "poke q (poffset q) (CHR ''\"'' # x @ [CHR ''\"'', CHR 0x00]) = Ok r"
        "out r t (CHR ''\"'' # x @ [CHR ''\"'', CHR 0x00])" "same q r"
        using poke_out[OF q(1), of "CHR ''\"'' # x @ [CHR ''\"'', CHR 0x00]"] q(2) by auto
      with True q(3) same_trans show ?thesis by (auto simp: quoted_def escaped_plain)
    next
      case False
      obtain r where r: "poke q (length t) [CHR ''\"''] = Ok r" "out r t ''\"''" "plength r = plength q" "same q r"
        using poke_more[OF q(1), of "''\"''"] q(2) by auto
      obtain v where v: "put_escaped x (length t + 1) r = Ok v" "out v t (''\"'' @ ?e)" "plength v = plength r" "same r v"
        using put_escaped_out[OF r(2), of x] q(2) r(3) n by auto
      obtain w where "poke v (length t + length (''\"'' @ ?e)) [CHR ''\"'', CHR 0x00] = Ok w"
        "out w t ((''\"'' @ ?e) @ [CHR ''\"'', CHR 0x00])" "same v w"
        using poke_more[OF v(2), of "[CHR ''\"'', CHR 0x00]"] v(3) r(3) q(2) n by auto
      then show ?thesis using False q(3,4) r v n
        by (auto simp: quoted_def intro: same_trans)
    qed
  qed
qed


section \<open>Texts without terminators\<close>

lemma zstr_digits: "0 \<le> n \<Longrightarrow> \<forall>c \<in> set (zstr n). isdigit c"
  using nat_str_digits[of "nat n"] zstr_nat[of "nat n"] by simp

lemma sig_digits_nonneg: "0 < x \<Longrightarrow> 0 \<le> fst (sig_digits P x)"
  by (simp add: sig_digits_def Let_def rne_ge_int)

lemma with_frac_chars:
  "\<forall>c \<in> set ip. num_char c \<Longrightarrow> \<forall>c \<in> set fp. num_char c \<Longrightarrow> \<forall>c \<in> set (with_frac ip fp). num_char c"
  by (auto simp: with_frac_def strip_zeros_def Let_def num_char_def dest!: set_dropWhileD)

lemma fmt_g_chars: "\<forall>c \<in> set (fmt_g P d). num_char c"
proof (cases "dval d = 0")
  case True
  then show ?thesis by (auto simp: fmt_g_def num_char_def isdigit_def chr_code_def Let_def)
next
  case False
  obtain m e where me: "sig_digits P \<bar>dval d\<bar> = (m, e)" by fastforce
  then have "0 \<le> m" using sig_digits_nonneg[of "\<bar>dval d\<bar>" P] False by simp
  then have z: "\<forall>c \<in> set (zstr m). num_char c" "\<forall>c \<in> set (zstr \<bar>e\<bar>). num_char c"
    using zstr_digits[of m] zstr_digits[of "\<bar>e\<bar>"] by (auto simp: num_char_def)
  have zero: "num_char (CHR ''0'')" by (simp add: num_char_def isdigit_def chr_code_def)
  have x: "\<forall>c \<in> set (exp_str e). num_char c"
    using z(2) zero by (auto simp: exp_str_def pad_left_def num_char_def)
  have t: "\<forall>c \<in> set (take k (zstr m)). num_char c" "\<forall>c \<in> set (drop k (zstr m)). num_char c" for k
    using z(1) by (auto dest: in_set_takeD in_set_dropD)
  have "\<forall>c \<in> set (with_frac (take k (zstr m)) (drop k (zstr m))). num_char c" for k
    using with_frac_chars t by blast
  moreover have "\<forall>c \<in> set (with_frac ''0'' (replicate k (CHR ''0'') @ zstr m)). num_char c" for k
    by (rule with_frac_chars) (use zero z(1) in \<open>auto simp: set_replicate_conv_if\<close>)
  moreover have "num_char (CHR ''-'')" "num_char (CHR ''e'')" by (simp_all add: num_char_def)
  ultimately show ?thesis using False x by (auto simp: fmt_g_def me Let_def)
qed

lemma no_nul_app [simp]: "no_nul (a @ b) \<longleftrightarrow> no_nul a \<and> no_nul b"
  and no_nul_Cons [simp]: "no_nul (c # a) \<longleftrightarrow> c \<noteq> CHR 0x00 \<and> no_nul a"
  and no_nul_Nil [simp]: "no_nul []"
  by (auto simp: no_nul_def)

lemma number_text_no_nul: "no_nul (number_text d)"
proof -
  have "no_nul (fmt_g P d)" for P
  proof -
    have "\<not> num_char (CHR 0x00)" by (simp add: num_char_def isdigit_def chr_code_def)
    then show ?thesis using fmt_g_chars[of P d] by (auto simp: no_nul_def)
  qed
  then show ?thesis by (auto simp: number_text_def Let_def split: option.splits)
qed

lemma escape_text_no_nul: "c \<noteq> CHR 0x00 \<Longrightarrow> no_nul (escape_text c)"
proof -
  have "\<forall>c. c \<noteq> CHR 0x00 \<longrightarrow> CHR 0x00 \<notin> set (escape_text c)" by code_simp
  then show "c \<noteq> CHR 0x00 \<Longrightarrow> no_nul (escape_text c)" by (simp add: no_nul_def)
qed

text \<open>The strings of an item are C strings.\<close>

definition opt_no_nul :: "string option \<Rightarrow> bool" where
  "opt_no_nul s = (case s of None \<Rightarrow> True | Some t \<Rightarrow> no_nul t)"

primrec c_strings :: "cJSON \<Rightarrow> bool" where
  "c_strings (Item t vs vi vd s cs) \<longleftrightarrow> opt_no_nul vs \<and> opt_no_nul s \<and> list_all c_strings cs"

lemma c_strings_iff:
  "c_strings item \<longleftrightarrow> opt_no_nul (valuestring item) \<and> opt_no_nul (jstring item) \<and>
     (\<forall>c \<in> set (child item). c_strings c)"
  by (cases item) (simp add: list_all_iff)

lemma c_strings_parts:
  assumes "c_strings item"
  shows "opt_no_nul (valuestring item)" "opt_no_nul (jstring item)" "\<And>c. c \<in> set (child item) \<Longrightarrow> c_strings c"
  using assms by (auto simp: c_strings_iff[of item])

lemma quoted_no_nul: "opt_no_nul s \<Longrightarrow> no_nul (quoted s)"
proof -
  have "no_nul x \<Longrightarrow> no_nul (concat (map escape_text x))" for x
    by (induction x) (auto simp: escape_text_no_nul)
  then show "opt_no_nul s \<Longrightarrow> no_nul (quoted s)"
    by (auto simp: quoted_def opt_no_nul_def split: option.splits)
qed

lemma elems_spec_no_nul:
  "elems_spec fmt sp es = Some r \<Longrightarrow> \<forall>e \<in> set es. \<forall>t. sp e = Some t \<longrightarrow> no_nul t \<Longrightarrow> no_nul r"
  by (induction es arbitrary: r) (auto split: option.splits)

lemma no_nul_replicate [simp]: "no_nul (replicate n (CHR 0x09))"
  by (simp add: no_nul_def)

lemma members_spec_no_nul:
  "members_spec fmt d sp es = Some r \<Longrightarrow>
   \<forall>e \<in> set es. opt_no_nul (jstring e) \<and> (\<forall>t. sp e = Some t \<longrightarrow> no_nul t) \<Longrightarrow> no_nul r"
proof (induction es arbitrary: r)
  case (Cons e es)
  from Cons(2) obtain t q where "sp e = Some t" "members_spec fmt d sp es = Some q"
    and r: "r = (if fmt then replicate d (CHR 0x09) else []) @ quoted (jstring e) @
         (if fmt then [CHR '':'', CHR 0x09] else '':'') @ t @
         (if es \<noteq> [] then '','' else []) @ (if fmt then [CHR 0x0A] else []) @ q"
    by (auto split: option.splits)
  then have "no_nul t" "no_nul q" "no_nul (quoted (jstring e))"
    using Cons(1)[of q] Cons(3) quoted_no_nul by auto
  then show ?case by (simp add: r)
qed simp

text \<open>The eight printable types are distinct values of the low byte.\<close>

abbreviation kind :: "cJSON \<Rightarrow> int" where
  "kind item \<equiv> jtype item AND 255"

lemma kind_cases:
  obtains (null) "kind item = cJSON_NULL" | (false) "kind item = cJSON_False"
  | (true) "kind item = cJSON_True" | (number) "kind item = cJSON_Number"
  | (raw) "kind item = cJSON_Raw" | (string) "kind item = cJSON_String"
  | (array) "kind item = cJSON_Array" | (object) "kind item = cJSON_Object"
  | (other) "kind item \<notin> {cJSON_NULL, cJSON_False, cJSON_True, cJSON_Number, cJSON_Raw,
      cJSON_String, cJSON_Array, cJSON_Object}"
  by blast

lemma print_value_kind:
  "kind item = cJSON_NULL \<Longrightarrow> print_value can item p = emit can 5 (''null'' @ [CHR 0x00]) 0 p"
  "kind item = cJSON_False \<Longrightarrow> print_value can item p = emit can 6 (''false'' @ [CHR 0x00]) 0 p"
  "kind item = cJSON_True \<Longrightarrow> print_value can item p = emit can 5 (''true'' @ [CHR 0x00]) 0 p"
  "kind item = cJSON_Number \<Longrightarrow> print_value can item p = print_number can item p"
  "kind item = cJSON_Raw \<Longrightarrow> print_value can item p =
     (case valuestring item of None \<Rightarrow> Err (if noalloc p then 0 else 1)
      | Some raw \<Rightarrow> emit can (length raw + 1) (raw @ [CHR 0x00]) 0 p)"
  "kind item = cJSON_String \<Longrightarrow> print_value can item p = print_string can item p"
  "kind item = cJSON_Array \<Longrightarrow>
     print_value can item p = print_array can (print_value can) (child item) p"
  "kind item = cJSON_Object \<Longrightarrow>
     print_value can item p = print_object can (print_value can) (child item) p"
  "kind item \<notin> {cJSON_NULL, cJSON_False, cJSON_True, cJSON_Number, cJSON_Raw,
      cJSON_String, cJSON_Array, cJSON_Object} \<Longrightarrow> print_value can item p = Err 0"
  by (subst print_value.simps, simp add: json_types)+

lemma print_spec_kind:
  "kind item = cJSON_NULL \<Longrightarrow> print_spec fmt d item = Some ''null''"
  "kind item = cJSON_False \<Longrightarrow> print_spec fmt d item = Some ''false''"
  "kind item = cJSON_True \<Longrightarrow> print_spec fmt d item = Some ''true''"
  "kind item = cJSON_Number \<Longrightarrow> print_spec fmt d item =
     (if length (number_text (valuedouble item)) > 25 then None else Some (number_text (valuedouble item)))"
  "kind item = cJSON_Raw \<Longrightarrow> print_spec fmt d item = valuestring item"
  "kind item = cJSON_String \<Longrightarrow> print_spec fmt d item = Some (quoted (valuestring item))"
  "kind item = cJSON_Array \<Longrightarrow> print_spec fmt d item =
     map_option (\<lambda>r. ''['' @ r @ '']'') (elems_spec fmt (print_spec fmt (d + 1)) (child item))"
  "kind item = cJSON_Object \<Longrightarrow> print_spec fmt d item =
     map_option (\<lambda>r. ''{'' @ (if fmt then [CHR 0x0A] else []) @ r @
            (if fmt then replicate d (CHR 0x09) else []) @ ''}'')
          (members_spec fmt (d + 1) (print_spec fmt (d + 1)) (child item))"
  "kind item \<notin> {cJSON_NULL, cJSON_False, cJSON_True, cJSON_Number, cJSON_Raw,
      cJSON_String, cJSON_Array, cJSON_Object} \<Longrightarrow> print_spec fmt d item = None"
  by (subst print_spec.simps, simp add: json_types Let_def)+

lemma item_induct:
  assumes "\<And>item. (\<And>c. c \<in> set (child item) \<Longrightarrow> P c) \<Longrightarrow> P item"
  shows "P item"
  using assms by (induction item rule: measure_induct_rule[of size]) (meson size_child)

lemma print_spec_no_nul: "c_strings item \<Longrightarrow> print_spec fmt d item = Some w \<Longrightarrow> no_nul w"
proof (induction item arbitrary: d w rule: item_induct)
  case (1 item)
  have st: "opt_no_nul (valuestring item)" "\<forall>c \<in> set (child item). c_strings c"
    using c_strings_parts[OF 1(2)] by auto
  show ?case
  proof (cases item rule: kind_cases)
    case number
    then show ?thesis using 1(3) number_text_no_nul by (auto simp: print_spec_kind split: if_splits)
  next
    case raw
    then show ?thesis using 1(3) st(1) by (simp add: print_spec_kind opt_no_nul_def)
  next
    case string
    then show ?thesis using 1(3) quoted_no_nul st(1) by (auto simp: print_spec_kind)
  next
    case array
    then obtain r where r: "elems_spec fmt (print_spec fmt (d + 1)) (child item) = Some r" "w = ''['' @ r @ '']''"
      using 1(3) by (auto simp: print_spec_kind)
    then have "no_nul r" using elems_spec_no_nul[OF r(1)] 1(1) st(2) by blast
    then show ?thesis by (simp add: r)
  next
    case object
    then obtain r where r: "members_spec fmt (d + 1) (print_spec fmt (d + 1)) (child item) = Some r"
      "w = ''{'' @ (if fmt then [CHR 0x0A] else []) @ r @ (if fmt then replicate d (CHR 0x09) else []) @ ''}''"
      using 1(3) by (auto simp: print_spec_kind)
    then have "no_nul r" using members_spec_no_nul[OF r(1)] 1(1) st(2) c_strings_parts(2) by blast
    then show ?thesis by (simp add: r)
  qed (use 1(3) in \<open>auto simp: print_spec_kind\<close>)
qed

section \<open>Values\<close>

text \<open>
  What printing a value at the end of a text \<open>t\<close> is to achieve: its text, part of it before and
  part of it after the offset, and the terminator.
\<close>

definition writes ::
  "printbuffer \<Rightarrow> string \<Rightarrow> string option \<Rightarrow> bool \<Rightarrow> printbuffer outcome \<Rightarrow> bool" where
  "writes p t w E r = (case w of
       Some x \<Rightarrow> post (\<lambda>q. \<exists>a b. x = a @ b \<and> out q (t @ a) (b @ [CHR 0x00]) \<and> same p q) E r
     | None \<Rightarrow> post (\<lambda>_. False) True r)"

definition allowed :: "(nat \<Rightarrow> bool) \<Rightarrow> printbuffer \<Rightarrow> nat \<Rightarrow> string option \<Rightarrow> bool \<Rightarrow> bool" where
  "allowed can p k w E = (case w of
       Some x \<Rightarrow> excused can p (k + length x + 2) E
     | None \<Rightarrow> excused can p 0 True)"

definition completes ::
  "printbuffer \<Rightarrow> string \<Rightarrow> string option \<Rightarrow> bool \<Rightarrow> printbuffer outcome \<Rightarrow> bool" where
  "completes p t w E r = (case w of
       Some x \<Rightarrow> post (\<lambda>q. out q (t @ x) [] \<and> same p q) E r
     | None \<Rightarrow> post (\<lambda>_. False) True r)"

text \<open>Sequences: a text \<open>wx\<close> is completed, then the rest \<open>w\<close> is written.\<close>

definition then_text :: "string option \<Rightarrow> string option \<Rightarrow> string option" where
  "then_text wx w = (case (wx, w) of (Some x, Some y) \<Rightarrow> Some (x @ y) | _ \<Rightarrow> None)"

lemma then_text_simps [simp]:
  "then_text None w = None" "then_text wx None = None" "then_text (Some x) (Some y) = Some (x @ y)"
  by (auto simp: then_text_def split: option.splits)

lemma then_text_assoc: "then_text (then_text a b) c = then_text a (then_text b c)"
  by (auto simp: then_text_def split: option.splits)

lemma post_absurd: "post (\<lambda>_. False) True m \<Longrightarrow> post Q True (obind m f)"
  by (cases m) simp_all

lemma completes_seq:
  assumes "completes p t wx (E \<or> w = None) m"
    "\<And>x q. wx = Some x \<Longrightarrow> out q (t @ x) [] \<Longrightarrow> same p q \<Longrightarrow> completes q (t @ x) w E (f q)"
  shows "completes p t (then_text wx w) E (obind m f)"
proof (cases wx)
  case None
  then show ?thesis using assms(1) by (simp add: completes_def post_absurd)
next
  case (Some x)
  then have m: "post (\<lambda>q. out q (t @ x) [] \<and> same p q) (E \<or> w = None) m"
    using assms(1) by (simp add: completes_def)
  have f: "completes q (t @ x) w E (f q)" if "out q (t @ x) [] \<and> same p q" for q
    using assms(2)[OF Some] that by blast
  show ?thesis
  proof (cases w)
    case None
    have "post (\<lambda>_. False) True (obind m f)"
      by (rule post_obind[where R = "\<lambda>q. out q (t @ x) [] \<and> same p q"]) (use m f None in \<open>auto simp: completes_def\<close>)
    then show ?thesis by (simp add: None completes_def)
  next
    case w: (Some y)
    have "post (\<lambda>q. out q (t @ x @ y) [] \<and> same p q) E (obind m f)"
    proof (rule post_obind)
      show "post (\<lambda>q. out q (t @ x) [] \<and> same p q) E m" using m w by simp
      fix q assume q: "out q (t @ x) [] \<and> same p q"
      from f[OF q] have "post (\<lambda>r. out r ((t @ x) @ y) [] \<and> same q r) E (f q)" by (simp add: completes_def w)
      then show "post (\<lambda>q. out q (t @ x @ y) [] \<and> same p q) E (f q)"
        by (rule post_mono) (use q same_trans in auto)
    qed
    then show ?thesis by (simp add: Some w completes_def)
  qed
qed

lemma writes_seq:
  assumes "completes p t wx (E \<or> w = None) m"
    "\<And>x q. wx = Some x \<Longrightarrow> out q (t @ x) [] \<Longrightarrow> same p q \<Longrightarrow> writes q (t @ x) w E (f q)"
  shows "writes p t (then_text wx w) E (obind m f)"
proof (cases wx)
  case None
  then show ?thesis using assms(1) by (simp add: completes_def writes_def post_absurd)
next
  case (Some x)
  then have m: "post (\<lambda>q. out q (t @ x) [] \<and> same p q) (E \<or> w = None) m"
    using assms(1) by (simp add: completes_def)
  have f: "writes q (t @ x) w E (f q)" if "out q (t @ x) [] \<and> same p q" for q
    using assms(2)[OF Some] that by blast
  show ?thesis
  proof (cases w)
    case None
    have "post (\<lambda>_. False) True (obind m f)"
      by (rule post_obind[where R = "\<lambda>q. out q (t @ x) [] \<and> same p q"]) (use m f None in \<open>auto simp: writes_def\<close>)
    then show ?thesis by (simp add: None writes_def)
  next
    case w: (Some y)
    have "post (\<lambda>q. \<exists>a b. x @ y = a @ b \<and> out q (t @ a) (b @ [CHR 0x00]) \<and> same p q) E (obind m f)"
    proof (rule post_obind)
      show "post (\<lambda>q. out q (t @ x) [] \<and> same p q) E m" using m w by simp
      fix q assume q: "out q (t @ x) [] \<and> same p q"
      from f[OF q] have "post (\<lambda>r. \<exists>a b. y = a @ b \<and> out r ((t @ x) @ a) (b @ [CHR 0x00]) \<and> same q r) E (f q)"
        by (simp add: writes_def w)
      then show "post (\<lambda>q. \<exists>a b. x @ y = a @ b \<and> out q (t @ a) (b @ [CHR 0x00]) \<and> same p q) E (f q)"
      proof (rule post_mono)
        fix r assume "\<exists>a b. y = a @ b \<and> out r ((t @ x) @ a) (b @ [CHR 0x00]) \<and> same q r"
        then obtain a b where ab: "y = a @ b" "out r ((t @ x) @ a) (b @ [CHR 0x00])" "same q r" by blast
        then have "x @ y = (x @ a) @ b \<and> out r (t @ x @ a) (b @ [CHR 0x00]) \<and> same p r"
          using q same_trans by auto
        then show "\<exists>a b. x @ y = a @ b \<and> out r (t @ a) (b @ [CHR 0x00]) \<and> same p r" by blast
      qed
    qed
    then show ?thesis by (simp add: Some w writes_def)
  qed
qed

text \<open>What is allowed for a sequence is allowed for its parts.\<close>

lemma allowed_first:
  "allowed can p k (then_text wx w) E \<Longrightarrow> allowed can p k wx (E \<or> w = None)"
  by (auto simp: allowed_def then_text_def excused_def split: option.splits)

lemma allowed_rest:
  "allowed can p k (then_text (Some x) w) E \<Longrightarrow> same p q \<Longrightarrow> allowed can q (k + length x) w E"
  by (auto simp: allowed_def then_text_def excused_def same_def split: option.splits)

lemma allowed_None: "allowed can p k None E = allowed can p k None F"
  by (simp add: allowed_def)

definition prints :: "(nat \<Rightarrow> bool) \<Rightarrow> bool \<Rightarrow> nat \<Rightarrow> printer \<Rightarrow> cJSON \<Rightarrow> bool" where
  "prints can fmt d pv item \<longleftrightarrow> (\<forall>p t E. out p t [] \<longrightarrow> pformat p = fmt \<longrightarrow> pdepth p = d \<longrightarrow>
     allowed can p (length t) (print_spec fmt d item) E \<longrightarrow>
     writes p t (print_spec fmt d item) E (pv item p))"

text \<open>Writers of a fixed text: with the terminator and without it.\<close>

lemma emit_writes:
  assumes "out p t []" "allowed can p (length t) (Some x) E" "needed = length x + 1"
  shows "writes p t (Some x) E (emit can needed (x @ [CHR 0x00]) 0 p)"
proof -
  have "post (\<lambda>q. out q (t @ []) (x @ [CHR 0x00]) \<and> same p q) E
      (emit can needed ([] @ x @ [CHR 0x00]) (length ([] :: string)) p)"
    by (rule emit_post[OF assms(1)]) (use assms(2,3) in \<open>auto simp: allowed_def\<close>)
  then have e: "post (\<lambda>q. out q t (x @ [CHR 0x00]) \<and> same p q) E (emit can needed (x @ [CHR 0x00]) 0 p)" by simp
  show ?thesis
    unfolding writes_def option.case
  proof (rule post_mono[OF e])
    fix q assume "out q t (x @ [CHR 0x00]) \<and> same p q"
    then have "x = [] @ x \<and> out q (t @ []) (x @ [CHR 0x00]) \<and> same p q" by simp
    then show "\<exists>a b. x = a @ b \<and> out q (t @ a) (b @ [CHR 0x00]) \<and> same p q" by blast
  qed
qed

lemma emit_completes_nul:
  assumes "out p t []" "allowed can p (length t) (Some a) E" "needed = length a + 1" "adv = length a"
  shows "completes p t (Some a) E (emit can needed (a @ [CHR 0x00]) adv p)"
proof -
  have "post (\<lambda>q. out q (t @ a) [CHR 0x00] \<and> same p q) E (emit can needed (a @ [CHR 0x00]) (length a) p)"
    by (rule emit_post[OF assms(1)]) (use assms(2,3) in \<open>auto simp: allowed_def\<close>)
  then show ?thesis unfolding assms(4) completes_def option.case
    by (rule post_mono) (auto dest: out_prefix)
qed

lemma emit_completes:
  assumes "out p t []" "allowed can p (length t) (Some a) E"
    "length a \<le> needed" "needed \<le> length a + 1" "adv = length a" "a \<noteq> []"
  shows "completes p t (Some a) E (emit can needed a adv p)"
proof -
  have "post (\<lambda>q. out q (t @ a) [] \<and> same p q) E (emit can needed (a @ []) (length a) p)"
    by (rule emit_post[OF assms(1)]) (use assms in \<open>auto simp: allowed_def elim: excused_mono\<close>)
  then show ?thesis unfolding assms(5) completes_def option.case by simp
qed

text \<open>A written value and the update of the offset.\<close>

lemma value_then_offset:
  assumes "writes p t w E r" "\<And>x. w = Some x \<Longrightarrow> no_nul x"
  shows "completes p t w E (obind r update_offset)"
proof (cases w)
  case None
  then show ?thesis using assms(1) by (simp add: writes_def completes_def post_absurd)
next
  case (Some x)
  have "post (\<lambda>q. out q (t @ x) [] \<and> same p q) E (obind r update_offset)"
  proof (rule post_obind[OF assms(1)[unfolded writes_def Some option.case]])
    fix q assume "\<exists>a b. x = a @ b \<and> out q (t @ a) (b @ [CHR 0x00]) \<and> same p q"
    then obtain a b where ab: "x = a @ b" "out q (t @ a) (b @ [CHR 0x00])" "same p q" by blast
    then show "post (\<lambda>q. out q (t @ x) [] \<and> same p q) E (update_offset q)"
      using update_offset_out[OF ab(2)] assms(2)[OF Some] same_trans by auto
  qed
  then show ?thesis by (simp add: completes_def Some)
qed

lemma printed_value:
  assumes "prints can fmt d pv e" "c_strings e" "out p t []" "pformat p = fmt" "pdepth p = d"
    "allowed can p (length t) (print_spec fmt d e) E"
  shows "completes p t (print_spec fmt d e) E (obind (pv e p) update_offset)"
proof (rule value_then_offset)
  show "writes p t (print_spec fmt d e) E (pv e p)"
    using assms(1,3-6) unfolding prints_def by blast
  show "no_nul x" if "print_spec fmt d e = Some x" for x using print_spec_no_nul assms(2) that by blast
qed

lemma printed_key:
  assumes "out p t []" "allowed can p (length t) (Some (quoted s)) E" "opt_no_nul s"
  shows "completes p t (Some (quoted s)) E (obind (print_string_ptr can s p) update_offset)"
proof (rule value_then_offset)
  have "post (\<lambda>q. out q t (quoted s @ [CHR 0x00]) \<and> same p q) E (print_string_ptr can s p)"
    by (rule print_string_post[OF assms(1)]) (use assms(2) in \<open>simp add: allowed_def\<close>)
  then show "writes p t (Some (quoted s)) E (print_string_ptr can s p)"
    unfolding writes_def option.case
  proof (rule post_mono)
    fix q assume "out q t (quoted s @ [CHR 0x00]) \<and> same p q"
    then have "quoted s = [] @ quoted s \<and> out q (t @ []) (quoted s @ [CHR 0x00]) \<and> same p q" by simp
    then show "\<exists>a b. quoted s = a @ b \<and> out q (t @ a) (b @ [CHR 0x00]) \<and> same p q" by blast
  qed
  show "no_nul x" if "Some (quoted s) = Some x" for x using that quoted_no_nul[OF assms(3)] by simp
qed

lemma obind_assoc: "obind m (\<lambda>x. obind (f x) g) = obind (obind m f) g"
  by (cases m) simp_all

section \<open>Arrays\<close>

lemma elems_spec_Cons: "elems_spec fmt sp (e # es) = then_text (sp e)
   (then_text (Some (if es \<noteq> [] then if fmt then '', '' else '','' else [])) (elems_spec fmt sp es))"
  by (auto simp: then_text_def split: option.splits)

lemma then_text_Nil [simp]: "then_text (Some []) w = w" "then_text w (Some []) = w"
  by (cases w; simp)+

lemma print_elems_completes:
  assumes "\<forall>e \<in> set es. prints can fmt d pv e \<and> c_strings e"
    "out p t []" "pformat p = fmt" "pdepth p = d"
    "allowed can p (length t) (elems_spec fmt (print_spec fmt d) es) E"
  shows "completes p t (elems_spec fmt (print_spec fmt d) es) E (print_elems can pv es p)"
  using assms
proof (induction es arbitrary: p t E)
  case Nil
  then show ?case by (simp add: completes_def)
next
  case (Cons e es)
  let ?sep = "if es \<noteq> [] then if fmt then '', '' else '','' else []"
  let ?rest = "elems_spec fmt (print_spec fmt d) es"
  have unf: "print_elems can pv (e # es) p = obind (obind (pv e p) update_offset) (\<lambda>p2.
      if es \<noteq> [] then obind (emit can ((if pformat p2 then 2 else 1) + 1)
          ((if pformat p2 then '', '' else '','') @ [CHR 0x00]) (if pformat p2 then 2 else 1) p2)
            (print_elems can pv es)
      else print_elems can pv es p2)"
    by (simp only: print_elems.simps obind_assoc[symmetric] Let_def)
  note al = Cons(6)[unfolded elems_spec_Cons]
  show ?case unfolding unf elems_spec_Cons
  proof (rule completes_seq)
    show "completes p t (print_spec fmt d e) (E \<or> then_text (Some ?sep) ?rest = None) (obind (pv e p) update_offset)"
      by (rule printed_value) (use Cons(2-5) allowed_first[OF al] in auto)
  next
    fix x q assume x: "print_spec fmt d e = Some x" and q: "out q (t @ x) []" "same p q"
    have f: "pformat q = fmt" "pdepth q = d" using q(2) Cons(4,5) by (auto simp: same_def)
    have al2: "allowed can q (length (t @ x)) (then_text (Some ?sep) ?rest) E"
      using allowed_rest[OF al[unfolded x] q(2)] by simp
    show "completes q (t @ x) (then_text (Some ?sep) ?rest) E
       (if es \<noteq> [] then obind (emit can ((if pformat q then 2 else 1) + 1)
          ((if pformat q then '', '' else '','') @ [CHR 0x00]) (if pformat q then 2 else 1) q)
            (print_elems can pv es)
        else print_elems can pv es q)"
    proof (cases "es = []")
      case True
      then show ?thesis using q by (simp add: completes_def)
    next
      case False
      have "completes q (t @ x) (then_text (Some ?sep) ?rest) E
          (obind (emit can ((if fmt then 2 else 1) + 1) (?sep @ [CHR 0x00]) (if fmt then 2 else 1) q)
             (print_elems can pv es))"
      proof (rule completes_seq)
        show "completes q (t @ x) (Some ?sep) (E \<or> ?rest = None)
            (emit can ((if fmt then 2 else 1) + 1) (?sep @ [CHR 0x00]) (if fmt then 2 else 1) q)"
          by (rule emit_completes_nul[OF q(1) allowed_first[OF al2]]) (use False in auto)
      next
        fix y u assume "Some ?sep = Some y" "out u ((t @ x) @ y) []" "same q u"
        then show "completes u ((t @ x) @ y) ?rest E (print_elems can pv es u)"
          using Cons(2) f allowed_rest[OF al2, of u] by (intro Cons(1)) (auto simp: same_def)
      qed
      then show ?thesis using False f by simp
    qed
  qed
qed

text \<open>One level deeper and back.\<close>

abbreviation deeper :: "printbuffer \<Rightarrow> printbuffer" where
  "deeper p \<equiv> p\<lparr>pdepth := pdepth p + 1\<rparr>"

lemma out_deeper [simp]: "out (p\<lparr>pdepth := k\<rparr>) t u = out p t u"
  by (simp add: out_def)

lemma allowed_deeper [simp]: "allowed can (p\<lparr>pdepth := k\<rparr>) l w E = allowed can p l w E"
  by (simp add: allowed_def excused_def split: option.splits)

lemma writes_deeper:
  assumes "writes (deeper p) t w E r"
  shows "writes p t w E (obind r (\<lambda>q. Ok (q\<lparr>pdepth := pdepth q - 1\<rparr>)))"
proof (cases w)
  case None
  then show ?thesis using assms by (simp add: writes_def post_absurd)
next
  case (Some x)
  show ?thesis unfolding writes_def Some option.case
  proof (rule post_obind[OF assms[unfolded writes_def Some option.case]])
    fix q assume "\<exists>a b. x = a @ b \<and> out q (t @ a) (b @ [CHR 0x00]) \<and> same (deeper p) q"
    then obtain a b where "x = a @ b" "out q (t @ a) (b @ [CHR 0x00])" "same (deeper p) q" by blast
    then have "x = a @ b \<and> out (q\<lparr>pdepth := pdepth q - 1\<rparr>) (t @ a) (b @ [CHR 0x00]) \<and>
        same p (q\<lparr>pdepth := pdepth q - 1\<rparr>)" by (simp add: same_def)
    then show "post (\<lambda>q. \<exists>a b. x = a @ b \<and> out q (t @ a) (b @ [CHR 0x00]) \<and> same p q) E
        (Ok (q\<lparr>pdepth := pdepth q - 1\<rparr>))" unfolding post_simps by blast
  qed
qed

lemma print_array_writes:
  assumes "\<forall>e \<in> set es. prints can fmt (d + 1) pv e \<and> c_strings e"
    "out p t []" "pformat p = fmt" "pdepth p = d"
    "allowed can p (length t)
       (then_text (Some ''['') (then_text (elems_spec fmt (print_spec fmt (d + 1)) es) (Some '']''))) E"
  shows "writes p t (then_text (Some ''['') (then_text (elems_spec fmt (print_spec fmt (d + 1)) es) (Some '']''))) E
      (print_array can pv es p)"
  unfolding print_array_def
proof (rule writes_seq)
  show "completes p t (Some ''['')
      (E \<or> then_text (elems_spec fmt (print_spec fmt (d + 1)) es) (Some '']'') = None) (emit can 1 ''['' 1 p)"
    by (rule emit_completes[OF assms(2) allowed_first[OF assms(5)]]) auto
next
  fix x q assume "Some ''['' = Some x" and q: "out q (t @ x) []" "same p q"
  then have x: "x = ''[''" by simp
  let ?w = "elems_spec fmt (print_spec fmt (d + 1)) es"
  have al: "allowed can (deeper q) (length (t @ x)) (then_text ?w (Some '']'')) E"
    using allowed_rest[OF assms(5) q(2)] x by simp
  have "writes (deeper q) (t @ x) (then_text ?w (Some '']'')) E
      (obind (print_elems can pv es (deeper q)) (\<lambda>p2. emit can 2 ('']'' @ [CHR 0x00]) 0 p2))"
  proof (rule writes_seq)
    show "completes (deeper q) (t @ x) ?w (E \<or> Some '']'' = None) (print_elems can pv es (deeper q))"
      by (rule print_elems_completes[OF assms(1)]) (use q assms(3,4) allowed_first[OF al] in \<open>auto simp: same_def\<close>)
  next
    fix y u assume y: "?w = Some y" and u: "out u ((t @ x) @ y) []" "same (deeper q) u"
    show "writes u ((t @ x) @ y) (Some '']'') E (emit can 2 ('']'' @ [CHR 0x00]) 0 u)"
      by (rule emit_writes[OF u(1)]) (use allowed_rest[OF al[unfolded y] u(2)] in \<open>auto simp: add.assoc\<close>)
  qed
  from writes_deeper[OF this]
  show "writes q (t @ x) (then_text ?w (Some '']'')) E (obind (print_elems can pv es (deeper q)) (\<lambda>p2.
     obind (emit can 2 ('']'' @ [CHR 0x00]) 0 p2) (\<lambda>p3. Ok (p3\<lparr>pdepth := pdepth p3 - 1\<rparr>))))"
    by (simp only: obind_assoc)
qed

section \<open>Objects\<close>

definition member_end :: "bool \<Rightarrow> bool \<Rightarrow> string" where
  "member_end fmt comma = (if comma then '','' else []) @ (if fmt then [CHR 0x0A] else [])"

definition tabs :: "bool \<Rightarrow> nat \<Rightarrow> string" where
  "tabs fmt d = (if fmt then replicate d (CHR 0x09) else [])"

definition colon :: "bool \<Rightarrow> string" where
  "colon fmt = (if fmt then [CHR '':'', CHR 0x09] else '':'')"

lemma members_spec_Cons: "members_spec fmt d sp (e # es) =
   then_text (Some (tabs fmt d)) (then_text (Some (quoted (jstring e)))
     (then_text (Some (colon fmt)) (then_text (sp e)
       (then_text (Some (member_end fmt (es \<noteq> []))) (members_spec fmt d sp es)))))"
  by (auto simp: then_text_def tabs_def colon_def member_end_def split: option.splits)

lemma print_members_Cons:
  assumes "pformat p = fmt" "pdepth p = d"
  shows "print_members can pv (e # es) p =
     obind (if fmt then emit can d (tabs fmt d) d p else Ok p) (\<lambda>p1.
     obind (obind (print_string_ptr can (jstring e) p1) update_offset) (\<lambda>p3.
     obind (emit can (length (colon (pformat p3))) (colon (pformat p3)) (length (colon (pformat p3))) p3) (\<lambda>p4.
     obind (obind (pv e p4) update_offset) (\<lambda>p6.
     obind (emit can (length (member_end (pformat p6) (es \<noteq> [])) + 1)
              (member_end (pformat p6) (es \<noteq> []) @ [CHR 0x00]) (length (member_end (pformat p6) (es \<noteq> []))) p6)
       (print_members can pv es)))))"
proof -
  have l: "length (member_end f m) = (if f then 1 else 0) + (if m then 1 else 0)" for f m
    by (simp add: member_end_def)
  have c: "length (colon f) = (if f then 2 else 1)" for f by (simp add: colon_def)
  have m: "member_end f m @ x = (if m then '','' else []) @ (if f then [CHR 0x0A] else []) @ x" for f m x
    by (simp add: member_end_def)
  show ?thesis
    unfolding print_members.simps assms obind_assoc[symmetric] Let_def l c m tabs_def
    by (simp add: colon_def[abs_def] cong: if_cong)
qed

lemma print_members_completes:
  assumes "\<forall>e \<in> set es. prints can fmt d pv e \<and> c_strings e" "0 < d"
    "out p t []" "pformat p = fmt" "pdepth p = d"
    "allowed can p (length t) (members_spec fmt d (print_spec fmt d) es) E"
  shows "completes p t (members_spec fmt d (print_spec fmt d) es) E (print_members can pv es p)"
  using assms
proof (induction es arbitrary: p t E)
  case Nil
  then show ?case by (simp add: completes_def)
next
  case (Cons e es)
  let ?rest = "members_spec fmt d (print_spec fmt d) es"
  let ?w5 = "then_text (Some (member_end fmt (es \<noteq> []))) ?rest"
  let ?w4 = "then_text (print_spec fmt d e) ?w5"
  let ?w3 = "then_text (Some (colon fmt)) ?w4"
  let ?w2 = "then_text (Some (quoted (jstring e))) ?w3"
  have e: "prints can fmt d pv e" "c_strings e" "opt_no_nul (jstring e)"
    using Cons(2) c_strings_parts(2) by auto
  note al = Cons(7)[unfolded members_spec_Cons]
  show ?case unfolding print_members_Cons[OF Cons(5,6)] members_spec_Cons
  proof (rule completes_seq)
    show "completes p t (Some (tabs fmt d)) (E \<or> ?w2 = None) (if fmt then emit can d (tabs fmt d) d p else Ok p)"
      using emit_completes[OF Cons(4) allowed_first[OF al], of d d] Cons(3,4)
      by (auto simp: tabs_def completes_def)
  next
    fix x q assume "Some (tabs fmt d) = Some x" and q: "out q (t @ x) []" "same p q"
    then have x: "x = tabs fmt d" by simp
    have al: "allowed can q (length (t @ x)) ?w2 E" using allowed_rest[OF al q(2)] x by simp
    show "completes q (t @ x) ?w2 E
     (obind (obind (print_string_ptr can (jstring e) q) update_offset) (\<lambda>p3.
     obind (emit can (length (colon (pformat p3))) (colon (pformat p3)) (length (colon (pformat p3))) p3) (\<lambda>p4.
     obind (obind (pv e p4) update_offset) (\<lambda>p6.
     obind (emit can (length (member_end (pformat p6) (es \<noteq> [])) + 1)
              (member_end (pformat p6) (es \<noteq> []) @ [CHR 0x00]) (length (member_end (pformat p6) (es \<noteq> []))) p6)
       (print_members can pv es)))))"
    proof (rule completes_seq[OF printed_key[OF q(1) allowed_first[OF al] e(3)]])
      fix y r assume "Some (quoted (jstring e)) = Some y" and r: "out r ((t @ x) @ y) []" "same q r"
      then have y: "y = quoted (jstring e)" by simp
      have fr: "pformat r = fmt" using r(2) q(2) Cons(5) by (simp add: same_def)
      have al: "allowed can r (length ((t @ x) @ y)) ?w3 E" using allowed_rest[OF al r(2)] y by (simp add: add.assoc)
      show "completes r ((t @ x) @ y) ?w3 E
       (obind (emit can (length (colon (pformat r))) (colon (pformat r)) (length (colon (pformat r))) r) (\<lambda>p4.
        obind (obind (pv e p4) update_offset) (\<lambda>p6.
        obind (emit can (length (member_end (pformat p6) (es \<noteq> [])) + 1)
              (member_end (pformat p6) (es \<noteq> []) @ [CHR 0x00]) (length (member_end (pformat p6) (es \<noteq> []))) p6)
       (print_members can pv es))))" unfolding fr
      proof (rule completes_seq[OF emit_completes[OF r(1) allowed_first[OF al]]])
        show "colon fmt \<noteq> []" by (simp add: colon_def)
        fix z u assume "Some (colon fmt) = Some z" and u: "out u (((t @ x) @ y) @ z) []" "same r u"
        then have z: "z = colon fmt" by simp
        have fu: "pformat u = fmt" "pdepth u = d" using u(2) r(2) q(2) Cons(5,6) by (simp_all add: same_def)
        have al: "allowed can u (length (((t @ x) @ y) @ z)) ?w4 E"
          using allowed_rest[OF al u(2)] z by (simp add: add.assoc)
        show "completes u (((t @ x) @ y) @ z) ?w4 E (obind (obind (pv e u) update_offset) (\<lambda>p6.
        obind (emit can (length (member_end (pformat p6) (es \<noteq> [])) + 1)
              (member_end (pformat p6) (es \<noteq> []) @ [CHR 0x00]) (length (member_end (pformat p6) (es \<noteq> []))) p6)
       (print_members can pv es)))"
        proof (rule completes_seq[OF printed_value[OF e(1,2) u(1) fu allowed_first[OF al]]])
          fix v k assume v: "print_spec fmt d e = Some v" and k: "out k ((((t @ x) @ y) @ z) @ v) []" "same u k"
          have fk: "pformat k = fmt" "pdepth k = d" using k(2) fu by (simp_all add: same_def)
          have al: "allowed can k (length ((((t @ x) @ y) @ z) @ v)) ?w5 E"
            using allowed_rest[OF al[unfolded v] k(2)] by (simp add: add.assoc)
          show "completes k ((((t @ x) @ y) @ z) @ v) ?w5 E
            (obind (emit can (length (member_end (pformat k) (es \<noteq> [])) + 1)
              (member_end (pformat k) (es \<noteq> []) @ [CHR 0x00]) (length (member_end (pformat k) (es \<noteq> []))) k)
              (print_members can pv es))" unfolding fk
          proof (rule completes_seq[OF emit_completes_nul[OF k(1) allowed_first[OF al]]])
            fix s l assume "Some (member_end fmt (es \<noteq> [])) = Some s"
              and l: "out l (((((t @ x) @ y) @ z) @ v) @ s) []" "same k l"
            then have s: "s = member_end fmt (es \<noteq> [])" by simp
            show "completes l (((((t @ x) @ y) @ z) @ v) @ s) ?rest E (print_members can pv es l)"
              using Cons(2,3) l fk allowed_rest[OF al l(2)] s
              by (intro Cons(1)) (auto simp: same_def add.assoc)
          qed simp_all
        qed
      qed simp_all
    qed
  qed
qed

definition brace :: "bool \<Rightarrow> string" where
  "brace fmt = ''{'' @ (if fmt then [CHR 0x0A] else [])"

lemma print_object_writes:
  assumes "\<forall>e \<in> set es. prints can fmt (d + 1) pv e \<and> c_strings e"
    "out p t []" "pformat p = fmt" "pdepth p = d"
    "allowed can p (length t) (then_text (Some (brace fmt))
       (then_text (members_spec fmt (d + 1) (print_spec fmt (d + 1)) es) (Some (tabs fmt d @ ''}'')))) E"
  shows "writes p t (then_text (Some (brace fmt))
       (then_text (members_spec fmt (d + 1) (print_spec fmt (d + 1)) es) (Some (tabs fmt d @ ''}'')))) E
      (print_object can pv es p)"
proof -
  let ?w = "members_spec fmt (d + 1) (print_spec fmt (d + 1)) es"
  let ?close = "\<lambda>p2. emit can (if pformat p2 then pdepth p2 + 1 else 2)
     ((if pformat p2 then replicate (pdepth p2 - 1) (CHR 0x09) else []) @ ''}'' @ [CHR 0x00]) 0 p2"
  have len: "length (brace fmt) = (if fmt then 2 else 1)" by (simp add: brace_def)
  have unf: "print_object can pv es p = obind (emit can (length (brace fmt) + 1) (brace fmt) (length (brace fmt)) p)
     (\<lambda>p1. obind (obind (print_members can pv es (deeper p1)) ?close) (\<lambda>p3. Ok (p3\<lparr>pdepth := pdepth p3 - 1\<rparr>)))"
    unfolding print_object_def Let_def assms(3) obind_assoc[symmetric] len by (simp add: brace_def)
  show ?thesis unfolding unf
  proof (rule writes_seq)
    show "completes p t (Some (brace fmt)) (E \<or> then_text ?w (Some (tabs fmt d @ ''}'')) = None)
       (emit can (length (brace fmt) + 1) (brace fmt) (length (brace fmt)) p)"
      by (rule emit_completes[OF assms(2) allowed_first[OF assms(5)]]) (auto simp: brace_def)
  next
    fix x q assume "Some (brace fmt) = Some x" and q: "out q (t @ x) []" "same p q"
    then have x: "x = brace fmt" by simp
    have al: "allowed can (deeper q) (length (t @ x)) (then_text ?w (Some (tabs fmt d @ ''}''))) E"
      using allowed_rest[OF assms(5) q(2)] x by simp
    have "writes (deeper q) (t @ x) (then_text ?w (Some (tabs fmt d @ ''}''))) E
        (obind (print_members can pv es (deeper q)) ?close)"
    proof (rule writes_seq)
      show "completes (deeper q) (t @ x) ?w (E \<or> Some (tabs fmt d @ ''}'') = None) (print_members can pv es (deeper q))"
        by (rule print_members_completes[OF assms(1)]) (use q assms(3,4) allowed_first[OF al] in \<open>auto simp: same_def\<close>)
    next
      fix y u assume y: "?w = Some y" and u: "out u ((t @ x) @ y) []" "same (deeper q) u"
      have f: "pformat u = fmt" "pdepth u = d + 1" using u(2) q(2) assms(3,4) by (simp_all add: same_def)
      have al: "allowed can u (length ((t @ x) @ y)) (Some (tabs fmt d @ ''}'')) E"
        using allowed_rest[OF al[unfolded y] u(2)] by (simp add: add.assoc)
      have "writes u ((t @ x) @ y) (Some (tabs fmt d @ ''}'')) E
         (emit can (if fmt then d + 2 else 2) ((tabs fmt d @ ''}'') @ [CHR 0x00]) 0 u)"
        by (rule emit_writes[OF u(1) al]) (simp add: tabs_def)
      then show "writes u ((t @ x) @ y) (Some (tabs fmt d @ ''}'')) E (?close u)"
        by (cases fmt) (simp_all add: f tabs_def)
    qed
    then show "writes q (t @ x) (then_text ?w (Some (tabs fmt d @ ''}''))) E
       (obind (obind (print_members can pv es (deeper q)) ?close) (\<lambda>p3. Ok (p3\<lparr>pdepth := pdepth p3 - 1\<rparr>)))"
      by (rule writes_deeper)
  qed
qed

section \<open>The refinement\<close>

lemma print_spec_seq:
  "kind item = cJSON_Array \<Longrightarrow> print_spec fmt d item =
     then_text (Some ''['') (then_text (elems_spec fmt (print_spec fmt (d + 1)) (child item)) (Some '']''))"
  "kind item = cJSON_Object \<Longrightarrow> print_spec fmt d item = then_text (Some (brace fmt))
     (then_text (members_spec fmt (d + 1) (print_spec fmt (d + 1)) (child item)) (Some (tabs fmt d @ ''}'')))"
  by (auto simp: print_spec_kind then_text_def brace_def tabs_def split: option.splits)

lemma print_number_writes:
  assumes "out p t []" "length (number_text (valuedouble item)) \<le> 25"
    "allowed can p (length t) (Some (number_text (valuedouble item))) E"
  shows "writes p t (Some (number_text (valuedouble item))) E (print_number can item p)"
proof -
  let ?s = "number_text (valuedouble item)"
  have "post (\<lambda>q. out q (t @ ?s) [CHR 0x00] \<and> same p q) E (emit can (length ?s) (?s @ [CHR 0x00]) (length ?s) p)"
    by (rule emit_post[OF assms(1)]) (use assms(3) in \<open>auto simp: allowed_def elim: excused_mono\<close>)
  moreover have "\<exists>a b. ?s = a @ b \<and> out q (t @ a) (b @ [CHR 0x00]) \<and> same p q"
    if "out q (t @ ?s) [CHR 0x00] \<and> same p q" for q
    by (rule exI[of _ ?s], rule exI[of _ "[]"]) (use that in simp)
  ultimately show ?thesis using assms(2)
    unfolding writes_def option.case print_number_def Let_def
    by (auto elim: post_mono)
qed

lemma print_value_prints: "c_strings item \<Longrightarrow> prints can fmt d (print_value can) item"
proof (induction item arbitrary: d rule: item_induct)
  case (1 item)
  have ch: "\<forall>e \<in> set (child item). prints can fmt (d + 1) (print_value can) e \<and> c_strings e"
    using 1 c_strings_parts(3) by blast
  have "writes p t (print_spec fmt d item) E (print_value can item p)"
    if p: "out p t []" "pformat p = fmt" "pdepth p = d" "allowed can p (length t) (print_spec fmt d item) E" for p t E
  proof (cases item rule: kind_cases)
    case null
    then show ?thesis using emit_writes[OF p(1), of can "''null''" E 5] p(4) by (simp add: print_value_kind print_spec_kind)
  next
    case false
    then show ?thesis using emit_writes[OF p(1), of can "''false''" E 6] p(4) by (simp add: print_value_kind print_spec_kind)
  next
    case true
    then show ?thesis using emit_writes[OF p(1), of can "''true''" E 5] p(4) by (simp add: print_value_kind print_spec_kind)
  next
    case number
    then show ?thesis using print_number_writes[OF p(1), of item can E] p(4)
      by (auto simp: print_value_kind print_spec_kind print_number_def writes_def split: if_splits)
  next
    case raw
    then show ?thesis using emit_writes[OF p(1), of can "the (valuestring item)" E] p(4)
      by (cases "valuestring item") (auto simp: print_value_kind print_spec_kind writes_def)
  next
    case string
    have "post (\<lambda>q. out q t (quoted (valuestring item) @ [CHR 0x00]) \<and> same p q) E (print_string_ptr can (valuestring item) p)"
      by (rule print_string_post[OF p(1)]) (use p(4) string in \<open>simp add: allowed_def print_spec_kind\<close>)
    moreover have "\<exists>a b. quoted (valuestring item) = a @ b \<and> out q (t @ a) (b @ [CHR 0x00]) \<and> same p q"
      if "out q t (quoted (valuestring item) @ [CHR 0x00]) \<and> same p q" for q
      by (rule exI[of _ "[]"], rule exI[of _ "quoted (valuestring item)"]) (use that in simp)
    ultimately show ?thesis using string
      by (auto simp: print_value_kind print_spec_kind print_string_def writes_def elim: post_mono)
  next
    case array
    show ?thesis using print_array_writes[OF ch p(1-3)] p(4)
      unfolding print_value_kind(7)[OF array] print_spec_seq(1)[OF array] by blast
  next
    case object
    show ?thesis using print_object_writes[OF ch p(1-3)] p(4)
      unfolding print_value_kind(8)[OF object] print_spec_seq(2)[OF object] by blast
  next
    case other
    then show ?thesis by (simp add: print_value_kind(9)[OF other] print_spec_kind(9)[OF other] writes_def)
  qed
  then show ?case by (simp add: prints_def)
qed

lemma c_text_no_nul: "no_nul u \<Longrightarrow> c_text (map Some u @ Some (CHR 0x00) # m) = Ok u"
  by (induction u) (auto simp: no_nul_def)

lemma out_text:
  assumes "out p t (u @ [CHR 0x00])" "no_nul (t @ u)"
  shows "\<exists>m m'. buffer p = Some m \<and> m = map Some (t @ u) @ Some (CHR 0x00) # m' \<and> length (t @ u) < plength p"
proof -
  obtain m where m: "buffer p = Some m" "take (length t + (length u + 1)) m = map Some (t @ u @ [CHR 0x00])"
    "length t + length u + 1 \<le> plength p"
    using assms(1) by (auto simp: out_def)
  have "m = take (length t + (length u + 1)) m @ drop (length t + (length u + 1)) m" by simp
  then have "m = map Some (t @ u) @ Some (CHR 0x00) # drop (length t + (length u + 1)) m"
    unfolding m(2) by simp
  then show ?thesis using m(1,3) by auto
qed

lemma print_is_spec:
  assumes "c_strings item" "\<forall>n. can n" "print_spec fmt 0 item = Some w" "length w + 2 \<le> size_limit"
  shows "print can item fmt = Ok w"
proof -
  let ?p = "\<lparr>buffer = Some (replicate 256 None), plength = 0, poffset = 0, pdepth = 0,
         noalloc = False, pformat = fmt\<rparr>"
  have "out ?p [] []" by (simp add: out_def)
  moreover have "allowed can ?p (length ([] :: string)) (Some w) False"
    using assms(2,4) by (simp add: allowed_def excused_def)
  ultimately have "writes ?p [] (Some w) False (print_value can item ?p)"
    using print_value_prints[OF assms(1), of can fmt 0] assms(3) unfolding prints_def by (metis printbuffer.select_convs(4,6))
  then obtain q a b where q: "print_value can item ?p = Ok q" "w = a @ b" "out q a (b @ [CHR 0x00])"
    unfolding writes_def option.case by (cases "print_value can item ?p") (auto simp: post_def)
  have nn: "no_nul w" using print_spec_no_nul assms(1,3) by blast
  then obtain r where r: "update_offset q = Ok r" "out r (a @ b) []" "buffer r = buffer q" "plength r = plength q"
    using update_offset_out[OF q(3)] q(2) by auto
  obtain m m' where m: "buffer q = Some m" "m = map Some w @ Some (CHR 0x00) # m'" "length w < plength q"
    using out_text[OF q(3)] nn q(2) by auto
  have "take (plength q) m = map Some w @ Some (CHR 0x00) # take (plength q - length w - 1) m'"
    using m(2,3) by (simp add: take_Cons')
  then show ?thesis using assms(2) q(1) r(1,3,4) m(1) c_text_no_nul[OF nn]
    by (simp add: print_def text_of_def)
qed

text \<open>
  C15. Refinement of the specification of the printed text: when no allocation fails,
  \<open>cJSON_Print\<close> and \<open>cJSON_PrintUnformatted\<close> return exactly the specified text of the item,
  however often the buffer has to grow on the way, for every item whose text has a supported
  size.
\<close>

theorem print_refines_spec:
  assumes "c_strings item" "\<forall>n. can n" "print_spec fmt 0 item = Some w" "length w + 2 \<le> size_limit"
  shows "print can item fmt = Ok w"
  using assms by (rule print_is_spec)

definition demo_item :: cJSON where
  "demo_item = Item cJSON_Object None 0 (Fin 0) None
     [Item cJSON_True None 0 (Fin 0) (Some ''udp'') [],
      Item cJSON_String (Some [CHR ''a'', CHR ''\"'', CHR 0x01]) 0 (Fin 0) (Some ''k'') []]"

definition demo_text :: string where
  "demo_text = [CHR ''{'', CHR ''\"''] @ ''udp'' @ [CHR ''\"'', CHR '':''] @ ''true,'' @ [CHR ''\"'', CHR ''k'', CHR ''\"'', CHR '':'',
     CHR ''\"'', CHR ''a'', CHR 0x5C, CHR ''\"'', CHR 0x5C] @ ''u0001'' @ [CHR ''\"'', CHR ''}'']"

theorem print_refines_spec_witness: "print (\<lambda>_. True) demo_item False = Ok demo_text"
proof -
  have "c_strings demo_item" by code_simp
  moreover have "print_spec False 0 demo_item = Some demo_text" by code_simp
  moreover have "length demo_text + 2 \<le> size_limit" by (simp add: demo_text_def size_limit_val)
  ultimately show ?thesis using print_refines_spec[of demo_item "\<lambda>_. True" False demo_text] by simp
qed

text \<open>
  C33. \<open>cJSON_PrintPreallocated\<close> never writes outside of the caller's buffer: with a buffer that
  has the announced length, it either fails, or the buffer holds the text of the item with
  its terminator, and both fit.
\<close>

theorem print_preallocated_safe:
  assumes "c_strings item" "0 \<le> len" "length buf = nat len"
  shows "case cJSON_PrintPreallocated item buf len fmt of
     Ok m \<Rightarrow> \<exists>w. print_spec fmt 0 item = Some w \<and> length w < nat len \<and>
        take (length w + 1) m = map Some (w @ [CHR 0x00])
   | Err _ \<Rightarrow> True | _ \<Rightarrow> False"
proof -
  let ?p = "\<lparr>buffer = Some buf, plength = nat len, poffset = 0, pdepth = 0, noalloc = True, pformat = fmt\<rparr>"
  let ?r = "print_value (\<lambda>_. False) item ?p"
  have "out ?p [] []" using assms(3) by (auto simp: out_def)
  moreover have "allowed (\<lambda>_. False) ?p (length ([] :: string)) (print_spec fmt 0 item) True"
    by (simp add: allowed_def excused_def split: option.splits)
  ultimately have w: "writes ?p [] (print_spec fmt 0 item) True ?r"
    using print_value_prints[OF assms(1), of "\<lambda>_. False" fmt 0] unfolding prints_def by (metis printbuffer.select_convs(4,6))
  show ?thesis
  proof (cases ?r)
    case (Ok q)
    then obtain x a b where x: "print_spec fmt 0 item = Some x" "x = a @ b" "out q a (b @ [CHR 0x00])" "same ?p q"
      using w unfolding writes_def by (cases "print_spec fmt 0 item") auto
    then obtain m m' where m: "buffer q = Some m" "m = map Some x @ Some (CHR 0x00) # m'" "length x < plength q"
      using out_text[OF x(3)] print_spec_no_nul[OF assms(1) x(1)] by auto
    have "plength q = nat len" using x(4) by (simp add: same_def)
    then show ?thesis using assms(2) Ok m x(1)
      by (simp add: cJSON_PrintPreallocated_def)
  qed (use w assms(2) in \<open>auto simp: cJSON_PrintPreallocated_def writes_def split: option.splits\<close>)
qed

theorem print_preallocated_safe_witness:
  "case cJSON_PrintPreallocated demo_item (replicate 30 None) 30 False of
     Ok m \<Rightarrow> take (length demo_text + 1) m = map Some (demo_text @ [CHR 0x00])
   | _ \<Rightarrow> False"
proof -
  have c: "c_strings demo_item" by code_simp
  have s: "print_spec False 0 demo_item = Some demo_text" by code_simp
  have ok: "\<exists>m. cJSON_PrintPreallocated demo_item (replicate 30 None) 30 False = Ok m"
  proof -
    have "case cJSON_PrintPreallocated demo_item (replicate 30 None) 30 False of Ok m \<Rightarrow> True | _ \<Rightarrow> False"
      by code_simp
    then show ?thesis by (auto split: outcome.splits)
  qed
  then obtain m where "cJSON_PrintPreallocated demo_item (replicate 30 None) 30 False = Ok m" by blast
  then show ?thesis
    using print_preallocated_safe[OF c, of 30 "replicate 30 None" False] s by simp
qed

text \<open>
  When \<open>realloc\<close> fails after something was printed, the printer writes through the pointer
  \<open>NULL + offset\<close>.
\<close>

theorem print_unchecked_realloc:
  "print (\<lambda>n. n \<le> 256) (Item cJSON_Array None 0 (Fin 0) None
     [Item cJSON_String (Some (replicate 200 (CHR ''x''))) 0 (Fin 0) None []]) False = Fault"
  by code_simp

end
