(* ===== verification/Json_Roundtrip.thy ===== *)
theory Json_Roundtrip
  imports Json_Safety Json_Print_Laws Decimal
begin

text \<open>
  Parsing what was printed gives the item back, up to the fields that the text does not
  show (\<open>reparse\<close>).
\<close>

section \<open>Looking at a place of the input\<close>

definition looking_at :: "string \<Rightarrow> nat \<Rightarrow> string \<Rightarrow> bool" where
  "looking_at content off s \<longleftrightarrow> off \<le> length content \<and> drop off content = s"

lemma looking_at_app: "looking_at content off (a @ b) \<Longrightarrow> looking_at content (off + length a) b"
proof -
  assume a: "looking_at content off (a @ b)"
  then have "drop (length a) (drop off content) = b" "length (drop off content) = length a + length b"
    by (auto simp: looking_at_def)
  then show ?thesis using a by (auto simp: looking_at_def add.commute)
qed

lemma looking_at_Cons:
  assumes "looking_at content off (c # s)"
  shows "off < length content" "content ! off = c" "looking_at content (off + 1) s"
proof -
  have d: "drop off content = c # s" using assms by (simp add: looking_at_def)
  show l: "off < length content" using d by (metis drop_all linorder_not_le list.distinct(1))
  show "content ! off = c" using d l by (metis hd_drop_conv_nth list.sel(1))
  show "looking_at content (off + 1) s" using looking_at_app[of content off "[c]" s] assms by simp
qed

lemma looking_at_rd [simp]: "looking_at content off (c # s) \<Longrightarrow> rd content off k = k c"
  using looking_at_Cons by (simp add: rd_def)

lemma skip_blanks:
  assumes "looking_at content off (ws @ c # s)" "\<forall>x \<in> set ws. is_blank x" "\<not> is_blank c"
  shows "buffer_skip_whitespace content off = off + length ws" "looking_at content (off + length ws) (c # s)"
proof -
  show l: "looking_at content (off + length ws) (c # s)" using looking_at_app[OF assms(1)] .
  have d: "drop off content = ws @ c # s" using assms(1) by (simp add: looking_at_def)
  have "takeWhile is_blank (ws @ c # s) = ws" using assms(2,3) by simp
  then show "buffer_skip_whitespace content off = off + length ws"
    using looking_at_Cons(1)[OF l] d by (simp add: buffer_skip_whitespace_def Let_def)
qed

lemma skip_none:
  "looking_at content off (c # s) \<Longrightarrow> \<not> is_blank c \<Longrightarrow> buffer_skip_whitespace content off = off"
  using skip_blanks(1)[of content off "[]"] by simp

lemma looking_at_word:
  assumes "looking_at content off s"
  shows "has_word content off w \<longleftrightarrow> take (length w) s = w"
proof -
  have "length s = length content - off" "drop off content = s" "off \<le> length content"
    using assms by (auto simp: looking_at_def)
  moreover have "take (length w) s = w \<Longrightarrow> length w \<le> length s" by (metis length_take min.cobounded1)
  ultimately show ?thesis by (auto simp: has_word_def)
qed

section \<open>Numbers\<close>

lemma number_text_reads:
  assumes "is_fin d" "dbl_ok d"
  shows "strtod (number_text d) = Some (d, [])" "length (number_text d) \<le> 25" "\<forall>c \<in> set (number_text d). num_char c"
proof -
  have z: "deq (dmul d (Fin 0)) (Fin 0)"
    using assms(1) by (cases d) (auto simp: mk_def deq_def Let_def dbl_max_def)
  then have c: "number_text d = fmt_g 15 d \<or> number_text d = fmt_g 17 d"
    by (auto simp: number_text_def Let_def split: option.splits)
  then show "length (number_text d) \<le> 25" "\<forall>c \<in> set (number_text d). num_char c"
    using fmt_g_length[OF assms, of 15] fmt_g_length[OF assms, of 17] fmt_g_chars by auto
  show "strtod (number_text d) = Some (d, [])"
  proof (cases "dval d = 0")
    case True
    have "strtod (fmt_g P d) = Some (d, [])" for P
      using strtod_fmt_g_zero[OF assms(1) True, of P] assms(1) True by (cases d) auto
    then show ?thesis using c by auto
  next
    case False
    have "\<exists>t. strtod (fmt_g 15 d) = Some (t, [])"
      using strtod_fmt_g[OF assms(1) False, of 15] by (auto simp: Let_def)
    then obtain t where t: "strtod (fmt_g 15 d) = Some (t, [])" by blast
    show ?thesis
    proof (cases "deq t d")
      case True
      then show ?thesis using t z deq_fin[OF True assms(1) False] by (simp add: number_text_def)
    next
      case no: False
      then show ?thesis using t z strtod_fmt_g_17[OF assms False] by (simp add: number_text_def)
    qed
  qed
qed

lemma fmt_g_head:
  assumes "0 < P"
  shows "\<exists>c r. fmt_g P d = c # r \<and> (c = CHR ''-'' \<or> isdigit c)"
proof -
  have zero: "isdigit (CHR ''0'')" by code_simp
  have wf: "\<exists>c r. with_frac ip fp @ s = c # r \<and> isdigit c" if "ip \<noteq> []" "\<forall>c \<in> set ip. isdigit c" for ip fp s
    using that by (cases ip) (auto simp: with_frac_def Let_def)
  obtain m e where me: "sig_digits P \<bar>dval d\<bar> = (m, e)" by fastforce
  have tk: "take (Suc n) (zstr m) \<noteq> [] \<and> (\<forall>c \<in> set (take (Suc n) (zstr m)). isdigit c)" if "dval d \<noteq> 0" for n
    using sig_digits_text(1,2)[OF _ assms me] that assms by (auto dest: in_set_takeD)
  have "\<exists>c r. (if dval d = 0 then ''0'' else if -4 \<le> e \<and> e < int P then
       if 0 \<le> e then with_frac (take (nat e + 1) (zstr m)) (drop (nat e + 1) (zstr m))
       else with_frac ''0'' (replicate (nat (- e) - 1) (CHR ''0'') @ zstr m)
     else with_frac (take 1 (zstr m)) (drop 1 (zstr m)) @ CHR ''e'' # exp_str e) = c # r \<and> isdigit c"
    using zero wf[of "take (nat e + 1) (zstr m)" _ "[]"] wf[of "''0''" _ "[]"] wf[of "take 1 (zstr m)"] tk
    by auto
  then show ?thesis by (auto simp: fmt_g_def Let_def me)
qed

lemma number_text_head:
  assumes "is_fin d"
  shows "\<exists>c r. number_text d = c # r \<and> (c = CHR ''-'' \<or> isdigit c)"
proof -
  have "deq (dmul d (Fin 0)) (Fin 0)"
    using assms(1) by (cases d) (auto simp: mk_def deq_def Let_def dbl_max_def)
  then have "number_text d = fmt_g 15 d \<or> number_text d = fmt_g 17 d"
    by (auto simp: number_text_def Let_def split: option.splits)
  then show ?thesis using fmt_g_head[of 15 d] fmt_g_head[of 17 d] by auto
qed

lemma parse_number_reads:
  assumes "is_fin d" "dbl_ok d" "looking_at content off (number_text d @ suf)" "suf = [] \<or> \<not> num_char (hd suf)"
  shows "parse_number content item off =
    Ok (set_type cJSON_Number (set_valueint (saturate d) (set_valuedouble d item)), off + length (number_text d))"
proof -
  note r = number_text_reads[OF assms(1,2)]
  have "take 63 (number_text d @ suf) = number_text d @ take (63 - length (number_text d)) suf" using r(2) by simp
  moreover have "take (63 - length (number_text d)) suf = [] \<or> \<not> num_char (hd (take (63 - length (number_text d)) suf))"
    using assms(4) r(2) by (cases suf; cases "63 - length (number_text d)") auto
  ultimately have "takeWhile num_char (take 63 (drop off content)) = number_text d"
    using assms(3) takeWhile_app[OF r(3)] by (simp add: looking_at_def)
  then show ?thesis using r(1) by (simp add: parse_number_def)
qed

section \<open>Strings\<close>

lemma escape_text_cases:
  assumes "c \<noteq> CHR 0x00"
  obtains (plain) "escape_text c = [c]" "c \<noteq> CHR 0x5C" "c \<noteq> CHR ''\"''"
  | (short) e where "escape_text c = [CHR 0x5C, e]" "escape_char e = Some c" "e \<noteq> CHR ''u''"
  | (long) h1 h2 h3 h4 where "escape_text c = [CHR 0x5C, CHR ''u'', h1, h2, h3, h4]" "chr_code c < 128"
      "map hex_val [h1, h2, h3, h4] = map Some [0, 0, chr_code c div 16, chr_code c mod 16]"
      "\<forall>h \<in> {h1, h2, h3, h4}. h \<noteq> CHR 0x5C \<and> h \<noteq> CHR ''\"''"
proof -
  have all: "\<forall>c. c = CHR 0x00 \<or> escape_text c = [c] \<and> c \<noteq> CHR 0x5C \<and> c \<noteq> CHR ''\"'' \<or>
     (case escape_text c of
        [b, e] \<Rightarrow> b = CHR 0x5C \<and> escape_char e = Some c \<and> e \<noteq> CHR ''u''
      | [b, u, h1, h2, h3, h4] \<Rightarrow> b = CHR 0x5C \<and> u = CHR ''u'' \<and> chr_code c < 128 \<and>
          map hex_val [h1, h2, h3, h4] = map Some [0, 0, chr_code c div 16, chr_code c mod 16] \<and>
          (\<forall>h \<in> {h1, h2, h3, h4}. h \<noteq> CHR 0x5C \<and> h \<noteq> CHR ''\"'')
      | _ \<Rightarrow> False)" by code_simp
  from all[rule_format, of c] assms that show thesis
    by (auto split: list.splits)
qed

lemma parse_hex4_reads:
  assumes "looking_at content pos (h1 # h2 # h3 # h4 # s)" "map hex_val [h1, h2, h3, h4] = map Some [0, 0, a, b]"
  shows "parse_hex4 content pos = Ok (16 * a + b)"
proof -
  note l = assms(1) looking_at_Cons(3)[OF assms(1)]
  have l3: "looking_at content (pos + 1 + 1) (h3 # h4 # s)" using looking_at_Cons(3)[OF l(2)] .
  have l4: "looking_at content (pos + 1 + 1 + 1) (h4 # s)" using looking_at_Cons(3)[OF l3] .
  show ?thesis using assms(2) l l3 l4
    by (simp add: parse_hex4_def eval_nat_numeral)
qed

lemma utf8_ascii: "chr_code c < 128 \<Longrightarrow> utf8_length (chr_code c) = Some 1 \<and> utf8_bytes 1 (chr_code c) = [c]"
proof -
  have "\<forall>c. chr_code c < 128 \<longrightarrow> utf8_length (chr_code c) = Some 1 \<and> utf8_bytes 1 (chr_code c) = [c]"
    by code_simp
  then show "chr_code c < 128 \<Longrightarrow> utf8_length (chr_code c) = Some 1 \<and> utf8_bytes 1 (chr_code c) = [c]" by blast
qed

abbreviation escaped :: "string \<Rightarrow> string" where
  "escaped s \<equiv> concat (map escape_text s)"

definition escapes_of :: "string \<Rightarrow> nat" where
  "escapes_of s = length (filter (\<lambda>c. escape_text c \<noteq> [c]) s)"

lemma escapes_of_room: "length s + escapes_of s \<le> length (escaped s)"
proof (induction s)
  case (Cons c s)
  have "\<forall>c. 1 + (if escape_text c \<noteq> [c] then 1 else 0) \<le> length (escape_text c)" by code_simp
  then have "1 + (if escape_text c \<noteq> [c] then 1 else 0) \<le> length (escape_text c)" by blast
  then show ?case using Cons by (auto simp: escapes_of_def split: if_splits)
qed (simp add: escapes_of_def)

lemma scan_string_plain:
  "looking_at content pos (c # s) \<Longrightarrow> c \<noteq> CHR 0x5C \<Longrightarrow> c \<noteq> CHR ''\"'' \<Longrightarrow>
     scan_string content pos k = scan_string content (pos + 1) k"
  using looking_at_Cons by (subst scan_string.simps) simp

lemma scan_string_escape:
  "looking_at content pos (CHR 0x5C # e # s) \<Longrightarrow> scan_string content pos k = scan_string content (pos + 2) (k + 1)"
  using looking_at_Cons(1)[OF looking_at_Cons(3), of content pos "CHR 0x5C" e s]
    looking_at_Cons[of content pos "CHR 0x5C"] by (subst scan_string.simps) simp

lemma scan_string_reads:
  assumes "no_nul s" "looking_at content pos (escaped s @ CHR ''\"'' # suf)"
  shows "scan_string content pos k = Some (pos + length (escaped s), k + escapes_of s)"
  using assms
proof (induction s arbitrary: pos k)
  case Nil
  then show ?case using looking_at_Cons[of content pos "CHR ''\"''" suf]
    by (subst scan_string.simps) (simp add: escapes_of_def)
next
  case (Cons c s)
  let ?r = "escaped s @ CHR ''\"'' # suf"
  have at: "looking_at content pos (escape_text c @ ?r)" using Cons.prems(2) by simp
  have ih: "scan_string content (pos + length (escape_text c)) j =
      Some (pos + length (escaped (c # s)), j + escapes_of s)" for j
    using Cons.IH[OF _ looking_at_app[OF at]] Cons.prems(1) by (simp add: add.assoc)
  have "c \<noteq> CHR 0x00" using Cons.prems(1) by simp
  then show ?case
  proof (cases rule: escape_text_cases)
    case plain
    then show ?thesis using scan_string_plain[of content pos c ?r] at ih by (simp add: escapes_of_def)
  next
    case (short e)
    have "escape_text c \<noteq> [c]" unfolding short(1) by simp
    then show ?thesis using scan_string_escape[of content pos e ?r] at ih short(1) by (simp add: escapes_of_def)
  next
    case (long h1 h2 h3 h4)
    have ne: "escape_text c \<noteq> [c]" unfolding long(1) by simp
    have a0: "looking_at content pos (CHR 0x5C # CHR ''u'' # h1 # h2 # h3 # h4 # ?r)" using at long(1) by simp
    have a1: "looking_at content (pos + 2) (h1 # h2 # h3 # h4 # ?r)"
      using looking_at_app[of content pos "[CHR 0x5C, CHR ''u'']"] a0 by simp
    have a2: "looking_at content (pos + 2 + 1) (h2 # h3 # h4 # ?r)" by (rule looking_at_Cons(3)[OF a1])
    have a3: "looking_at content (pos + 2 + 1 + 1) (h3 # h4 # ?r)" by (rule looking_at_Cons(3)[OF a2])
    have a4: "looking_at content (pos + 2 + 1 + 1 + 1) (h4 # ?r)" by (rule looking_at_Cons(3)[OF a3])
    have "scan_string content pos k = scan_string content (pos + 6) (k + 1)"
      using scan_string_escape[OF a0] scan_string_plain[OF a1] scan_string_plain[OF a2]
        scan_string_plain[OF a3] scan_string_plain[OF a4] long(4) by (simp add: eval_nat_numeral)
    moreover have "length (escape_text c) = 6" unfolding long(1) by simp
    ultimately show ?thesis using ih[of "k + 1"] ne by (simp add: escapes_of_def)
  qed
qed

lemma unescape_reads:
  assumes "no_nul s" "looking_at content pos (escaped s @ CHR ''\"'' # suf)"
    "length done + length s \<le> cap" "iend = pos + length (escaped s)"
  shows "unescape content pos iend cap done = Ok (done @ s)"
  using assms
proof (induction s arbitrary: pos "done")
  case Nil
  then show ?case by (subst unescape.simps) simp
next
  case (Cons c s)
  let ?r = "escaped s @ CHR ''\"'' # suf"
  have at: "looking_at content pos (escape_text c @ ?r)" using Cons.prems(2) by simp
  have ih: "unescape content (pos + length (escape_text c)) iend cap (done @ [c]) = Ok (done @ c # s)"
    using Cons.IH[OF _ looking_at_app[OF at], of "done @ [c]"] Cons.prems(1,3,4) by simp
  have room: "length done < cap" using Cons.prems(3) by simp
  have "c \<noteq> CHR 0x00" using Cons.prems(1) by simp
  then show ?case
  proof (cases rule: escape_text_cases)
    case plain
    then show ?thesis using at ih room Cons.prems(4) by (subst unescape.simps) (simp add: put_def)
  next
    case (short e)
    have "looking_at content (Suc pos) (e # ?r)" using looking_at_Cons(3)[of content pos "CHR 0x5C"] at short(1) by simp
    then show ?thesis using at ih room short Cons.prems(4) by (subst unescape.simps) (simp add: put_def)
  next
    case (long h1 h2 h3 h4)
    have a1: "looking_at content (Suc pos) (CHR ''u'' # h1 # h2 # h3 # h4 # ?r)"
      using looking_at_Cons(3)[of content pos "CHR 0x5C"] at long(1) by simp
    have "looking_at content (pos + 2) (h1 # h2 # h3 # h4 # ?r)" using looking_at_Cons(3)[OF a1] by simp
    then have "parse_hex4 content (pos + 2) = Ok (chr_code c)"
      using parse_hex4_reads[OF _ long(3)] by simp
    then have "utf16_literal_to_utf8 content pos iend cap done = Ok (6, done @ [c])"
      using utf8_ascii[OF long(2)] long(1,2) room Cons.prems(4)
      by (simp add: utf16_literal_to_utf8_def Let_def put_def)
    moreover have "length (escape_text c) = 6" "pos < iend" using long(1) Cons.prems(4) by simp_all
    moreover have "looking_at content pos (CHR 0x5C # CHR ''u'' # h1 # h2 # h3 # h4 # ?r)" using at long(1) by simp
    ultimately show ?thesis using a1 ih by (subst unescape.simps) simp
  qed
qed

abbreviation str_of :: "string option \<Rightarrow> string" where
  "str_of s \<equiv> (case s of None \<Rightarrow> [] | Some t \<Rightarrow> t)"

lemma parse_string_reads:
  assumes "opt_no_nul s" "looking_at content off (quoted s @ suf)"
  shows "parse_string (\<lambda>_ _. True) content item off =
    Ok (set_valuestring (Some (str_of s)) (set_type cJSON_String item), off + length (quoted s))"
proof -
  let ?t = "str_of s"
  have n: "no_nul ?t" using assms(1) by (simp add: opt_no_nul_def split: option.splits)
  have at: "looking_at content off (CHR ''\"'' # escaped ?t @ CHR ''\"'' # suf)"
    using assms(2) by (simp add: quoted_def)
  note a1 = looking_at_Cons(3)[OF at]
  let ?cap = "1 + length (escaped ?t) - escapes_of ?t + 1"
  have cap: "length ?t < ?cap" using escapes_of_room[of ?t] by linarith
  have "scan_string content (off + 1) 0 = Some (off + 1 + length (escaped ?t), escapes_of ?t)"
    using scan_string_reads[OF n a1, of 0] by simp
  moreover have "unescape content (off + 1) (off + 1 + length (escaped ?t)) ?cap [] = Ok ?t"
    using unescape_reads[OF n a1, of "[]" ?cap] cap by simp
  ultimately show ?thesis using at cap unfolding parse_string_def
    by (simp add: put_def quoted_def Let_def del: One_nat_def)
qed

section \<open>Values\<close>

text \<open>
  The item that the parser makes of the text of an item. Its key is the item's, which only a
  member of an object keeps; a number that is not finite prints as \<open>null\<close>.
\<close>

primrec reparse :: "cJSON \<Rightarrow> cJSON" where
  "reparse (Item t vs vi vd s cs) =
     (let key = Some (str_of s); k = t AND 255 in
      if k = cJSON_True then Item cJSON_True None 1 (Fin 0) key []
      else if k = cJSON_False then Item cJSON_False None 0 (Fin 0) key []
      else if k = cJSON_Number \<and> is_fin vd then Item cJSON_Number None (saturate vd) vd key []
      else if k = cJSON_String then Item cJSON_String (Some (str_of vs)) 0 (Fin 0) key []
      else if k = cJSON_Array then Item cJSON_Array None 0 (Fin 0) key (map (set_string None) (map reparse cs))
      else if k = cJSON_Object then Item cJSON_Object None 0 (Fin 0) key (map reparse cs)
      else Item cJSON_NULL None 0 (Fin 0) key [])"

text \<open>Items without raw text, nested at most \<open>n\<close> deep, whose numbers are doubles.\<close>

definition scalar :: "cJSON \<Rightarrow> bool" where
  "scalar item \<longleftrightarrow> kind item \<in> {cJSON_NULL, cJSON_False, cJSON_True, cJSON_String} \<or>
     kind item = cJSON_Number \<and> dbl_ok (valuedouble item)"

primrec printable :: "nat \<Rightarrow> cJSON \<Rightarrow> bool" where
  "printable 0 item = scalar item"
| "printable (Suc n) item \<longleftrightarrow> scalar item \<or>
     kind item \<in> {cJSON_Array, cJSON_Object} \<and> (\<forall>c \<in> set (child item). printable n c)"

lemma reparse_key [simp]: "set_string (Some (str_of (jstring c))) (reparse c) = reparse c"
  by (cases c) (simp add: Let_def)

lemma reparse_kind:
  "kind item = cJSON_NULL \<Longrightarrow> set_string k (reparse item) = Item cJSON_NULL None 0 (Fin 0) k []"
  "kind item = cJSON_False \<Longrightarrow> set_string k (reparse item) = Item cJSON_False None 0 (Fin 0) k []"
  "kind item = cJSON_True \<Longrightarrow> set_string k (reparse item) = Item cJSON_True None 1 (Fin 0) k []"
  "kind item = cJSON_Number \<Longrightarrow> set_string k (reparse item) =
     (if is_fin (valuedouble item)
      then Item cJSON_Number None (saturate (valuedouble item)) (valuedouble item) k []
      else Item cJSON_NULL None 0 (Fin 0) k [])"
  "kind item = cJSON_String \<Longrightarrow> set_string k (reparse item) =
     Item cJSON_String (Some (str_of (valuestring item))) 0 (Fin 0) k []"
  "kind item = cJSON_Array \<Longrightarrow> set_string k (reparse item) =
     Item cJSON_Array None 0 (Fin 0) k (map (\<lambda>c. set_string None (reparse c)) (child item))"
  "kind item = cJSON_Object \<Longrightarrow> set_string k (reparse item) =
     Item cJSON_Object None 0 (Fin 0) k (map (\<lambda>c. set_string (Some (str_of (jstring c))) (reparse c)) (child item))"
  unfolding reparse_key by (cases item, simp add: Let_def json_types comp_def)+

lemma number_text_not_finite: "\<not> is_fin d \<Longrightarrow> number_text d = ''null''"
  by (cases d) (auto simp: number_text_def deq_def)

text \<open>A printed value starts with a character that starts a value.\<close>

definition value_head :: "char \<Rightarrow> bool" where
  "value_head c \<longleftrightarrow> \<not> is_blank c \<and> c \<noteq> CHR '']'' \<and> c \<noteq> CHR ''}''"

lemma digit_head: "c = CHR ''-'' \<or> isdigit c \<Longrightarrow> value_head c"
  by (auto simp: value_head_def is_blank_def isdigit_def chr_code_def)

lemma scalar_cases:
  assumes "scalar item"
  obtains (null) "kind item = cJSON_NULL" | (false) "kind item = cJSON_False"
  | (true) "kind item = cJSON_True" | (string) "kind item = cJSON_String"
  | (number) "kind item = cJSON_Number" "dbl_ok (valuedouble item)"
  using assms by (auto simp: scalar_def)

lemma printable_cases:
  assumes "printable n item"
  obtains (scalar) "scalar item"
  | (array) m where "n = Suc m" "kind item = cJSON_Array" "\<forall>c \<in> set (child item). printable m c"
  | (object) m where "n = Suc m" "kind item = cJSON_Object" "\<forall>c \<in> set (child item). printable m c"
  using assms by (cases n) auto

lemma print_head:
  assumes "printable n item" "print_spec fmt d item = Some t"
  shows "\<exists>c r. t = c # r \<and> value_head c"
proof -
  have heads: "value_head (CHR ''n'')" "value_head (CHR ''f'')" "value_head (CHR ''t'')"
    "value_head (CHR ''\"'')" "value_head (CHR ''['')" "value_head (CHR ''{'')" by code_simp+
  have num: "\<exists>c r. number_text x = c # r \<and> value_head c" for x
  proof (cases "is_fin x")
    case True
    then obtain c r where "number_text x = c # r" "c = CHR ''-'' \<or> isdigit c" using number_text_head by blast
    then show ?thesis using digit_head[of c] by simp
  qed (simp add: number_text_not_finite heads)
  consider "kind item = cJSON_NULL" | "kind item = cJSON_False" | "kind item = cJSON_True"
    | "kind item = cJSON_String" | "kind item = cJSON_Number" | "kind item = cJSON_Array" | "kind item = cJSON_Object"
    using assms(1) by (cases n) (auto simp: scalar_def)
  moreover have "?thesis" if "kind item = cJSON_Number"
  proof -
    have "t = number_text (valuedouble item)" using assms(2) that by (simp add: print_spec_kind split: if_splits)
    then show ?thesis using num by blast
  qed
  ultimately show ?thesis
    using assms(2) heads
    by cases (auto simp only: print_spec_kind quoted_def append.simps option.inject map_option_eq_Some split: if_splits)
qed

text \<open>\<open>pv\<close> reads the text \<open>t\<close> of the item \<open>e\<close>, for an item whose key is \<open>key\<close>.\<close>

definition reads :: "string \<Rightarrow> parser \<Rightarrow> nat \<Rightarrow> cJSON \<Rightarrow> string \<Rightarrow> bool" where
  "reads content pv depth e t \<longleftrightarrow> (\<exists>c r. t = c # r \<and> value_head c) \<and>
     (\<forall>off c suf ty key. looking_at content off (t @ c # suf) \<longrightarrow> \<not> num_char c \<longrightarrow>
       pv depth (Item ty None 0 (Fin 0) key []) off = Ok (set_string key (reparse e), off + length t))"

lemma readsD:
  assumes "reads content pv depth e t" "looking_at content off (t @ c # suf)" "\<not> num_char c"
  shows "pv depth (Item ty None 0 (Fin 0) key []) off = Ok (set_string key (reparse e), off + length t)"
  using assms unfolding reads_def by blast

lemma new_item [simp]: "cJSON_New_Item (\<lambda>_. True) = Some (Item cJSON_Invalid None 0 (Fin 0) None [])"
  by (simp add: cJSON_New_Item_def cJSON_blank_def)

lemma blanks [simp]: "is_blank (CHR 0x09)" "is_blank (CHR 0x0A)" "is_blank (CHR '' '')"
    "\<not> is_blank (CHR '','')" "\<not> is_blank (CHR '']'')" "\<not> is_blank (CHR ''}'')" "\<not> is_blank (CHR '':'')"
    "\<not> is_blank (CHR ''\"'')" "\<not> is_blank (CHR 0x5B)" "\<not> is_blank (CHR 0x7B)"
  and not_num_char [simp]: "\<not> num_char (CHR '','')" "\<not> num_char (CHR '']'')" "\<not> num_char (CHR ''}'')"
    "\<not> num_char (CHR 0x0A)" "\<not> num_char (CHR 0x09)" "\<not> num_char (CHR 0x00)"
  by code_simp+

lemma array_elems_reads:
  assumes "es \<noteq> []" "elems_spec fmt sp es = Some r" "length es \<le> fuel"
    "\<forall>e \<in> set es. \<forall>t. sp e = Some t \<longrightarrow> reads content pv depth e t"
    "looking_at content (off + 1) (ws @ r @ CHR '']'' # suf)" "\<forall>x \<in> set ws. is_blank x"
  shows "array_elems (\<lambda>_ _. True) content pv fuel depth acc off =
    Ok (acc @ map (\<lambda>c. set_string None (reparse c)) es, off + 1 + length ws + length r)"
  using assms
proof (induction es arbitrary: r fuel acc off ws)
  case (Cons e es)
  obtain n where n: "fuel = Suc n" "length es \<le> n" using Cons.prems(3) by (cases fuel) auto
  obtain t u where t: "sp e = Some t" "elems_spec fmt sp es = Some u"
    and r: "r = t @ (if es \<noteq> [] then if fmt then '', '' else '','' else []) @ u"
    using Cons.prems(2) by (auto split: option.splits)
  have rd: "reads content pv depth e t" using Cons.prems(4) t(1) by simp
  then obtain c t' where c: "t = c # t'" "value_head c" by (auto simp: reads_def)
  let ?o = "off + 1 + length ws"
  let ?rest = "(if es \<noteq> [] then if fmt then '', '' else '','' else []) @ u @ CHR '']'' # suf"
  have "looking_at content (off + 1) (ws @ c # t' @ ?rest)" using Cons.prems(5) r c(1) by simp
  note sk = skip_blanks[OF this Cons.prems(6)]
  have at: "looking_at content ?o (t @ ?rest)" using sk(2) c by (simp add: value_head_def)
  obtain x y where xy: "?rest = x # y" "x = CHR '','' \<or> x = CHR '']''"
    by (cases "es = []"; cases fmt) (use t(2) in auto)
  have pv: "pv depth (Item ty None 0 (Fin 0) key []) ?o = Ok (set_string key (reparse e), ?o + length t)" for ty key
    using readsD[OF rd, of ?o x y] at xy by auto
  have nx: "looking_at content (?o + length t) ?rest" using looking_at_app[OF at] .
  then have here: "buffer_skip_whitespace content (?o + length t) = ?o + length t" unfolding xy(1) using xy(2) by (auto intro: skip_none[of _ _ x y])
  have step: "array_elems (\<lambda>_ _. True) content pv fuel depth acc off =
     (if can_access content (?o + length t) \<and> content ! (?o + length t) = CHR '','' then
        array_elems (\<lambda>_ _. True) content pv n depth (acc @ [set_string None (reparse e)]) (?o + length t)
      else Ok (acc @ [set_string None (reparse e)], ?o + length t))"
    using sk(1) c(2) pv here by (simp add: n Let_def value_head_def del: One_nat_def)
  show ?case
  proof (cases "es = []")
    case True
    then show ?thesis using step looking_at_Cons(2)[of content "?o + length t" "CHR '']''" suf] nx t(2) r by simp
  next
    case False
    let ?w = "if fmt then '' '' else []"
    have "looking_at content (?o + length t) (CHR '','' # ?w @ u @ CHR '']'' # suf)" using nx False by (cases fmt) auto
    note l = looking_at_Cons[OF this]
    have "\<forall>x \<in> set ?w. is_blank x" by simp
    from Cons.IH[OF False t(2) n(2) _ l(3) this] Cons.prems(4)
    have "array_elems (\<lambda>_ _. True) content pv n depth (acc @ [set_string None (reparse e)]) (?o + length t) =
        Ok ((acc @ [set_string None (reparse e)]) @ map (\<lambda>c. set_string None (reparse c)) es,
            ?o + length t + 1 + length ?w + length u)" by simp
    then show ?thesis using step l(1,2) r False by (cases fmt) (simp_all add: can_access_def)
  qed
qed simp

lemma object_elems_reads:
  assumes "es \<noteq> []" "members_spec fmt d sp es = Some r" "length es \<le> fuel"
    "\<forall>e \<in> set es. opt_no_nul (jstring e) \<and> (\<forall>t. sp e = Some t \<longrightarrow> reads content pv depth e t)"
    "looking_at content (off + 1) (ws @ r @ ws' @ CHR ''}'' # suf)"
    "\<forall>x \<in> set ws. is_blank x" "ws' = replicate k (CHR 0x09)"
  shows "object_elems (\<lambda>_ _. True) content pv fuel depth acc off =
    Ok (acc @ map (\<lambda>c. set_string (Some (str_of (jstring c))) (reparse c)) es,
        off + 1 + length ws + length r + length ws')"
  using assms
proof (induction es arbitrary: r fuel acc off ws)
  case (Cons e es)
  obtain n where n: "fuel = Suc n" "length es \<le> n" using Cons.prems(3) by (cases fuel) auto
  obtain t u where t: "sp e = Some t" "members_spec fmt d sp es = Some u"
    and r: "r = tabs fmt d @ quoted (jstring e) @ colon fmt @ t @ member_end fmt (es \<noteq> []) @ u"
    using Cons.prems(2) unfolding members_spec_Cons by (auto simp: then_text_def split: option.splits)
  have rd: "reads content pv depth e t" and nn: "opt_no_nul (jstring e)" using Cons.prems(4) t(1) by simp_all
  then obtain c t' where c: "t = c # t'" "value_head c" by (auto simp: reads_def)
  define rest where "rest = member_end fmt (es \<noteq> []) @ u @ ws' @ CHR ''}'' # suf"
  define q where "q = quoted (jstring e)"
  have q: "\<exists>q'. q = CHR ''\"'' # q'" by (simp add: q_def quoted_def)
  obtain cw where b: "\<forall>x \<in> set (ws @ tabs fmt d). is_blank x" "\<forall>x \<in> set cw. is_blank x"
    "colon fmt = CHR '':'' # cw"
  proof (rule that)
    show "\<forall>x \<in> set (ws @ tabs fmt d). is_blank x" using Cons.prems(6) by (auto simp: tabs_def)
    show "\<forall>x \<in> set (if fmt then [CHR 0x09] else []). is_blank x"
      "colon fmt = CHR '':'' # (if fmt then [CHR 0x09] else [])" by (simp_all add: colon_def)
  qed
  obtain q' where q': "q = CHR ''\"'' # q'" using q by blast
  define o1 where "o1 = off + 1 + length (ws @ tabs fmt d)"
  have "looking_at content (off + 1) ((ws @ tabs fmt d) @ CHR ''\"'' # q' @ colon fmt @ t @ rest)"
    using Cons.prems(5) q' unfolding r rest_def q_def by simp
  note s1 = skip_blanks[OF this b(1), folded o1_def]
  have l1: "looking_at content o1 (q @ colon fmt @ t @ rest)" using s1(2) q' by simp
  have ps: "parse_string (\<lambda>_ _. True) content item o1 =
      Ok (set_valuestring (Some (str_of (jstring e))) (set_type cJSON_String item), o1 + length q)" for item
    using parse_string_reads[OF nn l1[unfolded q_def]] by (simp add: q_def)
  define o2 where "o2 = o1 + length q"
  have l2: "looking_at content o2 (CHR '':'' # cw @ c # t' @ rest)"
    using looking_at_app[OF l1] c(1) b(3) by (simp add: o2_def)
  have s2: "buffer_skip_whitespace content o2 = o2" by (rule skip_none[OF l2]) simp
  define o3 where "o3 = o2 + 1 + length (cw)"
  have "\<not> is_blank c" using c(2) by (simp add: value_head_def)
  note s3 = skip_blanks[OF looking_at_Cons(3)[OF l2] b(2) this, folded o3_def]
  have l3: "looking_at content o3 (t @ rest)" using s3(2) c(1) by simp
  obtain x y where xy: "rest = x # y" "\<not> num_char x" and
    blank_end: "es = [] \<Longrightarrow> \<exists>w. rest = w @ CHR ''}'' # suf \<and> (\<forall>x \<in> set w. is_blank x) \<and>
        length w = length (member_end fmt False) + length ws'"
  proof -
    have "\<exists>x y. rest = x # y \<and> \<not> num_char x"
      using Cons.prems(7) t(2) unfolding rest_def member_end_def by (cases "es = []"; cases fmt; cases k) auto
    moreover have "es = [] \<Longrightarrow> rest = (member_end fmt False @ ws') @ CHR ''}'' # suf"
      using t(2) by (simp add: rest_def)
    moreover have "\<forall>x \<in> set (member_end fmt False @ ws'). is_blank x" using Cons.prems(7) by (auto simp: member_end_def)
    ultimately show thesis using that by (metis length_append)
  qed
  define o4 where "o4 = o3 + length t"
  have pv: "pv depth (Item ty None 0 (Fin 0) key []) o3 = Ok (set_string key (reparse e), o4)" for ty key
    using readsD[OF rd l3[unfolded xy(1)] xy(2)] by (simp add: o4_def)
  have l4: "looking_at content o4 rest" using looking_at_app[OF l3] by (simp add: o4_def)
  let ?v = "set_string (Some (str_of (jstring e))) (reparse e)"
  have step: "object_elems (\<lambda>_ _. True) content pv fuel depth acc off =
     (let o6 = buffer_skip_whitespace content o4 in
      if can_access content o6 \<and> content ! o6 = CHR '','' then
        object_elems (\<lambda>_ _. True) content pv n depth (acc @ [?v]) o6
      else Ok (acc @ [?v], o6))"
    using s1(1) ps s2 s3(1) pv looking_at_Cons(1,2)[OF l2]
    by (simp add: n can_access_def o2_def[symmetric] del: One_nat_def reparse_key)
  have len: "o4 = off + 1 + length ws + length r - length (member_end fmt (es \<noteq> [])) - length u"
    unfolding o4_def o3_def o2_def o1_def r q_def by (simp add: b(3))
  show ?case
  proof (cases "es = []")
    case True
    obtain w where w: "rest = w @ CHR ''}'' # suf" "\<forall>x \<in> set w. is_blank x"
      "length w = length (member_end fmt False) + length ws'" using blank_end[OF True] by blast
    have nb: "\<not> is_blank (CHR ''}'')" by simp
    note s4 = skip_blanks[OF l4[unfolded w(1)] w(2) nb]
    show ?thesis using step s4(1) looking_at_Cons(2)[OF s4(2)] len True t(2) w(3) r
      by (simp del: reparse_key)
  next
    case False
    let ?w = "if fmt then [CHR 0x0A] else []"
    have l4': "looking_at content o4 (CHR '','' # ?w @ u @ ws' @ CHR ''}'' # suf)"
      using l4 False by (simp add: rest_def member_end_def)
    have s4: "buffer_skip_whitespace content o4 = o4" by (rule skip_none[OF l4']) simp
    have "\<forall>x \<in> set ?w. is_blank x" by simp
    from Cons.IH[OF False t(2) n(2) _ looking_at_Cons(3)[OF l4'] this Cons.prems(7)] Cons.prems(4)
    have "object_elems (\<lambda>_ _. True) content pv n depth (acc @ [?v]) o4 =
        Ok ((acc @ [?v]) @ map (\<lambda>c. set_string (Some (str_of (jstring c))) (reparse c)) es,
            o4 + 1 + length ?w + length u + length ws')" by simp
    then show ?thesis using step s4 looking_at_Cons(1,2)[OF l4'] len False r
      by (cases fmt) (simp_all add: can_access_def member_end_def del: reparse_key)
  qed
qed simp

text \<open>How \<open>parse_value\<close> chooses by the first character.\<close>

lemma parse_value_head:
  assumes "looking_at content off (c # s)"
  shows
    "c = CHR ''\"'' \<Longrightarrow> parse_value (Suc f) can content depth item off = parse_string can content item off"
    "c = CHR ''-'' \<or> isdigit c \<Longrightarrow> parse_value (Suc f) can content depth item off = parse_number content item off"
    "c = CHR ''['' \<Longrightarrow> parse_value (Suc f) can content depth item off =
       parse_array can content (parse_value f can content) depth item off"
    "c = CHR ''{'' \<Longrightarrow> parse_value (Suc f) can content depth item off =
       parse_object can content (parse_value f can content) depth item off"
proof -
  have w: "\<not> has_word content off ''null'' \<and> \<not> has_word content off ''false'' \<and> \<not> has_word content off ''true''"
    if "c \<notin> {CHR ''n'', CHR ''f'', CHR ''t''}"
    using that by (auto simp: looking_at_word[OF assms])
  have d: "c \<notin> {CHR ''n'', CHR ''f'', CHR ''t''} \<and> c \<noteq> CHR ''\"''" if "c = CHR ''-'' \<or> isdigit c"
    using that by (auto simp: isdigit_def chr_code_def)
  have n: "\<not> isdigit (CHR ''['')" "\<not> isdigit (CHR ''{'')" by code_simp+
  note l = looking_at_Cons(1,2)[OF assms]
  show "c = CHR ''\"'' \<Longrightarrow> parse_value (Suc f) can content depth item off = parse_string can content item off"
    using w l by (simp add: can_access_def)
  show "c = CHR ''-'' \<or> isdigit c \<Longrightarrow> parse_value (Suc f) can content depth item off = parse_number content item off"
    using w l d by (simp add: can_access_def)
  show "c = CHR ''['' \<Longrightarrow> parse_value (Suc f) can content depth item off =
       parse_array can content (parse_value f can content) depth item off"
    using w l n by (simp add: can_access_def)
  show "c = CHR ''{'' \<Longrightarrow> parse_value (Suc f) can content depth item off =
       parse_object can content (parse_value f can content) depth item off"
    using w l n by (simp add: can_access_def)
qed

lemma parse_value_word:
  "looking_at content off (''null'' @ s) \<Longrightarrow>
     parse_value (Suc f) can content depth item off = Ok (set_type cJSON_NULL item, off + 4)"
  "looking_at content off (''false'' @ s) \<Longrightarrow>
     parse_value (Suc f) can content depth item off = Ok (set_type cJSON_False item, off + 5)"
  "looking_at content off (''true'' @ s) \<Longrightarrow>
     parse_value (Suc f) can content depth item off = Ok (set_valueint 1 (set_type cJSON_True item), off + 4)"
  by (simp_all add: looking_at_word)

lemma parse_scalar_reads:
  assumes "scalar item" "c_strings item" "print_spec fmt d item = Some t"
    "looking_at content off (t @ c # suf)" "\<not> num_char c"
  shows "parse_value (Suc f) (\<lambda>_ _. True) content depth (Item ty None 0 (Fin 0) key []) off =
    Ok (set_string key (reparse item), off + length t)"
  using assms(1)
proof (cases rule: scalar_cases)
  case string
  have "opt_no_nul (valuestring item)" using c_strings_parts[OF assms(2)] by simp
  moreover have t: "t = quoted (valuestring item)" using assms(3) string by (simp add: print_spec_kind)
  ultimately have p: "parse_string (\<lambda>_ _. True) content it off =
      Ok (set_valuestring (Some (str_of (valuestring item))) (set_type cJSON_String it), off + length t)" for it
    using parse_string_reads assms(4) by simp
  have "looking_at content off (CHR ''\"'' # tl t @ c # suf)" using assms(4) by (simp add: t quoted_def)
  then show ?thesis using p string by (simp only: parse_value_head(1) reparse_kind) simp
next
  case number
  have t: "t = number_text (valuedouble item)" using assms(3) number(1) by (simp add: print_spec_kind split: if_splits)
  show ?thesis
  proof (cases "is_fin (valuedouble item)")
    case True
    obtain x r where x: "number_text (valuedouble item) = x # r" "x = CHR ''-'' \<or> isdigit x"
      using number_text_head[OF True] by blast
    have "looking_at content off (x # r @ c # suf)" using assms(4) x t by simp
    moreover have "parse_number content it off =
        Ok (set_type cJSON_Number (set_valueint (saturate (valuedouble item)) (set_valuedouble (valuedouble item) it)),
            off + length t)" for it
      using parse_number_reads[OF True number(2)] assms(4,5) t by simp
    ultimately show ?thesis using x(2) number(1) True by (simp only: parse_value_head(2) reparse_kind) simp
  next
    case False
    have "t = ''null''" using t number_text_not_finite[OF False] by simp
    then show ?thesis using False number(1) assms(4)
      by (simp only: parse_value_word reparse_kind if_False) simp
  qed
qed (use assms(3,4) in \<open>auto simp: print_spec_kind reparse_kind looking_at_word\<close>)

lemma elems_spec_length:
  assumes "elems_spec fmt sp es = Some r" "\<forall>e \<in> set es. \<forall>t. sp e = Some t \<longrightarrow> t \<noteq> []"
  shows "length es \<le> length r"
  using assms
proof (induction es arbitrary: r)
  case (Cons e es)
  obtain t u where "sp e = Some t" "elems_spec fmt sp es = Some u" "length t + length u \<le> length r"
    using Cons.prems(1) by (auto split: option.splits)
  then show ?case using Cons.IH[of u] Cons.prems(2) by (cases t) auto
qed simp

lemma members_spec_length:
  assumes "members_spec fmt d sp es = Some r" "\<forall>e \<in> set es. \<forall>t. sp e = Some t \<longrightarrow> t \<noteq> []"
  shows "length es \<le> length r"
  using assms
proof (induction es arbitrary: r)
  case (Cons e es)
  obtain t u where "sp e = Some t" "members_spec fmt d sp es = Some u" "length t + length u \<le> length r"
    using Cons.prems(1) by (auto split: option.splits)
  then show ?case using Cons.IH[of u] Cons.prems(2) by (cases t) auto
qed simp

lemma elems_spec_head:
  assumes "elems_spec fmt sp es = Some r" "es \<noteq> []" "\<forall>e \<in> set es. \<forall>t. sp e = Some t \<longrightarrow> reads content pv depth e t"
  shows "\<exists>c r'. r = c # r' \<and> value_head c"
  using assms by (cases es) (fastforce simp: reads_def split: option.splits)+

lemma looking_at_length: "looking_at content off (a @ b) \<Longrightarrow> length a \<le> length content"
proof -
  assume "looking_at content off (a @ b)"
  then have "length (drop off content) = length a + length b" by (simp add: looking_at_def)
  then show ?thesis by simp
qed

lemma parse_array_reads:
  assumes "depth < CJSON_NESTING_LIMIT" "elems_spec fmt sp es = Some r"
    "\<forall>e \<in> set es. \<forall>t. sp e = Some t \<longrightarrow> reads content pv (depth + 1) e t"
    "looking_at content off (''['' @ r @ '']'' @ suf)"
  shows "parse_array (\<lambda>_ _. True) content pv depth item off =
    Ok (set_child (map (\<lambda>c. set_string None (reparse c)) es) (set_type cJSON_Array item), off + length r + 2)"
proof -
  have at: "looking_at content off (CHR ''['' # r @ CHR '']'' # suf)" using assms(4) by simp
  note l = looking_at_Cons[OF at]
  show ?thesis
  proof (cases "es = []")
    case True
    then have l1: "looking_at content (off + 1) (CHR '']'' # suf)" using l(3) assms(2) by simp
    then have "buffer_skip_whitespace content (off + 1) = off + 1" by (rule skip_none) simp
    then show ?thesis using assms(1,2) True at l looking_at_Cons[OF l1]
      by (simp add: parse_array_def can_access_def Let_def)
  next
    case False
    obtain c r' where c: "r = c # r'" "value_head c" using elems_spec_head[OF assms(2) False assms(3)] by blast
    have l1: "looking_at content (off + 1) (c # r' @ CHR '']'' # suf)" using l(3) c(1) by simp
    have s1: "buffer_skip_whitespace content (off + 1) = off + 1"
      using c(2) by (intro skip_none[OF l1]) (simp add: value_head_def)
    have "\<forall>e \<in> set es. \<forall>t. sp e = Some t \<longrightarrow> t \<noteq> []" using assms(3) by (auto simp: reads_def)
    then have fuel: "length es \<le> length content"
      using elems_spec_length[OF assms(2)] looking_at_length[OF l(3)] by linarith
    have "array_elems (\<lambda>_ _. True) content pv (length content) (depth + 1) [] off =
        Ok (map (\<lambda>c. set_string None (reparse c)) es, off + 1 + length r)"
      using array_elems_reads[OF False assms(2) fuel assms(3), of off "[]" suf "[]"] l(3) by simp
    then show ?thesis
      using assms(1) at l(1,2) s1 c(2) looking_at_Cons[OF l1] looking_at_Cons[OF looking_at_app[OF l(3)]]
      by (simp add: parse_array_def can_access_def Let_def value_head_def)
  qed
qed

lemma object_elems_start:
  assumes "buffer_skip_whitespace content (off + 1) = buffer_skip_whitespace content (off' + 1)"
  shows "object_elems (\<lambda>_ _. True) content pv n depth acc off = object_elems (\<lambda>_ _. True) content pv n depth acc off'"
  using assms by (cases n) simp_all

lemma parse_object_reads:
  assumes "depth < CJSON_NESTING_LIMIT" "members_spec fmt d sp es = Some r"
    "\<forall>e \<in> set es. opt_no_nul (jstring e) \<and> (\<forall>t. sp e = Some t \<longrightarrow> reads content pv (depth + 1) e t)"
    "looking_at content off (''{'' @ ws @ r @ replicate k (CHR 0x09) @ ''}'' @ suf)" "\<forall>x \<in> set ws. is_blank x"
  shows "parse_object (\<lambda>_ _. True) content pv depth item off =
    Ok (set_child (map (\<lambda>c. set_string (Some (str_of (jstring c))) (reparse c)) es) (set_type cJSON_Object item),
        off + length ws + length r + k + 2)"
proof -
  let ?tabs = "replicate k (CHR 0x09)"
  have at: "looking_at content off (CHR ''{'' # ws @ r @ ?tabs @ CHR ''}'' # suf)" using assms(4) by simp
  note l = looking_at_Cons[OF at]
  show ?thesis
  proof (cases es)
    case Nil
    have "looking_at content (off + 1) ((ws @ ?tabs) @ CHR ''}'' # suf)" using l(3) assms(2) Nil by simp
    moreover have "\<forall>x \<in> set (ws @ ?tabs). is_blank x" using assms(5) by auto
    moreover have "\<not> is_blank (CHR ''}'')" by simp
    ultimately have s: "buffer_skip_whitespace content (off + 1) = off + 1 + length (ws @ ?tabs)"
        "looking_at content (off + 1 + length (ws @ ?tabs)) (CHR ''}'' # suf)" by (rule skip_blanks)+
    then show ?thesis using assms(1,2) Nil l(1,2) looking_at_Cons(1,2)[OF s(2)]
      by (simp add: parse_object_def can_access_def Let_def)
  next
    case (Cons e es')
    then have ne: "es \<noteq> []" by simp
    obtain u where u: "r = tabs fmt d @ quoted (jstring e) @ u"
      using assms(2) unfolding Cons members_spec_Cons by (auto simp: then_text_def split: option.splits)
    define q where "q = tl (quoted (jstring e)) @ u"
    have r: "r = tabs fmt d @ CHR ''\"'' # q" unfolding u q_def by (simp add: quoted_def)
    let ?w = "ws @ tabs fmt d"
    have "looking_at content (off + 1) (?w @ CHR ''\"'' # q @ ?tabs @ CHR ''}'' # suf)" using l(3) r by simp
    moreover have "\<forall>x \<in> set ?w. is_blank x" using assms(5) by (auto simp: tabs_def)
    moreover have "\<not> is_blank (CHR ''\"'')" by simp
    ultimately have s: "buffer_skip_whitespace content (off + 1) = off + 1 + length ?w"
        "looking_at content (off + 1 + length ?w) (CHR ''\"'' # q @ ?tabs @ CHR ''}'' # suf)" by (rule skip_blanks)+
    have "\<forall>e \<in> set es. \<forall>t. sp e = Some t \<longrightarrow> t \<noteq> []" using assms(3) by (auto simp: reads_def)
    then have "length es \<le> length r" using members_spec_length[OF assms(2)] by blast
    also have "length r \<le> length content" using looking_at_length[of content "off + 1" "ws @ r" "?tabs @ CHR ''}'' # suf"] l(3) by simp
    finally have fuel: "length es \<le> length content" .
    let ?o = "off + 1 + length ?w"
    have "buffer_skip_whitespace content ?o = ?o" by (rule skip_none[OF s(2)]) simp
    then have start: "object_elems (\<lambda>_ _. True) content pv (length content) (depth + 1) [] (?o - 1) =
        object_elems (\<lambda>_ _. True) content pv (length content) (depth + 1) [] off"
      using s(1) by (intro object_elems_start) simp
    have loop: "object_elems (\<lambda>_ _. True) content pv (length content) (depth + 1) [] off =
        Ok (map (\<lambda>c. set_string (Some (str_of (jstring c))) (reparse c)) es, off + 1 + length ws + length r + k)"
      using object_elems_reads[OF ne assms(2) fuel assms(3) l(3) assms(5) refl, of "[]"] by simp
    have e: "looking_at content (off + 1 + length ws + length r + k) (CHR ''}'' # suf)"
      using looking_at_app[of content "off + 1" "ws @ r @ ?tabs"] l(3) by (simp add: add.assoc)
    show ?thesis
      using assms(1) l(1,2) s(1) start loop looking_at_Cons(1,2)[OF s(2)] looking_at_Cons(1,2)[OF e]
      by (simp add: parse_object_def can_access_def Let_def)
  qed
qed

lemma parse_value_reads:
  assumes "printable n item" "c_strings item" "print_spec fmt d item = Some t"
    "depth + n \<le> CJSON_NESTING_LIMIT" "n < fuel"
  shows "reads content (parse_value fuel (\<lambda>_ _. True) content) depth item t"
  using assms
proof (induction n arbitrary: item d t depth fuel)
  case 0
  then obtain f where "fuel = Suc f" by (cases fuel) auto
  then show ?case using 0 parse_scalar_reads[of item] print_head[OF 0(1,3)] unfolding reads_def by simp
next
  case (Suc n)
  obtain f where f: "fuel = Suc f" "n < f" using Suc.prems(5) by (cases fuel) auto
  have parts: "\<forall>c \<in> set (child item). c_strings c" "\<forall>c \<in> set (child item). opt_no_nul (jstring c)"
    using c_strings_parts[OF Suc.prems(2)] c_strings_parts by blast+
  have depth: "depth < CJSON_NESTING_LIMIT" using Suc.prems(4) by simp
  have sub: "\<forall>c \<in> set (child item). opt_no_nul (jstring c) \<and>
      (\<forall>t. print_spec fmt (d + 1) c = Some t \<longrightarrow> reads content (parse_value f (\<lambda>_ _. True) content) (depth + 1) c t)"
    if "\<forall>c \<in> set (child item). printable n c"
    using that Suc.IH[of _ "d + 1" _ "depth + 1" f] parts Suc.prems(4) f(2) by simp
  have "parse_value fuel (\<lambda>_ _. True) content depth (Item ty None 0 (Fin 0) key []) off =
      Ok (set_string key (reparse item), off + length t)"
    if at: "looking_at content off (t @ c # suf)" "\<not> num_char c" for off c suf ty key
    using Suc.prems(1)
  proof (cases rule: printable_cases)
    case scalar
    then show ?thesis using parse_scalar_reads[OF _ Suc.prems(2,3) at] f(1) by simp
  next
    case (array m)
    obtain r where r: "elems_spec fmt (print_spec fmt (d + 1)) (child item) = Some r" "t = ''['' @ r @ '']''"
      using Suc.prems(3) array(2) by (auto simp: print_spec_kind)
    have at': "looking_at content off (''['' @ r @ '']'' @ c # suf)" using at(1) r(2) by simp
    have "\<forall>e \<in> set (child item). \<forall>t. print_spec fmt (d + 1) e = Some t \<longrightarrow>
        reads content (parse_value f (\<lambda>_ _. True) content) (depth + 1) e t" using sub array by simp
    note p = parse_array_reads[OF depth r(1) this at']
    show ?thesis unfolding f(1) using at' p array(2) r(2)
      by (simp only: parse_value_head(3)[of content off "CHR ''[''" "r @ '']'' @ c # suf"] append.simps reparse_kind) simp
  next
    case (object m)
    let ?nl = "if fmt then [CHR 0x0A] else []" and ?k = "if fmt then d else 0"
    obtain r where r: "members_spec fmt (d + 1) (print_spec fmt (d + 1)) (child item) = Some r"
        "t = ''{'' @ ?nl @ r @ replicate ?k (CHR 0x09) @ ''}''"
      using Suc.prems(3) object(2) by (auto simp: print_spec_kind)
    have at': "looking_at content off (''{'' @ ?nl @ r @ replicate ?k (CHR 0x09) @ ''}'' @ c # suf)" using at(1) r(2) by simp
    have "\<forall>x \<in> set ?nl. is_blank x" by simp
    note p = parse_object_reads[OF depth r(1) _ at' this]
    have "\<forall>c \<in> set (child item). printable n c" using object by simp
    note p = p[OF sub[OF this]]
    show ?thesis unfolding f(1) using at' p object(2) r(2)
      by (simp only: parse_value_head(4)[of content off "CHR ''{''" "?nl @ r @ replicate ?k (CHR 0x09) @ ''}'' @ c # suf"] append.simps reparse_kind) simp
  qed
  then show ?case using print_head[OF Suc.prems(1,3)] unfolding reads_def by blast
qed

lemma printable_prints:
  assumes "printable n item"
  shows "\<exists>t. print_spec fmt d item = Some t"
  using assms
proof (induction n arbitrary: item d)
  have base: "\<exists>t. print_spec fmt d item = Some t" if "scalar item" for d item
    using that
  proof (cases rule: scalar_cases)
    case number
    have "length (number_text (valuedouble item)) \<le> 25"
      using number_text_reads(2)[OF _ number(2)] number_text_not_finite[of "valuedouble item"]
      by (cases "is_fin (valuedouble item)") auto
    then show ?thesis using number by (simp add: print_spec_kind)
  qed (auto simp: print_spec_kind)
  { case 0 then show ?case using base by simp }
  case (Suc n)
  have el: "\<exists>r. elems_spec fmt sp es = Some r" if "\<forall>e \<in> set es. \<exists>t. sp e = Some t" for sp es
    using that by (induction es) auto
  have me: "\<exists>r. members_spec fmt d sp es = Some r" if "\<forall>e \<in> set es. \<exists>t. sp e = Some t" for d sp es
    using that by (induction es) auto
  from Suc.prems show ?case
  proof (cases rule: printable_cases)
    case (array m)
    then show ?thesis using el[of "child item" "print_spec fmt (d + 1)"] Suc.IH by (auto simp: print_spec_kind)
  next
    case (object m)
    then show ?thesis using me[of "child item" "print_spec fmt (d + 1)" "d + 1"] Suc.IH by (auto simp: print_spec_kind)
  qed (rule base)
qed

section \<open>The round trip\<close>

lemma printable_mono: "printable n item \<Longrightarrow> n \<le> m \<Longrightarrow> printable m item"
proof (induction n arbitrary: m item)
  case 0
  then show ?case by (cases m) auto
next
  case (Suc n)
  then obtain k where "m = Suc k" "n \<le> k" by (cases m) auto
  then show ?case using Suc by auto
qed

lemma print_then_parse:
  assumes "c_strings item" "printable CJSON_NESTING_LIMIT item"
    "length (the (print_spec fmt 0 item)) + 2 \<le> size_limit"
  obtains t where "print_spec fmt 0 item = Some t" "print (\<lambda>_. True) item fmt = Ok t"
    "cJSON_Parse (\<lambda>_ _. True) (Some t) = Some (set_string None (reparse item))"
proof -
  obtain t where t: "print_spec fmt 0 item = Some t" using printable_prints[OF assms(2)] by blast
  let ?content = "t @ [CHR 0x00]"
  have rd: "reads ?content (parse_value (Suc CJSON_NESTING_LIMIT) (\<lambda>_ _. True) ?content) 0 item t"
    by (rule parse_value_reads[OF assms(2,1) t]) simp_all
  have at: "looking_at ?content 0 (t @ CHR 0x00 # [])" by (simp add: looking_at_def)
  obtain c r where "t = c # r" "value_head c" using rd by (auto simp: reads_def)
  then have "buffer_skip_whitespace ?content 0 = 0"
    using skip_none[of ?content 0 c "r @ [CHR 0x00]"] at by (simp add: value_head_def)
  moreover have "print (\<lambda>_. True) item fmt = Ok t"
    using print_is_spec[OF assms(1) _ t] assms(3) t by simp
  ultimately show thesis using that t readsD[OF rd at]
    by (auto simp: cJSON_Parse_def cJSON_ParseWithOpts_def Let_def simp del: parse_value.simps)
qed

text \<open>
  C3. Round trip of the JSON text: for every item without raw text and with at most a
  thousand levels, printing succeeds (formatted or not, when no allocation fails) and
  parsing the text gives the item back: the same type, strings byte for byte, doubles
  bit for bit, \<open>valueint\<close> as \<open>cJSON_CreateNumber\<close> sets it, and the members with their keys in order. Infinities
  and NaN come back as null.
\<close>

theorem print_parse_roundtrip:
  assumes "c_strings item" "printable CJSON_NESTING_LIMIT item"
    "length (the (print_spec fmt 0 item)) + 2 \<le> size_limit"
  shows "\<exists>t. print (\<lambda>_. True) item fmt = Ok t \<and>
     cJSON_Parse (\<lambda>_ _. True) (Some t) = Some (set_string None (reparse item))"
  using print_then_parse[OF assms] by blast

text \<open>A test report in small: an object with a number, a text and a list.\<close>

definition report_item :: cJSON where
  "report_item = Item cJSON_Object None 0 (Fin 0) None
     [Item cJSON_Number None 5201 (Fin 5201) (Some ''port'') [],
      Item cJSON_String (Some [CHR ''a'', CHR ''\"'', CHR 0x0A]) 0 (Fin 0) (Some ''id'') [],
      Item cJSON_Array None 0 (Fin 0) (Some ''flags'')
        [Item cJSON_True None 1 (Fin 0) None [], Item cJSON_NULL None 0 (Fin 0) None []]]"

theorem print_parse_roundtrip_witness:
  "\<exists>t. print (\<lambda>_. True) report_item True = Ok t \<and> cJSON_Parse (\<lambda>_ _. True) (Some t) = Some report_item"
proof -
  have "c_strings report_item" by code_simp
  moreover have "printable 2 report_item"
    using repr_int[of 5201] by (simp add: report_item_def numeral_2_eq_2 scalar_def json_types dbl_ok_def dbl_max_def)
  then have "printable CJSON_NESTING_LIMIT report_item"
    by (rule printable_mono) (simp add: CJSON_NESTING_LIMIT_def)
  moreover have "length (the (print_spec True 0 report_item)) \<le> 100" by code_simp
  then have "length (the (print_spec True 0 report_item)) + 2 \<le> size_limit" by (simp add: size_limit_val)
  moreover have "set_string None (reparse report_item) = report_item" by code_simp
  ultimately show ?thesis using print_parse_roundtrip[of report_item True] by simp
qed

end
