(* ===== verification/Net_Laws.thy ===== *)
theory Net_Laws
  imports Net "HOL-Library.Multiset"
begin

text \<open>
  What the functions of \<open>net.c\<close> do with the resources they acquire, for every operating system,
  and what the block transfer loops deliver, for a system whose answers never exceed the
  request.
\<close>

section \<open>Resources\<close>

text \<open>
  The descriptors and the \<open>addrinfo\<close> lists held after a sequence of calls.
\<close>

datatype resource = Sock int | Info int

fun ledger :: "syscall \<times> sysres \<Rightarrow> resource multiset \<Rightarrow> resource multiset" where
  "ledger (Socket f p, a) h = (if s_ret a < 0 then h else add_mset (Sock (s_ret a)) h)"
| "ledger (Accept s, a) h = (if s_ret a < 0 then h else add_mset (Sock (s_ret a)) h)"
| "ledger (Mkstemp, a) h = (if s_ret a < 0 then h else add_mset (Sock (s_ret a)) h)"
| "ledger (Open n f, a) h = (if s_ret a < 0 then h else add_mset (Sock (s_ret a)) h)"
| "ledger (Close s, a) h = h - {#Sock s#}"
| "ledger (Getaddrinfo n v d p f, a) h = (if s_ret a \<noteq> 0 then h else add_mset (Info (s_val a)) h)"
| "ledger (Freeaddrinfo i, a) h = h - {#Info i#}"
| "ledger _ h = h"

definition held :: "(syscall \<times> sysres) list \<Rightarrow> resource multiset" where
  "held cs = fold ledger cs {#}"

lemma held_append [simp]: "held (cs @ ds) = fold ledger ds (held cs)"
  by (simp add: held_def)

lemma held_Nil [simp]: "held [] = {#}"
  by (simp add: held_def)

lemma wp_close_fail [wf_intros]:
  assumes "\<And>s'. held (calls s') = held (calls s) - {#Sock k#} - image_mset Info (mset ais) \<Longrightarrow>
             errno s' = errno s \<Longrightarrow> Q (-1) s'"
  shows "wp (close_fail os k ais) Q s"
proof -
  have *: "wp (free_all os ais) (\<lambda>_ s'. held (calls s') = held (calls s) - image_mset Info (mset ais)) s"
    for s :: "'a net"
  proof (induction ais arbitrary: s)
    case (Cons a ais)
    then show ?case
      by (auto simp: c_simps diff_diff_add intro!: wp_sys intro: wp_mono[OF Cons])
  qed (simp add: c_simps)
  show ?thesis unfolding close_fail_def
    by (auto simp: c_simps assms intro!: wp_sys wp_mono[OF *])
qed

lemma wp_timeout_connect [wf_intros]:
  assumes "\<And>r s'. held (calls s') = held (calls s) \<Longrightarrow> Q r s'"
  shows "wp (timeout_connect os k name t) Q s"
  unfolding timeout_connect_def
  by (auto simp: c_simps assms Let_def intro!: wp_sys)

lemma wp_netdial_connect:
  assumes "held (calls s) = H + {#Sock k, Info (s_val res)#}" "0 \<le> k"
  shows "wp (netdial_connect os k res port t)
           (\<lambda>r s'. held (calls s') = (if r < 0 then H else add_mset (Sock r) H)) s"
  unfolding netdial_connect_def using assms
  by (auto simp: c_simps intro!: wf_intros wp_sys)

lemma wp_pairI: "wp m (\<lambda>(a, b). P a b) s \<Longrightarrow> case run_state m s of ((a, b), s') \<Rightarrow> P a b s'"
  by (simp add: wp_def split_beta)

lemma wp_Nread_any: "(\<And>r s'. Q r s') \<Longrightarrow> wp (Nread os fd n) Q s"
  by (rule wp_I)

text \<open>Block transfers acquire and release nothing.\<close>

lemma Nwrite_loop_held: "held (calls (snd (Nwrite_loop os fd data n s))) = held (calls s)"
proof (induction os fd data n s rule: Nwrite_loop.induct)
  case (1 os fd data n s)
  then show ?case
    by (subst Nwrite_loop.simps) (auto simp: Let_def run_sys split_beta)
qed

lemma Nread_loop_held: "held (calls (snd (Nread_loop os fd n buf s))) = held (calls s)"
proof (induction os fd n buf s rule: Nread_loop.induct)
  case (1 os fd n buf s)
  then show ?case
    by (subst Nread_loop.simps) (auto simp: Let_def run_sys split_beta)
qed

lemma wp_Nwrite [wf_intros]:
  assumes "\<And>r s'. held (calls s') = held (calls s) \<Longrightarrow> Q r s'"
  shows "wp (Nwrite os fd data) Q s"
  using Nwrite_loop_held[of os fd data "length data" s] assms
  by (auto simp: wp_def Nwrite_def split: prod.splits)

lemma wp_Nread [wf_intros]:
  assumes "\<And>r s'. held (calls s') = held (calls s) \<Longrightarrow> Q r s'"
  shows "wp (Nread os fd n) Q s"
  using Nread_loop_held[of os fd n "[]" s] assms
  by (auto simp: wp_def Nread_def split: prod.splits)

text \<open>
  C20. Whatever the operating system answers, \<open>netannounce\<close> returns either a socket it holds,
  and nothing else that it acquired, or a negative number, having released everything it
  acquired on every one of its error exits.
\<close>

theorem netannounce_no_leak:
  "case run_state (netannounce os domain proto local port) s of (r, s') \<Rightarrow>
     held (calls s') = (if r < 0 then held (calls s) else add_mset (Sock r) (held (calls s)))"
proof -
  have "wp (netannounce os domain proto local port)
     (\<lambda>r s'. held (calls s') = (if r < 0 then held (calls s) else add_mset (Sock r) (held (calls s)))) s"
    unfolding netannounce_def netannounce_socket_def
    by (auto simp: c_simps intro!: wp_sys wf_intros)
  then show ?thesis unfolding wp_def .
qed

lemma wp_netdial_socket:
  assumes "held (calls s) = add_mset (Info (s_val res))
             (case lres of None \<Rightarrow> H | Some l \<Rightarrow> add_mset (Info (s_val l)) H)"
    and "lres \<noteq> None \<or> local_port = 0 \<or> s_fam res \<in> {AF_INET, AF_INET6}"
  shows "wp (netdial_socket os proto lres local_port res port timeout)
     (\<lambda>r s'. held (calls s') = (if r < 0 then H else add_mset (Sock r) H)) s"
proof (cases lres)
  case None
  have *: "held (calls s) = add_mset (Info (s_val res)) H" using assms(1) None by simp
  show ?thesis unfolding netdial_socket_def None option.case
    using assms(2) None
    by (auto simp: c_simps * intro!: wp_sys wf_intros wp_netdial_connect)
next
  case (Some l)
  have *: "held (calls s) = add_mset (Info (s_val res)) (add_mset (Info (s_val l)) H)"
    using assms(1) Some by simp
  show ?thesis unfolding netdial_socket_def Some option.case
    by (auto simp: c_simps * add_mset_commute intro!: wp_sys wf_intros wp_netdial_connect)
qed

definition known_families :: "'w os \<Rightarrow> bool" where
  "known_families os =
     (\<forall>n v d p f w. s_fam (fst (os (Getaddrinfo n v d p f) w)) \<in> {AF_INET, AF_INET6})"

definition resolves :: "'w os \<Rightarrow> string \<Rightarrow> bool" where
  "resolves os n = (\<forall>v d p f w. s_ret (fst (os (Getaddrinfo (Some n) v d p f) w)) = 0)"

lemma wp_netdial:
  assumes "local = None \<and> (local_port = 0 \<or> known_families os) \<or> local \<noteq> None \<and> resolves os server"
  shows "wp (netdial os domain proto local local_port server port timeout)
     (\<lambda>r s'. held (calls s') = (if r < 0 then held (calls s) else add_mset (Sock r) (held (calls s)))) s"
proof (cases local)
  case None
  then have "local_port = 0 \<or> known_families os" using assms by simp
  then show ?thesis unfolding netdial_def None option.case
    apply (simp add: c_simps)
    apply (rule wp_sys_law)
    apply (auto simp: c_simps known_families_def intro!: wp_netdial_socket)
    apply (metis fst_conv)
    done
next
  case (Some l)
  then have *: "s_ret a = 0" if "os (Getaddrinfo (Some server) v d p f) w = (a, w')" for a v d p f w w'
    using assms that by (metis resolves_def fst_conv option.distinct(1))
  show ?thesis unfolding netdial_def Some option.case
    apply (simp add: c_simps)
    apply (rule wp_sys)
    apply (auto simp: c_simps intro!: wp_sys_law wp_netdial_socket dest: *)
    done
qed

text \<open>
  C21. Whatever the operating system answers, \<open>netdial\<close> returns either a connected socket and
  holds nothing else that it acquired, or a negative number and has released everything,
  provided that the server's name resolves when a local name was given and that addresses
  are of the two known families when a client port was given without one.
\<close>

theorem netdial_no_leak:
  assumes "local = None \<and> (local_port = 0 \<or> known_families os) \<or> local \<noteq> None \<and> resolves os server"
  shows "case run_state (netdial os domain proto local local_port server port timeout) s of (r, s') \<Rightarrow>
     held (calls s') = (if r < 0 then held (calls s) else add_mset (Sock r) (held (calls s)))"
  using wp_netdial[OF assms] unfolding wp_def .

text \<open>A small system: every call succeeds, but the ones in \<open>bad\<close>, and every socket is 5.\<close>

definition demo_res :: "int \<Rightarrow> int \<Rightarrow> sysres" where
  "demo_res r e = \<lparr>s_ret = r, s_err = e, s_bytes = [], s_val = 77, s_fam = AF_INET, s_rset = {}, s_wset = {}, s_vals = []\<rparr>"

definition demo_os :: "(syscall \<Rightarrow> bool) \<Rightarrow> unit os" where
  "demo_os bad c w =
     (if bad c then (demo_res (-1) EAGAIN, w)
      else (case c of Socket f p \<Rightarrow> demo_res 5 0 | _ \<Rightarrow> demo_res 0 0, w))"

definition net0 :: "unit net" where
  "net0 = \<lparr>world = (), errno = 0, gerror = 0, calls = []\<rparr>"

lemmas demo_simps = demo_os_def demo_res_def net0_def run_sys get_errno_def set_errno_def
  set_gerror_def

theorem netdial_no_leak_witness:
  "resolves (demo_os (\<lambda>c. case c of Connect k a \<Rightarrow> True | _ \<Rightarrow> False)) ''srv'' \<and>
   fst (run_state (netdial (demo_os (\<lambda>c. case c of Connect k a \<Rightarrow> True | _ \<Rightarrow> False))
          AF_UNSPEC SOCK_STREAM (Some ''loc'') 0 ''srv'' 5201 (-1)) net0) = -1 \<and>
   held (calls (snd (run_state (netdial (demo_os (\<lambda>c. case c of Connect k a \<Rightarrow> True | _ \<Rightarrow> False))
          AF_UNSPEC SOCK_STREAM (Some ''loc'') 0 ''srv'' 5201 (-1)) net0))) = {#}"
proof -
  let ?os = "demo_os (\<lambda>c. case c of Connect k a \<Rightarrow> True | _ \<Rightarrow> False)"
  let ?run = "run_state (netdial ?os AF_UNSPEC SOCK_STREAM (Some ''loc'') 0 ''srv'' 5201 (-1)) net0"
  have r: "resolves ?os ''srv''" by (simp add: resolves_def demo_simps)
  have f: "fst ?run = -1"
    by (simp add: netdial_def netdial_socket_def netdial_connect_def timeout_connect_def
        close_fail_def demo_simps EAGAIN_def EINPROGRESS_def)
  show ?thesis
    using netdial_no_leak[where local = "Some ''loc''" and local_port = 0 and os = ?os and server = "''srv''"
        and domain = AF_UNSPEC and proto = SOCK_STREAM and port = 5201 and timeout = "-1" and s = net0] r f
    by (simp add: split_beta net0_def)
qed

text \<open>
  The two exits that the assumptions exclude leak: an unresolvable server name keeps the
  local address list, an unknown family keeps the socket and the server's address list.
\<close>

theorem netdial_leaks_local:
  "held (calls (snd (run_state (netdial
      (demo_os (\<lambda>c. case c of Getaddrinfo n v d p f \<Rightarrow> n = Some ''srv'' | _ \<Rightarrow> False))
      AF_UNSPEC SOCK_STREAM (Some ''loc'') 0 ''srv'' 5201 (-1)) net0))) = {#Info 77#}"
  by (simp add: netdial_def demo_simps held_def)

definition demo_unix :: "unit os" where
  "demo_unix c w = (\<lparr>s_ret = (case c of Socket f p \<Rightarrow> 5 | _ \<Rightarrow> 0), s_err = 0, s_bytes = [],
     s_val = 77, s_fam = 1, s_rset = {}, s_wset = {}, s_vals = []\<rparr>, w)"

theorem netdial_leaks_socket:
  "held (calls (snd (run_state (netdial demo_unix AF_UNSPEC SOCK_STREAM None 4000 ''srv'' 5201 (-1))
     net0))) = {#Sock 5, Info 77#}"
  by (simp add: netdial_def netdial_socket_def demo_unix_def demo_simps held_def AF_INET_def AF_INET6_def)

section \<open>Block transfers\<close>

text \<open>
  What the documentation of \<open>read\<close>, \<open>write\<close> and \<open>sendfile\<close> promises: a call never transfers more
  than it was asked to, and \<open>read\<close> stores as many bytes as it returns.
\<close>

definition io_law :: "'w os \<Rightarrow> bool" where
  "io_law os \<longleftrightarrow>
     (\<forall>fd n w. s_ret (fst (os (Read fd n) w)) \<le> int n \<and>
        (0 \<le> s_ret (fst (os (Read fd n) w)) \<longrightarrow>
           int (length (s_bytes (fst (os (Read fd n) w)))) = s_ret (fst (os (Read fd n) w)))) \<and>
     (\<forall>fd bs w. s_ret (fst (os (Write fd bs) w)) \<le> int (length bs)) \<and>
     (\<forall>t f off n w. s_ret (fst (os (Sendfile t f off n) w)) \<le> int n)"

text \<open>The bytes that the calls of a trace received from, or handed to, a descriptor.\<close>

fun rcvd1 :: "int \<Rightarrow> syscall \<times> sysres \<Rightarrow> u8 list" where
  "rcvd1 fd (Read f n, a) = (if f = fd \<and> 0 < s_ret a then s_bytes a else [])"
| "rcvd1 fd _ = []"

fun sent1 :: "int \<Rightarrow> syscall \<times> sysres \<Rightarrow> u8 list" where
  "sent1 fd (Write f bs, a) = (if f = fd \<and> 0 < s_ret a then take (nat (s_ret a)) bs else [])"
| "sent1 fd _ = []"

definition received :: "int \<Rightarrow> (syscall \<times> sysres) list \<Rightarrow> u8 list" where
  "received fd cs = concat (map (rcvd1 fd) cs)"

definition sent :: "int \<Rightarrow> (syscall \<times> sysres) list \<Rightarrow> u8 list" where
  "sent fd cs = concat (map (sent1 fd) cs)"

lemma received_snoc [simp]: "received fd (cs @ [c]) = received fd cs @ rcvd1 fd c"
  by (simp add: received_def)

lemma sent_snoc [simp]: "sent fd (cs @ [c]) = sent fd cs @ sent1 fd c"
  by (simp add: sent_def)

lemma Nread_loop_step:
  assumes "io_law os" "Nread_loop os fd nleft buf s = ((e, nl, b), s')"
  shows "nl \<le> nleft \<and> length b = length buf + (nleft - nl) \<and>
     (\<exists>d. b = buf @ d \<and> received fd (calls s') = received fd (calls s) @ d) \<and>
     (e = None \<or> e = Some NET_HARDERROR) \<and>
     (nl = 0 \<or> (\<exists>a. last (calls s') = (Read fd nl, a) \<and> s_ret a \<le> 0))"
  using assms
proof (induction os fd nleft buf s arbitrary: e nl b s' rule: Nread_loop.induct)
  case (1 os fd nleft buf s)
  note law = 1(2) and 1 = 1(1) 1(3)
  show ?case
  proof (cases "nleft = 0")
    case True
    with 1(2) show ?thesis by (simp add: Nread_loop.simps)
  next
    case False
    obtain a w where os: "os (Read fd nleft) (world s) = (a, w)" by fastforce
    let ?s1 = "after_call (Read fd nleft) s a w"
    have run: "run_state (sys os (Read fd nleft)) s = (a, ?s1)" by (simp add: run_sys os)
    show ?thesis
    proof (cases "0 < s_ret a")
      case True
      have le: "s_ret a \<le> int nleft" "int (length (s_bytes a)) = s_ret a"
        using law True os unfolding io_law_def by (metis fst_conv order_less_imp_le)+
      have "Nread_loop os fd (nleft - nat (s_ret a)) (buf @ s_bytes a) ?s1 = ((e, nl, b), s')"
        using 1(2) False True by (subst (asm) Nread_loop.simps) (simp add: run)
      from 1(1)[OF False run[symmetric] refl _ _ law this] True le show ?thesis
        by (auto simp: received_def)
    next
      case f: False
      with False 1(2) show ?thesis
        by (subst (asm) Nread_loop.simps) (auto simp: run split: if_splits)
    qed
  qed
qed

text \<open>
  C24. For a system that obeys the contract of \<open>read\<close>, \<open>Nread\<close> returns the number of bytes that
  arrived, never more than it was asked for, and the buffer holds exactly the bytes that
  the descriptor delivered, in order; it returns short of \<open>n\<close> only after a \<open>read\<close> that
  delivered nothing or failed. A hard error is reported as \<open>NET_HARDERROR\<close>.
\<close>

theorem Nread_delivers:
  assumes "io_law os" "n < 2 ^ 31" "run_state (Nread os fd n) s = ((r, buf), s')"
  shows "received fd (calls s') = received fd (calls s) @ buf \<and> length buf \<le> n \<and>
     (r = int (length buf) \<or> r = NET_HARDERROR) \<and>
     (length buf < n \<longrightarrow> (\<exists>a. last (calls s') = (Read fd (n - length buf), a) \<and> s_ret a \<le> 0))"
proof -
  obtain e nl b t where l: "Nread_loop os fd n [] s = ((e, nl, b), t)" by (metis surj_pair)
  note st = Nread_loop_step[OF assms(1) l]
  have "t = s'" "buf = b" "r = (case e of Some h \<Rightarrow> h | None \<Rightarrow> c_int (int (n - nl)))"
    using assms(3) l by (auto simp: Nread_def)
  moreover have "c_int (int (n - nl)) = int (n - nl)"
    using assms(2) by (intro c_int_id) auto
  ultimately show ?thesis using st by auto
qed

text \<open>A system whose reads bring two bytes at a time and whose writes take three.\<close>

definition demo_io :: "unit os" where
  "demo_io c w = (case c of
       Read f n \<Rightarrow> \<lparr>s_ret = int (min n 2), s_err = 0, s_bytes = take n [7, 8], s_val = 0, s_fam = 0, s_rset = {}, s_wset = {}, s_vals = []\<rparr>
     | Write f bs \<Rightarrow> \<lparr>s_ret = int (min (length bs) 3), s_err = 0, s_bytes = [], s_val = 0, s_fam = 0, s_rset = {}, s_wset = {}, s_vals = []\<rparr>
     | Sendfile t f off n \<Rightarrow> \<lparr>s_ret = int (min n 4), s_err = 0, s_bytes = [], s_val = 0, s_fam = 0, s_rset = {}, s_wset = {}, s_vals = []\<rparr>
     | _ \<Rightarrow> \<lparr>s_ret = 0, s_err = 0, s_bytes = [], s_val = 0, s_fam = 0, s_rset = {}, s_wset = {}, s_vals = []\<rparr>, w)"

lemma demo_io_law: "io_law demo_io"
  by (simp add: io_law_def demo_io_def min.commute[of 2] numeral_2_eq_2 min.commute)

theorem Nread_delivers_witness:
  "fst (run_state (Nread demo_io 3 5) net0) = (5, [7, 8, 7, 8, 7]) \<and>
   received 3 (calls (snd (run_state (Nread demo_io 3 5) net0))) = [7, 8, 7, 8, 7]"
proof -
  let ?r = "run_state (Nread demo_io 3 5) net0"
  have f: "fst ?r = (5, [7, 8, 7, 8, 7])"
    by (simp add: Nread_def Nread_loop.simps run_sys demo_io_def net0_def c_int_id)
  then show ?thesis
    using Nread_delivers[OF demo_io_law, of 5 3 net0 5 "[7, 8, 7, 8, 7]" "snd ?r"]
    by (simp add: net0_def received_def prod_eq_iff)
qed

lemma Nwrite_loop_step:
  assumes "io_law os" "nleft \<le> length data" "length data < 2 ^ 31"
    "Nwrite_loop os fd data nleft s = (r, s')"
  shows "\<exists>k. k \<le> nleft \<and>
     sent fd (calls s') = sent fd (calls s) @ take k (drop (length data - nleft) data) \<and>
     (0 \<le> r \<longrightarrow> r = int (length data - nleft + k)) \<and>
     (r < 0 \<longrightarrow> k < nleft \<and> (r = NET_SOFTERROR \<or> r = NET_HARDERROR))"
  using assms
proof (induction os fd data nleft s arbitrary: r s' rule: Nwrite_loop.induct)
  case (1 os fd data nleft s)
  note law = 1(2) and len = 1(3,4) and 1 = 1(1) 1(5)
  have c: "c_int (int (length data - m)) = int (length data - m)" for m
    using len by (intro c_int_id) auto
  show ?case
  proof (cases "nleft = 0")
    case True
    with 1(2) c[of 0] show ?thesis by (simp add: Nwrite_loop.simps Let_def)
  next
    case False
    let ?c = "Write fd (drop (length data - nleft) data)"
    obtain a w where os: "os ?c (world s) = (a, w)" by fastforce
    let ?s1 = "after_call ?c s a w"
    have run: "run_state (sys os ?c) s = (a, ?s1)" by (simp add: run_sys os)
    show ?thesis
    proof (cases "0 < s_ret a")
      case True
      have le: "s_ret a \<le> int nleft"
        using law os len unfolding io_law_def by (metis fst_conv length_drop diff_diff_cancel)
      have "Nwrite_loop os fd data (nleft - nat (s_ret a)) ?s1 = (r, s')"
        using 1(2) False True by (subst (asm) Nwrite_loop.simps) (simp add: run Let_def)
      with 1(1)[OF refl False run[symmetric] refl _ _ law] True le len
      obtain k where k: "k \<le> nleft - nat (s_ret a)"
        "sent fd (calls s') = sent fd (calls ?s1) @
            take k (drop (length data - (nleft - nat (s_ret a))) data)"
        "0 \<le> r \<longrightarrow> r = int (length data - (nleft - nat (s_ret a)) + k)"
        "r < 0 \<longrightarrow> k < nleft - nat (s_ret a) \<and> (r = NET_SOFTERROR \<or> r = NET_HARDERROR)"
        by fastforce
      have d: "length data - (nleft - nat (s_ret a)) = nat (s_ret a) + (length data - nleft)"
        using le len True by auto
      show ?thesis
        using k le len True unfolding d
        by (intro exI[of _ "nat (s_ret a) + k"]) (auto simp: take_add drop_drop)
    next
      case f: False
      with False 1(2) show ?thesis
        by (subst (asm) Nwrite_loop.simps)
          (auto simp: run Let_def c NET_SOFTERROR_def NET_HARDERROR_def split: if_splits intro!: exI[of _ 0])
    qed
  qed
qed

text \<open>
  C23. For a system that obeys the contract of \<open>write\<close>, \<open>Nwrite\<close> hands the descriptor a prefix of
  the data, in order and without gaps or repetitions. A non-negative result is the length of
  that prefix; a negative one is \<open>NET_SOFTERROR\<close> or \<open>NET_HARDERROR\<close> and some data were not taken.
\<close>

theorem Nwrite_sends_prefix:
  assumes "io_law os" "length data < 2 ^ 31" "run_state (Nwrite os fd data) s = (r, s')"
  shows "\<exists>k \<le> length data. sent fd (calls s') = sent fd (calls s) @ take k data \<and>
     (0 \<le> r \<longrightarrow> r = int k) \<and> (r < 0 \<longrightarrow> k < length data \<and> (r = NET_SOFTERROR \<or> r = NET_HARDERROR))"
  using Nwrite_loop_step[OF assms(1) order_refl assms(2), of fd s r s'] assms(3)
  by (auto simp: Nwrite_def)

theorem Nwrite_sends_prefix_witness:
  "fst (run_state (Nwrite demo_io 3 [1, 2, 3, 4]) net0) = 4 \<and>
   sent 3 (calls (snd (run_state (Nwrite demo_io 3 [1, 2, 3, 4]) net0))) = [1, 2, 3, 4]"
proof -
  let ?r = "run_state (Nwrite demo_io 3 [1, 2, 3, 4]) net0"
  have f: "fst ?r = 4"
    by (simp add: Nwrite_def Nwrite_loop.simps run_sys demo_io_def net0_def c_int_id)
  then show ?thesis
    using Nwrite_sends_prefix[OF demo_io_law, of "[1, 2, 3, 4]" 3 net0 4 "snd ?r"]
    by (auto simp: net0_def sent_def prod_eq_iff)
qed

lemma Nsendfile_loop_step:
  assumes "io_law os" "nleft \<le> n" "n < 2 ^ 31" "Nsendfile_loop os f t n nleft s = (r, s')"
  shows "r = NET_SOFTERROR \<or> r = NET_HARDERROR \<or> int (n - nleft) \<le> r \<and> r \<le> int n \<and> (0 < nleft \<longrightarrow> 0 < r)"
  using assms
proof (induction os f t n nleft s arbitrary: r s' rule: Nsendfile_loop.induct)
  case (1 os f t n nleft s)
  note law = 1(2) and len = 1(3,4) and 1 = 1(1) 1(5)
  have c: "c_int (int (n - m)) = int (n - m)" for m
    using len by (intro c_int_id) auto
  obtain a w where os: "os (Sendfile t f (int (n - nleft)) nleft) (world s) = (a, w)" by fastforce
  let ?s1 = "after_call (Sendfile t f (int (n - nleft)) nleft) s a w"
  have run: "run_state (sys os (Sendfile t f (int (n - nleft)) nleft)) s = (a, ?s1)"
    by (simp add: run_sys os)
  show ?case
  proof (cases "nleft \<noteq> 0 \<and> 0 < s_ret a")
    case True
    have "s_ret a \<le> int nleft" using law os unfolding io_law_def by (metis fst_conv)
    moreover have "Nsendfile_loop os f t n (nleft - nat (s_ret a)) ?s1 = (r, s')"
      using 1(2) True by (subst (asm) Nsendfile_loop.simps) (simp add: run del: of_nat_diff)
    moreover have "nleft - nat (s_ret a) \<le> n" using len by simp
    ultimately show ?thesis
      using 1(1)[OF _ run[symmetric] refl _ _ law, of r s'] True len by auto
  next
    case False
    with 1(2) c[of 0] c[of nleft] len show ?thesis
      by (subst (asm) Nsendfile_loop.simps) (auto simp: run simp del: of_nat_diff split: if_splits)
  qed
qed

text \<open>
  A successful \<open>Nsendfile\<close> of a non-empty block reports a positive count within the block.
\<close>

lemma Nsendfile_range:
  assumes "io_law os" "n < 2 ^ 31" "run_state (Nsendfile os f t n) s = (r, s')"
  shows "r = NET_SOFTERROR \<or> r = NET_HARDERROR \<or> 0 \<le> r \<and> r \<le> int n \<and> (0 < n \<longrightarrow> 0 < r)"
  using Nsendfile_loop_step[OF assms(1) order_refl assms(2), of f t s r s'] assms(3)
  by (simp add: Nsendfile_def)
end
