(* ===== verification/Udp_Laws.thy ===== *)
theory Udp_Laws
  imports Udp Api Net_Laws
begin

text \<open>
  What the UDP accounting means: the number of lost packets and of reordered ones, the
  header read back, the range of the jitter, and the buffer check.
\<close>

section \<open>Numbers in network order\<close>

lemma be_val_snoc: "be_val (bs @ [b]) = be_val bs * 256 + uint b"
  by (simp add: be_val_def)

lemma be_bytes_length [simp]: "length (be_bytes n v) = n"
  by (simp add: be_bytes_def)

lemma be_bytes_Suc: "be_bytes (Suc n) v = be_bytes n (v div 256) @ [word_of_int v]"
proof -
  have "v div 256 ^ (n - i) = v div 256 div 256 ^ (n - 1 - i)" if "i < n" for i
  proof -
    have "n - i = Suc (n - 1 - i)" using that by simp
    then show ?thesis by (simp add: zdiv_zmult2_eq)
  qed
  then show ?thesis by (simp add: be_bytes_def)
qed

lemma be_val_bytes: "be_val (be_bytes n v) = v mod 256 ^ n"
proof (induction n arbitrary: v)
  case 0
  then show ?case by (simp add: be_bytes_def be_val_def)
next
  case (Suc n)
  have "uint (word_of_int v :: u8) = v mod 256" by (simp add: uint_word_of_int)
  then have "be_val (be_bytes (Suc n) v) = v div 256 mod 256 ^ n * 256 + v mod 256"
    by (simp add: be_bytes_Suc be_val_snoc Suc)
  also have "\<dots> = v mod 256 ^ Suc n" using zmod_zmult2_eq[of "256 ^ n" v 256] by simp
  finally show ?case .
qed

lemma be_bytes_split:
  "length hdr = n \<Longrightarrow> take n (hdr @ r) = hdr" "length hdr = n \<Longrightarrow> drop n (hdr @ r) = r"
  by auto

text \<open>
  C26. The receiver reads from a packet the send time and the sequence number that the
  sender wrote, with 32-bit and with 64-bit counters, for every sequence number that the sender's \<open>int\<close> can
  hold, whatever the rest of the block and the receiver's buffer contain.
\<close>

theorem udp_header_roundtrip:
  assumes "0 \<le> n" "n < 2 ^ 31" "16 \<le> sz"
  shows "udp_header c (overlay (take sz (overlay (udp_make_header c t n) buf)) rbuf) = (t, word_of_int n)"
proof -
  let ?a = "be_bytes 4 (uint (secs t))" and ?b = "be_bytes 4 (uint (usecs t))"
  let ?c = "be_bytes (if c \<noteq> 0 then 8 else 4) n"
  have "length (?a @ ?b @ ?c) \<le> sz" using assms(3) by simp
  then have "take sz (overlay (udp_make_header c t n) buf) =
      (?a @ ?b @ ?c) @ take (sz - length (?a @ ?b @ ?c)) (drop (length (?a @ ?b @ ?c)) buf)"
    unfolding overlay_def udp_make_header_def take_append by simp
  then obtain r where r: "overlay (take sz (overlay (udp_make_header c t n) buf)) rbuf = ?a @ ?b @ ?c @ r"
    unfolding overlay_def[of _ rbuf] append_assoc by (metis append_assoc)
  have w: "uint (x :: u32) mod 4294967296 = uint x" for x using uint_lt2p[of x] uint_ge_0[of x] by simp
  have nm: "n mod 4294967296 = n" "n mod 18446744073709551616 = n" using assms(1,2) by simp_all
  show ?thesis unfolding r udp_header_def Let_def
    by (cases "c = 0"; cases t) (simp_all add: be_val_bytes w nm take_append flip: append_assoc)
qed

theorem udp_header_roundtrip_witness:
  "udp_header 0 (overlay (take 16 (overlay (udp_make_header 0 \<lparr>secs = 7, usecs = 9\<rparr> 1000000) [])) []) =
     (\<lparr>secs = 7, usecs = 9\<rparr>, 1000000)"
  using udp_header_roundtrip[of 1000000 16 0 "\<lparr>secs = 7, usecs = 9\<rparr>" "[]" "[]"] by simp

section \<open>Lost and reordered packets\<close>

lemma udp_account_step:
  assumes "0 \<le> sp_packet_count sp" "sp_packet_count sp < 2 ^ 31 - 1" "1 \<le> p" "p < 2 ^ 31 - 1"
    "0 \<le> sp_cnt_error sp" "sp_cnt_error sp \<le> sp_packet_count sp"
    "0 \<le> sp_outoforder_packets sp" "sp_outoforder_packets sp < 2 ^ 31 - 1"
  shows "udp_account (word_of_int p) sp =
    (if sp_packet_count sp < p
     then sp\<lparr>sp_cnt_error := sp_cnt_error sp + (p - 1 - sp_packet_count sp), sp_packet_count := p\<rparr>
     else sp\<lparr>sp_outoforder_packets := sp_outoforder_packets sp + 1,
             sp_cnt_error := (if sp_cnt_error sp > 0 then sp_cnt_error sp - 1 else sp_cnt_error sp)\<rparr>)"
proof -
  let ?pc = "sp_packet_count sp" and ?ce = "sp_cnt_error sp"
  have u: "uint (word_of_int v :: u64) = v" if "0 \<le> v" "v < 2 ^ 33" for v
    using that by (simp add: uint_word_of_int)
  have e: "c_int (?pc + 1) = ?pc + 1" using assms(1,2) by (intro c_int_id) auto
  have le: "(word_of_int (?pc + 1) :: u64) \<le> word_of_int p \<longleftrightarrow> ?pc < p"
    using assms u[of "?pc + 1"] u[of p] by (simp only: word_le_def) auto
  have lt: "(word_of_int (?pc + 1) :: u64) < word_of_int p \<longleftrightarrow> ?pc + 1 < p"
    using assms u[of "?pc + 1"] u[of p] by (simp only: word_less_def) auto
  have sum: "(word_of_int ?ce :: u64) + ((word_of_int p - 1) - word_of_int ?pc) = word_of_int (?ce + (p - 1 - ?pc))"
    by (simp flip: wi_hom_syms)
  have loss: "c_int (uint (word_of_int (?ce + (p - 1 - ?pc)) :: u64)) = ?ce + (p - 1 - ?pc)" if "?pc < p"
  proof -
    have "0 \<le> ?ce + (p - 1 - ?pc)" "?ce + (p - 1 - ?pc) < 2 ^ 31" using assms that by linarith+
    then show ?thesis by (subst u) (auto intro: c_int_id)
  qed
  have "uint (word_of_int p :: u64) = p" "c_int p = p" "c_int (sp_outoforder_packets sp + 1) = sp_outoforder_packets sp + 1"
    using assms by (auto simp: u c_int_id)
  note conv = this
  show ?thesis
  proof (cases "?pc < p")
    case True
    then show ?thesis unfolding udp_account_def e le lt sum loss[OF True] Let_def conv
      using le_less[of "?pc + 1" p] by simp
  next
    case False
    then show ?thesis unfolding udp_account_def e le Let_def conv by simp
  qed
qed

text \<open>The arrivals that come after a packet with a greater number.\<close>

definition late :: "int list \<Rightarrow> nat" where
  "late ps = card {i. i < length ps \<and> (\<exists>j < i. ps ! j > ps ! i)}"

lemma late_snoc: "late (ps @ [p]) = late ps + (if \<exists>q \<in> set ps. q > p then 1 else 0)"
proof -
  let ?L = "{i. i < length ps \<and> (\<exists>j < i. ps ! j > ps ! i)}"
  have old: "(\<exists>j < i. (ps @ [p]) ! j > (ps @ [p]) ! i) \<longleftrightarrow> (\<exists>j < i. ps ! j > ps ! i)" if "i < length ps" for i
    using that by (simp add: nth_append order_less_trans cong: conj_cong)
  have new: "(\<exists>j < length ps. (ps @ [p]) ! j > (ps @ [p]) ! length ps) \<longleftrightarrow> (\<exists>q \<in> set ps. q > p)"
    by (simp add: nth_append in_set_conv_nth Bex_def cong: conj_cong) blast
  have "{i. i < length (ps @ [p]) \<and> (\<exists>j < i. (ps @ [p]) ! j > (ps @ [p]) ! i)} =
      ?L \<union> (if \<exists>q \<in> set ps. q > p then {length ps} else {})" (is "?A = ?B")
  proof (rule set_eqI)
    fix i
    consider "i < length ps" | "i = length ps" | "i > length ps" by linarith
    then show "i \<in> ?A \<longleftrightarrow> i \<in> ?B" by cases (use old new in auto)
  qed
  moreover have "finite ?L" by simp
  ultimately show ?thesis by (simp add: late_def)
qed

lemma late_le: "late ps \<le> length ps"
  unfolding late_def by (rule order_trans[OF card_mono[of "{..<length ps}"]]) auto

definition highest :: "int list \<Rightarrow> int" where
  "highest ps = Max (insert 0 (set ps))"

lemma highest_snoc: "highest (ps @ [p]) = max (highest ps) p"
proof -
  have "insert 0 (set (ps @ [p])) = insert p (insert 0 (set ps))" by auto
  then show ?thesis unfolding highest_def by (simp only:) (subst Max_insert, auto simp: max.commute)
qed

lemma highest_ge: "0 \<le> highest ps" "p \<in> set ps \<Longrightarrow> p \<le> highest ps"
  by (simp_all add: highest_def)

lemma distinct_room:
  assumes "distinct ps" "\<forall>p \<in> set ps. 1 \<le> p"
  shows "int (length ps) \<le> highest ps"
proof -
  have "set ps \<subseteq> {1..highest ps}" using assms(2) highest_ge(2) by auto
  then have "card (set ps) \<le> card {1..highest ps}" by (intro card_mono) auto
  then show ?thesis using assms(1) highest_ge(1)[of ps] by (simp add: distinct_card)
qed

lemma udp_account_all:
  assumes "distinct ps" "\<forall>p \<in> set ps. 1 \<le> p \<and> p < 2 ^ 31 - 1"
    "sp_packet_count sp = 0" "sp_cnt_error sp = 0" "sp_outoforder_packets sp = 0"
  shows "fold udp_account (map word_of_int ps) sp =
    sp\<lparr>sp_packet_count := highest ps, sp_cnt_error := highest ps - int (length ps),
       sp_outoforder_packets := int (late ps)\<rparr>"
  using assms(1,2)
proof (induction ps rule: rev_induct)
  case Nil
  then show ?case using assms(3-5) by (simp add: highest_def late_def)
next
  case (snoc p ps)
  let ?sp = "sp\<lparr>sp_packet_count := highest ps, sp_cnt_error := highest ps - int (length ps),
       sp_outoforder_packets := int (late ps)\<rparr>"
  have ih: "fold udp_account (map word_of_int ps) sp = ?sp" using snoc by simp
  have room: "int (length ps) \<le> highest ps" using distinct_room[of ps] snoc.prems by auto
  have hi: "highest ps < 2 ^ 31 - 1" using snoc.prems(2) by (simp add: highest_def)
  have p: "1 \<le> p" "p < 2 ^ 31 - 1" "p \<notin> set ps" using snoc.prems by auto
  have late: "int (late ps) \<le> int (length ps)" using late_le by simp
  have missing: "int (length ps) < highest ps" if "p \<le> highest ps"
    using distinct_room[of "ps @ [p]"] snoc.prems that by (simp add: highest_snoc max_def)
  have "(\<exists>q \<in> set ps. q > p) \<longleftrightarrow> p \<le> highest ps"
    using p unfolding highest_def by (subst Max_ge_iff) (auto simp: order_le_less)
  then have l: "late (ps @ [p]) = late ps + (if p \<le> highest ps then 1 else 0)" by (simp add: late_snoc)
  have "udp_account (word_of_int p) ?sp = ?sp\<lparr>sp_packet_count := highest (ps @ [p]),
       sp_cnt_error := highest (ps @ [p]) - int (length (ps @ [p])), sp_outoforder_packets := int (late (ps @ [p]))\<rparr>"
  proof (cases "p \<le> highest ps")
    case True
    then show ?thesis using highest_ge(1)[of ps] hi p room late missing[OF True]
      by (subst udp_account_step) (simp_all add: l highest_snoc max_absorb1)
  next
    case False
    then show ?thesis using highest_ge(1)[of ps] hi p room late
      by (subst udp_account_step) (simp_all add: l highest_snoc max_absorb2)
  qed
  then show ?case using ih by simp
qed

text \<open>
  C13. The loss accounting of \<open>iperf_udp_recv\<close> is exact when no packet is duplicated: after any
  sequence of arrivals, in any order, \<open>packet_count\<close> is the highest sequence number, \<open>cnt_error\<close> is the
  number of sequence numbers up to it that did not arrive, and \<open>outoforder_packets\<close> counts the arrivals
  that came after a packet with a greater number.
\<close>

theorem udp_loss_exact:
  assumes "distinct ps" "\<forall>p \<in> set ps. 1 \<le> p \<and> p < 2 ^ 31 - 1"
    "sp_packet_count sp = 0" "sp_cnt_error sp = 0" "sp_outoforder_packets sp = 0"
  shows "let sp' = fold udp_account (map word_of_int ps) sp; h = Max (insert 0 (set ps)) in
    sp_packet_count sp' = h \<and> sp_cnt_error sp' = int (card ({1..h} - set ps)) \<and>
    sp_outoforder_packets sp' = int (card {i. i < length ps \<and> (\<exists>j < i. ps ! j > ps ! i)})"
proof -
  have sub: "set ps \<subseteq> {1..highest ps}" using assms(2) highest_ge(2) by auto
  then have "card ({1..highest ps} - set ps) = card {1..highest ps} - length ps"
    using assms(1) by (simp add: card_Diff_subset distinct_card)
  moreover have "int (length ps) \<le> highest ps" using distinct_room assms(1,2) by blast
  ultimately have "int (card ({1..highest ps} - set ps)) = highest ps - int (length ps)" by simp
  then show ?thesis
    by (simp add: udp_account_all[OF assms] flip: highest_def late_def)
qed

definition stream0 :: iperf_stream where
  "stream0 = \<lparr>sp_socket = 6, sp_id = 1, sp_sender = False,
     sp_result = \<lparr>res_bytes_received = 0, res_bytes_sent = 0, res_bytes_received_this_interval = 0,
       res_bytes_sent_this_interval = 0, res_bytes_sent_omit = 0, res_stream_prev_total_retrans = 0,
       res_stream_retrans = 0, res_stream_max_rtt = 0, res_stream_min_rtt = 0, res_stream_sum_rtt = 0,
       res_stream_count_rtt = 0, res_stream_max_snd_cwnd = 0, res_start_time = \<lparr>secs = 0, usecs = 0\<rparr>,
       res_end_time = \<lparr>secs = 0, usecs = 0\<rparr>, res_start_time_fixed = \<lparr>secs = 0, usecs = 0\<rparr>,
       res_sender_time = Fin 0, res_receiver_time = Fin 0, res_interval_results = []\<rparr>,
     sp_send_timer = None, sp_green_light = False, sp_buffer = [], sp_packet_count = 0,
     sp_peer_packet_count = 0, sp_omitted_packet_count = 0, sp_jitter = Fin 0, sp_prev_transit = Fin 0,
     sp_outoforder_packets = 0, sp_omitted_outoforder_packets = 0, sp_cnt_error = 0, sp_omitted_cnt_error = 0,
     sp_buffer_fd = 7, sp_diskfile_fd = -1, sp_diskfile_left = 0\<rparr>"

text \<open>Packets 1 and 4 arrive, then the late 2, then 6: 3 and 5 are lost.\<close>

theorem udp_loss_exact_witness:
  "let sp' = fold udp_account (map word_of_int [1, 4, 2, 6]) stream0 in
     sp_packet_count sp' = 6 \<and> sp_cnt_error sp' = int (card ({1..6} - {1, 4, 2, 6 :: int})) \<and>
     sp_outoforder_packets sp' = int (card {i. i < length [1, 4, 2, 6 :: int] \<and> (\<exists>j < i. [1, 4, 2, 6 :: int] ! j > [1, 4, 2, 6] ! i)})"
  using udp_loss_exact[of "[1, 4, 2, 6]" stream0] by (simp add: stream0_def)

text \<open>
  The counters of a stream are \<open>int\<close>. After the packet with number 2147483647 every
  further packet counts as out of order, also with 64-bit sequence numbers in the packets.
\<close>

theorem udp_counter_stops:
  "let sp = stream0\<lparr>sp_packet_count := 2147483647\<rparr>; sp' = udp_account 2147483648 sp in
     sp_packet_count sp' = 2147483647 \<and> sp_outoforder_packets sp' = 1"
  by (simp add: udp_account_def stream0_def c_int_def Let_def)

section \<open>The range of the jitter\<close>

definition between :: "rat \<Rightarrow> rat \<Rightarrow> double \<Rightarrow> bool" where
  "between lo hi d \<longleftrightarrow> is_fin d \<and> repr (dval d) \<and> lo \<le> dval d \<and> dval d \<le> hi"

lemma mk_fin: "\<bar>x\<bar> \<le> dbl_lim \<Longrightarrow> is_fin (mk neg x) \<and> dval (mk neg x) = rnd x"
  by (simp add: mk_small)

lemma dadd_fin:
  "is_fin a \<Longrightarrow> is_fin b \<Longrightarrow> \<bar>dval a + dval b\<bar> \<le> dbl_lim \<Longrightarrow>
     is_fin (dadd a b) \<and> dval (dadd a b) = rnd (dval a + dval b)"
  by (cases a; cases b) (simp_all add: mk_fin)

lemma dneg_fin: "is_fin a \<Longrightarrow> is_fin (dneg a) \<and> dval (dneg a) = - dval a"
  by (cases a) auto

lemma dsub_fin:
  "is_fin a \<Longrightarrow> is_fin b \<Longrightarrow> \<bar>dval a - dval b\<bar> \<le> dbl_lim \<Longrightarrow>
     is_fin (dsub a b) \<and> dval (dsub a b) = rnd (dval a - dval b)"
  using dadd_fin[of a "dneg b"] dneg_fin[of b] by (simp add: dsub_def)

lemma ddiv_fin:
  "is_fin a \<Longrightarrow> q \<noteq> 0 \<Longrightarrow> \<bar>dval a / q\<bar> \<le> dbl_lim \<Longrightarrow>
     is_fin (ddiv a (Fin q)) \<and> dval (ddiv a (Fin q)) = rnd (dval a / q)"
  by (cases a) (simp_all add: mk_fin)

lemma rnd_range: "repr lo \<Longrightarrow> repr hi \<Longrightarrow> lo \<le> x \<Longrightarrow> x \<le> hi \<Longrightarrow> lo \<le> rnd x \<and> rnd x \<le> hi"
  by (simp add: rnd_le rnd_ge)

lemma small_lim: "\<bar>x\<bar> \<le> 2 ^ 64 \<Longrightarrow> \<bar>x\<bar> \<le> dbl_lim"
  using pow2_le_lim[of 64] by linarith

lemma repr_pow2: "repr (2 ^ n)"
  using repr_powi[of "int n"] by simp

lemma repr_0 [simp]: "repr 0"
  using repr_int[of 0] by simp

abbreviation jitter_max :: rat where
  "jitter_max \<equiv> 2 ^ 33"

lemma transit_range: "between 0 jitter_max (iperf_time_in_secs t)"
proof -
  have u: "\<bar>of_int (uint (x :: u32)) :: rat\<bar> \<le> 2 ^ 64" "(0 :: rat) \<le> of_int (uint x)" "(of_int (uint x) :: rat) \<le> 2 ^ 32" for x
  proof -
    have "uint x < 2 ^ 32" using uint_lt2p[of x] by simp
    then have "(of_int (uint x) :: rat) \<le> of_int (2 ^ 32)" by (simp only: of_int_le_iff)
    then show "(of_int (uint x) :: rat) \<le> 2 ^ 32" by simp
    moreover show "(0 :: rat) \<le> of_int (uint x)" using uint_ge_0[of x] by (simp only: of_int_0_le_iff)
    ultimately show "\<bar>of_int (uint x) :: rat\<bar> \<le> 2 ^ 64" by simp
  qed
  have i: "is_fin (d_of_int (uint x))" "dval (d_of_int (uint x)) = of_int (uint x)" for x :: u32
  proof -
    have "uint x < 2 ^ 32" using uint_lt2p[of x] by simp
    then have "d_of_int (uint x) = Fin (of_int (uint x))" by (intro d_of_int_exact) simp
    then show "is_fin (d_of_int (uint x))" "dval (d_of_int (uint x)) = of_int (uint x)" by simp_all
  qed
  let ?q = "ddiv (d_of_int (uint (usecs t))) (Fin 1000000)"
  have s: "\<bar>dval (d_of_int (uint (usecs t))) / 1000000\<bar> \<le> dbl_lim"
    using u[of "usecs t"] by (intro small_lim) (simp add: i)
  have q: "is_fin ?q" "dval ?q = rnd (of_int (uint (usecs t)) / 1000000)"
    using ddiv_fin[OF i(1)[of "usecs t"] _ s] by (simp_all add: i)
  have qr: "0 \<le> dval ?q" "dval ?q \<le> 2 ^ 32"
    unfolding q(2) using rnd_range[of 0 "2 ^ 32"] repr_pow2[of 32] u[of "usecs t"] by simp_all
  have "\<bar>dval (d_of_int (uint (secs t))) + dval ?q\<bar> \<le> dbl_lim"
    using u[of "secs t"] qr by (intro small_lim) (simp add: i)
  from dadd_fin[OF i(1) q(1) this]
  have r: "is_fin (iperf_time_in_secs t)" "dval (iperf_time_in_secs t) = rnd (of_int (uint (secs t)) + dval ?q)"
    by (simp_all add: iperf_time_in_secs_def i)
  have "0 \<le> dval (iperf_time_in_secs t) \<and> dval (iperf_time_in_secs t) \<le> jitter_max"
    unfolding r(2) using u[of "secs t"] qr by (intro rnd_range repr_0 repr_pow2) simp_all
  then show ?thesis unfolding between_def using r by simp
qed

lemma zero_le_mult_pos2: "0 \<le> a * b \<Longrightarrow> 0 < b \<Longrightarrow> (0 :: rat) \<le> a"
  by (simp add: zero_le_mult_iff not_le)

text \<open>One step of the smoothed average stays between zero and the bound.\<close>

lemma jitter_step:
  assumes "repr j" "0 \<le> j" "j \<le> jitter_max" "0 \<le> d" "d \<le> jitter_max"
  shows "0 \<le> j + rnd (rnd (d - j) / 16)" "j + rnd (rnd (d - j) / 16) \<le> jitter_max"
proof -
  have "- j \<le> rnd (d - j)" using assms by (intro rnd_ge) auto
  then have "- j \<le> rnd (d - j) / 16" using assms(2) by simp
  then have "- j \<le> rnd (rnd (d - j) / 16)" using assms(1) by (intro rnd_ge) auto
  then show "0 \<le> j + rnd (rnd (d - j) / 16)" by simp
  show "j + rnd (rnd (d - j) / 16) \<le> jitter_max"
  proof (cases "j \<le> 15 * 2 ^ 29")
    case True
    have "rnd (d - j) \<le> jitter_max" using assms by (intro rnd_le repr_pow2) auto
    then have "rnd (rnd (d - j) / 16) \<le> 2 ^ 29" by (intro rnd_le repr_pow2) simp
    then show ?thesis using True by simp
  next
    case False
    have "2 powi 32 \<le> j" using False by simp
    then have "ilog2 (2 powi 32) \<le> ilog2 j" by (intro ilog2_mono) simp_all
    then have "32 \<le> ilog2 j" by (simp only: ilog2_powi)
    then have q: "-20 \<le> qexp j" using False by (simp add: qexp_def)
    obtain n where n: "j = of_int n * 2 powi qexp j" using repr_grid[OF assms(1)] by blast
    have "ilog2 j \<le> ilog2 (2 powi 33)" using assms(3) False by (intro ilog2_mono) simp_all
    then have "ilog2 j \<le> 33" by (simp only: ilog2_powi)
    then have q2: "qexp j \<le> 33" using False by (simp add: qexp_def)
    define m where "m = 2 ^ nat (33 - qexp j) - n"
    have m: "jitter_max - j = of_int m * 2 powi qexp j"
      using powi_grid[OF q2] n by (simp add: m_def left_diff_distrib)
    have "of_int m * 2 powi (-20) \<le> of_int m * (2 :: rat) powi qexp j" if "0 \<le> m"
      using that q by (intro mult_left_mono power_int_increasing) auto
    moreover have "of_int m * 2 powi qexp j < (2 ^ 29 :: rat)" using False unfolding m[symmetric] by simp
    ultimately have "of_int m * 2 powi (-20) < (2 ^ 29 :: rat)" if "0 \<le> m" using that by linarith
    then have "(of_int m :: rat) < of_int (2 ^ 49)" if "0 \<le> m" using that by (simp add: power_int_minus field_simps)
    then have "m < 2 ^ 49" by (cases "0 \<le> m") (simp_all only: of_int_less_iff, simp)
    moreover have "0 \<le> of_int m * (2 :: rat) powi qexp j" using assms(3) unfolding m[symmetric] by simp
    then have "(0 :: rat) \<le> of_int m" by (rule zero_le_mult_pos2) simp
    then have "0 \<le> m" by simp
    ultimately have rB: "repr (jitter_max - j)" unfolding repr_def m using q
      by (intro exI[of _ m] exI[of _ "qexp j"]) auto
    have "rnd (d - j) \<le> jitter_max - j" using assms rB by (intro rnd_le) auto
    then have "rnd (d - j) / 16 \<le> jitter_max - j" using assms(3) by simp
    then have "rnd (rnd (d - j) / 16) \<le> jitter_max - j" using rB by (intro rnd_le)
    then show ?thesis by simp
  qed
qed

definition jitter_ok :: "iperf_stream \<Rightarrow> bool" where
  "jitter_ok sp \<longleftrightarrow> between 0 jitter_max (sp_jitter sp) \<and> between 0 jitter_max (sp_prev_transit sp)"

lemma udp_jitter_ok:
  assumes "jitter_ok sp"
  shows "jitter_ok (udp_jitter t1 t0 sp)"
proof -
  let ?t = "iperf_time_in_secs (snd (iperf_time_diff t1 t0))" and ?p = "sp_prev_transit sp" and ?j = "sp_jitter sp"
  have b: "between 0 jitter_max ?t" "between 0 jitter_max ?p" "between 0 jitter_max ?j"
    using assms transit_range by (auto simp: jitter_ok_def)
  let ?d = "dsub ?t ?p"
  have "\<bar>dval ?t - dval ?p\<bar> \<le> dbl_lim" using b by (intro small_lim) (auto simp: between_def abs_le_iff)
  then have d: "is_fin ?d" "dval ?d = rnd (dval ?t - dval ?p)" using dsub_fin b by (auto simp: between_def)
  have dr: "- jitter_max \<le> dval ?d \<and> dval ?d \<le> jitter_max"
    unfolding d(2) using b repr_pow2[of 33] by (intro rnd_range) (auto simp: between_def)
  define d' where "d' = (if dlt ?d (Fin 0) then dneg ?d else ?d)"
  have "dlt ?d (Fin 0) \<longleftrightarrow> dval ?d < 0" using d(1) by (cases ?d) auto
  then have d': "is_fin d'" "0 \<le> dval d'" "dval d' \<le> jitter_max"
    using d(1) dr dneg_fin[of ?d] by (auto simp: d'_def)
  let ?e = "dsub d' ?j"
  have "\<bar>dval d' - dval ?j\<bar> \<le> dbl_lim" using b(3) d' by (intro small_lim) (auto simp: between_def abs_le_iff)
  then have e: "is_fin ?e" "dval ?e = rnd (dval d' - dval ?j)" using dsub_fin b(3) d' by (auto simp: between_def)
  have "- jitter_max \<le> dval ?e \<and> dval ?e \<le> jitter_max"
    unfolding e(2) using b(3) d' repr_pow2[of 33] by (intro rnd_range) (auto simp: between_def)
  then have "\<bar>dval ?e / 16\<bar> \<le> dbl_lim" by (intro small_lim) (auto simp: abs_le_iff)
  then have q: "is_fin (ddiv ?e (Fin 16))" "dval (ddiv ?e (Fin 16)) = rnd (rnd (dval d' - dval ?j) / 16)"
    using ddiv_fin[OF e(1), of 16] by (simp_all add: e(2))
  have st: "0 \<le> dval ?j + dval (ddiv ?e (Fin 16))" "dval ?j + dval (ddiv ?e (Fin 16)) \<le> jitter_max"
    unfolding q(2) using jitter_step[of "dval ?j" "dval d'"] b(3) d' by (auto simp: between_def)
  then have "\<bar>dval ?j + dval (ddiv ?e (Fin 16))\<bar> \<le> dbl_lim" by (intro small_lim) (auto simp: abs_le_iff)
  then have r: "is_fin (dadd ?j (ddiv ?e (Fin 16)))" "dval (dadd ?j (ddiv ?e (Fin 16))) = rnd (dval ?j + dval (ddiv ?e (Fin 16)))"
    using dadd_fin[of ?j "ddiv ?e (Fin 16)"] q(1) b(3) by (auto simp: between_def)
  have "between 0 jitter_max (dadd ?j (ddiv ?e (Fin 16)))"
    unfolding between_def r(2) using r(1) rnd_range[OF repr_0 repr_pow2 st] by simp
  then show ?thesis using b(1) by (simp add: jitter_ok_def udp_jitter_def Let_def flip: d'_def)
qed

lemma udp_account_keeps [simp]:
  "sp_jitter (udp_account p sp) = sp_jitter sp" "sp_prev_transit (udp_account p sp) = sp_prev_transit sp"
  by (simp_all add: udp_account_def Let_def)

text \<open>
  C25. Invariant of the jitter estimate: whatever arrives on the socket and whatever the clock
  says, \<open>iperf_udp_recv\<close> keeps \<open>jitter\<close> and \<open>prev_transit\<close> finite, not negative and at most
  \<open>2^33\<close> seconds; no NaN, infinity or negative value is ever reported.
\<close>

theorem udp_jitter_invariant:
  assumes "jitter_ok sp"
  shows "case run_state (iperf_udp_recv os test sp) s of ((r, sp'), s') \<Rightarrow> jitter_ok sp'"
proof -
  have keep: "jitter_ok (sp'\<lparr>sp_buffer := b\<rparr>) = jitter_ok sp'" "jitter_ok (sp'\<lparr>sp_result := x\<rparr>) = jitter_ok sp'"
    "jitter_ok (udp_account p sp') = jitter_ok sp'" for sp' b x p
    by (simp_all add: jitter_ok_def)
  show ?thesis
    by (rule wp_pairI, unfold iperf_udp_recv_def local_time_now_def)
      (auto simp: c_simps Let_def split_beta keep assms intro!: wp_Nread_any wp_sys udp_jitter_ok)
qed

text \<open>A running test, on a system whose reads deliver nothing.\<close>

definition running_test :: iperf_test where
  "running_test = (iperf_defaults iperf_new_test)\<lparr>t_state := TEST_RUNNING\<rparr>"

theorem udp_jitter_invariant_witness:
  "jitter_ok stream0 \<and>
   (case run_state (iperf_udp_recv (demo_os (\<lambda>c. False)) running_test stream0) net0 of
      ((r, sp'), s') \<Rightarrow> jitter_ok sp')"
proof
  show ok: "jitter_ok stream0" by (simp add: jitter_ok_def between_def stream0_def)
  show "case run_state (iperf_udp_recv (demo_os (\<lambda>c. False)) running_test stream0) net0 of
      ((r, sp'), s') \<Rightarrow> jitter_ok sp'"
    by (rule udp_jitter_invariant[OF ok])
qed

section \<open>Socket buffers\<close>

text \<open>
  The buffer check reports an error exactly with one of its two error numbers, and success only when both socket
  buffers, as the system reports them, hold a block and are as large as was asked for.
\<close>

theorem udp_buffercheck_sound:
  "case run_state (iperf_udp_buffercheck os test k) s of ((rc, test'), s') \<Rightarrow>
     rc = -1 \<and> i_errno test' \<in> {IESETBUF, IESETBUF2} \<or>
     (let rcvb = last (calls s'); sndb = last (butlast (calls s')); room = min (s_val (snd rcvb)) (s_val (snd sndb)) in
      fst rcvb = Getsockopt k ''SO_RCVBUF'' \<and> fst sndb = Getsockopt k ''SO_SNDBUF'' \<and>
      0 \<le> s_ret (snd rcvb) \<and> 0 \<le> s_ret (snd sndb) \<and>
      rc = (if cfg_blksize (t_settings test) \<le> room then 0 else 1) \<and>
      (cfg_socket_bufsize (t_settings test) = 0 \<or> cfg_socket_bufsize (t_settings test) \<le> room))"
  by (rule wp_pairI, unfold iperf_udp_buffercheck_def)
    (auto simp: c_simps Let_def not_less butlast_append min_def intro!: wp_sys)

section \<open>What a failed connection leaves behind\<close>

text \<open>A stream whose first datagram cannot be written: the socket stays open.\<close>

theorem udp_connect_leaks:
  "let os = demo_os (\<lambda>c. case c of Write k d \<Rightarrow> True | _ \<Rightarrow> False);
       ((r, test'), s') = run_state (iperf_udp_connect os (running_test\<lparr>t_settings := (t_settings running_test)\<lparr>cfg_blksize := 50\<rparr>\<rparr>)) net0
   in r = -1 \<and> i_errno test' = IESTREAMWRITE \<and> held (calls s') = {#Sock 5#}"
  by (simp add: iperf_udp_connect_def udp_check_grow_def iperf_udp_buffercheck_def netdial_def netdial_socket_def
      netdial_connect_def timeout_connect_def demo_simps running_test_def iperf_defaults_def set_protocol_def
      check_sender_has_retransmits_def iperf_new_test_def held_def Let_def)

end
