(* ===== verification/Tcp_Laws.thy ===== *)
theory Tcp_Laws
  imports Tcp Udp_Laws
begin

text \<open>
  What the TCP stream functions hold and release, for every operating system.
\<close>

lemma wp_set_options:
  assumes "\<And>s'. held (calls s') = held (calls s) \<Longrightarrow> Q None s'"
    "\<And>s' e. held (calls s') = held (calls s) \<Longrightarrow> e \<in> (snd \<circ> snd) ` set opts \<Longrightarrow> Q (Some e) s'"
  shows "wp (set_options os k opts) Q s"
  using assms
proof (induction opts arbitrary: s)
  case (Cons o1 opts)
  obtain name val err where o1: "o1 = (name, val, err)" by (cases o1)
  have "wp (set_options os k opts) Q s2" if "held (calls s2) = held (calls s)" for s2
    by (rule Cons.IH) (use that Cons.prems in auto)
  then show ?case unfolding o1 using Cons.prems(2) by (auto simp: c_simps o1 intro!: wp_sys)
qed (simp add: c_simps)

lemma wp_tcp_fail [wf_intros]:
  assumes "\<And>s'. held (calls s') = held (calls s) - {#Sock k#} - image_mset Info (mset ais) \<Longrightarrow>
             Q (-1, test\<lparr>i_errno := err\<rparr>) s'"
  shows "wp (tcp_fail os test k ais err) Q s"
  unfolding tcp_fail_def by (auto simp: c_simps assms intro!: wf_intros)

lemma wp_tcp_verify:
  assumes "\<And>s' test'. held (calls s') = held (calls s) \<Longrightarrow> Q (Inr test') s'"
    "\<And>s'. held (calls s') = held (calls s) \<Longrightarrow> Q (Inl (-1, test\<lparr>i_errno := IESETBUF2\<rparr>)) s'"
    "\<And>s'. held (calls s') = held (calls s) - {#Sock k#} - image_mset Info (mset ais) \<Longrightarrow>
       Q (Inl (-1, test\<lparr>i_errno := IESETBUF\<rparr>)) s'"
  shows "wp (tcp_verify os test k ais) Q s"
  unfolding tcp_verify_def by (auto simp: c_simps Let_def assms intro!: wp_sys wf_intros)

text \<open>The socket that was made, or everything released, or the two leftovers of a small buffer.\<close>

definition tcp_outcome :: "resource multiset \<Rightarrow> int \<times> iperf_test \<Rightarrow> 'w net \<Rightarrow> bool" where
  "tcp_outcome H rt s' = (case rt of (r, test') \<Rightarrow>
     if 0 \<le> r then held (calls s') = add_mset (Sock r) H
     else if i_errno test' = IESETBUF2 then \<exists>k i. held (calls s') = H + {#Sock k, Info i#}
     else held (calls s') = H)"

lemma options_errors: "IESETBUF2 \<notin> (snd \<circ> snd) ` set (tcp_options test)"
  by (auto simp: tcp_options_def IESETNODELAY_def IESETMSS_def IESETBUF_def IESETBUF2_def split: if_splits)

lemma wp_tcp_connect_socket:
  assumes "held (calls s) = H + {#Sock k, Info (s_val res)#}" "0 \<le> k"
  shows "wp (tcp_connect_socket os test k res) (tcp_outcome H) s"
proof -
  note codes = IESETBUF_def IESETBUF2_def IESTREAMCONNECT_def IESENDCOOKIE_def
  have cont: "wp (tcp_verify os test k [s_val res]) (\<lambda>v. wp (case v of
           Inl f \<Rightarrow> ret f
         | Inr test1 \<Rightarrow> do {
             c \<leftarrow> sys os (Connect k (AiAddr (s_val res) None));
             e \<leftarrow> get_errno;
             if s_ret c < 0 \<and> e \<noteq> EINPROGRESS then tcp_fail os test1 k [s_val res] IESTREAMCONNECT
             else do {
               _ \<leftarrow> sys os (Freeaddrinfo (s_val res));
               w \<leftarrow> Nwrite os k (t_cookie test1);
               if w < 0 then tcp_fail os test1 k [] IESENDCOOKIE
               else ret (k, test1)
             }
           }) (tcp_outcome H)) s2" if "held (calls s2) = H + {#Sock k, Info (s_val res)#}" for s2
    using that assms(2)
    by (intro wp_tcp_verify) (auto simp: c_simps tcp_outcome_def codes intro!: wp_sys wf_intros)
  show ?thesis unfolding tcp_connect_socket_def wp_bind
  proof (rule wp_set_options, goal_cases)
    case (1 s')
    then show ?case using cont assms(1) by (simp add: wp_bind)
  next
    case (2 s' e)
    then have "e \<noteq> IESETBUF2" using options_errors[of test] by blast
    then show ?case using 2(1) assms by (auto simp: tcp_outcome_def intro!: wf_intros)
  qed
qed

lemma wp_tcp_connect_bind:
  assumes "held (calls s) = add_mset (Info (s_val res))
             (case lres of None \<Rightarrow> H | Some l \<Rightarrow> add_mset (Info (s_val l)) H)"
  shows "wp (tcp_connect_bind os test lres res) (tcp_outcome H) s"
proof -
  have neq: "IESTREAMCONNECT \<noteq> IESETBUF2" "IEPROTOCOL \<noteq> IESETBUF2"
    by (simp_all add: IESTREAMCONNECT_def IEPROTOCOL_def IESETBUF2_def)
  show ?thesis
  proof (cases lres)
    case None
    have *: "held (calls s) = add_mset (Info (s_val res)) H" using assms None by simp
    show ?thesis unfolding tcp_connect_bind_def None option.case
      by (auto simp: c_simps * Let_def neq tcp_outcome_def intro!: wp_sys wf_intros wp_tcp_connect_socket)
  next
    case (Some l)
    have *: "held (calls s) = add_mset (Info (s_val res)) (add_mset (Info (s_val l)) H)"
      using assms Some by simp
    show ?thesis unfolding tcp_connect_bind_def Some option.case
      by (auto simp: c_simps * Let_def neq tcp_outcome_def add_mset_commute intro!: wp_sys wf_intros wp_tcp_connect_socket)
  qed
qed

text \<open>
  C22. Resources of \<open>iperf_tcp_connect\<close>, for every operating system: it returns a connected socket and
  holds nothing else that it acquired, or it fails and has released everything, with one
  exception: when the system grants a smaller socket buffer than was asked for (\<open>IESETBUF2\<close>), the socket
  and the address list stay allocated.
\<close>

theorem tcp_connect_resources:
  "case run_state (iperf_tcp_connect os test) s of ((r, test'), s') \<Rightarrow>
     if 0 \<le> r then held (calls s') = add_mset (Sock r) (held (calls s))
     else if i_errno test' = IESETBUF2
       then \<exists>k i. held (calls s') = held (calls s) + {#Sock k, Info i#}
     else held (calls s') = held (calls s)"
proof (rule wp_pairI)
  have neq: "IESTREAMCONNECT \<noteq> IESETBUF2" by (simp add: IESTREAMCONNECT_def IESETBUF2_def)
  have "wp (iperf_tcp_connect os test) (tcp_outcome (held (calls s))) s"
    unfolding iperf_tcp_connect_def
    by (cases "t_bind_address test")
      (auto simp: c_simps neq tcp_outcome_def intro!: wp_sys wp_tcp_connect_bind)
  then show "wp (iperf_tcp_connect os test) (\<lambda>(r, test') s'.
     if 0 \<le> r then held (calls s') = add_mset (Sock r) (held (calls s))
     else if i_errno test' = IESETBUF2
       then \<exists>k i. held (calls s') = held (calls s) + {#Sock k, Info i#}
     else held (calls s') = held (calls s)) s"
    by (rule wp_mono) (auto simp: tcp_outcome_def split: if_splits)
qed

end
