(* ===== verification/Exchange_Laws.thy ===== *)
theory Exchange_Laws
  imports Exchange Json_Roundtrip Tcp_Laws
begin

text \<open>
  The exchange of parameters and results, from end to end: what one side sends over a reliable
  byte stream, in pieces of any size, is what the other side reads, and the parameters of the
  client become those of the server.
\<close>

section \<open>A reliable byte stream\<close>

text \<open>
  What TCP promises of a connection without errors: a \<open>write\<close> takes a nonempty prefix of the data
  and a \<open>read\<close> delivers a nonempty prefix of what is pending, in order.
\<close>

definition takes_data :: "'w os \<Rightarrow> int \<Rightarrow> bool" where
  "takes_data os fd \<longleftrightarrow> (\<forall>bs w. bs \<noteq> [] \<longrightarrow>
     (let a = fst (os (Write fd bs) w) in 0 < s_ret a \<and> s_ret a \<le> int (length bs)))"

definition delivers :: "'w os \<Rightarrow> int \<Rightarrow> ('w \<Rightarrow> u8 list) \<Rightarrow> bool" where
  "delivers os fd pending \<longleftrightarrow> (\<forall>n w. 0 < n \<longrightarrow> pending w \<noteq> [] \<longrightarrow>
     (case os (Read fd n) w of (a, w') \<Rightarrow>
        0 < s_ret a \<and> s_ret a \<le> int n \<and> s_ret a \<le> int (length (pending w)) \<and>
        s_bytes a = take (nat (s_ret a)) (pending w) \<and> pending w' = drop (nat (s_ret a)) (pending w)))"

lemma Nwrite_loop_all:
  assumes "takes_data os fd" "Nwrite_loop os fd data nleft s = (r, s')" "nleft \<le> length data" "length data < 2 ^ 31"
  shows "r = int (length data) \<and> sent fd (calls s') = sent fd (calls s) @ drop (length data - nleft) data"
  using assms(2,3)
proof (induction nleft arbitrary: s rule: less_induct)
  case (less n)
  show ?case
  proof (cases "n = 0")
    case True
    then show ?thesis using less.prems(1) assms(4) by (simp add: Nwrite_loop.simps c_int_id)
  next
    case False
    let ?rest = "drop (length data - n) data"
    obtain a w where os: "os (Write fd ?rest) (world s) = (a, w)" by fastforce
    have "?rest \<noteq> []" using False less.prems(2) by simp
    then have a: "0 < s_ret a" "s_ret a \<le> int n"
      using assms(1) os less.prems(2) unfolding takes_data_def Let_def by (metis fst_conv length_drop diff_diff_cancel)+
    let ?s1 = "after_call (Write fd ?rest) s a w" and ?k = "nat (s_ret a)"
    have "Nwrite_loop os fd data (n - ?k) ?s1 = (r, s')"
      using less.prems(1) False a by (subst (asm) Nwrite_loop.simps) (simp add: Let_def run_sys os)
    from less.IH[OF _ this] a False less.prems(2)
    have IH: "r = int (length data)" "sent fd (calls s') = sent fd (calls ?s1) @ drop (length data - (n - ?k)) data" by auto
    have "sent fd (calls ?s1) = sent fd (calls s) @ take ?k ?rest" using a by simp
    moreover have "length data - (n - ?k) = ?k + (length data - n)" using a less.prems(2) by linarith
    then have "drop (length data - (n - ?k)) data = drop ?k ?rest" by simp
    ultimately have "sent fd (calls s') = sent fd (calls s) @ take ?k ?rest @ drop ?k ?rest" using IH by simp
    then show ?thesis using IH(1) by (simp only: append_take_drop_id)
  qed
qed

lemma Nwrite_all:
  assumes "takes_data os fd" "length data < 2 ^ 31"
  obtains s' where "run_state (Nwrite os fd data) s = (int (length data), s')" "sent fd (calls s') = sent fd (calls s) @ data"
proof -
  obtain r s' where l: "Nwrite_loop os fd data (length data) s = (r, s')" by fastforce
  from Nwrite_loop_all[OF assms(1) l _ assms(2)] l that show thesis by (simp add: Nwrite_def)
qed

lemma Nread_loop_all:
  assumes "delivers os fd pending" "n \<le> length (pending (world s))"
  shows "\<exists>s'. Nread_loop os fd n buf s = ((None, 0, buf @ take n (pending (world s))), s') \<and>
     pending (world s') = drop n (pending (world s))"
  using assms(2)
proof (induction n arbitrary: s buf rule: less_induct)
  case (less n)
  show ?case
  proof (cases "n = 0")
    case True
    then show ?thesis by (simp add: Nread_loop.simps)
  next
    case False
    obtain a w where os: "os (Read fd n) (world s) = (a, w)" by fastforce
    have a: "0 < s_ret a" "s_ret a \<le> int n" "s_bytes a = take (nat (s_ret a)) (pending (world s))"
        "pending w = drop (nat (s_ret a)) (pending (world s))"
      using assms(1) os False less.prems unfolding delivers_def by (fastforce dest!: spec[of _ n] spec[of _ "world s"])+
    let ?s1 = "after_call (Read fd n) s a w" and ?k = "nat (s_ret a)"
    have k: "0 < ?k" "?k \<le> n" using a by auto
    have w1: "pending (world ?s1) = drop ?k (pending (world s))" using a by simp
    obtain s' where s': "Nread_loop os fd (n - ?k) (buf @ s_bytes a) ?s1 =
          ((None, 0, (buf @ s_bytes a) @ take (n - ?k) (pending (world ?s1))), s')"
        "pending (world s') = drop (n - ?k) (pending (world ?s1))"
      using less.IH[of "n - ?k" ?s1 "buf @ s_bytes a"] k diff_le_mono[OF less.prems, of ?k] unfolding w1
      by (auto simp del: append_assoc)
    have "Nread_loop os fd n buf s = Nread_loop os fd (n - ?k) (buf @ s_bytes a) ?s1"
      using False a by (subst Nread_loop.simps) (simp add: run_sys os)
    moreover have "take ?k (pending (world s)) @ take (n - ?k) (drop ?k (pending (world s))) = take n (pending (world s))"
      using k(2) by (metis take_add le_add_diff_inverse)
    ultimately show ?thesis using s' a(3) w1 k(2) by auto
  qed
qed

lemma Nread_all:
  assumes "delivers os fd pending" "n \<le> length (pending (world s))" "n < 2 ^ 31"
  obtains s' where "run_state (Nread os fd n) s = ((int n, take n (pending (world s))), s')"
    "pending (world s') = drop n (pending (world s))"
  using Nread_loop_all[OF assms(1,2), of "[]"] that assms(3) by (auto simp: Nread_def c_int_id)

section \<open>Messages\<close>

lemma char_byte [simp]: "char_of (uint (word_of_int (chr_code c) :: u8)) = c"
  by (simp add: chr_code_def uint_word_of_int)

lemma string_bytes [simp]: "string_of (bytes_of s) = s"
  by (simp add: string_of_def bytes_of_def comp_def map_idI)

lemma char_of_zero: "char_of (0 :: int) = CHR 0x00"
  by code_simp

lemma bytes_of_nonzero: "no_nul text \<Longrightarrow> b \<in> set (bytes_of text) \<Longrightarrow> b \<noteq> 0"
proof
  assume "no_nul text" "b \<in> set (bytes_of text)" "b = 0"
  then obtain c where "c \<in> set text" "(word_of_int (chr_code c) :: u8) = 0" by (auto simp: bytes_of_def)
  then show False using char_byte [of c] \<open>no_nul text\<close> char_of_zero by (auto simp: no_nul_def)
qed

lemma bytes_of_length [simp]: "length (bytes_of s) = length s"
  by (simp add: bytes_of_def)

definition message :: "string \<Rightarrow> u8 list" where
  "message text = be_bytes 4 (int (length text)) @ bytes_of text"

lemma JSON_write_sends:
  assumes "takes_data os fd" "cJSON_PrintUnformatted mem j = Ok text" "length text < 2 ^ 31"
  obtains s' where "run_state (JSON_write os fd j) s = (0, s')" "sent fd (calls s') = sent fd (calls s) @ message text"
proof -
  obtain s1 where 1: "run_state (Nwrite os fd (be_bytes 4 (int (length text)))) s = (4, s1)"
      "sent fd (calls s1) = sent fd (calls s) @ be_bytes 4 (int (length text))"
    using Nwrite_all[OF assms(1), of "be_bytes 4 (int (length text))" s] by auto
  obtain s2 where 2: "run_state (Nwrite os fd (bytes_of text)) s1 = (int (length text), s2)"
      "sent fd (calls s2) = sent fd (calls s1) @ bytes_of text"
    using Nwrite_all[OF assms(1), of "bytes_of text" s1] assms(3) by auto
  have "int (length text) mod 4294967296 = int (length text)" using assms(3) by simp
  then show thesis using that[of s2] 1 2
    by (simp add: JSON_write_def assms(2) message_def Let_def)
qed

lemma buffer_text_room:
  assumes "length b < n"
  shows "buffer_text n b = Ok (string_of (takeWhile (\<lambda>c. c \<noteq> 0) b))"
proof -
  obtain k where "n - length b = Suc k" using assms by (cases "n - length b") auto
  moreover from this have "takeWhile (\<lambda>c. c \<noteq> 0) (b @ replicate (Suc k) (0 :: u8)) = takeWhile (\<lambda>c. c \<noteq> 0) b"
    by (auto simp: takeWhile_append intro: takeWhile_eq_all_conv [THEN iffD2, symmetric])
  ultimately show ?thesis by (simp add: buffer_text_def Let_def)
qed

lemma JSON_read_receives:
  assumes "delivers os fd pending" "pending (world s) = message text @ rest" "no_nul text" "length text < 2 ^ 31 - 1"
  obtains s' where "run_state (JSON_read mem (\<lambda>_. mem) os junk fd) s = (Ok (cJSON_Parse (\<lambda>_. mem) (Some text)), s')" "pending (world s') = rest"
proof -
  obtain s1 where 1: "run_state (Nread os fd 4) s = ((4, be_bytes 4 (int (length text))), s1)"
      "pending (world s1) = bytes_of text @ rest"
    using Nread_all[OF assms(1), of 4 s] assms(2) by (auto simp: message_def)
  obtain s2 where 2: "run_state (Nread os fd (length text)) s1 = ((int (length text), bytes_of text), s2)"
      "pending (world s2) = rest"
    using Nread_all[OF assms(1), of "length text" s1] 1(2) assms(4) by auto
  have hs: "be_val (take 4 (overlay (be_bytes 4 (int (length text))) junk)) = int (length text)"
    using assms(4) by (simp add: overlay_def be_val_bytes)
  have tw: "takeWhile (\<lambda>c. c \<noteq> 0) (bytes_of text) = bytes_of text"
    using assms(3) by (auto simp: takeWhile_eq_all_conv bytes_of_nonzero)
  have n: "nat ((int (length text) + 1) mod 2 ^ 32) = Suc (length text)" using assms(4) by (simp add: nat_add_distrib)
  show thesis using that[of s2] 1 2 hs assms(4) n
    by (simp add: JSON_read_def Let_def tw buffer_text_room)
qed

section \<open>Objects made of fields\<close>

text \<open>The item of a field, and what the parser makes of its text.\<close>

fun field_item :: "string \<Rightarrow> jval \<Rightarrow> cJSON" where
  "field_item name JTrue = Item cJSON_True None 0 (Fin 0) (Some name) []"
| "field_item name (JNumber d) = Item cJSON_Number None (saturate d) d (Some name) []"
| "field_item name (JString s) = Item cJSON_String (Some s) 0 (Fin 0) (Some name) []"

fun read_item :: "string \<Rightarrow> jval \<Rightarrow> cJSON" where
  "read_item name JTrue = Item cJSON_True None 1 (Fin 0) (Some name) []"
| "read_item name v = field_item name v"

definition items :: "fields \<Rightarrow> cJSON list" where
  "items fs = map (\<lambda>(b, name, v). field_item name v) (filter fst fs)"

definition object_of :: "cJSON list \<Rightarrow> cJSON" where
  "object_of es = Item cJSON_Object None 0 (Fin 0) None es"

lemma create_object: "cJSON_CreateObject mem = Some (object_of [])"
  by (simp add: cJSON_CreateObject_def object_of_def)

lemma add_field_object: "add_field (Some (object_of es)) name v = Some (object_of (es @ [field_item name v]))"
  by (cases v) (simp_all add: add_field_def object_of_def cJSON_AddTrueToObject_def cJSON_AddNumberToObject_def
    cJSON_AddStringToObject_def cJSON_AddItemToObject_def cJSON_CreateTrue_def cJSON_CreateNumber_def cJSON_CreateText_def
    cJSON_CreateString_def cJSON_strdup_def cJSON_AddItemToArray_def json_types)

lemma add_fields_object: "add_fields fs (Some (object_of es)) = Some (object_of (es @ items fs))"
  by (induction fs arbitrary: es) (auto simp: add_fields_def items_def add_field_object)

fun valid_value :: "jval \<Rightarrow> bool" where
  "valid_value JTrue = True"
| "valid_value (JNumber d) \<longleftrightarrow> is_fin d \<and> dbl_ok d"
| "valid_value (JString s) \<longleftrightarrow> no_nul s"

definition valid_fields :: "fields \<Rightarrow> bool" where
  "valid_fields fs \<longleftrightarrow> (\<forall>(b, name, v) \<in> set fs. no_nul name \<and> (b \<longrightarrow> valid_value v))"

lemma field_item_facts:
  assumes "no_nul name" "valid_value v"
  shows "c_strings (field_item name v)" "scalar (field_item name v)" "reparse (field_item name v) = read_item name v"
  using assms by (cases v; simp add: opt_no_nul_def scalar_def json_types)+

lemma items_facts:
  assumes "valid_fields fs"
  shows "\<forall>c \<in> set (items fs). c_strings c" "\<forall>c \<in> set (items fs). scalar c"
    "map reparse (items fs) = map (\<lambda>(b, name, v). read_item name v) (filter fst fs)"
  using assms field_item_facts unfolding items_def valid_fields_def by fastforce+

text \<open>Looking up a field by its name, in any case.\<close>

lemma tolower_nul: "c \<noteq> CHR 0x00 \<Longrightarrow> chr_code (tolower c) \<noteq> 0"
proof -
  have "\<forall>c. c \<noteq> CHR 0x00 \<longrightarrow> chr_code (tolower c) \<noteq> 0" by code_simp
  then show "c \<noteq> CHR 0x00 \<Longrightarrow> ?thesis" by simp
qed

lemma ci_cmp_zero: "no_nul a \<Longrightarrow> no_nul b \<Longrightarrow> ci_cmp a b = 0 \<longleftrightarrow> map tolower a = map tolower b"
  by (induction a b rule: ci_cmp.induct) (auto simp: tolower_nul, simp add: chr_code_def)

definition keys_apart :: "fields \<Rightarrow> bool" where
  "keys_apart fs \<longleftrightarrow> distinct (map (\<lambda>(b, name, v). map tolower name) fs)"

lemma read_item_key [simp]: "jstring (read_item name v) = Some name"
  by (cases v) simp_all

lemma find_key_fields:
  assumes "keys_apart fs" "valid_fields fs" "no_nul name"
  shows "find_key False name (map (\<lambda>(b, k, v). read_item k v) (filter fst fs)) =
     Some (case find (\<lambda>(b, k, v). map tolower k = map tolower name) fs of
             Some (b, k, v) \<Rightarrow> if b then Some (read_item k v) else None
           | None \<Rightarrow> None)"
  using assms
proof (induction fs)
  case (Cons f fs)
  obtain b k v where f: "f = (b, k, v)" by (cases f)
  have "find (\<lambda>(b, k, v). map tolower k = map tolower name) fs = None" if "map tolower k = map tolower name"
    using Cons.prems(1) that by (force simp: find_None_iff keys_apart_def f)
  then show ?case using Cons
    by (auto simp: f keys_apart_def valid_fields_def case_insensitive_strcmp_def ci_cmp_zero)
qed simp

lemma find_apart:
  "keys_apart fs \<Longrightarrow> (b, name, v) \<in> set fs \<Longrightarrow>
     find (\<lambda>(b, k, v). map tolower k = map tolower name) fs = Some (b, name, v)"
  by (induction fs) (force simp: keys_apart_def)+

lemma lookup_field:
  assumes "keys_apart fs" "valid_fields fs" "(b, name, v) \<in> set fs"
  shows "cJSON_GetObjectItem (Some (object_of (map reparse (items fs)))) (Some name) =
     (if b then Some (read_item name v) else None)"
proof -
  have "no_nul name" using assms(2,3) by (auto simp: valid_fields_def)
  then show ?thesis
    using find_key_fields[OF assms(1,2)] find_apart[OF assms(1,3)]
    by (simp add: cJSON_GetObjectItem_def get_object_item_def object_of_def items_facts(3)[OF assms(2)])
qed

text \<open>The room that the text of an object needs, and its way over the connection.\<close>

fun value_room :: "jval \<Rightarrow> nat" where
  "value_room (JString s) = 6 * length s + 2"
| "value_room _ = 25"

definition fields_room :: "fields \<Rightarrow> nat" where
  "fields_room fs = (\<Sum>(b, name, v) \<leftarrow> fs. 6 * length name + value_room v + 4)"

lemma quoted_length: "length (quoted s) \<le> 6 * length (case s of None \<Rightarrow> [] | Some t \<Rightarrow> t) + 2"
proof -
  have "\<forall>c. length (escape_text c) \<le> 6" by code_simp
  then have "length (concat (map escape_text t)) \<le> 6 * length t" for t
    by (induction t) (auto simp: add.commute intro!: add_le_mono)
  then show ?thesis by (simp add: quoted_def)
qed

lemma field_text_length:
  assumes "print_spec False d (field_item name v) = Some t"
  shows "length t \<le> value_room v"
proof (cases v)
  case (JString s)
  then show ?thesis using assms quoted_length[of "Some s"] by (simp add: print_spec_kind json_types)
qed (use assms in \<open>auto simp: print_spec_kind json_types Let_def split: if_splits\<close>)

lemma members_room:
  assumes "members_spec False d (print_spec False d') (items fs) = Some r"
  shows "length r \<le> fields_room fs"
  using assms
proof (induction fs arbitrary: r)
  case (Cons f fs)
  obtain b k v where f: "f = (b, k, v)" by (cases f)
  show ?case
  proof (cases b)
    case True
    obtain t q where tq: "print_spec False d' (field_item k v) = Some t"
        "members_spec False d (print_spec False d') (items fs) = Some q"
        "length r \<le> length (quoted (Some k)) + length t + 2 + length q"
      using Cons.prems True f by (cases v) (auto simp: items_def split: option.splits if_splits)
    show ?thesis using tq(3) Cons.IH[OF tq(2)] field_text_length[OF tq(1)] quoted_length[of "Some k"] True
      by (simp add: f fields_room_def)
  next
    case False
    then show ?thesis using Cons by (simp add: f items_def fields_room_def)
  qed
qed (simp add: items_def fields_room_def)

lemma fields_text:
  assumes "valid_fields fs" "fields_room fs \<le> 2 ^ 30"
  obtains body where "cJSON_PrintUnformatted mem (object_of (items fs)) = Ok body" "no_nul body"
    "length body < 2 ^ 31 - 1" "cJSON_Parse (\<lambda>_. mem) (Some body) = Some (object_of (map reparse (items fs)))"
proof -
  let ?o = "object_of (items fs)"
  note facts = items_facts[OF assms(1)]
  have k: "kind ?o = cJSON_Object" by (simp add: object_of_def json_types)
  have cs: "c_strings ?o" using facts(1) by (simp add: object_of_def opt_no_nul_def list_all_iff)
  have "printable 1 ?o" using facts(2) k by (simp add: object_of_def)
  then have pr: "printable CJSON_NESTING_LIMIT ?o" by (rule printable_mono) (simp add: CJSON_NESTING_LIMIT_def)
  have len: "length t \<le> fields_room fs + 2" if "print_spec False 0 ?o = Some t" for t
    using that members_room[of 1 1 fs] k by (auto simp: print_spec_kind object_of_def)
  obtain t0 where "print_spec False 0 ?o = Some t0" using printable_prints[OF pr] by blast
  then have "length (the (print_spec False 0 ?o)) + 2 \<le> size_limit"
    using len assms(2) by (fastforce simp: size_limit_val)
  from print_then_parse[OF cs pr this] obtain t where t: "print_spec False 0 ?o = Some t" "print mem ?o False = Ok t"
      "cJSON_Parse (\<lambda>_. mem) (Some t) = Some (set_string None (reparse ?o))" by blast
  show thesis
  proof (rule that)
    show "cJSON_PrintUnformatted mem ?o = Ok t" using t(2) by (simp add: cJSON_PrintUnformatted_def)
    show "no_nul t" using print_spec_no_nul cs t(1) by blast
    show "length t < 2 ^ 31 - 1" using len[OF t(1)] assms(2) by simp
    show "cJSON_Parse (\<lambda>_. mem) (Some t) = Some (object_of (map reparse (items fs)))"
      using t(3) by (simp add: object_of_def json_types)
  qed
qed

section \<open>The parameters\<close>

definition in_int :: "int \<Rightarrow> bool" where
  "in_int n \<longleftrightarrow> - (2 ^ 31) \<le> n \<and> n < 2 ^ 31"

lemma c_int_in [simp]: "in_int n \<Longrightarrow> c_int n = n"
  by (simp add: in_int_def c_int_id)

lemma int_rat: "\<bar>n\<bar> \<le> 2 ^ 53 \<Longrightarrow> \<bar>of_int n :: rat\<bar> \<le> 2 ^ 53"
proof -
  assume "\<bar>n\<bar> \<le> 2 ^ 53"
  then have "of_int \<bar>n\<bar> \<le> (of_int (2 ^ 53) :: rat)" by (simp only: of_int_le_iff)
  then show ?thesis by simp
qed

lemma saturate_int: "\<bar>n\<bar> \<le> 2 ^ 53 \<Longrightarrow> saturate (d_of_int n) = n"
proof -
  assume n: "\<bar>n\<bar> \<le> 2 ^ 53"
  have "d_of_int LLONG_MAX = Fin 9223372036854775808" "d_of_int LLONG_MIN = Fin (- 9223372036854775808)" by code_simp+
  then show ?thesis using d_of_int_exact[OF n] int_rat[OF n]
    by (auto simp: saturate_def dle_def deq_def abs_le_iff)
qed

lemma number_valid: "\<bar>n\<bar> \<le> 2 ^ 53 \<Longrightarrow> valid_value (JNumber (d_of_int n))"
proof -
  assume n: "\<bar>n\<bar> \<le> 2 ^ 53"
  have "(2 :: rat) ^ 53 \<le> dbl_max" by code_simp
  then show ?thesis using d_of_int_exact[OF n] repr_int[OF n] int_rat[OF n] by (simp add: dbl_ok_def)
qed

text \<open>What the client's command line can set.\<close>

definition valid_opt :: "string option \<Rightarrow> bool" where
  "valid_opt s \<longleftrightarrow> (case s of None \<Rightarrow> True | Some t \<Rightarrow> no_nul t \<and> length t \<le> 2 ^ 24)"

definition valid_params :: "iperf_test \<Rightarrow> bool" where
  "valid_params c \<longleftrightarrow>
     t_protocol c \<in> {Ptcp, Pudp} \<and>
     list_all in_int [t_omit c, t_server_affinity c, t_duration c, t_num_streams c, t_get_server_output c,
       t_udp_counters_64bit c, t_repeating_payload c] \<and>
     (let cfg = t_settings c in
       list_all in_int [cfg_mss cfg, cfg_socket_bufsize cfg, cfg_blksize cfg, cfg_pacing_timer cfg, cfg_burst cfg,
         cfg_tos cfg, cfg_flowlabel cfg] \<and>
       list_all (\<lambda>w. uint w \<le> 2 ^ 53) [cfg_bytes cfg, cfg_blocks cfg, cfg_rate cfg, cfg_fqrate cfg]) \<and>
     list_all valid_opt [t_title c, t_extra_data c, t_congestion c, t_congestion_used c]"

definition param_names :: "string list" where
  "param_names = [''tcp'', ''udp'', ''sctp'', ''omit'', ''server_affinity'', ''time'', ''num'', ''blockcount'', ''MSS'', ''nodelay'',
      ''parallel'', ''reverse'', ''bidirectional'', ''window'', ''len'', ''bandwidth'', ''fqrate'', ''pacing_timer'', ''burst'',
      ''TOS'', ''flowlabel'', ''title'', ''extra_data'', ''congestion'', ''congestion_used'', ''get_server_output'',
      ''udp_counters_64bit'', ''repeating_payload'', ''client_version'']"

lemma param_names: "map (\<lambda>(b, name, v). name) (param_fields c) = param_names"
  by (simp add: param_fields_def opt_field_def Let_def param_names_def)

lemma param_keys: "keys_apart (param_fields c)"
proof -
  have "map (\<lambda>(b, name, v). map tolower name) (param_fields c) = map (map tolower) param_names"
    unfolding param_names[of c, symmetric] by auto
  moreover have "distinct (map (map tolower) param_names)" by code_simp
  ultimately show ?thesis by (simp only: keys_apart_def)
qed

lemma param_valid: "valid_params c \<Longrightarrow> valid_fields (param_fields c)"
proof -
  assume c: "valid_params c"
  have i: "valid_value (JNumber (d_of_int n))" if "in_int n" for n using that by (intro number_valid) (auto simp: in_int_def)
  have w: "valid_value (JNumber (d_of_u64 x))" if "uint x \<le> 2 ^ 53" for x
    unfolding d_of_u64_def using that by (intro number_valid) simp
  have s: "list_all (\<lambda>(b, n, v). b \<longrightarrow> valid_value v) [opt_field n s]"
    if "valid_opt s" for n s
    using that by (auto simp: opt_field_def valid_opt_def split: option.splits)
  have "list_all (\<lambda>(b, n, v). b \<longrightarrow> valid_value v) (param_fields c)"
    using c s unfolding param_fields_def valid_params_def Let_def
    by (simp add: i w IPERF_VERSION_def del: valid_value.simps(2))
  moreover have "list_all no_nul param_names" by code_simp
  then have "list_all no_nul (map (\<lambda>(b, name, v). name) (param_fields c))" by (simp only: param_names)
  ultimately show ?thesis by (fastforce simp: valid_fields_def list_all_iff)
qed

lemma param_room: "valid_params c \<Longrightarrow> fields_room (param_fields c) \<le> 2 ^ 30"
proof -
  assume c: "valid_params c"
  have s: "(case opt_field n s of (b, name, v) \<Rightarrow> 6 * length name + value_room v + 4) \<le> 6 * length n + 6 * 2 ^ 24 + 6"
    if "valid_opt s" for n s
    using that by (auto simp: opt_field_def valid_opt_def split: option.splits)
  have "(case opt_field ''title'' (t_title c) of (b, name, v) \<Rightarrow> 6 * length name + value_room v + 4) \<le> 6 * 2 ^ 24 + 100"
     "(case opt_field ''extra_data'' (t_extra_data c) of (b, name, v) \<Rightarrow> 6 * length name + value_room v + 4) \<le> 6 * 2 ^ 24 + 100"
     "(case opt_field ''congestion'' (t_congestion c) of (b, name, v) \<Rightarrow> 6 * length name + value_room v + 4) \<le> 6 * 2 ^ 24 + 100"
     "(case opt_field ''congestion_used'' (t_congestion_used c) of (b, name, v) \<Rightarrow> 6 * length name + value_room v + 4) \<le> 6 * 2 ^ 24 + 100"
    using c unfolding valid_params_def by (auto intro!: order_trans[OF s])
  then show ?thesis
    unfolding fields_room_def param_fields_def Let_def by (simp add: IPERF_VERSION_def)
qed

text \<open>
  What the server's test becomes: the client's parameters, where it sent them, and the direction
  that fits the client's.
\<close>

definition agreed_settings :: "iperf_settings \<Rightarrow> iperf_settings \<Rightarrow> iperf_settings" where
  "agreed_settings c s = s\<lparr>
     cfg_bytes := (if cfg_bytes c \<noteq> 0 then cfg_bytes c else cfg_bytes s),
     cfg_blocks := (if cfg_blocks c \<noteq> 0 then cfg_blocks c else cfg_blocks s),
     cfg_mss := (if cfg_mss c \<noteq> 0 then cfg_mss c else cfg_mss s),
     cfg_socket_bufsize := (if cfg_socket_bufsize c \<noteq> 0 then cfg_socket_bufsize c else cfg_socket_bufsize s),
     cfg_blksize := (if cfg_blksize c \<noteq> 0 then cfg_blksize c else cfg_blksize s),
     cfg_rate := (if cfg_rate c \<noteq> 0 then cfg_rate c else cfg_rate s),
     cfg_fqrate := (if cfg_fqrate c \<noteq> 0 then cfg_fqrate c else cfg_fqrate s),
     cfg_pacing_timer := (if cfg_pacing_timer c \<noteq> 0 then cfg_pacing_timer c else cfg_pacing_timer s),
     cfg_burst := (if cfg_burst c \<noteq> 0 then cfg_burst c else cfg_burst s),
     cfg_tos := (if cfg_tos c \<noteq> 0 then cfg_tos c else cfg_tos s),
     cfg_flowlabel := (if cfg_flowlabel c \<noteq> 0 then cfg_flowlabel c else cfg_flowlabel s)\<rparr>"

definition agreed_mode :: "iperf_test \<Rightarrow> int" where
  "agreed_mode c = (if t_bidirectional c then BIDIRECTIONAL else if t_reverse c then SENDER else RECEIVER)"

definition agreed :: "iperf_test \<Rightarrow> iperf_test \<Rightarrow> iperf_test" where
  "agreed c srv = srv\<lparr>
     t_protocol := t_protocol c, t_mode := agreed_mode c,
     t_sender_has_retransmits := (if agreed_mode c \<noteq> RECEIVER \<and> t_protocol c = Ptcp then 1 else 0),
     t_omit := t_omit c, t_duration := t_duration c, t_num_streams := t_num_streams c,
     t_server_affinity := (if t_server_affinity c \<noteq> -1 then t_server_affinity c else t_server_affinity srv),
     t_no_delay := (t_no_delay c \<or> t_no_delay srv), t_reverse := (t_reverse c \<or> t_reverse srv),
     t_bidirectional := (t_bidirectional c \<or> t_bidirectional srv),
     t_settings := agreed_settings (t_settings c) (t_settings srv),
     t_title := (if t_title c \<noteq> None then t_title c else t_title srv),
     t_extra_data := (if t_extra_data c \<noteq> None then t_extra_data c else t_extra_data srv),
     t_congestion := (if t_congestion c \<noteq> None then t_congestion c else t_congestion srv),
     t_congestion_used := (if t_congestion_used c \<noteq> None then t_congestion_used c else t_congestion_used srv),
     t_get_server_output := (if t_get_server_output c \<noteq> 0 then 1 else t_get_server_output srv),
     t_udp_counters_64bit := (if t_udp_counters_64bit c \<noteq> 0 then 1 else t_udp_counters_64bit srv),
     t_repeating_payload := (if t_repeating_payload c \<noteq> 0 then 1 else t_repeating_payload srv)\<rparr>"

text \<open>Running the actions of the server on the fields of the client, in their order.\<close>

definition field_step :: "(bool \<times> string \<times> jval) \<times> string \<times> action \<Rightarrow> iperf_test \<Rightarrow> iperf_test outcome" where
  "field_step z t = (case z of ((b, name, v), _, act) \<Rightarrow> if b then act (read_item name v) t else Ok t)"

lemma run_fields:
  assumes "keys_apart fs" "valid_fields fs" "length acts \<le> length fs"
    "map fst acts = map (\<lambda>(b, name, v). name) (take (length acts) fs)"
  shows "run_actions (object_of (map reparse (items fs))) acts t = fold (\<lambda>z m. obind m (field_step z)) (zip fs acts) (Ok t)"
proof -
  let ?F = "\<lambda>(name, act) m. obind m (\<lambda>test. case cJSON_GetObjectItem (Some (object_of (map reparse (items fs)))) (Some name) of
     None \<Rightarrow> Ok test | Some j_p \<Rightarrow> act j_p test)"
  have acts: "acts = map snd (zip fs acts)" using assms(3) by (simp add: map_snd_zip_take)
  have "(?F \<circ> snd) z = (\<lambda>m. obind m (field_step z))" if z: "z \<in> set (zip fs acts)" for z
  proof -
    obtain i where i: "i < length acts" "z = (fs ! i, acts ! i)" using z by (auto simp: set_zip)
    obtain b name v where f: "fs ! i = (b, name, v)" by (cases "fs ! i")
    have "fst (acts ! i) = name"
      using arg_cong[OF assms(4), of "\<lambda>l. l ! i"] i(1) assms(3) f by simp
    moreover have "(b, name, v) \<in> set fs" using i(1) assms(3) f nth_mem[of i fs] by simp
    ultimately show ?thesis using lookup_field[OF assms(1,2)]
      by (cases "acts ! i") (auto simp: i(2) f field_step_def fun_eq_iff intro!: arg_cong2[where f = obind])
  qed
  then have "fold (?F \<circ> snd) (zip fs acts) (Ok t) = fold (\<lambda>z m. obind m (field_step z)) (zip fs acts) (Ok t)"
    by (intro fold_cong) simp_all
  then show ?thesis unfolding run_actions_def by (subst acts) (simp only: fold_map)
qed

lemma step_number: "\<bar>n\<bar> \<le> 2 ^ 53 \<Longrightarrow> on_int f (read_item name (JNumber (d_of_int n))) t = Ok (f n t)"
  by (simp add: on_int_def saturate_int)

lemma step_string: "on_string f (read_item name (JString s)) t = Ok (f s t)"
  by (simp add: on_string_def)

lemma step_if: "(if b then Ok x else Ok y) = Ok (if b then x else y)"
  by simp

text \<open>A conditional value whose branches are simplified.\<close>

definition pick :: "bool \<Rightarrow> 'a \<Rightarrow> 'a \<Rightarrow> 'a" where
  "pick b v w = (if b then v else w)"

lemma if_update:
  "(if b then upd_settings f t else t) = t\<lparr>t_settings := pick b (f (t_settings t)) (t_settings t)\<rparr>"
  "(if b then t\<lparr>t_omit := n\<rparr> else t) = t\<lparr>t_omit := pick b n (t_omit t)\<rparr>"
  "(if b then t\<lparr>t_server_affinity := n\<rparr> else t) = t\<lparr>t_server_affinity := pick b n (t_server_affinity t)\<rparr>"
  "(if b then t\<lparr>t_duration := n\<rparr> else t) = t\<lparr>t_duration := pick b n (t_duration t)\<rparr>"
  "(if b then t\<lparr>t_num_streams := n\<rparr> else t) = t\<lparr>t_num_streams := pick b n (t_num_streams t)\<rparr>"
  "(if b then t\<lparr>t_no_delay := p\<rparr> else t) = t\<lparr>t_no_delay := pick b p (t_no_delay t)\<rparr>"
  "(if b then t\<lparr>t_title := s\<rparr> else t) = t\<lparr>t_title := pick b s (t_title t)\<rparr>"
  "(if b then t\<lparr>t_extra_data := s\<rparr> else t) = t\<lparr>t_extra_data := pick b s (t_extra_data t)\<rparr>"
  "(if b then t\<lparr>t_congestion := s\<rparr> else t) = t\<lparr>t_congestion := pick b s (t_congestion t)\<rparr>"
  "(if b then t\<lparr>t_congestion_used := s\<rparr> else t) = t\<lparr>t_congestion_used := pick b s (t_congestion_used t)\<rparr>"
  "(if b then t\<lparr>t_get_server_output := n\<rparr> else t) = t\<lparr>t_get_server_output := pick b n (t_get_server_output t)\<rparr>"
  "(if b then t\<lparr>t_udp_counters_64bit := n\<rparr> else t) = t\<lparr>t_udp_counters_64bit := pick b n (t_udp_counters_64bit t)\<rparr>"
  "(if b then t\<lparr>t_repeating_payload := n\<rparr> else t) = t\<lparr>t_repeating_payload := pick b n (t_repeating_payload t)\<rparr>"
  by (simp_all add: pick_def upd_settings_def)

lemma if_settings:
  "pick b (q\<lparr>cfg_bytes := w\<rparr>) q = q\<lparr>cfg_bytes := pick b w (cfg_bytes q)\<rparr>"
  "pick b (q\<lparr>cfg_blocks := w\<rparr>) q = q\<lparr>cfg_blocks := pick b w (cfg_blocks q)\<rparr>"
  "pick b (q\<lparr>cfg_rate := w\<rparr>) q = q\<lparr>cfg_rate := pick b w (cfg_rate q)\<rparr>"
  "pick b (q\<lparr>cfg_fqrate := w\<rparr>) q = q\<lparr>cfg_fqrate := pick b w (cfg_fqrate q)\<rparr>"
  "pick b (q\<lparr>cfg_mss := n\<rparr>) q = q\<lparr>cfg_mss := pick b n (cfg_mss q)\<rparr>"
  "pick b (q\<lparr>cfg_socket_bufsize := n\<rparr>) q = q\<lparr>cfg_socket_bufsize := pick b n (cfg_socket_bufsize q)\<rparr>"
  "pick b (q\<lparr>cfg_blksize := n\<rparr>) q = q\<lparr>cfg_blksize := pick b n (cfg_blksize q)\<rparr>"
  "pick b (q\<lparr>cfg_pacing_timer := n\<rparr>) q = q\<lparr>cfg_pacing_timer := pick b n (cfg_pacing_timer q)\<rparr>"
  "pick b (q\<lparr>cfg_burst := n\<rparr>) q = q\<lparr>cfg_burst := pick b n (cfg_burst q)\<rparr>"
  "pick b (q\<lparr>cfg_tos := n\<rparr>) q = q\<lparr>cfg_tos := pick b n (cfg_tos q)\<rparr>"
  "pick b (q\<lparr>cfg_flowlabel := n\<rparr>) q = q\<lparr>cfg_flowlabel := pick b n (cfg_flowlabel q)\<rparr>"
  by (simp_all add: pick_def upd_settings_def)

lemma if_reverse:
  "t_role t = CHR ''s'' \<Longrightarrow> t_mode t = RECEIVER \<Longrightarrow> (if b then iperf_set_test_reverse t True else t) =
     t\<lparr>t_reverse := (b \<or> t_reverse t), t_mode := pick b SENDER RECEIVER,
       t_sender_has_retransmits := pick b (if t_protocol t = Ptcp then 1 else 0) (t_sender_has_retransmits t)\<rparr>"
  by (simp add: iperf_set_test_reverse_def check_sender_has_retransmits_def has_tcpinfo_retransmits_def iperf_modes pick_def)

lemma if_bidirectional:
  "(if b then iperf_set_test_bidirectional t True else t) =
     t\<lparr>t_bidirectional := (b \<or> t_bidirectional t), t_mode := pick b BIDIRECTIONAL (t_mode t)\<rparr>"
  by (simp add: iperf_set_test_bidirectional_def pick_def)

lemma param_step:
  "field_step ((b, n, JTrue), m, on_flag g) t = Ok (if b then g t else t)"
  "in_int k \<Longrightarrow> field_step ((b, n, JNumber (d_of_int k)), m, on_int f) t = Ok (if b then f k t else t)"
  "uint w \<le> 2 ^ 53 \<Longrightarrow> field_step ((b, n, JNumber (d_of_u64 w)), m, on_int f) t = Ok (if b then f (uint w) t else t)"
  "field_step ((b, n, JNumber d), m, on_flag g) t = Ok (if b then g t else t)"
  "field_step (opt_field n s, m, on_string (\<lambda>s t. t\<lparr>t_title := Some s\<rparr>)) t = Ok (t\<lparr>t_title := pick (s \<noteq> None) s (t_title t)\<rparr>)"
  "field_step (opt_field n s, m, on_string (\<lambda>s t. t\<lparr>t_extra_data := Some s\<rparr>)) t =
     Ok (t\<lparr>t_extra_data := pick (s \<noteq> None) s (t_extra_data t)\<rparr>)"
  "field_step (opt_field n s, m, on_string (\<lambda>s t. t\<lparr>t_congestion := Some s\<rparr>)) t =
     Ok (t\<lparr>t_congestion := pick (s \<noteq> None) s (t_congestion t)\<rparr>)"
  "field_step (opt_field n s, m, on_string (\<lambda>s t. t\<lparr>t_congestion_used := Some s\<rparr>)) t =
     Ok (t\<lparr>t_congestion_used := pick (s \<noteq> None) s (t_congestion_used t)\<rparr>)"
  by (auto simp: field_step_def on_flag_def on_int_def on_string_def opt_field_def saturate_int in_int_def d_of_u64_def pick_def)

definition final_params :: "iperf_test \<Rightarrow> iperf_test" where
  "final_params t = (if t_mode t \<noteq> 0 \<and> t_protocol t = Ptcp \<and> has_tcpinfo_retransmits
     then t\<lparr>t_sender_has_retransmits := 1\<rparr> else t)"

lemma protocol_step:
  assumes "P \<in> set (t_protocols srv)" "t_mode srv = RECEIVER"
  shows "snd (set_protocol srv P) = srv\<lparr>t_protocol := P, t_sender_has_retransmits := 0\<rparr>"
  using assms by (simp add: set_protocol_def check_sender_has_retransmits_def)

lemmas param_run = param_fields_def param_actions_def Let_def param_step if_update if_settings if_reverse if_bidirectional

lemma params_applied:
  assumes "valid_params c" "t_role srv = CHR ''s''" "t_mode srv = RECEIVER" "{Ptcp, Pudp} \<subseteq> set (t_protocols srv)"
  shows "\<exists>t. fold (\<lambda>z m. obind m (field_step z)) (zip (param_fields c) param_actions) (Ok srv) = Ok t \<and> final_params t = agreed c srv"
proof -
  let ?G = "\<lambda>z m. obind m (field_step z)"
  define t where "t = srv\<lparr>t_protocol := t_protocol c, t_sender_has_retransmits := 0\<rparr>"
  have prot: "Pudp \<noteq> Ptcp" "Psctp \<noteq> Ptcp" "Psctp \<noteq> Pudp" by (simp_all add: Ptcp_def Pudp_def Psctp_def SOCK_STREAM_def SOCK_DGRAM_def)
  have "fold ?G (take 3 (zip (param_fields c) param_actions)) (Ok srv) = Ok t"
    using assms prot by (auto simp: param_run protocol_step valid_params_def t_def)
  moreover have "fold ?G (drop 3 (zip (param_fields c) param_actions)) (Ok t) =
      Ok ((agreed c srv)\<lparr>t_sender_has_retransmits := if t_reverse c \<and> t_protocol c = Ptcp then 1 else 0\<rparr>)" (is "_ = Ok ?u")
    using assms(1) unfolding valid_params_def Let_def
    by (simp add: param_run t_def assms(2,3) split del: if_split) (simp add: agreed_def agreed_settings_def agreed_mode_def pick_def assms(3))
  moreover have "final_params ?u = agreed c srv"
    by (auto simp: final_params_def agreed_def agreed_mode_def has_tcpinfo_retransmits_def iperf_modes)
  ultimately show ?thesis
    by (metis append_take_drop_id fold_append comp_apply)
qed

lemma server_reads_params:
  assumes "valid_params c" "t_role srv = CHR ''s''" "t_mode srv = RECEIVER" "{Ptcp, Pudp} \<subseteq> set (t_protocols srv)"
  shows "map_outcome final_params (run_actions (object_of (map reparse (items (param_fields c)))) param_actions srv) =
     Ok (agreed c srv)"
proof -
  have "length param_actions \<le> length (param_fields c)" "map fst param_actions = map (\<lambda>(b, name, v). name) (take (length param_actions) (param_fields c))"
    by (simp_all add: param_actions_def param_fields_def Let_def opt_field_def)
  then show ?thesis
    using params_applied[OF assms] run_fields[OF param_keys param_valid[OF assms(1)]] by auto
qed

text \<open>The server notes the target rate for its report.\<close>

definition note_rate :: "iperf_test \<Rightarrow> iperf_test" where
  "note_rate t = (if cfg_rate (t_settings t) \<noteq> 0
     then t\<lparr>t_json_start := cJSON_AddNumberToObject (t_json_start t) ''target_bitrate'' (d_of_u64 (cfg_rate (t_settings t)))\<rparr>
     else t)"

text \<open>
  C1. The exchange of parameters: over a connection that takes and delivers the bytes in pieces of
  any size, \<open>send_parameters\<close> of the client succeeds, and \<open>get_parameters\<close> of the server
  turns its test into the one agreed upon: the client's protocol, times, number of streams, sizes, rates, options and strings,
  and the opposite direction. The text is printed, framed, cut into pieces, reassembled and parsed on
  the way.
\<close>

theorem parameters_agree:
  assumes "valid_params c" "takes_data osc (t_ctrl_sck c)"
    and "run_state (send_parameters osc c) s = ((r, c'), s')"
    and "t_role srv = CHR ''s''" "t_mode srv = RECEIVER" "{Ptcp, Pudp} \<subseteq> set (t_protocols srv)"
    and "delivers oss (t_ctrl_sck srv) pending"
    and "sent (t_ctrl_sck c) (calls s') = sent (t_ctrl_sck c) (calls s) @ pending (world u)"
  shows "r = 0 \<and> c' = c \<and> fst (run_state (get_parameters oss junk srv) u) = Ok (0, note_rate (agreed c srv))"
proof -
  obtain body where b: "cJSON_PrintUnformatted mem (object_of (items (param_fields c))) = Ok body" "no_nul body"
      "length body < 2 ^ 31 - 1" "cJSON_Parse (\<lambda>_. mem) (Some body) = Some (object_of (map reparse (items (param_fields c))))"
    using fields_text[OF param_valid[OF assms(1)] param_room[OF assms(1)]] by blast
  have obj: "add_fields (param_fields c) (cJSON_CreateObject mem) = Some (object_of (items (param_fields c)))"
    using add_fields_object[of "param_fields c" "[]"] by (simp only: create_object append_Nil)
  obtain s1 where "run_state (JSON_write osc (t_ctrl_sck c) (object_of (items (param_fields c)))) s = (0, s1)"
      "sent (t_ctrl_sck c) (calls s1) = sent (t_ctrl_sck c) (calls s) @ message body"
    using JSON_write_sends[OF assms(2) b(1), of s] b(3) by auto
  then have c: "r = 0" "c' = c" "pending (world u) = message body"
    using assms(3,8) by (auto simp: send_parameters_def obj)
  obtain u' where "run_state (JSON_read mem (\<lambda>_. mem) oss junk (t_ctrl_sck srv)) u =
      (Ok (Some (object_of (map reparse (items (param_fields c))))), u')"
    using JSON_read_receives[OF assms(7) _ b(2,3), of u "[]" junk] c(3) b(4) by auto
  then show ?thesis using c(1,2) server_reads_params[OF assms(1,4,5,6)]
    by (cases "run_actions (object_of (map reparse (items (param_fields c)))) param_actions srv")
      (auto simp: get_parameters_def final_params_def note_rate_def Let_def)
qed

text \<open>A client with three streams in reverse direction, a new server, and a connection that brings two bytes at a time.\<close>

definition demo_client :: iperf_test where
  "demo_client = (iperf_set_test_reverse (iperf_set_test_role (iperf_defaults iperf_new_test) (CHR ''c'')) True)
     \<lparr>t_num_streams := 3, t_title := Some ''run 1''\<rparr>"

definition demo_server :: iperf_test where
  "demo_server = iperf_set_test_role (iperf_defaults iperf_new_test) (CHR ''s'')"

definition pipe_os :: "u8 list os" where
  "pipe_os c w = (case c of
       Read f n \<Rightarrow> let k = min n (min 2 (length w)) in
         (\<lparr>s_ret = int k, s_err = 0, s_bytes = take k w, s_val = 0, s_fam = 0, s_rset = {}, s_wset = {}, s_vals = []\<rparr>, drop k w)
     | _ \<Rightarrow> (\<lparr>s_ret = 0, s_err = 0, s_bytes = [], s_val = 0, s_fam = 0, s_rset = {}, s_wset = {}, s_vals = []\<rparr>, w))"

lemma demo_connection: "takes_data demo_io fd" "delivers pipe_os fd (\<lambda>w. w)"
  by (auto simp: takes_data_def demo_io_def delivers_def pipe_os_def Let_def neq_Nil_conv)

theorem parameters_agree_witness:
  "case run_state (send_parameters demo_io demo_client) net0 of ((r, c'), s') \<Rightarrow>
     r = 0 \<and> fst (run_state (get_parameters pipe_os [] demo_server)
       \<lparr>world = sent (-1) (calls s'), errno = 0, gerror = 0, calls = []\<rparr>) =
     Ok (0, note_rate (agreed demo_client demo_server))"
proof -
  let ?u = "\<lambda>s' :: unit net. \<lparr>world = sent (-1) (calls s'), errno = 0, gerror = 0, calls = []\<rparr>"
  note defs = demo_client_def demo_server_def iperf_set_test_reverse_def iperf_set_test_role_def iperf_defaults_def
    iperf_new_test_def set_protocol_def check_sender_has_retransmits_def Let_def
  have "valid_params demo_client"
    by (simp add: valid_params_def valid_opt_def in_int_def defs IPERF_VERSION_def DEFAULT_TCP_BLKSIZE_def OMIT_def DURATION_def
      no_nul_def)
  moreover have "t_ctrl_sck demo_client = -1" "t_role demo_server = CHR ''s''" "t_mode demo_server = RECEIVER"
      "{Ptcp, Pudp} \<subseteq> set (t_protocols demo_server)" by (simp_all add: defs)
  moreover have "sent (-1) (calls net0) = []" by (simp add: net0_def sent_def)
  moreover obtain r c' s' where "run_state (send_parameters demo_io demo_client) net0 = ((r, c'), s')" by (metis surj_pair)
  ultimately show ?thesis
    using parameters_agree[where c = demo_client and srv = demo_server and osc = demo_io and oss = pipe_os and pending = "\<lambda>w. w"
        and s = net0 and u = "?u s'" and junk = "[]"] demo_connection by simp
qed

section \<open>What a peer can do\<close>

lemma be_val_less: "be_val bs < 256 ^ length bs"
proof (induction bs rule: rev_induct)
  case (snoc b bs)
  have "uint b < 256" using uint_lt2p[of b] by simp
  then have "be_val bs * 256 + uint b < (256 ^ length bs) * 256" using snoc by linarith
  then show ?case by (simp add: be_val_snoc)
qed (simp add: be_val_def)

lemma be_val_nonneg: "0 \<le> be_val bs"
  by (induction bs rule: rev_induct) (simp_all add: be_val_snoc be_val_def)

text \<open>
  C32. The buffer of \<open>JSON_read\<close>. On a system that obeys the contract of \<open>read\<close>, a message whose length and
  body are read completely is parsed as the text up to its first zero byte, and the bytes stored and the
  terminator looked for stay inside the buffer; a fault happens in exactly one case: the peer announces \<open>0xFFFFFFFF\<close> bytes, for which
  \<open>hsize + 1\<close> wraps around to an empty buffer, the allocation of it succeeds, and at least one byte arrives.
\<close>

theorem JSON_read_overflow:
  assumes "io_law os" "run_state (Nread os fd 4) s = ((r1, b1), s1)"
    and "hsize = be_val (take 4 (overlay b1 junk))" "run_state (Nread os fd (nat hsize)) s1 = ((rc, b2), s2)"
  shows "(fst (run_state (JSON_read can pcan os junk fd) s) = Fault \<longleftrightarrow>
      0 \<le> r1 \<and> hsize = 2 ^ 32 - 1 \<and> can 0 \<and> b2 \<noteq> []) \<and>
    (0 \<le> r1 \<and> rc = hsize \<and> can (nat (hsize + 1)) \<longrightarrow>
      run_state (JSON_read can pcan os junk fd) s =
        (Ok (cJSON_Parse pcan (Some (string_of (takeWhile (\<lambda>c. c \<noteq> 0) b2)))), s2))"
proof -
  obtain e nl b t where l: "Nread_loop os fd (nat hsize) [] s1 = ((e, nl, b), t)" by (metis surj_pair)
  note st = Nread_loop_step [OF assms(1) l]
  have h: "0 \<le> hsize" "hsize < 2 ^ 32"
    using be_val_nonneg be_val_less [of "take 4 (overlay b1 junk)"]
      power_increasing [of "length (take 4 (overlay b1 junk))" 4 "256 :: int"] assms(3) by auto
  have len: "length b2 \<le> nat hsize" and rc: "rc < 2 ^ 31"
    using assms(4) l st sint_less [of "word_of_int (int (nat hsize - nl)) :: u32"]
    by (auto simp: Nread_def c_int_def NET_HARDERROR_def)
  show ?thesis
  proof (cases "hsize = 2 ^ 32 - 1")
    case True
    then have n: "nat ((hsize + 1) mod 2 ^ 32) = 0" and "rc \<noteq> hsize" using rc by auto
    then show ?thesis using assms(2-4) True by (simp add: JSON_read_def Let_def)
  next
    case False
    then have n: "nat ((hsize + 1) mod 2 ^ 32) = nat (hsize + 1)" using h by simp
    have room: "length b2 < nat (hsize + 1)" using len h by simp
    then show ?thesis using assms(2-4) False n h by (auto simp: JSON_read_def Let_def buffer_text_room)
  qed
qed

text \<open>A peer that announces \<open>0xFFFFFFFF\<close> bytes and sends one.\<close>

definition wrap_os :: "nat os" where
  "wrap_os c w = (case c of
       Read f n \<Rightarrow> (\<lparr>s_ret = (if w = 0 then int (min n 4) else if w = 1 then int (min n 1) else 0), s_err = 0,
          s_bytes = (if w = 0 then take n [255, 255, 255, 255] else if w = 1 then take n [65] else []), s_val = 0, s_fam = 0, s_rset = {}, s_wset = {}, s_vals = []\<rparr>, w + 1)
     | _ \<Rightarrow> (\<lparr>s_ret = 0, s_err = 0, s_bytes = [], s_val = 0, s_fam = 0, s_rset = {}, s_wset = {}, s_vals = []\<rparr>, w))"

theorem JSON_read_overflow_witness:
  "fst (run_state (JSON_read mem (\<lambda>_. mem) wrap_os [] 5) \<lparr>world = 0, errno = 0, gerror = 0, calls = []\<rparr>) = Fault"
proof -
  let ?s = "\<lparr>world = 0, errno = 0, gerror = 0, calls = []\<rparr> :: nat net"
  have law: "io_law wrap_os" by (auto simp: io_law_def wrap_os_def)
  obtain r1 b1 s1 where 1: "run_state (Nread wrap_os 5 4) ?s = ((r1, b1), s1)" by (metis surj_pair)
  then have a: "r1 = 4" "b1 = [255, 255, 255, 255]" "world s1 = 1"
    by (auto simp: Nread_def Nread_loop.simps run_sys wrap_os_def c_int_id)
  then have h: "be_val (take 4 (overlay b1 [])) = 2 ^ 32 - 1" by (simp add: overlay_def be_val_def)
  obtain rc b2 s2 where 2: "run_state (Nread wrap_os 5 (nat (2 ^ 32 - 1))) s1 = ((rc, b2), s2)" by (metis surj_pair)
  then have "b2 = [65]" using a by (auto simp: Nread_def Nread_loop.simps run_sys wrap_os_def)
  with JSON_read_overflow [OF law 1 h [symmetric] 2] a show ?thesis by simp
qed

text \<open>
  The server takes the copy of a string without asking for its type: a peer that sends a number
  as the title makes it read through \<open>NULL\<close>.
\<close>

theorem title_not_a_string:
  "run_actions (object_of [Item cJSON_Number None 1 (Fin 1) (Some ''title'') []]) param_actions test = Fault"
proof -
  let ?j = "object_of [Item cJSON_Number None 1 (Fin 1) (Some ''title'') []]"
  let ?F = "\<lambda>(name, act) m. obind m (\<lambda>test. case cJSON_GetObjectItem (Some ?j) (Some name) of
     None \<Rightarrow> Ok test | Some j_p \<Rightarrow> act j_p test)"
  have get: "cJSON_GetObjectItem (Some ?j) (Some n) =
      (if ci_cmp n ''title'' = 0 then Some (Item cJSON_Number None 1 (Fin 1) (Some ''title'') []) else None)" for n
    by (simp add: cJSON_GetObjectItem_def get_object_item_def object_of_def case_insensitive_strcmp_def)
  have skip: "fold ?F acts (Ok test) = Ok test" if "list_all (\<lambda>n. ci_cmp n ''title'' \<noteq> 0) (map fst acts)" for acts
    using that by (induction acts) (auto simp: get)
  have stay: "fold ?F acts Fault = Fault" for acts by (induction acts) auto
  have pre: "param_actions = take 21 param_actions @ (''title'', on_string (\<lambda>s t. t\<lparr>t_title := Some s\<rparr>)) # drop 22 param_actions"
    by (simp add: param_actions_def)
  have "map fst (take 21 param_actions) = take 21 param_names" by (simp add: param_actions_def param_names_def)
  moreover have "list_all (\<lambda>n. ci_cmp n ''title'' \<noteq> 0) (take 21 param_names)" "ci_cmp ''title'' ''title'' = 0" by code_simp+
  ultimately have a: "fold ?F (take 21 param_actions) (Ok test) = Ok test" by (intro skip) (simp only:)
  have b: "?F (''title'', on_string (\<lambda>s t. t\<lparr>t_title := Some s\<rparr>)) (Ok test) = Fault"
    using \<open>ci_cmp ''title'' ''title'' = 0\<close> by (simp add: get on_string_def)
  show ?thesis unfolding run_actions_def by (subst pre) (simp only: fold_append comp_apply fold_simps a b stay)
qed

end
