(* ===== verification/Streams_Laws.thy ===== *)
theory Streams_Laws
  imports Stats Exchange_Laws
begin

text \<open>
  What the counters of a test mean: the bytes a test has sent are those of its streams, and the
  intervals of a stream add up to its total, through sending, receiving, throttling, interval
  statistics and the end of the omitted period.
\<close>

text \<open>A condition on the result when there is no undefined behaviour.\<close>

definition on_ok :: "('a \<Rightarrow> bool) \<Rightarrow> 'a outcome \<Rightarrow> bool" where
  "on_ok P m \<longleftrightarrow> (case m of Ok x \<Rightarrow> P x | _ \<Rightarrow> True)"

lemma on_ok_simps [simp]: "on_ok P (Ok x) = P x" "on_ok P (Err n)" "on_ok P Fault" "on_ok P Timeout"
  by (simp_all add: on_ok_def)

lemma on_ok_obind [simp]: "on_ok P (obind m f) = on_ok (\<lambda>x. on_ok P (f x)) m"
  by (cases m) auto

lemma wp_bindI: "wp m R s \<Longrightarrow> (\<And>r s'. R r s' \<Longrightarrow> wp (f r) Q s') \<Longrightarrow> wp (m \<bind> f) Q s"
  unfolding wp_bind by (rule wp_mono)

lemma wp_True: "wp m (\<lambda>r s'. True) s"
  by (rule wp_I) simp

section \<open>The accounts of a test\<close>

definition sent_net :: "iperf_stream \<Rightarrow> u64" where
  "sent_net sp = res_bytes_sent (sp_result sp) - res_bytes_sent_omit (sp_result sp)"

definition stream_total :: "iperf_stream \<Rightarrow> u64" where
  "stream_total sp = (if sp_sender sp then sent_net sp else res_bytes_received (sp_result sp))"

definition open_interval :: "iperf_stream \<Rightarrow> u64" where
  "open_interval sp = (if sp_sender sp then res_bytes_sent_this_interval (sp_result sp)
     else res_bytes_received_this_interval (sp_result sp))"

definition reported :: "iperf_stream \<Rightarrow> u64" where
  "reported sp = (\<Sum>ir \<leftarrow> filter (\<lambda>ir. \<not> ir_omitted ir) (res_interval_results (sp_result sp)). ir_bytes_transferred ir)"

text \<open>While omitting, only omitted intervals are listed; after that, the others and the open one make up the total.\<close>

definition interval_ok :: "bool \<Rightarrow> iperf_stream \<Rightarrow> bool" where
  "interval_ok omitting sp \<longleftrightarrow>
     (if omitting then (\<forall>ir \<in> set (res_interval_results (sp_result sp)). ir_omitted ir)
      else reported sp + open_interval sp = stream_total sp)"

definition accounts :: "iperf_test \<Rightarrow> bool" where
  "accounts test \<longleftrightarrow> t_bytes_sent test = (\<Sum>sp \<leftarrow> t_streams test. sent_net sp) \<and>
     (\<forall>sp \<in> set (t_streams test). interval_ok (t_omitting test) sp)"

lemmas account_defs = sent_net_def stream_total_def open_interval_def reported_def interval_ok_def

lemma interval_ok_sent:
  assumes "sp_sender sp" "sp_sender sp' = sp_sender sp" "sp_result sp' = add_sent r (sp_result sp)"
  shows "interval_ok om sp \<Longrightarrow> interval_ok om sp'" "sent_net sp' = sent_net sp + word_of_int r"
  using assms by (auto simp: account_defs add_sent_def algebra_simps)

lemma interval_ok_received:
  assumes "\<not> sp_sender sp" "sp_sender sp' = sp_sender sp" "sp_result sp' = add_received r (sp_result sp)"
  shows "interval_ok om sp \<Longrightarrow> interval_ok om sp'" "sent_net sp' = sent_net sp"
  using assms by (auto simp: account_defs add_received_def algebra_simps)

lemma interval_ok_same:
  assumes "sp_sender sp' = sp_sender sp" "sp_result sp' = sp_result sp"
  shows "interval_ok om sp' = interval_ok om sp" "sent_net sp' = sent_net sp"
  using assms by (simp_all add: account_defs)

section \<open>The send function of a stream\<close>

text \<open>
  The contract of the pointer \<open>snd\<close>: a count of bytes that is not negative is added to the result of
  the stream, and an error adds nothing; of the test, only \<open>done\<close> may change.
\<close>

definition same_but_done :: "iperf_test \<Rightarrow> iperf_test \<Rightarrow> bool" where
  "same_but_done test test' \<longleftrightarrow> test' = test\<lparr>t_done := t_done test'\<rparr>"

lemma same_but_done_simps [simp]: "same_but_done test test" "same_but_done test (test\<lparr>t_done := d\<rparr>)"
  by (simp_all add: same_but_done_def)

lemma same_but_done_trans: "same_but_done a b \<Longrightarrow> same_but_done b c \<Longrightarrow> same_but_done a c"
  by (cases a, cases b, cases c) (simp add: same_but_done_def)

lemma same_but_done_fields:
  "same_but_done test test' \<Longrightarrow> t_bytes_sent test' = t_bytes_sent test \<and> t_omitting test' = t_omitting test"
  by (cases test, cases test') (simp add: same_but_done_def)

definition send_law :: "int \<Rightarrow> iperf_test \<Rightarrow> iperf_stream \<Rightarrow> iperf_test \<Rightarrow> iperf_stream \<Rightarrow> bool" where
  "send_law r test sp test' sp' \<longleftrightarrow> sp_sender sp' = sp_sender sp \<and>
     sp_result sp' = (if r < 0 then sp_result sp else add_sent r (sp_result sp)) \<and> same_but_done test test'"

locale sender =
  fixes tx :: "'w transfer"
  assumes tx_law: "wp (tx test sp) (\<lambda>(r, test', sp') s'. send_law r test sp test' sp') s"
begin

lemma wp_tx: "(\<And>r test' sp' s'. send_law r test sp test' sp' \<Longrightarrow> Q (r, test', sp') s') \<Longrightarrow> wp (tx test sp) Q s"
  by (rule wp_mono[OF tx_law]) auto

end

lemma throttle_keeps:
  "iperf_check_throttle now (test, sp) = Ok (test', sp') \<Longrightarrow>
     sp_sender sp' = sp_sender sp \<and> sp_result sp' = sp_result sp \<and> t_bytes_sent test' = t_bytes_sent test \<and>
     t_omitting test' = t_omitting test \<and> t_streams test' = t_streams test"
  by (auto simp: iperf_check_throttle_def Let_def split: if_splits option.splits)

definition round_ok :: "u64 \<Rightarrow> bool \<Rightarrow> iperf_test \<Rightarrow> iperf_stream list \<Rightarrow> bool" where
  "round_ok c om test sps \<longleftrightarrow> t_bytes_sent test = c + (\<Sum>sp \<leftarrow> sps. sent_net sp) \<and> t_omitting test = om \<and>
     (\<forall>sp \<in> set sps. interval_ok om sp)"

lemma accounts_round: "accounts test \<longleftrightarrow> round_ok 0 (t_omitting test) test (t_streams test)"
  by (auto simp: accounts_def round_ok_def)

lemma round_ok_Cons:
  "round_ok c om test (sp # sps) \<longleftrightarrow> interval_ok om sp \<and> round_ok (c + sent_net sp) om test sps"
  by (auto simp: round_ok_def algebra_simps)

lemma round_ok_cong:
  "t_bytes_sent test' = t_bytes_sent test \<Longrightarrow> t_omitting test' = t_omitting test \<Longrightarrow>
     round_ok c om test' sps = round_ok c om test sps"
  by (simp add: round_ok_def)

context sender
begin

lemma wp_send_round:
  assumes "round_ok c om test sps"
  shows "wp (send_round tx k now ws test act sps) (\<lambda>m s'. on_ok (\<lambda>(e, act', test', sps'). round_ok c om test' sps') m) s"
  using assms
proof (induction sps arbitrary: c test act s)
  case Nil
  then show ?case by (simp add: c_simps)
next
  case (Cons sp sps)
  let ?Q = "\<lambda>m s'. on_ok (\<lambda>(e, act', test', sps'). round_ok c om test' sps') m"
  have ok: "interval_ok om sp" "round_ok (c + sent_net sp) om test sps" using Cons.prems by (auto simp: round_ok_Cons)
  have rest: "wp (send_round tx k now ws test' act' sps) (\<lambda>m. wp (ret (after_stream sp' m)) ?Q) s'"
    if "interval_ok om sp'" "round_ok (c + sent_net sp') om test' sps" for sp' test' act' s'
    by (rule wp_mono[OF Cons.IH[OF that(2)]]) (simp add: c_simps after_stream_def round_ok_Cons that(1) split_beta)
  show ?case
  proof (cases "may_send ws sp")
    case False
    then show ?thesis using rest[OF ok] by (simp add: wp_bind)
  next
    case True
    have sent: "interval_ok om sp2 \<and> round_ok (c + sent_net sp2) om test2 sps"
      if "send_law r test sp test0 sp1" "\<not> r < 0" "count_sent now r test0 sp1 = Ok (test2, sp2)" for r test0 sp1 test2 sp2
    proof -
      have 1: "sp_sender sp1 = sp_sender sp" "sp_result sp1 = add_sent r (sp_result sp)"
        using that(1,2) by (auto simp: send_law_def)
      have 2: "t_bytes_sent test0 = t_bytes_sent test" "t_omitting test0 = t_omitting test"
        using that(1) by (auto simp: send_law_def dest: same_but_done_fields)
      have 3: "sp_sender sp2 = sp_sender sp1" "sp_result sp2 = sp_result sp1"
          "t_bytes_sent test2 = t_bytes_sent test0 + word_of_int r" "t_omitting test2 = t_omitting test0"
        using that(3) by (auto simp: count_sent_def Let_def split: if_splits dest!: throttle_keeps)
      show ?thesis using interval_ok_sent[OF _ 1] interval_ok_same[OF 3(1,2)] True ok 2 3(3,4)
        by (auto simp: round_ok_def may_send_def algebra_simps)
    qed
    have soft: "round_ok c om test0 (sp1 # sps)" if "send_law r test sp test0 sp1" "r < 0" for r test0 sp1
    proof -
      have "sp_sender sp1 = sp_sender sp" "sp_result sp1 = sp_result sp" using that by (auto simp: send_law_def)
      moreover have "t_bytes_sent test0 = t_bytes_sent test" "t_omitting test0 = t_omitting test"
        using that(1) by (auto simp: send_law_def dest: same_but_done_fields)
      ultimately show ?thesis using interval_ok_same[of sp1 sp] ok by (auto simp: round_ok_def algebra_simps)
    qed
    have "wp (if r < 0 then
          if r = NET_SOFTERROR then ret (Ok (None, act, test0, sp1 # sps))
          else ret (Ok (Some r, act, test0\<lparr>i_errno := IESTREAMWRITE\<rparr>, sp1 # sps))
        else (case count_sent now r test0 sp1 of
            Ok (test2, sp2) \<Rightarrow>
              if k > 1 \<and> limit_reached test2 then ret (Ok (None, True, test2, sp2 # sps))
              else do { m \<leftarrow> send_round tx k now ws test2 True sps; ret (after_stream sp2 m) }
          | _ \<Rightarrow> ret Fault)) ?Q s'" if law: "send_law r test sp test0 sp1" for r test0 sp1 s'
    proof (cases "r < 0")
      case True
      then show ?thesis using soft[OF law True] by (simp add: c_simps round_ok_def)
    next
      case False
      show ?thesis
      proof (cases "count_sent now r test0 sp1")
        case (Ok x)
        obtain test2 sp2 where "x = (test2, sp2)" by (cases x)
        then show ?thesis using False Ok sent[OF law False, of test2 sp2] rest by (simp add: c_simps round_ok_Cons)
      qed (use False in \<open>simp_all add: c_simps\<close>)
    qed
    then show ?thesis using True by (simp add: wp_bind) (rule wp_tx, simp)
  qed
qed

lemma wp_send_rounds:
  assumes "accounts test"
  shows "wp (send_rounds os tx k now ws test) (\<lambda>m s'. on_ok (\<lambda>(e, test'). accounts test') m) s"
  using assms
proof (induction k arbitrary: now test s)
  case 0
  then show ?case by (simp add: c_simps)
next
  case (Suc k)
  have "round_ok 0 (t_omitting test) test (t_streams test)" using Suc.prems by (simp add: accounts_round)
  note round = wp_send_round[OF this, of "Suc k" _ ws False]
  have "wp (case m of
       Ok (e, act, test1, sps) \<Rightarrow>
         let test2 = test1\<lparr>t_streams := sps\<rparr> in
         if e \<noteq> None then ret (Ok (e, test2))
         else if act then send_rounds os tx k now1 ws test2
         else ret (Ok (None, test2))
     | _ \<Rightarrow> ret Fault) (\<lambda>m s'. on_ok (\<lambda>(e, test'). accounts test') m) s'"
    if m: "on_ok (\<lambda>(e, act', test', sps'). round_ok 0 (t_omitting test) test' sps') m" for m now1 s'
  proof (cases m)
    case (Ok x)
    obtain e act test1 sps where x: "x = (e, act, test1, sps)" by (cases x)
    have "accounts (test1\<lparr>t_streams := sps\<rparr>)" using m Ok x by (auto simp: accounts_def round_ok_def)
    then show ?thesis using Ok x Suc.IH by (simp add: c_simps Let_def)
  qed (simp_all add: c_simps)
  note body = this
  show ?case unfolding send_rounds.simps
  proof (rule wp_bindI[OF wp_True], goal_cases)
    case (1 x s1)
    obtain z now1 where x: "x = (z, now1)" by (cases x)
    show ?case unfolding x prod.case by (rule wp_bindI[OF round body])
  qed
qed

lemma throttle_all_keeps:
  "round_ok c om test sps \<Longrightarrow> on_ok (\<lambda>(test', sps'). round_ok c om test' sps') (throttle_all now test sps)"
proof (induction sps arbitrary: c test)
  case (Cons sp sps)
  show ?case
  proof (cases "iperf_check_throttle now (test, sp)")
    case (Ok x)
    obtain test1 sp1 where x: "x = (test1, sp1)" by (cases x)
    note k = throttle_keeps[OF Ok[unfolded x]]
    then have sp1: "interval_ok om sp1" "round_ok (c + sent_net sp1) om test1 sps"
      using Cons.prems interval_ok_same[of sp1 sp] by (auto simp: round_ok_def algebra_simps)
    show ?thesis using Cons.IH[OF sp1(2)] sp1(1)
      by (cases "throttle_all now test1 sps") (auto simp: Ok x round_ok_Cons)
  qed simp_all
qed simp

lemma wp_iperf_send_via:
  assumes "accounts test"
  shows "wp (iperf_send_via os tx now0 test ws) (\<lambda>m s'. on_ok (\<lambda>(r, test', ws'). accounts test') m) s"
proof -
  let ?Q = "\<lambda>m s'. on_ok (\<lambda>(r, test', ws'). accounts test') m"
  have fin: "on_ok (\<lambda>test2. accounts test2) (obind (throttle_all now test1 (t_streams test1)) (\<lambda>(t, sps). Ok (t\<lparr>t_streams := sps\<rparr>)))"
    if "accounts test1" for now test1
    using that throttle_all_keeps[of 0 "t_omitting test1" test1 "t_streams test1" now]
    by (cases "throttle_all now test1 (t_streams test1)") (auto simp: accounts_round accounts_def round_ok_def)
  have "wp (case m of
       Ok (Some r, test1) \<Rightarrow> ret (Ok (r, test1, ws))
     | Ok (None, test1) \<Rightarrow> do {
         m2 \<leftarrow> (if cfg_burst (t_settings test1) \<noteq> 0 then do {
                  (_, now) \<leftarrow> time_now os now0;
                  ret (obind (throttle_all now test1 (t_streams test1)) (\<lambda>(t, sps). Ok (t\<lparr>t_streams := sps\<rparr>)))
                } else ret (Ok test1));
         ret (obind m2 (\<lambda>test2. Ok (0, test2, map_option (\<lambda>w. w - sp_socket ` set (t_streams test2)) ws)))
       }
     | _ \<Rightarrow> ret Fault) ?Q s'" if m: "on_ok (\<lambda>(e, test'). accounts test') m" for m s'
  proof (cases m)
    case (Ok x)
    obtain e test1 where x: "x = (e, test1)" by (cases x)
    have acc: "accounts test1" using m Ok x by simp
    show ?thesis
    proof (cases e)
      case None
      show ?thesis using acc fin[OF acc] unfolding Ok x None
        by (auto simp: time_now_def wp_bind wp_ret split_beta intro!: wp_sys)
    qed (use Ok x acc in \<open>simp add: c_simps\<close>)
  qed (simp_all add: c_simps)
  note body = this
  show ?thesis unfolding iperf_send_via_def by (rule wp_bindI[OF wp_send_rounds[OF assms] body])
qed

end

section \<open>The protocols\<close>

lemma send_lawI:
  "sp_sender sp' = sp_sender sp \<Longrightarrow> sp_result sp' = (if r < 0 then sp_result sp else add_sent r (sp_result sp)) \<Longrightarrow>
     send_law r test sp test sp'"
  unfolding send_law_def by simp

lemma wp_Nwrite_any: "(\<And>r s'. Q r s') \<Longrightarrow> wp (Nwrite os fd bs) Q s"
  and wp_Nsendfile_any: "(\<And>r s'. Q r s') \<Longrightarrow> wp (Nsendfile os a b n) Q s"
  by (rule wp_I, simp)+

interpretation ps: sender "prot_send os" for os :: "'w os"
proof
  fix test :: iperf_test and sp :: iperf_stream and s :: "'w net"
  show "wp (prot_send os test sp) (\<lambda>(r, test', sp') s'. send_law r test sp test' sp') s"
    unfolding prot_send_def iperf_udp_send_def iperf_tcp_send_def time_now_def local_time_now_def
    by (auto simp: c_simps Let_def split_beta intro!: wp_sys wp_Nwrite_any wp_Nsendfile_any send_lawI)
qed

context sender
begin

lemma diskfile_sender: "sender (diskfile_send os tx)"
proof
  fix test :: iperf_test and sp :: iperf_stream and s :: "'w net"
  have fill: "wp (diskfile_fill os test sp) (\<lambda>(test1, sp1) s'. sp_sender sp1 = sp_sender sp \<and> sp_result sp1 = sp_result sp \<and>
      same_but_done test test1) s"
    unfolding diskfile_fill_def by (auto simp: c_simps Let_def intro!: wp_sys)
  have snd2: "send_law r test sp test2 (f sp2)"
    if "send_law r test1 sp1 test2 sp2" "sp_sender sp1 = sp_sender sp" "sp_result sp1 = sp_result sp"
      "same_but_done test test1" "sp_sender (f sp2) = sp_sender sp2" "sp_result (f sp2) = sp_result sp2"
    for r test1 test2 sp1 sp2 f
    using that by (auto simp: send_law_def dest: same_but_done_trans)
  note snd2' = snd2[of _ _ _ _ _ "\<lambda>x. x"] snd2[of _ _ _ _ _ "\<lambda>x. x\<lparr>sp_diskfile_left := _\<rparr>"]
    snd2[of _ _ _ _ _ "\<lambda>x. x\<lparr>sp_diskfile_left := _, sp_buffer := _\<rparr>"]
  show "wp (diskfile_send os tx test sp) (\<lambda>(r, test', sp') s'. send_law r test sp test' sp') s"
    unfolding diskfile_send_def
  proof (rule wp_bindI[OF fill], goal_cases)
    case (1 x s1)
    obtain test1 sp1 where x: "x = (test1, sp1)" by (cases x)
    show ?case unfolding x prod.case wp_bind
      by (rule wp_tx) (use 1 x in \<open>auto simp: c_simps Let_def intro: snd2'\<close>)
  qed
qed

end

interpretation ds: sender "diskfile_send os (prot_send os)" for os :: "'w os"
  by (rule ps.diskfile_sender)

interpretation ss: sender "stream_snd os" for os :: "'w os"
proof
  fix test :: iperf_test and sp :: iperf_stream and s :: "'w net"
  show "wp (stream_snd os test sp) (\<lambda>(r, test', sp') s'. send_law r test sp test' sp') s"
    unfolding stream_snd_def using ps.tx_law ds.tx_law by (simp only: wp_if) blast
qed

section \<open>The receive function of a stream\<close>

definition recv_law :: "int \<Rightarrow> iperf_test \<Rightarrow> iperf_stream \<Rightarrow> iperf_test \<Rightarrow> iperf_stream \<Rightarrow> bool" where
  "recv_law r test sp test' sp' \<longleftrightarrow> sp_sender sp' = sp_sender sp \<and> test' = test \<and>
     (sp_result sp' = sp_result sp \<or> 0 \<le> r \<and> sp_result sp' = add_received r (sp_result sp))"

locale receiver =
  fixes rx :: "'w transfer"
  assumes rx_law: "wp (rx test sp) (\<lambda>(r, test', sp') s'. recv_law r test sp test' sp') s"
begin

lemma wp_rx: "(\<And>r test' sp' s'. recv_law r test sp test' sp' \<Longrightarrow> Q (r, test', sp') s') \<Longrightarrow> wp (rx test sp) Q s"
  by (rule wp_mono[OF rx_law]) auto

lemma diskfile_receiver: "receiver (diskfile_recv os rx)"
  by unfold_locales (auto simp: diskfile_recv_def c_simps intro!: wp_rx wp_sys)

lemma wp_recv_round:
  assumes "round_ok c om test sps"
  shows "wp (recv_round rx rs test sps) (\<lambda>(e, rs', test', sps') s'. round_ok c om test' sps') s"
  using assms
proof (induction sps arbitrary: c test rs s)
  case (Cons sp sps)
  let ?Q = "\<lambda>(e, rs', test', sps') s'. round_ok c om test' sps'"
  have ok: "interval_ok om sp" "round_ok (c + sent_net sp) om test sps" using Cons.prems by (auto simp: round_ok_Cons)
  have rest: "wp (do { (e, rs', test2, sps') \<leftarrow> recv_round rx rs' test' sps; ret (e, rs', test2, sp' # sps') }) ?Q s'"
    if "interval_ok om sp'" "round_ok (c + sent_net sp') om test' sps" for sp' test' rs' s'
    by (rule wp_bindI[OF Cons.IH[OF that(2)]]) (auto simp: c_simps round_ok_Cons that(1))
  show ?case
  proof (cases "sp_socket sp \<in> rs \<and> \<not> sp_sender sp")
    case False
    then show ?thesis using rest[OF ok] by (simp del: de_Morgan_conj)
  next
    case True
    have law: "interval_ok om sp1" "round_ok (c + sent_net sp1) om test sps"
      if "recv_law r test sp test0 sp1" for r test0 sp1
      using that ok True interval_ok_same[of sp1 sp] interval_ok_received[of sp sp1 r]
      by (auto simp: recv_law_def)
    have "wp (if r < 0 then ret (r, rs, test0\<lparr>i_errno := IESTREAMREAD\<rparr>, sp1 # sps)
        else do {
          let test1 = test0\<lparr>t_bytes_received := t_bytes_received test0 + word_of_int r,
                            t_blocks_received := t_blocks_received test0 + 1\<rparr>;
          (e, rs', test2, sps') \<leftarrow> recv_round rx (rs - {sp_socket sp1}) test1 sps;
          ret (e, rs', test2, sp1 # sps')
        }) ?Q s'" if "recv_law r test sp test0 sp1" for r test0 sp1 s'
    proof -
      have "test0 = test" using that by (simp add: recv_law_def)
      then show ?thesis using law[OF that] rest[of sp1] unfolding wp_if Let_def
        by (auto simp: wp_ret round_ok_Cons round_ok_def)
    qed
    then show ?thesis using True unfolding recv_round.simps
      by (simp only: if_True simp_thms wp_bind) (rule wp_rx, simp)
  qed
qed (simp add: c_simps)

lemma wp_iperf_recv_via:
  assumes "accounts test"
  shows "wp (iperf_recv_via rx test rs) (\<lambda>(r, test', rs') s'. accounts test') s"
  unfolding iperf_recv_via_def
  by (rule wp_bindI[OF wp_recv_round[of 0 "t_omitting test"]])
    (use assms in \<open>auto simp: c_simps accounts_round round_ok_def accounts_def\<close>)

end

interpretation pr: receiver "prot_recv os" for os :: "'w os"
proof
  fix test :: iperf_test and sp :: iperf_stream and s :: "'w net"
  have acc: "sp_result (udp_jitter a b x) = sp_result x" "sp_sender (udp_jitter a b x) = sp_sender x"
    "sp_result (udp_account p x) = sp_result x" "sp_sender (udp_account p x) = sp_sender x" for a b p x
    by (simp_all add: udp_jitter_def udp_account_def Let_def)
  show "wp (prot_recv os test sp) (\<lambda>(r, test', sp') s'. recv_law r test sp test' sp') s"
    unfolding prot_recv_def iperf_udp_recv_def iperf_tcp_recv_def time_now_def local_time_now_def
    by (auto simp: c_simps Let_def split_beta recv_law_def acc intro!: wp_sys wp_Nread_any)
qed

interpretation dr: receiver "diskfile_recv os (prot_recv os)" for os :: "'w os"
  by (rule pr.diskfile_receiver)

interpretation sr: receiver "stream_rcv os" for os :: "'w os"
proof
  fix test :: iperf_test and sp :: iperf_stream and s :: "'w net"
  show "wp (stream_rcv os test sp) (\<lambda>(r, test', sp') s'. recv_law r test sp test' sp') s"
    unfolding stream_rcv_def using pr.rx_law dr.rx_law by (simp only: wp_if) blast
qed

section \<open>Intervals\<close>

lemma tcp_figures_keep:
  assumes "tcp_figures ti (temp, rp) = (temp', rp')"
  shows "ir_bytes_transferred temp' = ir_bytes_transferred temp" "ir_omitted temp' = ir_omitted temp"
    "ir_interval_start_time temp' = ir_interval_start_time temp" "ir_interval_end_time temp' = ir_interval_end_time temp"
    "res_interval_results rp' = res_interval_results rp" "res_bytes_sent rp' = res_bytes_sent rp"
    "res_bytes_sent_omit rp' = res_bytes_sent_omit rp" "res_bytes_received rp' = res_bytes_received rp"
    "res_end_time rp' = res_end_time rp"
  using assms by (auto simp: tcp_figures_def Let_def)

lemma packet_figures_keep [simp]:
  "ir_bytes_transferred (packet_figures sp temp) = ir_bytes_transferred temp"
  "ir_omitted (packet_figures sp temp) = ir_omitted temp"
  "ir_interval_start_time (packet_figures sp temp) = ir_interval_start_time temp"
  "ir_interval_end_time (packet_figures sp temp) = ir_interval_end_time temp"
  by (simp_all add: packet_figures_def Let_def)

text \<open>What one call of the statistics does to a stream: it closes the open interval.\<close>

definition interval_closed :: "bool \<Rightarrow> iperf_stream \<Rightarrow> iperf_stream \<Rightarrow> bool" where
  "interval_closed omitting sp sp' \<longleftrightarrow> sp_sender sp' = sp_sender sp \<and> (\<exists>ir.
     res_interval_results (sp_result sp') = res_interval_results (sp_result sp) @ [ir] \<and>
     ir_bytes_transferred ir = open_interval sp \<and> ir_omitted ir = omitting \<and>
     ir_interval_start_time ir = (if res_interval_results (sp_result sp) \<noteq> [] then res_end_time (sp_result sp) else res_start_time (sp_result sp)) \<and>
     ir_interval_end_time ir = res_end_time (sp_result sp')) \<and>
     open_interval sp' = 0 \<and> sent_net sp' = sent_net sp \<and> stream_total sp' = stream_total sp"

lemma wp_stream_interval:
  "wp (stream_interval os test x sp) (\<lambda>(x', sp') s'. interval_closed (t_omitting test) sp sp') s"
proof -
  obtain temp ti where x: "x = (temp, ti)" by (cases x)
  have close: "interval_closed (t_omitting test) sp
      (sp\<lparr>sp_result := (add_to_interval_list temp' rp')\<lparr>res_bytes_sent_this_interval := 0, res_bytes_received_this_interval := 0\<rparr>\<rparr>)"
    if "res_interval_results rp' = res_interval_results (sp_result sp)" "res_bytes_sent rp' = res_bytes_sent (sp_result sp)"
      "res_bytes_sent_omit rp' = res_bytes_sent_omit (sp_result sp)" "res_bytes_received rp' = res_bytes_received (sp_result sp)"
      "ir_bytes_transferred temp' = open_interval sp" "ir_omitted temp' = t_omitting test"
      "ir_interval_start_time temp' = (if res_interval_results (sp_result sp) \<noteq> [] then res_end_time (sp_result sp) else res_start_time (sp_result sp))"
      "ir_interval_end_time temp' = res_end_time rp'"
    for temp' rp'
    using that by (auto simp: interval_closed_def add_to_interval_list_def account_defs)
  show ?thesis
    unfolding stream_interval_def x prod.case time_now_def save_tcpinfo_def
    by (auto simp: c_simps Let_def split_beta open_interval_def tcp_figures_keep[OF surjective_pairing] intro!: wp_sys close)
qed

lemma interval_closed_ok: "interval_closed om sp sp' \<Longrightarrow> interval_ok om sp \<Longrightarrow> interval_ok om sp'"
  by (auto simp: interval_closed_def interval_ok_def reported_def)

lemma wp_stream_intervals:
  "wp (stream_intervals os test x sps) (\<lambda>sps' s'. list_all2 (interval_closed (t_omitting test)) sps sps') s"
proof (induction sps arbitrary: x s)
  case (Cons sp sps)
  show ?case unfolding stream_intervals.simps
  proof (rule wp_bindI[OF wp_stream_interval], goal_cases)
    case (1 r s1)
    obtain x1 sp1 where r: "r = (x1, sp1)" by (cases r)
    show ?case unfolding r prod.case by (rule wp_bindI[OF Cons.IH]) (use 1 r in \<open>simp add: c_simps\<close>)
  qed
qed (simp add: c_simps)

lemma closed_sum: "list_all2 (interval_closed om) sps sps' \<Longrightarrow> (\<Sum>sp \<leftarrow> sps'. sent_net sp) = (\<Sum>sp \<leftarrow> sps. sent_net sp)"
  by (induction rule: list_all2_induct) (auto simp: interval_closed_def)

lemma closed_all:
  "list_all2 (interval_closed om) sps sps' \<Longrightarrow> \<forall>sp \<in> set sps. interval_ok om sp \<Longrightarrow> \<forall>sp \<in> set sps'. interval_ok om sp"
  by (induction rule: list_all2_induct) (auto intro: interval_closed_ok)

lemma wp_stats_callback:
  assumes "accounts test"
  shows "wp (iperf_stats_callback os junk test) (\<lambda>test' s'. accounts test') s"
  unfolding iperf_stats_callback_def
  by (rule wp_bindI[OF wp_stream_intervals]) (use assms in \<open>auto simp: c_simps accounts_def closed_sum dest: closed_all\<close>)

lemma wp_reset_stream:
  assumes "interval_ok True sp"
  shows "wp (reset_stream os now junk test sp) (\<lambda>sp' s'. interval_ok False sp' \<and> sent_net sp' = 0) s"
proof -
  have "filter (\<lambda>ir. \<not> ir_omitted ir) (res_interval_results (sp_result sp)) = []"
    using assms by (simp add: interval_ok_def filter_empty_conv)
  then show ?thesis unfolding reset_stream_def save_tcpinfo_def
    by (auto simp: c_simps Let_def account_defs intro!: wp_sys)
qed

lemma wp_reset_streams:
  assumes "\<forall>sp \<in> set sps. interval_ok True sp"
  shows "wp (reset_streams os now junk test sps) (\<lambda>sps' s'. \<forall>sp \<in> set sps'. interval_ok False sp \<and> sent_net sp = 0) s"
  using assms
proof (induction sps arbitrary: s)
  case (Cons sp sps)
  show ?case unfolding reset_streams.simps
  proof (rule wp_bindI[OF wp_reset_stream], goal_cases)
    case (2 r s1)
    show ?case by (rule wp_bindI[OF Cons.IH]) (use Cons.prems 2 in \<open>auto simp: c_simps\<close>)
  qed (use Cons.prems in simp)
qed (simp add: c_simps)

lemma sum_zero: "\<forall>x \<in> set xs. f x = (0 :: u64) \<Longrightarrow> (\<Sum>x \<leftarrow> xs. f x) = 0"
  by (induction xs) auto

lemma wp_reset_stats:
  assumes "accounts test" "t_omitting test"
  shows "wp (iperf_reset_stats os junk (test\<lparr>t_omit_timer := p, t_omitting := False\<rparr>)) (\<lambda>test' s'. accounts test') s"
  unfolding iperf_reset_stats_def Let_def
proof (rule wp_bindI[OF wp_True], goal_cases)
  case (1 x s1)
  obtain z now where x: "x = (z, now)" by (cases x)
  show ?case unfolding x prod.case
    by (rule wp_bindI[OF wp_reset_streams]) (use assms in \<open>auto simp: c_simps accounts_def sum_zero\<close>)
qed

section \<open>New streams\<close>

lemma add_stream_member: "set (iperf_add_stream sps sp) \<subseteq> set sps \<union> range (\<lambda>i. sp\<lparr>sp_id := i\<rparr>)"
  by (auto simp: iperf_add_stream_def Let_def split: if_splits)

lemma add_stream_sum: "sent_net (sp\<lparr>sp_id := 0\<rparr>) = 0 \<Longrightarrow> (\<Sum>x \<leftarrow> iperf_add_stream sps sp. sent_net x) = (\<Sum>x \<leftarrow> sps. sent_net x)"
  by (simp add: iperf_add_stream_def Let_def sent_net_def)

lemma blank_ok: "interval_ok om (blank_stream s b f d buf\<lparr>sp_id := i\<rparr>)" "sent_net (blank_stream s b f d buf\<lparr>sp_id := i\<rparr>) = 0"
  by (simp_all add: account_defs blank_stream_def blank_result_def)

lemma accounts_errno [simp]: "accounts (test\<lparr>i_errno := e\<rparr>) = accounts test"
  by (simp add: accounts_def)

lemma wp_init_stream:
  assumes "accounts test"
  shows "wp (iperf_init_stream os sp test) (\<lambda>(r, test') s'. accounts test') s"
  unfolding iperf_init_stream_def getsockdomain_def using assms by (auto simp: c_simps intro!: wp_sys)

lemma added_accounts:
  assumes "accounts test"
  shows "accounts (test\<lparr>t_streams := iperf_add_stream (t_streams test) (blank_stream s b f d buf)\<rparr>)"
proof -
  have "interval_ok om x" if "x \<in> range (\<lambda>i. blank_stream s b f d buf\<lparr>sp_id := i\<rparr>)" for x om using that blank_ok by auto
  then show ?thesis using assms add_stream_member[of "t_streams test" "blank_stream s b f d buf"]
    unfolding accounts_def by (simp add: add_stream_sum blank_ok) blast
qed

lemma wp_new_stream_fill:
  assumes "accounts test"
  shows "wp (new_stream_fill os test s b f d) (\<lambda>m s'. \<forall>sp test'. m = Some (sp, test') \<longrightarrow> accounts test') st"
  unfolding new_stream_fill_def Let_def
proof (rule wp_bindI[OF wp_True], goal_cases)
  case (1 m s1)
  show ?case
  proof (cases m)
    case (Some buf)
    show ?thesis unfolding Some option.case
      by (rule wp_bindI[OF wp_init_stream[OF assms]]) (auto simp: c_simps added_accounts intro!: wp_sys)
  qed (simp add: c_simps)
qed

lemma wp_new_stream:
  assumes "accounts test"
  shows "wp (iperf_new_stream os test s b) (\<lambda>m s'. \<forall>sp test'. m = Some (sp, test') \<longrightarrow> accounts test') st"
  unfolding iperf_new_stream_def new_stream_file_def Let_def
  by (auto simp: c_simps assms split: option.splits intro!: wp_sys wp_new_stream_fill[OF assms])

section \<open>Running a test\<close>

text \<open>The operations that the main loops of client and server and their timers apply to a test while data flows.\<close>

inductive data_step :: "'w os \<Rightarrow> iperf_test \<Rightarrow> iperf_test \<Rightarrow> bool" for os where
  new_stream: "run_state (iperf_new_stream os test fd b) s = (Some (Some sp, test'), s') \<Longrightarrow> data_step os test test'"
| start: "run_state (iperf_init_test os test) s = ((0, test'), s') \<Longrightarrow> data_step os test test'"
| send: "run_state (iperf_send os now test ws) s = (Ok (r, test', ws'), s') \<Longrightarrow> data_step os test test'"
| recv: "run_state (iperf_recv os test rs) s = ((r, test', rs'), s') \<Longrightarrow> data_step os test test'"
| throttle: "throttle_all now test (t_streams test) = Ok (test1, sps) \<Longrightarrow> data_step os test (test1\<lparr>t_streams := sps\<rparr>)"
| stats: "run_state (iperf_stats_callback os junk test) s = (test', s') \<Longrightarrow> data_step os test test'"
| omit_end: "t_omitting test \<Longrightarrow>
    run_state (iperf_reset_stats os ti (test\<lparr>t_omit_timer := None, t_omitting := False\<rparr>)) s = (test', s') \<Longrightarrow> data_step os test test'"

inductive_cases data_stepE: "data_step os test test'"

lemma init_accounts:
  assumes "accounts test"
  shows "wp (iperf_init_test os test) (\<lambda>(r, test') s'. accounts test') s"
proof -
  have "interval_ok om (on_result (\<lambda>rp. rp\<lparr>res_start_time := t, res_start_time_fixed := t\<rparr>) sp) = interval_ok om sp"
    "sent_net (on_result (\<lambda>rp. rp\<lparr>res_start_time := t, res_start_time_fixed := t\<rparr>) sp) = sent_net sp" for om t sp
    by (simp_all add: account_defs on_result_def)
  then show ?thesis using assms unfolding iperf_init_test_def local_time_now_def
    by (auto simp: c_simps split_beta accounts_def comp_def intro!: wp_sys)
qed

lemma data_step_accounts: "data_step os test test' \<Longrightarrow> accounts test \<Longrightarrow> accounts test'"
proof (induction rule: data_step.induct)
  case (new_stream test fd b s sp test' s')
  then show ?case using wp_run[OF wp_new_stream new_stream(1)] by blast
next
  case (start test s test' s')
  then show ?case using wp_run[OF init_accounts start(1)] by simp
next
  case (send now test ws s r test' ws' s')
  then show ?case using wp_run[OF ss.wp_iperf_send_via] unfolding iperf_send_def by fastforce
next
  case (recv test rs s r test' rs' s')
  then show ?case using wp_run[OF sr.wp_iperf_recv_via] unfolding iperf_recv_def by fastforce
next
  case (throttle now test test1 sps)
  then show ?case using ss.throttle_all_keeps[of 0 "t_omitting test" test "t_streams test" now]
    by (auto simp: accounts_round) (auto simp: round_ok_def)
next
  case (stats junk test s test' s')
  then show ?case using wp_run[OF wp_stats_callback stats(1)] by simp
next
  case (omit_end test ti s test' s')
  then show ?case using wp_run[OF wp_reset_stats omit_end(2)] by simp
qed


definition demo_test :: iperf_test where
  "demo_test = (iperf_defaults iperf_new_test)\<lparr>t_repeating_payload := 1\<rparr>"

lemmas demo_test_simps = demo_test_def iperf_defaults_def iperf_new_test_def set_protocol_def check_sender_has_retransmits_def
  has_tcpinfo_retransmits_def


text \<open>
  C19. The interval statistics: every call closes the open interval of every stream: it appends one
  interval with the bytes since the last call, marked as omitted or not, that starts where the previous one ended
  (the first one at the start of the test) and ends now, and it changes no total.
\<close>

theorem stats_close_intervals:
  "case run_state (iperf_stats_callback os junk test) s of (test', s') \<Rightarrow>
     list_all2 (interval_closed (t_omitting test)) (t_streams test) (t_streams test')"
proof -
  have "wp (iperf_stats_callback os junk test) (\<lambda>test' s'. list_all2 (interval_closed (t_omitting test)) (t_streams test) (t_streams test')) s"
    unfolding iperf_stats_callback_def by (rule wp_bindI[OF wp_stream_intervals]) (simp add: c_simps)
  then show ?thesis by (simp add: wp_def)
qed

section \<open>Flaws\<close>

text \<open>
  Throttling at the very start of a stream: no time has passed, the quotient is infinite or not a number, and its
  conversion to an integer is undefined.
\<close>

theorem throttle_at_start:
  assumes "\<not> t_done test" "res_start_time_fixed (sp_result sp) = now"
  shows "iperf_check_throttle now (test, sp) = Fault"
proof -
  have "iperf_time_diff now now = (1, \<lparr>secs = 0, usecs = 0\<rparr>)" by (simp add: iperf_time_diff_def iperf_time_compare_def Let_def)
  moreover have "iperf_time_in_secs \<lparr>secs = 0, usecs = 0\<rparr> = Fin 0" by code_simp
  moreover have "dtrunc (ddiv d (Fin 0)) = None" for d by (cases d) auto
  ultimately show ?thesis using assms by (simp add: iperf_check_throttle_def d_to_u64_def)
qed

text \<open>
  The limits are tested after every block, but the \<open>break\<close> leaves only the loop over the streams: the rounds that are
  left go on. With a limit of one byte and three rounds, three blocks are sent.
\<close>

definition limit_test :: iperf_test where
  "limit_test = (iperf_defaults iperf_new_test)\<lparr>t_multisend := 3,
     t_settings := (t_settings (iperf_defaults iperf_new_test))\<lparr>cfg_bytes := 1, cfg_blksize := 1\<rparr>,
     t_streams := [stream0\<lparr>sp_sender := True, sp_green_light := True, sp_buffer := [7]\<rparr>]\<rparr>"

theorem limit_overshoot:
  "case run_state (iperf_send demo_io zero_time limit_test None) net0 of
     (Ok (r, test', ws), s') \<Rightarrow> r = 0 \<and> limit_reached test' \<and> t_bytes_sent test' = 3 \<and> sent 6 (calls s') = [7, 7, 7]
   | _ \<Rightarrow> False"
proof -
  have t: "nat (multisend_of limit_test) = Suc (Suc (Suc 0))"
    by (simp add: multisend_of_def limit_test_def demo_test_simps eval_nat_numeral)
  show ?thesis unfolding iperf_send_def iperf_send_via_def t
    by (simp add: limit_test_def demo_test_simps stream0_def may_send_def
      stream_snd_def prot_send_def iperf_tcp_send_def Nwrite_def Nwrite_loop.simps run_sys demo_io_def net0_def count_sent_def
      paced_def limit_reached_def after_stream_def Let_def c_int_id sent_def add_sent_def Ptcp_def Pudp_def SOCK_STREAM_def SOCK_DGRAM_def)
qed

text \<open>
  A file sent in pieces: what a partial write left over is moved to the front of the buffer, where the next
  \<open>read\<close> from the file overwrites it. Of the file 1, 2, 3, 4 the peer gets 1, 3.
\<close>

definition file_os :: "(u8 list \<times> bool) os" where
  "file_os c w = (let a = \<lparr>s_ret = 0, s_err = 0, s_bytes = [], s_val = 0, s_fam = 0, s_rset = {}, s_wset = {}, s_vals = []\<rparr> in
     case c of
       Read f n \<Rightarrow> (a\<lparr>s_ret := int (length (take n (fst w))), s_bytes := take n (fst w)\<rparr>, (drop n (fst w), snd w))
     | Write f bs \<Rightarrow> if snd w then (a\<lparr>s_ret := 1\<rparr>, (fst w, False)) else (a\<lparr>s_ret := -1, s_err := EAGAIN\<rparr>, (fst w, True))
     | _ \<Rightarrow> (a, w))"

definition file_test :: iperf_test where
  "file_test = (iperf_defaults iperf_new_test)\<lparr>t_settings := (t_settings (iperf_defaults iperf_new_test))\<lparr>cfg_blksize := 2\<rparr>\<rparr>"

definition file_stream :: iperf_stream where
  "file_stream = stream0\<lparr>sp_sender := True, sp_buffer := [0, 0], sp_diskfile_fd := 8\<rparr>"

theorem diskfile_loses_data:
  "case run_state (do { (r1, t1, sp1) \<leftarrow> stream_snd file_os file_test file_stream; stream_snd file_os t1 sp1 })
       \<lparr>world = ([1, 2, 3, 4], True), errno = 0, gerror = 0, calls = []\<rparr> of
     ((r, t, sp), s') \<Rightarrow> sent 6 (calls s') = [1, 3]"
  by (simp add: stream_snd_def diskfile_send_def diskfile_fill_def prot_send_def iperf_tcp_send_def Nwrite_def Nwrite_loop.simps
    run_sys file_os_def file_test_def file_stream_def stream0_def demo_test_simps Let_def c_int_id sent_def add_sent_def
    overlay_def EAGAIN_def Ptcp_def Pudp_def SOCK_STREAM_def SOCK_DGRAM_def)

end
