(* ===== verification/Session.thy ===== *)
theory Session
  imports Timers Stats
begin

text \<open>
  What the two main loops share: the state of a running process, the timers of a test
  with their functions, the processor time of \<open>iperf_util.c\<close>, the release of a stream and the reset of a
  test. A function that returns \<open>int\<close> yields \<open>Ok r\<close>; \<^const>\<open>Fault\<close> stands for undefined behaviour, an exit
  of the process or timers that never return. The callbacks that only produce output (\<open>on_connect\<close>, \<open>on_new_stream\<close>,
  \<open>on_test_start\<close>, \<open>reporter_callback\<close>) append to a log instead.
\<close>

section \<open>The state of a process\<close>

datatype proc =
    Test_timer_proc
  | Client_stats_timer_proc
  | Client_reporter_timer_proc
  | Client_omit_timer_proc
  | Send_timer_proc
  | Server_timer_proc
  | Server_stats_timer_proc
  | Server_reporter_timer_proc
  | Server_omit_timer_proc

text \<open>The data of a timer: the test, or a stream, which is known by its number.\<close>

datatype cdata = Cd_test | Cd_stream int

datatype event = On_connect | On_new_stream int | On_test_finish | Report int

record rusage =
  ru_utime_sec :: int
  ru_utime_usec :: int
  ru_stime_sec :: int
  ru_stime_usec :: int

text \<open>The static variables of \<open>cpu_util\<close>.\<close>

record cpu_last =
  cu_last :: iperf_time
  cu_clast :: int
  cu_rlast :: rusage

text \<open>The local variables of \<open>iperf_run_server\<close> that live across its iterations.\<close>

record server_locals =
  sv_send_streams_accepted :: int
  sv_rec_streams_accepted :: int
  sv_streams_to_send :: int
  sv_streams_to_rec :: int
  sv_flag :: int

text \<open>
  The process: the network with its record of system calls, the test, the timers, the static variables, the log,
  and the local variables of the main loop (the sets that \<open>select\<close> fills, its result and
  the time left of its timeout, the time, \<open>startup\<close> of the client, the counters of the server).
\<close>

record 'w node =
  n_net :: "'w net"
  n_test :: iperf_test
  n_tmr :: "(proc, cdata) tmr_state"
  n_cpu :: cpu_last
  n_log :: "event list"
  n_read_set :: "int set"
  n_write_set :: "int set"
  n_result :: int
  n_timeout :: "(int \<times> int) option"
  n_now :: iperf_time
  n_startup :: bool
  n_srv :: server_locals

text \<open>The content of local variables and memory that the code does not initialise.\<close>

record uninit =
  u_bytes :: "u8 list"
  u_interval :: "iperf_interval_results \<times> tcp_info"
  u_time :: iperf_time
  u_rusage :: rusage
  u_flag :: int

type_synonym ('w, 'a) act = "('w node, 'a) state"
type_synonym 'w step = "('w node, int outcome) state"

definition lift :: "('w, 'a) io \<Rightarrow> ('w, 'a) act" where
  "lift m = State (\<lambda>n. case run_state m (n_net n) of (r, s) \<Rightarrow> (r, n\<lparr>n_net := s\<rparr>))"

definition on_test :: "(iperf_test \<Rightarrow> ('w, 'a \<times> iperf_test) io) \<Rightarrow> ('w, 'a) act" where
  "on_test f = State (\<lambda>n. case run_state (f (n_test n)) (n_net n) of
     ((r, test), s) \<Rightarrow> (r, n\<lparr>n_net := s, n_test := test\<rparr>))"

text \<open>The same for a function that may fault: the test is then left as it was.\<close>

definition on_test_outcome :: "(iperf_test \<Rightarrow> ('w, ('a \<times> iperf_test) outcome) io) \<Rightarrow> ('w, 'a outcome) act" where
  "on_test_outcome f = State (\<lambda>n. case run_state (f (n_test n)) (n_net n) of (m, s) \<Rightarrow>
     (obind m (\<lambda>(r, test). Ok r),
      n\<lparr>n_net := s, n_test := (case m of Ok (r, test) \<Rightarrow> test | _ \<Rightarrow> n_test n)\<rparr>))"

definition the_test :: "('w, iperf_test) act" where
  "the_test = State (\<lambda>n. (n_test n, n))"

definition set_test :: "(iperf_test \<Rightarrow> iperf_test) \<Rightarrow> ('w, unit) act" where
  "set_test f = State (\<lambda>n. ((), n\<lparr>n_test := f (n_test n)\<rparr>))"

definition log_event :: "event \<Rightarrow> ('w, unit) act" where
  "log_event e = State (\<lambda>n. ((), n\<lparr>n_log := n_log n @ [e]\<rparr>))"

text \<open>\<open>reporter_callback\<close>, which depends on the state of the test.\<close>

definition report :: "('w, unit) act" where
  "report = State (\<lambda>n. ((), n\<lparr>n_log := n_log n @ [Report (t_state (n_test n))]\<rparr>))"

text \<open>\<open>if (m < 0) return -1;\<close> for each of a list of calls, and \<open>return 0\<close> at the end.\<close>

definition unless_error :: "int outcome \<Rightarrow> 'w step \<Rightarrow> 'w step" where
  "unless_error r k = (case r of Ok v \<Rightarrow> if v < 0 then State_Monad.return (Ok (-1)) else k
     | Err e \<Rightarrow> State_Monad.return (Err e) | Fault \<Rightarrow> State_Monad.return Fault | Timeout \<Rightarrow> State_Monad.return Timeout)"

fun steps :: "'w step list \<Rightarrow> 'w step" where
  "steps [] = State_Monad.return (Ok 0)"
| "steps (m # ms) = do { r \<leftarrow> m; unless_error r (steps ms) }"

abbreviation ok :: "'w step" where
  "ok \<equiv> State_Monad.return (Ok 0)"

definition fail :: "int \<Rightarrow> 'w step" where
  "fail e = do { _ \<leftarrow> set_test (\<lambda>t. t\<lparr>i_errno := e\<rparr>); State_Monad.return (Ok (-1)) }"

section \<open>Processor time\<close>

definition CLOCKS_PER_SEC :: int where "CLOCKS_PER_SEC = 1000000"

definition rusage_of :: "int list \<Rightarrow> rusage" where
  "rusage_of vs = (let v = (\<lambda>i. if i < length vs then vs ! i else 0) in
     \<lparr>ru_utime_sec = v 0, ru_utime_usec = v 1, ru_stime_sec = v 2, ru_stime_usec = v 3\<rparr>)"

definition getrusage :: "'w os \<Rightarrow> rusage \<Rightarrow> ('w, rusage) io" where
  "getrusage os old = do {
     r \<leftarrow> sys os Getrusage;
     ret (if s_ret r < 0 then old else rusage_of (s_vals r))
   }"

definition micros :: "int \<Rightarrow> int \<Rightarrow> double" where
  "micros sec usec = dadd (dmul (d_of_int sec) (Fin 1000000)) (d_of_int usec)"

definition cpu_start :: "'w os \<Rightarrow> cpu_last \<Rightarrow> ('w, cpu_last) io" where
  "cpu_start os c = do {
     (_, now) \<leftarrow> time_now os (cu_last c);
     k \<leftarrow> sys os Clock;
     ru \<leftarrow> getrusage os (cu_rlast c);
     ret \<lparr>cu_last = now, cu_clast = s_ret k, cu_rlast = ru\<rparr>
   }"

definition cpu_measure :: "'w os \<Rightarrow> uninit \<Rightarrow> cpu_last \<Rightarrow> ('w, double \<times> double \<times> double) io" where
  "cpu_measure os u c = do {
     (_, now) \<leftarrow> time_now os (u_time u);
     k \<leftarrow> sys os Clock;
     ru \<leftarrow> getrusage os (u_rusage u);
     let timediff = d_of_u64 (iperf_time_in_usecs (snd (iperf_time_diff now (cu_last c))));
     let userdiff = dsub (micros (ru_utime_sec ru) (ru_utime_usec ru))
                         (micros (ru_utime_sec (cu_rlast c)) (ru_utime_usec (cu_rlast c)));
     let systemdiff = dsub (micros (ru_stime_sec ru) (ru_stime_usec ru))
                         (micros (ru_stime_sec (cu_rlast c)) (ru_stime_usec (cu_rlast c)));
     ret (dmul (ddiv (ddiv (dmul (d_of_int (s_ret k - cu_clast c)) (Fin 1000000)) (d_of_int CLOCKS_PER_SEC)) timediff) (Fin 100),
          dmul (ddiv userdiff timediff) (Fin 100),
          dmul (ddiv systemdiff timediff) (Fin 100))
   }"

text \<open>\<open>cpu_util (NULL)\<close> and \<open>cpu_util (test->cpu_util)\<close>.\<close>

definition cpu_util :: "'w os \<Rightarrow> uninit \<Rightarrow> bool \<Rightarrow> ('w, unit) act" where
  "cpu_util os u pcpu = State (\<lambda>n.
     if \<not> pcpu then case run_state (cpu_start os (n_cpu n)) (n_net n) of (c, s) \<Rightarrow> ((), n\<lparr>n_net := s, n_cpu := c\<rparr>)
     else case run_state (cpu_measure os u (n_cpu n)) (n_net n) of
       (p, s) \<Rightarrow> ((), n\<lparr>n_net := s, n_test := (n_test n)\<lparr>t_cpu_util := p\<rparr>\<rparr>))"

section \<open>Timers of a test\<close>

text \<open>\<open>tmr_create\<close> with the clock and \<open>malloc\<close> as system calls; \<open>malloc\<close> is called when the free list is empty.\<close>

definition clock_answer :: "'w os \<Rightarrow> iperf_time option \<Rightarrow> ('w, int \<times> int \<times> int) io" where
  "clock_answer os nowP = (case nowP of
       Some _ \<Rightarrow> ret (0, 0, 0)
     | None \<Rightarrow> do { r \<leftarrow> sys os Clock_gettime; ret (s_ret r, s_val r, s_fam r) })"

definition new_timer ::
  "'w os \<Rightarrow> uninit \<Rightarrow> iperf_time option \<Rightarrow> proc \<Rightarrow> cdata \<Rightarrow> u64 \<Rightarrow> int \<Rightarrow> ('w, ptr outcome) act" where
  "new_timer os u nowP proc cd us per = do {
     clk \<leftarrow> lift (clock_answer os nowP);
     n \<leftarrow> State_Monad.get;
     m \<leftarrow> (if free_timers (n_tmr n) = None then do {
             r \<leftarrow> lift (sys os Malloc);
             State_Monad.return (if s_ret r < 0 then None else Some (nat (s_val r)))
           } else State_Monad.return None);
     State (\<lambda>n. case tmr_create nowP clk (u_time u) m proc cd us per (n_tmr n) of
       None \<Rightarrow> (Fault, n)
     | Some (p, s) \<Rightarrow> (Ok p, n\<lparr>n_tmr := s\<rparr>))
   }"

text \<open>
  \<open>x = tmr_create (...); if (x == NULL) \<dots>\<close>, where \<open>put\<close> stores the pointer.
\<close>

definition create_timer ::
  "'w os \<Rightarrow> uninit \<Rightarrow> iperf_time option \<Rightarrow> proc \<Rightarrow> cdata \<Rightarrow> u64 option \<Rightarrow> int \<Rightarrow>
     (ptr \<Rightarrow> iperf_test \<Rightarrow> iperf_test) \<Rightarrow> 'w step" where
  "create_timer os u nowP proc cd us per store = (case us of
       None \<Rightarrow> State_Monad.return Fault
     | Some w \<Rightarrow> do {
         p \<leftarrow> new_timer os u nowP proc cd w per;
         case p of
           Ok None \<Rightarrow> do { _ \<leftarrow> set_test (store None); fail IEINITTEST }
         | Ok (Some a) \<Rightarrow> do { _ \<leftarrow> set_test (store (Some a)); ok }
         | _ \<Rightarrow> State_Monad.return Fault
       })"

text \<open>\<open>tmr_cancel\<close> of a pointer of the test that is not null, and \<open>tmr_reset\<close>.\<close>

definition on_timers :: "((proc, cdata) tmr_state \<Rightarrow> (proc, cdata) tmr_state option) \<Rightarrow> 'w step" where
  "on_timers f = State (\<lambda>n. case f (n_tmr n) of None \<Rightarrow> (Fault, n) | Some s \<Rightarrow> (Ok 0, n\<lparr>n_tmr := s\<rparr>))"

definition cancel_timer :: "(iperf_test \<Rightarrow> ptr) \<Rightarrow> (iperf_test \<Rightarrow> iperf_test) \<Rightarrow> 'w step" where
  "cancel_timer field clear = do {
     test \<leftarrow> the_test;
     case field test of
       None \<Rightarrow> ok
     | Some a \<Rightarrow> steps [on_timers (tmr_cancel a), do { _ \<leftarrow> set_test clear; ok }]
   }"

definition reset_timer :: "iperf_time \<Rightarrow> (iperf_test \<Rightarrow> ptr) \<Rightarrow> 'w step" where
  "reset_timer now field = do {
     test \<leftarrow> the_test;
     case field test of
       None \<Rightarrow> ok
     | Some a \<Rightarrow> on_timers (tmr_reset (Some now) (0, 0, 0) now a)
   }"

section \<open>Release of a stream\<close>

text \<open>The stream has already left the list. The memory of its results is not modelled.\<close>

definition iperf_free_stream :: "'w os \<Rightarrow> iperf_stream \<Rightarrow> 'w step" where
  "iperf_free_stream os sp = do {
     _ \<leftarrow> lift (sys os (Munmap (sp_buffer_fd sp)));
     _ \<leftarrow> lift (sys os (Close (sp_buffer_fd sp)));
     _ \<leftarrow> (if sp_diskfile_fd sp \<ge> 0 then do { _ \<leftarrow> lift (sys os (Close (sp_diskfile_fd sp))); State_Monad.return () }
          else State_Monad.return ());
     case sp_send_timer sp of
       None \<Rightarrow> ok
     | Some a \<Rightarrow> on_timers (tmr_cancel a)
   }"

text \<open>
  \<open>while (!SLIST_EMPTY (&test->streams))\<close>, where \<open>k\<close> is the number of streams: remove the first stream, and free it;
  \<open>close_socket\<close> says whether its socket is closed before.
\<close>

fun free_streams :: "'w os \<Rightarrow> bool \<Rightarrow> nat \<Rightarrow> 'w step" where
  "free_streams os close_socket 0 = ok"
| "free_streams os close_socket (Suc k) = do {
     test \<leftarrow> the_test;
     case t_streams test of
       [] \<Rightarrow> ok
     | sp # _ \<Rightarrow> do {
         _ \<leftarrow> set_test (\<lambda>t. t\<lparr>t_streams := tl (t_streams t)\<rparr>);
         _ \<leftarrow> (if close_socket then do { _ \<leftarrow> lift (sys os (Close (sp_socket sp))); State_Monad.return () }
              else State_Monad.return ());
         r \<leftarrow> iperf_free_stream os sp;
         unless_error r (free_streams os close_socket k)
       }
   }"

section \<open>Timer functions\<close>

definition d_to_i64 :: "double \<Rightarrow> u64 option" where
  "d_to_i64 d = (case dtrunc d of None \<Rightarrow> None
     | Some k \<Rightarrow> if - (2 ^ 63) \<le> k \<and> k < 2 ^ 63 then Some (word_of_int k) else None)"

definition SEC_TO_US :: int where "SEC_TO_US = 1000000"

definition secs_to_us :: "int \<Rightarrow> u64 option" where
  "secs_to_us n = Some (word_of_int (n * SEC_TO_US))"

definition interval_to_us :: "double \<Rightarrow> u64 option" where
  "interval_to_us d = d_to_i64 (dmul d (d_of_int SEC_TO_US))"

definition stats_callback :: "'w os \<Rightarrow> uninit \<Rightarrow> ('w, unit) act" where
  "stats_callback os u = on_test (\<lambda>test. do { t \<leftarrow> iperf_stats_callback os (u_interval u) test; ret ((), t) })"

definition test_timer_proc :: "'w step" where
  "test_timer_proc = do { _ \<leftarrow> set_test (\<lambda>t. t\<lparr>t_timer := None, t_done := True\<rparr>); ok }"

definition client_stats_timer_proc :: "'w os \<Rightarrow> uninit \<Rightarrow> 'w step" where
  "client_stats_timer_proc os u = do {
     test \<leftarrow> the_test;
     if t_done test then ok else do { _ \<leftarrow> stats_callback os u; ok }
   }"

definition client_reporter_timer_proc :: "'w step" where
  "client_reporter_timer_proc = do {
     test \<leftarrow> the_test;
     if t_done test then ok else do { _ \<leftarrow> report; ok }
   }"

definition client_omit_timer_proc :: "'w os \<Rightarrow> uninit \<Rightarrow> iperf_time \<Rightarrow> 'w step" where
  "client_omit_timer_proc os u now = do {
     _ \<leftarrow> set_test (\<lambda>t. t\<lparr>t_omit_timer := None, t_omitting := False\<rparr>);
     _ \<leftarrow> on_test (\<lambda>test. do { t \<leftarrow> iperf_reset_stats os (snd (u_interval u)) test; ret ((), t) });
     steps [reset_timer now t_stats_timer, reset_timer now t_reporter_timer]
   }"

definition server_timer_proc :: "'w os \<Rightarrow> 'w step" where
  "server_timer_proc os = do {
     _ \<leftarrow> set_test (\<lambda>t. t\<lparr>t_timer := None\<rparr>);
     test \<leftarrow> the_test;
     if t_done test then ok
     else do {
       _ \<leftarrow> set_test (\<lambda>t. t\<lparr>t_done := True\<rparr>);
       r \<leftarrow> free_streams os True (length (t_streams test));
       unless_error r (do { _ \<leftarrow> lift (sys os (Close (t_ctrl_sck test))); ok })
     }
   }"

definition server_stats_timer_proc :: "'w os \<Rightarrow> uninit \<Rightarrow> 'w step" where
  "server_stats_timer_proc os u = do {
     test \<leftarrow> the_test;
     if t_done test then ok else do { _ \<leftarrow> stats_callback os u; ok }
   }"

definition server_reporter_timer_proc :: "'w step" where
  "server_reporter_timer_proc = do {
     test \<leftarrow> the_test;
     if t_done test then ok else do { _ \<leftarrow> report; ok }
   }"

definition server_omit_timer_proc :: "'w os \<Rightarrow> uninit \<Rightarrow> iperf_time \<Rightarrow> 'w step" where
  "server_omit_timer_proc os u now = do {
     _ \<leftarrow> set_test (\<lambda>t. t\<lparr>t_omit_timer := None, t_omitting := False\<rparr>);
     _ \<leftarrow> on_test (\<lambda>test. do { t \<leftarrow> iperf_reset_stats os (snd (u_interval u)) test; ret ((), t) });
     steps [reset_timer now t_stats_timer, reset_timer now t_reporter_timer]
   }"

text \<open>A write to the stream with the number \<open>i\<close>; one that is no longer in the list has been freed.\<close>

fun on_first :: "int \<Rightarrow> (iperf_stream \<Rightarrow> iperf_stream) \<Rightarrow> iperf_stream list \<Rightarrow> iperf_stream list" where
  "on_first i f [] = []"
| "on_first i f (sp # sps) = (if sp_id sp = i then f sp # sps else sp # on_first i f sps)"

definition on_stream :: "int \<Rightarrow> (iperf_stream \<Rightarrow> iperf_stream) \<Rightarrow> iperf_test \<Rightarrow> iperf_test" where
  "on_stream i f t = t\<lparr>t_streams := on_first i f (t_streams t)\<rparr>"

definition send_timer_proc :: "cdata \<Rightarrow> iperf_time \<Rightarrow> 'w step" where
  "send_timer_proc cd now = do {
     test \<leftarrow> the_test;
     case cd of
       Cd_test \<Rightarrow> State_Monad.return Fault
     | Cd_stream i \<Rightarrow>
         (case find (\<lambda>sp. sp_id sp = i) (t_streams test) of
            None \<Rightarrow> State_Monad.return Fault
          | Some sp \<Rightarrow>
              (case iperf_check_throttle now (test, sp) of
                 Ok (test1, sp1) \<Rightarrow> do {
                   _ \<leftarrow> set_test (\<lambda>_. on_stream i (\<lambda>_. sp1) test1);
                   ok
                 }
               | _ \<Rightarrow> State_Monad.return Fault))
   }"

fun run_proc :: "'w os \<Rightarrow> uninit \<Rightarrow> proc \<Rightarrow> cdata \<Rightarrow> iperf_time \<Rightarrow> 'w step" where
  "run_proc os u Test_timer_proc cd now = test_timer_proc"
| "run_proc os u Client_stats_timer_proc cd now = client_stats_timer_proc os u"
| "run_proc os u Client_reporter_timer_proc cd now = client_reporter_timer_proc"
| "run_proc os u Client_omit_timer_proc cd now = client_omit_timer_proc os u now"
| "run_proc os u Send_timer_proc cd now = send_timer_proc cd now"
| "run_proc os u Server_timer_proc cd now = server_timer_proc os"
| "run_proc os u Server_stats_timer_proc cd now = server_stats_timer_proc os u"
| "run_proc os u Server_reporter_timer_proc cd now = server_reporter_timer_proc"
| "run_proc os u Server_omit_timer_proc cd now = server_omit_timer_proc os u now"

text \<open>\<open>tmr_run\<close> on the process: the rest of the process is the state of the callbacks.\<close>

definition node_cb :: "'w os \<Rightarrow> uninit \<Rightarrow> (proc, cdata, 'w node) timer_cb" where
  "node_cb os u p cd now ws = (case ws of (n, s) \<Rightarrow>
     (case run_state (run_proc os u p cd now) (n\<lparr>n_tmr := s\<rparr>) of
        (Ok _, n1) \<Rightarrow> Some (n1, n_tmr n1)
      | _ \<Rightarrow> None))"

definition read_clock :: "'w os \<Rightarrow> ('w, unit) act" where
  "read_clock os = do {
     n \<leftarrow> State_Monad.get;
     (_, now) \<leftarrow> lift (time_now os (n_now n));
     State (\<lambda>n. ((), n\<lparr>n_now := now\<rparr>))
   }"

definition run_timers :: "'w os \<Rightarrow> uninit \<Rightarrow> 'w step" where
  "run_timers os u = do {
     _ \<leftarrow> read_clock os;
     State (\<lambda>n. case tmr_run (node_cb os u) (Some (n_now n)) (0, 0, 0) (n_now n) (n, n_tmr n) of
       None \<Rightarrow> (Fault, n)
     | Some (n1, s) \<Rightarrow> (Ok 0, n1\<lparr>n_tmr := s\<rparr>))
   }"

section \<open>Waiting\<close>

text \<open>
  The head of both loops: the sets are copied, the timeout is the time to the next timer, and
  \<open>select\<close> replaces the sets; on Linux it also replaces the timeout by the time left. When it fails it leaves them as they are.
\<close>

definition IESELECT :: int where "IESELECT = 118"

definition after_select :: "sysres \<Rightarrow> 'w node \<Rightarrow> 'w node" where
  "after_select a n =
     n\<lparr>n_result := s_ret a,
       n_read_set := (if s_ret a < 0 then n_read_set n else if s_ret a = 0 then {} else n_read_set n \<inter> s_rset a),
       n_write_set := (if s_ret a < 0 then n_write_set n else if s_ret a = 0 then {} else n_write_set n \<inter> s_wset a),
       n_timeout := (if s_ret a < 0 then n_timeout n else map_option (\<lambda>_. (s_val a, s_fam a)) (n_timeout n))\<rparr>"

definition wait_select :: "'w os \<Rightarrow> 'w step" where
  "wait_select os = do {
     _ \<leftarrow> State (\<lambda>n. ((), n\<lparr>n_read_set := t_read_set (n_test n), n_write_set := t_write_set (n_test n)\<rparr>));
     _ \<leftarrow> read_clock os;
     n \<leftarrow> State_Monad.get;
     case tmr_timeout (Some (n_now n)) (0, 0, 0) (n_now n) (n_tmr n) of
       None \<Rightarrow> State_Monad.return Fault
     | Some timeout \<Rightarrow> do {
         _ \<leftarrow> State (\<lambda>n. ((), n\<lparr>n_timeout := timeout\<rparr>));
         a \<leftarrow> lift (sys os (Select (t_max_fd (n_test n) + 1) (n_read_set n) (n_write_set n) timeout));
         e \<leftarrow> lift get_errno;
         _ \<leftarrow> State (\<lambda>n. ((), after_select a n));
         State_Monad.return (Ok (if s_ret a < 0 \<and> e \<noteq> EINTR then -1 else 0))
       }
   }"

section \<open>Creating the timers\<close>

definition create_client_timers :: "'w os \<Rightarrow> uninit \<Rightarrow> 'w step" where
  "create_client_timers os u = do {
     (r, now) \<leftarrow> lift (time_now os (u_time u));
     if r < 0 then fail IEINITTEST
     else do {
       _ \<leftarrow> set_test (\<lambda>t. t\<lparr>t_timer := None, t_stats_timer := None, t_reporter_timer := None\<rparr>);
       test \<leftarrow> the_test;
       steps
         [if t_duration test \<noteq> 0 then do {
            _ \<leftarrow> set_test (\<lambda>t. t\<lparr>t_done := False\<rparr>);
            create_timer os u (Some now) Test_timer_proc Cd_test (secs_to_us (c_int (t_duration test + t_omit test))) 0
              (\<lambda>p t. t\<lparr>t_timer := p\<rparr>)
          } else ok,
          if deq (t_stats_interval test) (Fin 0) then ok
          else create_timer os u (Some now) Client_stats_timer_proc Cd_test (interval_to_us (t_stats_interval test)) 1
              (\<lambda>p t. t\<lparr>t_stats_timer := p\<rparr>),
          if deq (t_reporter_interval test) (Fin 0) then ok
          else create_timer os u (Some now) Client_reporter_timer_proc Cd_test (interval_to_us (t_reporter_interval test)) 1
              (\<lambda>p t. t\<lparr>t_reporter_timer := p\<rparr>)]
     }
   }"

definition create_client_omit_timer :: "'w os \<Rightarrow> uninit \<Rightarrow> 'w step" where
  "create_client_omit_timer os u = do {
     test \<leftarrow> the_test;
     if t_omit test = 0 then do { _ \<leftarrow> set_test (\<lambda>t. t\<lparr>t_omit_timer := None, t_omitting := False\<rparr>); ok }
     else do {
       (r, now) \<leftarrow> lift (time_now os (u_time u));
       if r < 0 then fail IEINITTEST
       else do {
         _ \<leftarrow> set_test (\<lambda>t. t\<lparr>t_omitting := True\<rparr>);
         create_timer os u (Some now) Client_omit_timer_proc Cd_test (secs_to_us (t_omit test)) 0
           (\<lambda>p t. t\<lparr>t_omit_timer := p\<rparr>)
       }
     }
   }"

definition create_server_timers :: "'w os \<Rightarrow> uninit \<Rightarrow> 'w step" where
  "create_server_timers os u = do {
     let grace_period = 4 * 10;
     (r, now) \<leftarrow> lift (time_now os (u_time u));
     if r < 0 then fail IEINITTEST
     else do {
       _ \<leftarrow> set_test (\<lambda>t. t\<lparr>t_timer := None, t_stats_timer := None, t_reporter_timer := None\<rparr>);
       test \<leftarrow> the_test;
       steps
         [if t_duration test \<noteq> 0 then do {
            _ \<leftarrow> set_test (\<lambda>t. t\<lparr>t_done := False\<rparr>);
            create_timer os u (Some now) Server_timer_proc Cd_test
              (secs_to_us (c_int (c_int (t_duration test + t_omit test) + grace_period))) 0 (\<lambda>p t. t\<lparr>t_timer := p\<rparr>)
          } else ok,
          do { _ \<leftarrow> set_test (\<lambda>t. t\<lparr>t_stats_timer := None, t_reporter_timer := None\<rparr>); ok },
          if deq (t_stats_interval test) (Fin 0) then ok
          else create_timer os u (Some now) Server_stats_timer_proc Cd_test (interval_to_us (t_stats_interval test)) 1
              (\<lambda>p t. t\<lparr>t_stats_timer := p\<rparr>),
          if deq (t_reporter_interval test) (Fin 0) then ok
          else create_timer os u (Some now) Server_reporter_timer_proc Cd_test (interval_to_us (t_reporter_interval test)) 1
              (\<lambda>p t. t\<lparr>t_reporter_timer := p\<rparr>)]
     }
   }"

definition create_server_omit_timer :: "'w os \<Rightarrow> uninit \<Rightarrow> 'w step" where
  "create_server_omit_timer os u = do {
     test \<leftarrow> the_test;
     if t_omit test = 0 then do { _ \<leftarrow> set_test (\<lambda>t. t\<lparr>t_omit_timer := None, t_omitting := False\<rparr>); ok }
     else do {
       (r, now) \<leftarrow> lift (time_now os (u_time u));
       if r < 0 then fail IEINITTEST
       else do {
         _ \<leftarrow> set_test (\<lambda>t. t\<lparr>t_omitting := True\<rparr>);
         create_timer os u (Some now) Server_omit_timer_proc Cd_test (secs_to_us (t_omit test)) 0
           (\<lambda>p t. t\<lparr>t_omit_timer := p\<rparr>)
       }
     }
   }"

text \<open>\<open>iperf_create_send_timers\<close>: the streams with the numbers \<open>ids\<close>, in order.\<close>

fun send_timers :: "'w os \<Rightarrow> uninit \<Rightarrow> int list \<Rightarrow> 'w step" where
  "send_timers os u [] = ok"
| "send_timers os u (i # ids) = do {
     _ \<leftarrow> set_test (on_stream i (\<lambda>sp. sp\<lparr>sp_green_light := True\<rparr>));
     test \<leftarrow> the_test;
     r \<leftarrow> (if cfg_rate (t_settings test) \<noteq> 0
          then create_timer os u None Send_timer_proc (Cd_stream i) (Some (word_of_int (cfg_pacing_timer (t_settings test)))) 1
                 (\<lambda>p. on_stream i (\<lambda>sp. sp\<lparr>sp_send_timer := p\<rparr>))
          else ok);
     unless_error r (send_timers os u ids)
   }"

definition iperf_create_send_timers :: "'w os \<Rightarrow> uninit \<Rightarrow> 'w step" where
  "iperf_create_send_timers os u = do {
     (r, now) \<leftarrow> lift (time_now os (u_time u));
     if r < 0 then fail IEINITTEST
     else do {
       test \<leftarrow> the_test;
       send_timers os u (map sp_id (t_streams test))
     }
   }"

section \<open>Reset of a test\<close>

definition reset_fields :: "iperf_test \<Rightarrow> iperf_test" where
  "reset_fields test =
     (let t1 = snd (set_protocol (test\<lparr>t_done := False, t_streams := [], t_remote_congestion_used := None, t_role := CHR ''s'',
            t_mode := RECEIVER, t_sender_has_retransmits := 0\<rparr>) Ptcp)
      in t1\<lparr>t_omit := OMIT, t_duration := DURATION, t_server_affinity := -1, t_state := 0, t_ctrl_sck := -1,
            t_prot_listener := -1, t_bytes_sent := 0, t_blocks_sent := 0, t_bytes_received := 0, t_blocks_received := 0,
            t_other_side_has_retransmits := 0, t_reverse := False, t_bidirectional := False, t_no_delay := False,
            t_read_set := {}, t_write_set := {}, t_num_streams := 1,
            t_settings := (t_settings t1)\<lparr>cfg_socket_bufsize := 0, cfg_blksize := DEFAULT_TCP_BLKSIZE, cfg_rate := 0,
              cfg_burst := 0, cfg_mss := 0, cfg_tos := 0\<rparr>,
            t_cookie := replicate COOKIE_SIZE 0, t_multisend := 10, t_udp_counters_64bit := 0, t_title := None,
            t_extra_data := None, t_server_output_list := []\<rparr>)"

definition iperf_reset_test :: "'w os \<Rightarrow> 'w step" where
  "iperf_reset_test os = do {
     test \<leftarrow> the_test;
     steps
       [free_streams os False (length (t_streams test)),
        cancel_timer t_omit_timer (\<lambda>t. t\<lparr>t_omit_timer := None\<rparr>),
        cancel_timer t_timer (\<lambda>t. t\<lparr>t_timer := None\<rparr>),
        cancel_timer t_stats_timer (\<lambda>t. t\<lparr>t_stats_timer := None\<rparr>),
        cancel_timer t_reporter_timer (\<lambda>t. t\<lparr>t_reporter_timer := None\<rparr>),
        do { _ \<leftarrow> set_test reset_fields; ok }]
   }"

section \<open>Calls of both sides\<close>

definition new_stream :: "'w os \<Rightarrow> int \<Rightarrow> bool \<Rightarrow> 'w step" where
  "new_stream os s is_sender = do {
     n \<leftarrow> State_Monad.get;
     r \<leftarrow> lift (iperf_new_stream os (n_test n) s is_sender);
     case r of
       None \<Rightarrow> State_Monad.return Fault
     | Some (None, test) \<Rightarrow> do { _ \<leftarrow> set_test (\<lambda>_. test); State_Monad.return (Ok (-1)) }
     | Some (Some sp, test) \<Rightarrow> do { _ \<leftarrow> set_test (\<lambda>_. test); _ \<leftarrow> log_event (On_new_stream (sp_id sp)); ok }
   }"

definition watch_stream :: "int \<Rightarrow> bool \<Rightarrow> iperf_test \<Rightarrow> iperf_test" where
  "watch_stream s is_sender test =
     (let t = (if is_sender then test\<lparr>t_write_set := insert s (t_write_set test)\<rparr>
               else test\<lparr>t_read_set := insert s (t_read_set test)\<rparr>)
      in if s > t_max_fd t then t\<lparr>t_max_fd := s\<rparr> else t)"

fun close_sockets :: "'w os \<Rightarrow> iperf_stream list \<Rightarrow> ('w, unit) io" where
  "close_sockets os [] = ret ()"
| "close_sockets os (sp # sps) = do { _ \<leftarrow> sys os (Close (sp_socket sp)); close_sockets os sps }"

definition send_state :: "'w os \<Rightarrow> int \<Rightarrow> ('w, int) act" where
  "send_state os st = on_test (\<lambda>test. iperf_set_send_state os test st)"

text \<open>The exchanges, on the test of the process.\<close>

definition exchange_parameters :: "'w os \<Rightarrow> uninit \<Rightarrow> 'w step" where
  "exchange_parameters os u = on_test_outcome (iperf_exchange_parameters os (u_bytes u))"

definition exchange_results :: "'w os \<Rightarrow> uninit \<Rightarrow> 'w step" where
  "exchange_results os u = on_test_outcome (iperf_exchange_results os (u_bytes u))"

definition init_test :: "'w os \<Rightarrow> 'w step" where
  "init_test os = do { r \<leftarrow> on_test (iperf_init_test os); State_Monad.return (Ok r) }"

text \<open>The byte of the message is read into \<open>test->state\<close>.\<close>

definition state_byte :: "u8 list \<Rightarrow> int \<Rightarrow> int" where
  "state_byte bs old = (case bs of [] \<Rightarrow> old | b # _ \<Rightarrow> sint b)"

definition watch_control :: "iperf_test \<Rightarrow> iperf_test" where
  "watch_control test =
     (let t = test\<lparr>t_read_set := insert (t_ctrl_sck test) (t_read_set test)\<rparr>
      in if t_ctrl_sck t > t_max_fd t then t\<lparr>t_max_fd := t_ctrl_sck t\<rparr> else t)"

text \<open>The transfer of data, with the sets that \<open>select\<close> returned.\<close>

definition send_data :: "'w os \<Rightarrow> uninit \<Rightarrow> 'w step" where
  "send_data os u = do {
     n \<leftarrow> State_Monad.get;
     m \<leftarrow> lift (iperf_send os (u_time u) (n_test n) (Some (n_write_set n)));
     case m of
       Ok (r, test, ws) \<Rightarrow> do {
         _ \<leftarrow> State (\<lambda>n. ((), n\<lparr>n_test := test, n_write_set := (case ws of None \<Rightarrow> {} | Some w \<Rightarrow> w)\<rparr>));
         State_Monad.return (Ok r)
       }
     | _ \<Rightarrow> State_Monad.return Fault
   }"

definition recv_data :: "'w os \<Rightarrow> 'w step" where
  "recv_data os = do {
     n \<leftarrow> State_Monad.get;
     (r, test, rs) \<leftarrow> lift (iperf_recv os (n_test n) (n_read_set n));
     _ \<leftarrow> State (\<lambda>n. ((), n\<lparr>n_test := test, n_read_set := rs\<rparr>));
     State_Monad.return (Ok r)
   }"

definition IEAFFINITY :: int where "IEAFFINITY = 132"

definition iperf_setaffinity :: "'w step" where
  "iperf_setaffinity = fail IEAFFINITY"

end
