(* ===== verification/Client.thy ===== *)
theory Client
  imports Session
begin

text \<open>
  \<open>iperf_client_api.c\<close>: connecting, creating the streams, the messages of the server, the end of a test, and one
  iteration of the main loop.
\<close>

section \<open>Streams\<close>

definition prot_connect :: "'w os \<Rightarrow> iperf_test \<Rightarrow> ('w, int \<times> iperf_test) io" where
  "prot_connect os test = (if t_protocol test = Pudp then iperf_udp_connect os test else iperf_tcp_connect os test)"

text \<open>The loop over the streams, \<open>k\<close> of which are left.\<close>

fun create_streams :: "'w os \<Rightarrow> bool \<Rightarrow> int \<Rightarrow> int \<Rightarrow> nat \<Rightarrow> 'w step" where
  "create_streams os is_sender orig_bind_port i 0 = ok"
| "create_streams os is_sender orig_bind_port i (Suc k) = do {
     _ \<leftarrow> set_test (\<lambda>t. t\<lparr>t_bind_port := (if orig_bind_port \<noteq> 0 then c_int (orig_bind_port + i) else orig_bind_port)\<rparr>);
     s \<leftarrow> on_test (prot_connect os);
     if s < 0 then State_Monad.return (Ok (-1))
     else do {
       _ \<leftarrow> set_test (watch_stream s is_sender);
       r \<leftarrow> new_stream os s is_sender;
       unless_error r (create_streams os is_sender orig_bind_port (i + 1) k)
     }
   }"

definition iperf_create_streams :: "'w os \<Rightarrow> bool \<Rightarrow> 'w step" where
  "iperf_create_streams os is_sender = do {
     test \<leftarrow> the_test;
     create_streams os is_sender (t_bind_port test) 0 (nat (t_num_streams test))
   }"

section \<open>The end of a test\<close>

definition iperf_client_end :: "'w os \<Rightarrow> 'w step" where
  "iperf_client_end os = do {
     test \<leftarrow> the_test;
     _ \<leftarrow> lift (close_sockets os (t_streams test));
     _ \<leftarrow> report;
     r \<leftarrow> send_state os IPERF_DONE;
     if r \<noteq> 0 then State_Monad.return (Ok (-1))
     else do {
       test \<leftarrow> the_test;
       _ \<leftarrow> (if t_ctrl_sck test \<noteq> 0 then do { _ \<leftarrow> lift (sys os (Close (t_ctrl_sck test))); State_Monad.return () }
            else State_Monad.return ());
       ok
     }
   }"

section \<open>Messages of the server\<close>

text \<open>
  \<open>SERVER_ERROR\<close>: the server's \<open>i_errno\<close> and \<open>errno\<close> follow. The local variable \<open>err\<close> has the bytes \<open>err\<close> before each of the two reads,
  which a short read leaves in place.
\<close>

definition server_error :: "'w os \<Rightarrow> u8 list \<Rightarrow> 'w step" where
  "server_error os err0 = do {
     test \<leftarrow> the_test;
     (r1, bs1) \<leftarrow> lift (Nread os (t_ctrl_sck test) 4);
     if r1 < 0 then fail IECTRLREAD
     else do {
       let err1 = overlay bs1 err0;
       _ \<leftarrow> set_test (\<lambda>t. t\<lparr>i_errno := c_int (be_val (take 4 err1))\<rparr>);
       (r2, bs2) \<leftarrow> lift (Nread os (t_ctrl_sck test) 4);
       if r2 < 0 then fail IECTRLREAD
       else do {
         _ \<leftarrow> lift (set_errno (c_int (be_val (take 4 (overlay bs2 err1)))));
         State_Monad.return (Ok (-1))
       }
     }
   }"

definition server_terminated :: "'w os \<Rightarrow> uninit \<Rightarrow> 'w step" where
  "server_terminated os u = do {
     _ \<leftarrow> set_test (\<lambda>t. t\<lparr>i_errno := IESERVERTERM\<rparr>);
     test \<leftarrow> the_test;
     _ \<leftarrow> cpu_util os u True;
     _ \<leftarrow> set_test (\<lambda>t. t\<lparr>t_state := DISPLAY_RESULTS\<rparr>);
     _ \<leftarrow> report;
     _ \<leftarrow> set_test (\<lambda>t. t\<lparr>t_state := t_state test\<rparr>);
     State_Monad.return (Ok (-1))
   }"

definition client_dispatch :: "'w os \<Rightarrow> uninit \<Rightarrow> 'w step" where
  "client_dispatch os u = do {
     test \<leftarrow> the_test;
     let st = t_state test;
     if st = PARAM_EXCHANGE then
       steps [exchange_parameters os u, do { _ \<leftarrow> log_event On_connect; ok }]
     else if st = CREATE_STREAMS then
       if t_mode test = BIDIRECTIONAL then steps [iperf_create_streams os True, iperf_create_streams os False]
       else steps [iperf_create_streams os (t_mode test \<noteq> 0)]
     else if st = TEST_START then
       steps [init_test os, create_client_timers os u, create_client_omit_timer os u,
              if t_mode test \<noteq> 0 then iperf_create_send_timers os u else ok]
     else if st = TEST_RUNNING then ok
     else if st = EXCHANGE_RESULTS then steps [exchange_results os u]
     else if st = DISPLAY_RESULTS then do {
       _ \<leftarrow> log_event On_test_finish;
       r \<leftarrow> iperf_client_end os;
       case r of Ok _ \<Rightarrow> ok | _ \<Rightarrow> State_Monad.return Fault
     }
     else if st = IPERF_DONE then ok
     else if st = SERVER_TERMINATE then server_terminated os u
     else if st = ACCESS_DENIED then fail IEACCESSDENIED
     else if st = SERVER_ERROR then server_error os (u_bytes u)
     else fail IEMESSAGE
   }"

definition iperf_handle_message_client :: "'w os \<Rightarrow> uninit \<Rightarrow> 'w step" where
  "iperf_handle_message_client os u = do {
     test \<leftarrow> the_test;
     r \<leftarrow> lift (sys os (Read (t_ctrl_sck test) 1));
     if s_ret r \<le> 0 then fail (if s_ret r = 0 then IECTRLCLOSE else IERECVMESSAGE)
     else do {
       _ \<leftarrow> set_test (\<lambda>t. t\<lparr>t_state := state_byte (s_bytes r) (t_state t)\<rparr>);
       client_dispatch os u
     }
   }"

section \<open>Connecting\<close>

definition set_mss :: "sysres \<Rightarrow> iperf_test \<Rightarrow> iperf_test" where
  "set_mss g test = test\<lparr>t_ctrl_sck_mss :=
     (if s_ret g < 0 then 0 else if s_val g > 0 \<and> s_val g \<le> MAX_UDP_BLOCKSIZE then s_val g else 0)\<rparr>"

definition default_blksize :: "iperf_test \<Rightarrow> iperf_test" where
  "default_blksize test =
     (if t_protocol test = Pudp \<and> cfg_blksize (t_settings test) = 0
      then test\<lparr>t_settings := (t_settings test)\<lparr>cfg_blksize :=
             (if t_ctrl_sck_mss test \<noteq> 0 then t_ctrl_sck_mss test else DEFAULT_UDP_BLKSIZE)\<rparr>\<rparr>
      else test)"

definition dial_control :: "'w os \<Rightarrow> ('w, unit) act" where
  "dial_control os = do {
     test \<leftarrow> the_test;
     if t_ctrl_sck test < 0 then do {
       s \<leftarrow> lift (netdial os (cfg_domain (t_settings test)) Ptcp (t_bind_address test) 0 (t_server_hostname test)
              (t_server_port test) (cfg_connect_timeout (t_settings test)));
       set_test (\<lambda>t. t\<lparr>t_ctrl_sck := s\<rparr>)
     } else State_Monad.return ()
   }"

definition iperf_connect :: "'w os \<Rightarrow> 'w step" where
  "iperf_connect os = do {
     _ \<leftarrow> set_test (\<lambda>t. t\<lparr>t_read_set := {}, t_write_set := {}\<rparr>);
     c \<leftarrow> lift (make_cookie os);
     case c of
       None \<Rightarrow> State_Monad.return Fault
     | Some cookie \<Rightarrow> do {
         _ \<leftarrow> set_test (\<lambda>t. t\<lparr>t_cookie := cookie\<rparr>);
         _ \<leftarrow> dial_control os;
         test \<leftarrow> the_test;
         if t_ctrl_sck test < 0 then fail IECONNECT
         else do {
           w \<leftarrow> lift (Nwrite os (t_ctrl_sck test) cookie);
           if w < 0 then fail IESENDCOOKIE
           else do {
             _ \<leftarrow> set_test watch_control;
             g \<leftarrow> lift (sys os (Getsockopt (t_ctrl_sck test) ''TCP_MAXSEG''));
             _ \<leftarrow> set_test (default_blksize \<circ> set_mss g);
             ok
           }
         }
       }
   }"

section \<open>The main loop\<close>

fun nonblocking_all :: "'w os \<Rightarrow> bool \<Rightarrow> iperf_stream list \<Rightarrow> ('w, unit) io" where
  "nonblocking_all os b [] = ret ()"
| "nonblocking_all os b (sp # sps) = do { _ \<leftarrow> setnonblocking os (sp_socket sp) b; nonblocking_all os b sps }"

definition set_nonblocking :: "'w os \<Rightarrow> bool \<Rightarrow> ('w, unit) act" where
  "set_nonblocking os b = do {
     test \<leftarrow> the_test;
     if t_protocol test \<noteq> Pudp then lift (nonblocking_all os b (t_streams test)) else State_Monad.return ()
   }"

definition first_time :: "'w os \<Rightarrow> 'w step" where
  "first_time os = do {
     n \<leftarrow> State_Monad.get;
     if n_startup n then do {
       _ \<leftarrow> State (\<lambda>n. ((), n\<lparr>n_startup := False\<rparr>));
       _ \<leftarrow> set_nonblocking os True;
       ok
     } else ok
   }"

definition test_is_done :: "iperf_test \<Rightarrow> bool" where
  "test_is_done test \<longleftrightarrow> \<not> t_omitting test \<and>
     (t_duration test \<noteq> 0 \<and> t_done test \<or>
      cfg_bytes (t_settings test) \<noteq> 0 \<and> t_bytes_sent test \<ge> cfg_bytes (t_settings test) \<or>
      cfg_blocks (t_settings test) \<noteq> 0 \<and> t_blocks_sent test \<ge> cfg_blocks (t_settings test))"

definition end_test :: "'w os \<Rightarrow> uninit \<Rightarrow> 'w step" where
  "end_test os u = do {
     test \<leftarrow> the_test;
     if test_is_done test then do {
       _ \<leftarrow> set_nonblocking os False;
       _ \<leftarrow> set_test (\<lambda>t. t\<lparr>t_done := True\<rparr>);
       _ \<leftarrow> cpu_util os u True;
       _ \<leftarrow> stats_callback os u;
       r \<leftarrow> send_state os TEST_END;
       State_Monad.return (Ok (if r \<noteq> 0 then -1 else 0))
     } else ok
   }"

definition client_transfer :: "'w os \<Rightarrow> uninit \<Rightarrow> 'w step" where
  "client_transfer os u = do {
     test \<leftarrow> the_test;
     if t_mode test = BIDIRECTIONAL then steps [send_data os u, recv_data os]
     else if t_mode test = SENDER then send_data os u
     else recv_data os
   }"

definition client_message :: "'w os \<Rightarrow> uninit \<Rightarrow> 'w step" where
  "client_message os u = do {
     n \<leftarrow> State_Monad.get;
     if n_result n > 0 \<and> t_ctrl_sck (n_test n) \<in> n_read_set n then do {
       r \<leftarrow> iperf_handle_message_client os u;
       unless_error r (do {
         _ \<leftarrow> State (\<lambda>n. ((), n\<lparr>n_read_set := n_read_set n - {t_ctrl_sck (n_test n)}\<rparr>));
         ok
       })
     } else ok
   }"

definition client_running :: "'w os \<Rightarrow> uninit \<Rightarrow> 'w step" where
  "client_running os u = do {
     test \<leftarrow> the_test;
     if t_state test = TEST_RUNNING then steps [first_time os, client_transfer os u, run_timers os u, end_test os u]
     else if t_mode test = RECEIVER \<and> t_state test = TEST_END then recv_data os
     else ok
   }"

definition client_select :: "'w os \<Rightarrow> 'w step" where
  "client_select os = do {
     r \<leftarrow> wait_select os;
     case r of Ok v \<Rightarrow> if v < 0 then fail IESELECT else ok | _ \<Rightarrow> State_Monad.return Fault
   }"

definition client_iteration :: "'w os \<Rightarrow> uninit \<Rightarrow> 'w step" where
  "client_iteration os u = steps [client_select os, client_message os u, client_running os u]"

text \<open>
  The loop, for at most \<open>k\<close> iterations: it ends with \<open>Ok 0\<close> when the state is \<open>IPERF_DONE\<close>, with the error of an iteration, or
  is still running (\<^const>\<open>Timeout\<close>).
\<close>

fun client_loop :: "'w os \<Rightarrow> uninit \<Rightarrow> nat \<Rightarrow> 'w step" where
  "client_loop os u 0 = do {
     test \<leftarrow> the_test;
     State_Monad.return (if t_state test = IPERF_DONE then Ok 0 else Timeout)
   }"
| "client_loop os u (Suc k) = do {
     test \<leftarrow> the_test;
     if t_state test = IPERF_DONE then ok
     else do { r \<leftarrow> client_iteration os u; unless_error r (client_loop os u k) }
   }"

text \<open>\<open>iperf_run_client\<close> without its output.\<close>

definition set_startup :: "'w step" where
  "set_startup = State (\<lambda>n. (Ok 0, n\<lparr>n_startup := True\<rparr>))"

definition iperf_run_client :: "'w os \<Rightarrow> uninit \<Rightarrow> nat \<Rightarrow> 'w step" where
  "iperf_run_client os u k = do {
     test \<leftarrow> the_test;
     steps
       [if t_affinity test \<noteq> -1 then iperf_setaffinity else ok,
        iperf_connect os,
        do { _ \<leftarrow> cpu_util os u False; ok },
        set_startup,
        client_loop os u k]
   }"

end
