(* ===== verification/Server.thy ===== *)
theory Server
  imports Session
begin

text \<open>
  \<open>iperf_server_api.c\<close>: listening, accepting a client, the messages of the client, cleaning up, and one iteration of the main loop.
\<close>

section \<open>Listening\<close>

text \<open>The jump to \<open>retry\<close> happens at most once, since it changes the domain.\<close>

function announce :: "'w os \<Rightarrow> iperf_test \<Rightarrow> ('w, int \<times> iperf_test) io" where
  "announce os test = do {
     s \<leftarrow> netannounce os (cfg_domain (t_settings test)) Ptcp (t_bind_address test) (t_server_port test);
     let test1 = test\<lparr>t_listener := s\<rparr>;
     if s < 0 then do {
       e \<leftarrow> get_errno;
       if e = EAFNOSUPPORT \<and> (cfg_domain (t_settings test) = AF_INET6 \<or> cfg_domain (t_settings test) = AF_UNSPEC)
       then announce os (test1\<lparr>t_settings := (t_settings test1)\<lparr>cfg_domain := AF_INET\<rparr>\<rparr>)
       else ret (-1, test1\<lparr>i_errno := IELISTEN\<rparr>)
     } else ret (0, test1)
   }"
  by pat_completeness auto
termination
  by (relation "measure (\<lambda>(os, test). if cfg_domain (t_settings test) = AF_INET then 0 else 1)")
    (auto simp: AF_INET_def AF_INET6_def AF_UNSPEC_def)

definition watch_listener :: "iperf_test \<Rightarrow> iperf_test" where
  "watch_listener test =
     (let t = test\<lparr>t_read_set := insert (t_listener test) (t_read_set test)\<rparr>
      in if t_listener t > t_max_fd t then t\<lparr>t_max_fd := t_listener t\<rparr> else t)"

definition iperf_server_listen :: "'w os \<Rightarrow> 'w step" where
  "iperf_server_listen os = do {
     r \<leftarrow> on_test (announce os);
     if r < 0 then State_Monad.return (Ok (-1))
     else do {
       _ \<leftarrow> set_test (\<lambda>t. watch_listener (t\<lparr>t_read_set := {}, t_write_set := {}\<rparr>));
       ok
     }
   }"

section \<open>Accepting a client\<close>

definition send_step :: "'w os \<Rightarrow> int \<Rightarrow> 'w step" where
  "send_step os st = do { r \<leftarrow> send_state os st; State_Monad.return (Ok (if r \<noteq> 0 then -1 else 0)) }"

definition greet_client :: "'w os \<Rightarrow> uninit \<Rightarrow> int \<Rightarrow> 'w step" where
  "greet_client os u s = do {
     _ \<leftarrow> set_test (\<lambda>t. t\<lparr>t_ctrl_sck := s\<rparr>);
     (r, bs) \<leftarrow> lift (Nread os s COOKIE_SIZE);
     _ \<leftarrow> set_test (\<lambda>t. t\<lparr>t_cookie := overlay bs (t_cookie t)\<rparr>);
     if r < 0 then fail IERECVCOOKIE
     else do {
       _ \<leftarrow> set_test watch_control;
       steps
         [send_step os PARAM_EXCHANGE,
          exchange_parameters os u,
          do { test \<leftarrow> the_test; if t_server_affinity test \<noteq> -1 then iperf_setaffinity else ok },
          do { _ \<leftarrow> log_event On_connect; ok }]
     }
   }"

definition deny_client :: "'w os \<Rightarrow> int \<Rightarrow> 'w step" where
  "deny_client os s = do {
     w \<leftarrow> lift (Nwrite os s [word_of_int ACCESS_DENIED]);
     if w < 0 then fail IESENDMESSAGE
     else do { _ \<leftarrow> lift (sys os (Close s)); ok }
   }"

definition iperf_accept :: "'w os \<Rightarrow> uninit \<Rightarrow> 'w step" where
  "iperf_accept os u = do {
     test \<leftarrow> the_test;
     a \<leftarrow> lift (sys os (Accept (t_listener test)));
     if s_ret a < 0 then fail IEACCEPT
     else if t_ctrl_sck test = -1 then greet_client os u (s_ret a)
     else deny_client os (s_ret a)
   }"

section \<open>Messages of the client\<close>

definition unwatch_streams :: "iperf_test \<Rightarrow> iperf_test" where
  "unwatch_streams t = t\<lparr>t_read_set := t_read_set t - sp_socket ` set (t_streams t),
     t_write_set := t_write_set t - sp_socket ` set (t_streams t)\<rparr>"

definition drop_streams :: "'w os \<Rightarrow> ('w, unit) act" where
  "drop_streams os = do {
     test \<leftarrow> the_test;
     _ \<leftarrow> set_test unwatch_streams;
     lift (close_sockets os (t_streams test))
   }"

definition client_finished :: "'w os \<Rightarrow> uninit \<Rightarrow> 'w step" where
  "client_finished os u = do {
     _ \<leftarrow> set_test (\<lambda>t. t\<lparr>t_done := True\<rparr>);
     _ \<leftarrow> cpu_util os u True;
     _ \<leftarrow> stats_callback os u;
     _ \<leftarrow> drop_streams os;
     _ \<leftarrow> report;
     steps
       [send_step os EXCHANGE_RESULTS,
        exchange_results os u,
        send_step os DISPLAY_RESULTS,
        do { _ \<leftarrow> log_event On_test_finish; ok }]
   }"

definition client_terminated :: "'w os \<Rightarrow> uninit \<Rightarrow> 'w step" where
  "client_terminated os u = do {
     _ \<leftarrow> set_test (\<lambda>t. t\<lparr>i_errno := IECLIENTTERM\<rparr>);
     _ \<leftarrow> cpu_util os u True;
     _ \<leftarrow> set_test (\<lambda>t. t\<lparr>t_state := DISPLAY_RESULTS\<rparr>);
     _ \<leftarrow> report;
     _ \<leftarrow> drop_streams os;
     _ \<leftarrow> set_test (\<lambda>t. t\<lparr>t_state := IPERF_DONE\<rparr>);
     ok
   }"

definition server_dispatch :: "'w os \<Rightarrow> uninit \<Rightarrow> 'w step" where
  "server_dispatch os u = do {
     test \<leftarrow> the_test;
     let st = t_state test;
     if st = TEST_START then ok
     else if st = TEST_END then client_finished os u
     else if st = IPERF_DONE then ok
     else if st = CLIENT_TERMINATE then client_terminated os u
     else fail IEMESSAGE
   }"

definition iperf_handle_message_server :: "'w os \<Rightarrow> uninit \<Rightarrow> 'w step" where
  "iperf_handle_message_server os u = do {
     test \<leftarrow> the_test;
     (r, bs) \<leftarrow> lift (Nread os (t_ctrl_sck test) 1);
     if r = 0 then do { _ \<leftarrow> set_test (\<lambda>t. t\<lparr>i_errno := IECTRLCLOSE, t_state := IPERF_DONE\<rparr>); ok }
     else if r < 0 then fail IERECVMESSAGE
     else do {
       _ \<leftarrow> set_test (\<lambda>t. t\<lparr>t_state := state_byte bs (t_state t)\<rparr>);
       server_dispatch os u
     }
   }"

section \<open>Cleaning up\<close>

definition close_nonzero :: "'w os \<Rightarrow> (iperf_test \<Rightarrow> int) \<Rightarrow> 'w step" where
  "close_nonzero os field = do {
     test \<leftarrow> the_test;
     if field test \<noteq> 0 then do { _ \<leftarrow> lift (sys os (Close (field test))); ok } else ok
   }"

definition cleanup_server :: "'w os \<Rightarrow> 'w step" where
  "cleanup_server os = steps
     [close_nonzero os t_ctrl_sck,
      close_nonzero os t_listener,
      cancel_timer t_stats_timer (\<lambda>t. t\<lparr>t_stats_timer := None\<rparr>),
      cancel_timer t_reporter_timer (\<lambda>t. t\<lparr>t_reporter_timer := None\<rparr>),
      cancel_timer t_omit_timer (\<lambda>t. t\<lparr>t_omit_timer := None\<rparr>),
      do { _ \<leftarrow> set_test (\<lambda>t. t\<lparr>t_congestion_used := None\<rparr>); ok },
      cancel_timer t_timer (\<lambda>t. t\<lparr>t_timer := None\<rparr>)]"

text \<open>\<open>if (m < 0) { cleanup_server (test); return -1; }\<close>\<close>

definition or_cleanup :: "'w os \<Rightarrow> 'w step \<Rightarrow> 'w step" where
  "or_cleanup os m = do {
     r \<leftarrow> m;
     case r of
       Ok v \<Rightarrow> if v < 0 then do {
           c \<leftarrow> cleanup_server os;
           unless_error c (State_Monad.return (Ok (-1)))
         } else ok
     | _ \<Rightarrow> State_Monad.return r
   }"

section \<open>The main loop\<close>

definition on_srv :: "(server_locals \<Rightarrow> server_locals) \<Rightarrow> ('w, unit) act" where
  "on_srv f = State (\<lambda>n. ((), n\<lparr>n_srv := f (n_srv n)\<rparr>))"

definition unset_read :: "(iperf_test \<Rightarrow> int) \<Rightarrow> ('w, unit) act" where
  "unset_read field = State (\<lambda>n. ((), n\<lparr>n_read_set := n_read_set n - {field (n_test n)}\<rparr>))"

definition set_targets :: "iperf_test \<Rightarrow> server_locals \<Rightarrow> server_locals" where
  "set_targets test l =
     (if t_mode test = BIDIRECTIONAL then l\<lparr>sv_streams_to_send := t_num_streams test, sv_streams_to_rec := t_num_streams test\<rparr>
      else if t_mode test = RECEIVER then l\<lparr>sv_streams_to_rec := t_num_streams test, sv_streams_to_send := 0\<rparr>
      else l\<lparr>sv_streams_to_send := t_num_streams test, sv_streams_to_rec := 0\<rparr>)"

definition server_select :: "'w os \<Rightarrow> 'w step" where
  "server_select os = do {
     r \<leftarrow> wait_select os;
     case r of
       Ok v \<Rightarrow> if v < 0 then do {
           c \<leftarrow> cleanup_server os;
           unless_error c (fail IESELECT)
         } else ok
     | _ \<Rightarrow> State_Monad.return Fault
   }"

definition server_new_client :: "'w os \<Rightarrow> uninit \<Rightarrow> 'w step" where
  "server_new_client os u = do {
     n \<leftarrow> State_Monad.get;
     if t_listener (n_test n) \<in> n_read_set n \<and> t_state (n_test n) \<noteq> CREATE_STREAMS then do {
       r \<leftarrow> or_cleanup os (iperf_accept os u);
       unless_error r (do {
         _ \<leftarrow> unset_read t_listener;
         test \<leftarrow> the_test;
         _ \<leftarrow> on_srv (set_targets test);
         ok
       })
     } else ok
   }"

definition server_message :: "'w os \<Rightarrow> uninit \<Rightarrow> 'w step" where
  "server_message os u = do {
     n \<leftarrow> State_Monad.get;
     if t_ctrl_sck (n_test n) \<in> n_read_set n then do {
       r \<leftarrow> or_cleanup os (iperf_handle_message_server os u);
       unless_error r (do { _ \<leftarrow> unset_read t_ctrl_sck; ok })
     } else ok
   }"

definition prot_accept :: "'w os \<Rightarrow> uninit \<Rightarrow> iperf_test \<Rightarrow> ('w, int \<times> iperf_test) io" where
  "prot_accept os u test =
     (if t_protocol test = Pudp then iperf_udp_accept os test else iperf_tcp_accept os (u_bytes u) test)"

definition choose_flag :: "server_locals \<Rightarrow> server_locals" where
  "choose_flag l =
     (if sv_rec_streams_accepted l \<noteq> sv_streams_to_rec l
      then l\<lparr>sv_flag := 0, sv_rec_streams_accepted := c_int (sv_rec_streams_accepted l + 1)\<rparr>
      else if sv_send_streams_accepted l \<noteq> sv_streams_to_send l
      then l\<lparr>sv_flag := 1, sv_send_streams_accepted := c_int (sv_send_streams_accepted l + 1)\<rparr>
      else l)"

definition add_stream :: "'w os \<Rightarrow> int \<Rightarrow> bool \<Rightarrow> 'w step" where
  "add_stream os s is_sender = do {
     r \<leftarrow> new_stream os s is_sender;
     unless_error r (do {
       _ \<leftarrow> set_test (watch_stream s is_sender);
       test \<leftarrow> the_test;
       _ \<leftarrow> (if t_protocol test \<noteq> Pudp \<or> \<not> is_sender
            then do { _ \<leftarrow> lift (setnonblocking os s True); State_Monad.return () } else State_Monad.return ());
       _ \<leftarrow> on_srv (\<lambda>l. l\<lparr>sv_flag := -1\<rparr>);
       ok
     })
   }"

definition admit_stream :: "'w os \<Rightarrow> int \<Rightarrow> 'w step" where
  "admit_stream os s = do {
     c \<leftarrow> lift (is_closed os s);
     if c then ok
     else do {
       _ \<leftarrow> on_srv choose_flag;
       n \<leftarrow> State_Monad.get;
       if sv_flag (n_srv n) \<noteq> -1 then or_cleanup os (add_stream os s (sv_flag (n_srv n) \<noteq> 0)) else ok
     }
   }"

definition server_accept_stream :: "'w os \<Rightarrow> uninit \<Rightarrow> 'w step" where
  "server_accept_stream os u = do {
     n \<leftarrow> State_Monad.get;
     if t_prot_listener (n_test n) \<in> n_read_set n then do {
       s \<leftarrow> on_test (prot_accept os u);
       r \<leftarrow> or_cleanup os (State_Monad.return (Ok s));
       unless_error r (do {
         r2 \<leftarrow> admit_stream os s;
         unless_error r2 (do { _ \<leftarrow> unset_read t_prot_listener; ok })
       })
     } else ok
   }"

text \<open>The listener of the test is replaced after its socket options were used.\<close>

definition restore_listener :: "'w os \<Rightarrow> 'w step" where
  "restore_listener os = do {
     test \<leftarrow> the_test;
     if t_protocol test \<noteq> Ptcp then do {
       _ \<leftarrow> set_test (\<lambda>t. t\<lparr>t_read_set := t_read_set t - {t_prot_listener t}\<rparr>);
       _ \<leftarrow> lift (sys os (Close (t_prot_listener test)));
       ok
     } else if t_no_delay test \<or> cfg_mss (t_settings test) \<noteq> 0 \<or> cfg_socket_bufsize (t_settings test) \<noteq> 0 then do {
       _ \<leftarrow> set_test (\<lambda>t. t\<lparr>t_read_set := t_read_set t - {t_listener t}\<rparr>);
       _ \<leftarrow> lift (sys os (Close (t_listener test)));
       _ \<leftarrow> set_test (\<lambda>t. t\<lparr>t_listener := 0\<rparr>);
       s \<leftarrow> lift (netannounce os (cfg_domain (t_settings test)) Ptcp (t_bind_address test) (t_server_port test));
       if s < 0 then fail IELISTEN
       else do { _ \<leftarrow> set_test (\<lambda>t. watch_listener (t\<lparr>t_listener := s\<rparr>)); ok }
     } else ok
   }"

definition server_start_test :: "'w os \<Rightarrow> uninit \<Rightarrow> 'w step" where
  "server_start_test os u = do {
     n \<leftarrow> State_Monad.get;
     if sv_rec_streams_accepted (n_srv n) = sv_streams_to_rec (n_srv n) \<and>
        sv_send_streams_accepted (n_srv n) = sv_streams_to_send (n_srv n)
     then or_cleanup os (steps
       [restore_listener os,
        do { _ \<leftarrow> set_test (\<lambda>t. t\<lparr>t_prot_listener := -1\<rparr>); ok },
        send_step os TEST_START,
        init_test os,
        create_server_timers os u,
        create_server_omit_timer os u,
        do { test \<leftarrow> the_test; if t_mode test \<noteq> RECEIVER then iperf_create_send_timers os u else ok },
        send_step os TEST_RUNNING])
     else ok
   }"

definition server_create_streams :: "'w os \<Rightarrow> uninit \<Rightarrow> 'w step" where
  "server_create_streams os u = do {
     test \<leftarrow> the_test;
     if t_state test = CREATE_STREAMS then steps [server_accept_stream os u, server_start_test os u] else ok
   }"

definition server_transfer :: "'w os \<Rightarrow> uninit \<Rightarrow> 'w step" where
  "server_transfer os u = do {
     test \<leftarrow> the_test;
     if t_state test = TEST_RUNNING then or_cleanup os (
       if t_mode test = BIDIRECTIONAL then steps [recv_data os, send_data os u]
       else if t_mode test = SENDER then send_data os u
       else recv_data os)
     else ok
   }"

definition server_ready :: "'w os \<Rightarrow> uninit \<Rightarrow> 'w step" where
  "server_ready os u = do {
     n \<leftarrow> State_Monad.get;
     if n_result n > 0
     then steps [server_new_client os u, server_message os u, server_create_streams os u, server_transfer os u]
     else ok
   }"

definition server_timers :: "'w os \<Rightarrow> uninit \<Rightarrow> 'w step" where
  "server_timers os u = do {
     n \<leftarrow> State_Monad.get;
     if n_result n = 0 \<or> n_timeout n = Some (0, 0) then run_timers os u else ok
   }"

definition server_iteration :: "'w os \<Rightarrow> uninit \<Rightarrow> 'w step" where
  "server_iteration os u = steps [server_select os, server_ready os u, server_timers os u]"

text \<open>The loop, for at most \<open>k\<close> iterations, as for the client.\<close>

fun server_loop :: "'w os \<Rightarrow> uninit \<Rightarrow> nat \<Rightarrow> 'w step" where
  "server_loop os u 0 = do {
     test \<leftarrow> the_test;
     State_Monad.return (if t_state test = IPERF_DONE then Ok 0 else Timeout)
   }"
| "server_loop os u (Suc k) = do {
     test \<leftarrow> the_test;
     if t_state test = IPERF_DONE then ok
     else do { r \<leftarrow> server_iteration os u; unless_error r (server_loop os u k) }
   }"

definition start_server :: "uninit \<Rightarrow> 'w step" where
  "start_server u = State (\<lambda>n. (Ok 0, n\<lparr>n_test := (n_test n)\<lparr>t_state := IPERF_START\<rparr>,
     n_srv := \<lparr>sv_send_streams_accepted = 0, sv_rec_streams_accepted = 0, sv_streams_to_send = 0, sv_streams_to_rec = 0,
       sv_flag = u_flag u\<rparr>\<rparr>))"

definition iperf_clearaffinity :: "'w step" where
  "iperf_clearaffinity = fail IEAFFINITY"

text \<open>\<open>return -2\<close> for the failures before the loop.\<close>

definition or_minus_2 :: "'w step \<Rightarrow> 'w step \<Rightarrow> 'w step" where
  "or_minus_2 m k = do {
     r \<leftarrow> m;
     case r of Ok v \<Rightarrow> if v < 0 then State_Monad.return (Ok (-2)) else k | _ \<Rightarrow> State_Monad.return r
   }"

definition iperf_run_server :: "'w os \<Rightarrow> uninit \<Rightarrow> nat \<Rightarrow> 'w step" where
  "iperf_run_server os u k = do {
     test \<leftarrow> the_test;
     or_minus_2 (if t_affinity test \<noteq> -1 then iperf_setaffinity else ok)
       (or_minus_2 (iperf_server_listen os)
         (steps
           [do { _ \<leftarrow> cpu_util os u False; ok },
            start_server u,
            server_loop os u k,
            cleanup_server os,
            do { test \<leftarrow> the_test; if t_server_affinity test \<noteq> -1 then iperf_clearaffinity else ok }]))
   }"

end
