(* ===== verification/Frames.thy ===== *)
theory Frames
  imports Streams_Laws Client Server
begin

text \<open>
  What the operations on a test leave alone. \<open>always P m\<close> says that every result of \<open>m\<close> satisfies \<open>P\<close>, from
  every state of the network; \<open>framed\<close> relates a test to one with the same streams, control socket and state
  that watches no other descriptors.
\<close>

section \<open>Results of a computation\<close>

definition always :: "('a \<Rightarrow> bool) \<Rightarrow> ('s, 'a) state \<Rightarrow> bool" where
  "always P m \<longleftrightarrow> (\<forall>s. P (fst (run_state m s)))"

named_theorems always_intros \<open>decomposition of the results of a computation\<close>

lemma always_ret [always_intros]: "P x \<Longrightarrow> always P (State_Monad.return x)"
  by (simp add: always_def)

lemma always_bind: "always Q m \<Longrightarrow> (\<And>x. Q x \<Longrightarrow> always P (f x)) \<Longrightarrow> always P (m \<bind> f)"
  by (simp add: always_def split: prod.splits) (metis fst_conv)

lemma always_bind_any [always_intros]: "(\<And>x. always P (f x)) \<Longrightarrow> always P (m \<bind> f)"
  by (simp add: always_def split: prod.splits)

lemma always_if [always_intros]: "(b \<Longrightarrow> always P m) \<Longrightarrow> (\<not> b \<Longrightarrow> always P n) \<Longrightarrow> always P (if b then m else n)"
  by simp

lemma always_prod [always_intros]: "(\<And>a b. x = (a, b) \<Longrightarrow> always P (f a b)) \<Longrightarrow> always P (case x of (a, b) \<Rightarrow> f a b)"
  by (cases x) simp

lemma always_option [always_intros]:
  "(x = None \<Longrightarrow> always P m) \<Longrightarrow> (\<And>a. x = Some a \<Longrightarrow> always P (f a)) \<Longrightarrow>
     always P (case x of None \<Rightarrow> m | Some a \<Rightarrow> f a)"
  by (cases x) simp_all

lemma always_let [always_intros]: "always P (f x) \<Longrightarrow> always P (let y = x in f y)"
  by (simp add: Let_def)

lemma always_run: "always P m \<Longrightarrow> run_state m s = (r, s') \<Longrightarrow> P r"
  by (auto simp: always_def dest: spec [of _ s])

lemma always_mono: "always P m \<Longrightarrow> (\<And>x. P x \<Longrightarrow> Q x) \<Longrightarrow> always Q m"
  by (simp add: always_def)

section \<open>The frame of a test\<close>

definition stream_key :: "iperf_stream \<Rightarrow> int \<times> int \<times> bool" where
  "stream_key sp = (sp_socket sp, sp_id sp, sp_sender sp)"

definition sockets :: "iperf_test \<Rightarrow> int set" where
  "sockets test = sp_socket ` set (t_streams test)"

definition framed :: "iperf_test \<Rightarrow> iperf_test \<Rightarrow> bool" where
  "framed a b \<longleftrightarrow>
     t_state b = t_state a \<and> t_role b = t_role a \<and> t_ctrl_sck b = t_ctrl_sck a \<and> t_max_fd b = t_max_fd a \<and>
     t_protocols b = t_protocols a \<and> map stream_key (t_streams b) = map stream_key (t_streams a) \<and>
     t_read_set b \<subseteq> t_read_set a \<and> t_write_set b \<subseteq> t_write_set a \<union> sockets a"

lemma sockets_keys: "sockets test = (\<lambda>(s, _). s) ` set (map stream_key (t_streams test))"
  by (auto simp: sockets_def stream_key_def image_iff)

lemma framed_refl [simp]: "framed a a"
  by (simp add: framed_def)

lemma framed_sockets: "framed a b \<Longrightarrow> sockets b = sockets a"
  unfolding sockets_keys by (simp add: framed_def)

lemma framed_trans: "framed a b \<Longrightarrow> framed b c \<Longrightarrow> framed a c"
  using framed_sockets [of a b] unfolding framed_def by fastforce

lemma framed_upd [simp]:
  "framed a (b\<lparr>i_errno := e\<rparr>) = framed a b"
  "framed a (b\<lparr>t_json_start := j\<rparr>) = framed a b"
  "framed a (b\<lparr>t_settings := c\<rparr>) = framed a b"
  "framed a (b\<lparr>t_listener := x\<rparr>) = framed a b"
  "framed a (b\<lparr>t_prot_listener := x\<rparr>) = framed a b"
  "framed a (b\<lparr>t_protocol := x\<rparr>) = framed a b"
  "framed a (b\<lparr>t_mode := x\<rparr>) = framed a b"
  "framed a (b\<lparr>t_reverse := r\<rparr>) = framed a b"
  "framed a (b\<lparr>t_bidirectional := r\<rparr>) = framed a b"
  "framed a (b\<lparr>t_no_delay := r\<rparr>) = framed a b"
  "framed a (b\<lparr>t_done := r\<rparr>) = framed a b"
  "framed a (b\<lparr>t_omitting := r\<rparr>) = framed a b"
  "framed a (b\<lparr>t_sender_has_retransmits := x\<rparr>) = framed a b"
  "framed a (b\<lparr>t_other_side_has_retransmits := x\<rparr>) = framed a b"
  "framed a (b\<lparr>t_omit := x\<rparr>) = framed a b"
  "framed a (b\<lparr>t_duration := x\<rparr>) = framed a b"
  "framed a (b\<lparr>t_server_affinity := x\<rparr>) = framed a b"
  "framed a (b\<lparr>t_num_streams := x\<rparr>) = framed a b"
  "framed a (b\<lparr>t_bind_port := x\<rparr>) = framed a b"
  "framed a (b\<lparr>t_get_server_output := x\<rparr>) = framed a b"
  "framed a (b\<lparr>t_udp_counters_64bit := x\<rparr>) = framed a b"
  "framed a (b\<lparr>t_repeating_payload := x\<rparr>) = framed a b"
  "framed a (b\<lparr>t_title := o1\<rparr>) = framed a b"
  "framed a (b\<lparr>t_extra_data := o1\<rparr>) = framed a b"
  "framed a (b\<lparr>t_congestion := o1\<rparr>) = framed a b"
  "framed a (b\<lparr>t_congestion_used := o1\<rparr>) = framed a b"
  "framed a (b\<lparr>t_remote_congestion_used := o1\<rparr>) = framed a b"
  "framed a (b\<lparr>t_server_output_text := o1\<rparr>) = framed a b"
  "framed a (b\<lparr>t_json_server_output := j\<rparr>) = framed a b"
  "framed a (b\<lparr>t_cpu_util := p\<rparr>) = framed a b"
  "framed a (b\<lparr>t_remote_cpu_util := p\<rparr>) = framed a b"
  "framed a (b\<lparr>t_cookie := bs\<rparr>) = framed a b"
  "framed a (b\<lparr>t_ctrl_sck_mss := x\<rparr>) = framed a b"
  "framed a (b\<lparr>t_timer := q\<rparr>) = framed a b"
  "framed a (b\<lparr>t_omit_timer := q\<rparr>) = framed a b"
  "framed a (b\<lparr>t_stats_timer := q\<rparr>) = framed a b"
  "framed a (b\<lparr>t_reporter_timer := q\<rparr>) = framed a b"
  "framed a (b\<lparr>t_bytes_sent := w\<rparr>) = framed a b"
  "framed a (b\<lparr>t_blocks_sent := w\<rparr>) = framed a b"
  "framed a (b\<lparr>t_bytes_received := w\<rparr>) = framed a b"
  "framed a (b\<lparr>t_blocks_received := w\<rparr>) = framed a b"
  by (simp_all add: framed_def)

lemma framed_upd_left [simp]:
  "framed (a\<lparr>i_errno := e\<rparr>) b = framed a b"
  "framed (a\<lparr>t_settings := c\<rparr>) b = framed a b"
  "framed (a\<lparr>t_done := r\<rparr>) b = framed a b"
  "framed (a\<lparr>t_listener := x\<rparr>) b = framed a b"
  "framed (a\<lparr>t_bytes_sent := w\<rparr>) b = framed a b"
  "framed (a\<lparr>t_blocks_sent := w\<rparr>) b = framed a b"
  "framed (a\<lparr>t_bytes_received := w\<rparr>) b = framed a b"
  "framed (a\<lparr>t_blocks_received := w\<rparr>) b = framed a b"
  by (simp_all add: framed_def sockets_def)

lemma framed_streams:
  "framed a b \<Longrightarrow> map stream_key sps = map stream_key (t_streams b) \<Longrightarrow> framed a (b\<lparr>t_streams := sps\<rparr>)"
  by (simp add: framed_def)

lemma framed_shrink [simp]: "framed a b \<Longrightarrow> framed a (b\<lparr>t_read_set := t_read_set b - X\<rparr>)"
  by (auto simp: framed_def)

abbreviation frames :: "iperf_test \<Rightarrow> ('w, 'a \<times> iperf_test) io \<Rightarrow> bool" where
  "frames test m \<equiv> always (\<lambda>(r, test'). framed test test') m"

abbreviation frames_outcome :: "iperf_test \<Rightarrow> ('w, ('a \<times> iperf_test) outcome) io \<Rightarrow> bool" where
  "frames_outcome test m \<equiv> always (on_ok (\<lambda>(r, test'). framed test test')) m"

section \<open>Protocol functions\<close>

lemma frames_udp_check: "frames test (iperf_udp_buffercheck os test s)"
  unfolding iperf_udp_buffercheck_def by (intro always_intros) simp_all

lemma frames_udp_check_grow: "frames test (udp_check_grow os test s)"
  unfolding udp_check_grow_def
proof (rule always_bind [OF frames_udp_check], goal_cases)
  case (1 x)
  then show ?case
    by (auto intro!: always_intros always_mono [OF frames_udp_check] elim: framed_trans split: if_splits)
qed


lemma frames_udp_connect: "frames test (iperf_udp_connect os test)"
  unfolding iperf_udp_connect_def
  by (intro always_intros always_bind [OF frames_udp_check_grow]) (auto intro!: always_intros)

lemma frames_tcp_fail: "framed test test1 \<Longrightarrow> frames test (tcp_fail os test1 s ais e)"
  unfolding tcp_fail_def by (intro always_intros) simp

lemma always_sum [always_intros]:
  "(\<And>a. x = Inl a \<Longrightarrow> always P (f a)) \<Longrightarrow> (\<And>b. x = Inr b \<Longrightarrow> always P (g b)) \<Longrightarrow>
     always P (case x of Inl a \<Rightarrow> f a | Inr b \<Rightarrow> g b)"
  by (cases x) simp_all

abbreviation framed_sum :: "iperf_test \<Rightarrow> ((int \<times> iperf_test) + iperf_test) \<Rightarrow> bool" where
  "framed_sum test v \<equiv> (case v of Inl f \<Rightarrow> framed test (snd f) | Inr t \<Rightarrow> framed test t)"

lemma frames_tcp_verify: "always (framed_sum test) (tcp_verify os test s ais)"
  unfolding tcp_verify_def
  by (intro always_intros always_bind [OF frames_tcp_fail [OF framed_refl]]) auto

lemma frames_tcp_connect_socket: "frames test (tcp_connect_socket os test s res)"
  unfolding tcp_connect_socket_def
  by (intro always_intros frames_tcp_fail framed_refl always_bind [OF frames_tcp_verify]) auto

lemma frames_tcp_connect: "frames test (iperf_tcp_connect os test)"
  unfolding iperf_tcp_connect_def tcp_connect_bind_def
  by (intro always_intros frames_tcp_fail frames_tcp_connect_socket framed_refl) auto

lemma frames_prot_connect: "frames test (prot_connect os test)"
  unfolding prot_connect_def using frames_udp_connect frames_tcp_connect by auto

lemma frames_tcp_listen_socket: "frames test (tcp_listen_socket os test res)"
  unfolding tcp_listen_socket_def
  by (intro always_intros frames_tcp_fail framed_refl) auto

lemma frames_tcp_listen: "frames test (iperf_tcp_listen os test)"
  unfolding iperf_tcp_listen_def
proof (rule always_bind [where Q = "\<lambda>l. case l of Inl f \<Rightarrow> framed test (snd f) | Inr f \<Rightarrow> framed test (snd f)"], goal_cases)
  case 1
  then show ?case
    by (intro always_intros always_bind [OF frames_tcp_listen_socket]) (auto split: if_splits elim!: framed_trans [rotated])
next
  case (2 l)
  then show ?case
    by (intro always_intros always_bind [OF frames_tcp_verify]) (auto split: sum.splits elim: framed_trans)
qed

lemma frames_prot_listen: "frames test (prot_listen os test)"
  unfolding prot_listen_def iperf_udp_listen_def using frames_tcp_listen
  by (auto intro!: always_intros)

lemma frames_tcp_accept: "frames test (iperf_tcp_accept os junk test)"
  unfolding iperf_tcp_accept_def by (intro always_intros) auto

section \<open>The exchanges\<close>

lemma frames_send_parameters: "frames test (send_parameters os test)"
  unfolding send_parameters_def by (intro always_intros) auto

lemma frames_send_results: "frames_outcome test (send_results os test)"
proof (cases "results_json test")
  case (Ok jo)
  then show ?thesis
    unfolding send_results_def
    by (cases jo) (auto intro!: always_intros always_bind_any [where m = "JSON_write os a b" for a b])
qed (auto simp: send_results_def intro: always_ret)

lemma frames_set_send_state: "always (\<lambda>(r, test'). framed (test\<lparr>t_state := st\<rparr>) test') (iperf_set_send_state os test st)"
  unfolding iperf_set_send_state_def by (intro always_intros) auto

lemma framed_settings [simp]: "framed a (upd_settings f b) = framed a b"
  by (simp add: upd_settings_def)

lemma framed_retransmits [simp]: "framed a (check_sender_has_retransmits b) = framed a b"
  by (simp add: check_sender_has_retransmits_def)

lemma framed_set_protocol [simp]: "framed a (snd (set_protocol b p)) = framed a b"
  by (simp add: set_protocol_def)

lemma framed_reverse [simp]: "framed a (iperf_set_test_reverse b r) = framed a b"
  by (simp add: iperf_set_test_reverse_def Let_def)

lemma framed_bidirectional [simp]: "framed a (iperf_set_test_bidirectional b r) = framed a b"
  by (simp add: iperf_set_test_bidirectional_def Let_def)

definition framed_action :: "action \<Rightarrow> bool" where
  "framed_action act \<longleftrightarrow> (\<forall>j test. on_ok (framed test) (act j test))"

lemma framed_actionI:
  "(\<And>test. framed test (f test)) \<Longrightarrow> framed_action (on_flag f)"
  "(\<And>n test. framed test (g n test)) \<Longrightarrow> framed_action (on_int g)"
  "(\<And>x test. framed test (h x test)) \<Longrightarrow> framed_action (on_string h)"
  by (simp_all add: framed_action_def on_flag_def on_int_def on_string_def split: option.splits)

lemma framed_param_actions: "\<forall>(name, act) \<in> set param_actions. framed_action act"
  by (simp add: param_actions_def framed_actionI)

lemma framed_run_actions:
  assumes "\<forall>(name, act) \<in> set acts. framed_action act"
  shows "on_ok (framed test) (run_actions j acts test)"
proof -
  let ?f = "\<lambda>(name, act) m. obind m (\<lambda>test.
     case cJSON_GetObjectItem (Some j) (Some name) of None \<Rightarrow> Ok test | Some j_p \<Rightarrow> act j_p test)"
  have step: "on_ok (framed test) (?f (name, act) m)" if "framed_action act" "on_ok (framed test) m" for name act m
    using that by (cases m) (auto simp: framed_action_def on_ok_def split: option.splits outcome.splits elim: framed_trans)
  have "on_ok (framed test) (fold ?f acts m)" if "on_ok (framed test) m" for m
    using assms that
  proof (induction acts arbitrary: m)
    case (Cons x acts)
    obtain name act where x: "x = (name, act)" by (cases x)
    show ?case using Cons.prems step [of act m name] unfolding x by (auto intro!: Cons.IH)
  qed simp
  then show ?thesis by (simp add: run_actions_def)
qed

lemma on_ok_mono: "on_ok P m \<Longrightarrow> (\<And>x. P x \<Longrightarrow> Q x) \<Longrightarrow> on_ok Q m"
  by (cases m) simp_all

lemma on_ok_all: "(\<And>x. P x) \<Longrightarrow> on_ok P m"
  by (cases m) simp_all

lemma always_obind: "(\<And>x. on_ok P (f x)) \<Longrightarrow> always (on_ok P) (m \<bind> (\<lambda>jr. ret (obind jr f)))"
  by (rule always_bind_any, rule always_ret) (auto intro: on_ok_all)

lemma frames_get_parameters: "frames_outcome test (get_parameters os junk test)"
  unfolding get_parameters_def Let_def
proof (rule always_obind, goal_cases)
  case (1 jo)
  then show ?case
  proof (cases jo)
    case (Some j)
    show ?thesis
      unfolding Some option.case on_ok_obind by (rule on_ok_mono [OF framed_run_actions [OF framed_param_actions]]) simp
  qed simp
qed

lemma update_stream_keys:
  "(\<And>sp. stream_key (f sp) = stream_key sp) \<Longrightarrow> update_stream i f sps = Some sps' \<Longrightarrow>
     map stream_key sps' = map stream_key sps"
  by (induction sps arbitrary: sps') (auto split: if_splits)

lemma apply_report_key [simp]: "stream_key (apply_report p b r j c e sp) = stream_key sp"
  by (simp add: apply_report_def stream_key_def)

lemma framed_stream_result:
  assumes "framed test (snd rt)"
  shows "framed test (snd (get_stream_result j rt))"
proof -
  obtain r t where rt: "rt = (r, t)" by (cases rt)
  have "framed test (t\<lparr>t_streams := sps\<rparr>)" if "update_stream i (apply_report p b q jt c e) (t_streams t) = Some sps"
    for i p b q jt c e sps
    using assms that by (auto simp: rt intro!: framed_streams update_stream_keys [OF apply_report_key])
  then show ?thesis
    using assms unfolding rt get_stream_result_def by (auto simp: Let_def split: option.split)
qed

lemma framed_stream_results:
  "framed test (snd rt) \<Longrightarrow> framed test (snd (fold (\<lambda>i. get_stream_result (g i)) is rt))"
  by (induction "is" arbitrary: rt) (simp_all add: framed_stream_result)

lemma framed_server_output: "framed test t \<Longrightarrow> on_ok (\<lambda>(j', t'). framed test t') (get_server_output j t)"
  by (auto simp: get_server_output_def split: option.split prod.split)

lemma framed_read_results: "on_ok (\<lambda>(r, j', t). framed test t) (read_results j test)"
proof -
  have main: "on_ok (\<lambda>(r, j', t). framed test t) (let (r, test3) = fold (\<lambda>i. get_stream_result (g i)) is (0, t)
      in obind (get_server_output j test3) (\<lambda>(j', test4). Ok (r, j', test4)))"
    if t: "framed test t" for g "is" t
  proof -
    obtain r t3 where f: "fold (\<lambda>i. get_stream_result (g i)) is (0, t) = (r, t3)"
      by (cases "fold (\<lambda>i. get_stream_result (g i)) is (0, t)")
    then have "framed test t3" using framed_stream_results [of test "(0, t)" g "is"] t by simp
    then show ?thesis using framed_server_output [of test t3 j] f by (auto elim: on_ok_mono)
  qed
  show ?thesis
    unfolding read_results_def by (auto simp: Let_def split: option.split intro!: main [unfolded Let_def])
qed

lemma frames_get_results: "frames_outcome test (get_results os junk test)"
  unfolding get_results_def
proof (rule always_obind, goal_cases)
  case (1 jo)
  then show ?case
  proof (cases jo)
    case (Some j)
    show ?thesis
      unfolding Some option.case on_ok_obind by (rule on_ok_mono [OF framed_read_results]) (auto split: option.split)
  qed simp
qed

lemma always_outcome:
  assumes "always (on_ok Q) m" "\<And>x. Q x \<Longrightarrow> always (on_ok P) (f x)"
  shows "always (on_ok P) (m \<bind> (\<lambda>g. case g of Ok x \<Rightarrow> f x | Err k \<Rightarrow> ret (Err k) | Fault \<Rightarrow> ret Fault | Timeout \<Rightarrow> ret Timeout))"
proof (rule always_bind [OF assms(1)], goal_cases)
  case (1 g)
  then show ?case using assms(2) by (cases g) (auto intro!: always_ret)
qed

lemma frames_exchange_parameters_client:
  "t_role test = CHR ''c'' \<Longrightarrow> frames_outcome test (iperf_exchange_parameters os junk test)"
  unfolding iperf_exchange_parameters_def
  by (auto intro!: always_intros always_bind [OF frames_send_parameters])

lemma frames_exchange_results: "frames_outcome test (iperf_exchange_results os junk test)"
proof (cases "t_role test = CHR ''c''")
  case True
  have main: "always (on_ok (\<lambda>(r, test'). framed test test')) (do {
      g \<leftarrow> get_results os junk test1;
      ret (obind g (\<lambda>(r, test2). Ok (if r < 0 then -1 else 0, test2)))})" if "framed test test1" for test1
    using that
    by (intro always_bind [OF frames_get_results] always_ret) (auto elim!: on_ok_mono dest: framed_trans)
  from True show ?thesis
    unfolding iperf_exchange_results_def
    by (auto intro!: always_if always_ret always_prod main always_outcome [OF frames_send_results] split: prod.split)
next
  case False
  have main: "always (on_ok (\<lambda>(r, test'). framed test test')) (do {
      x \<leftarrow> send_results os test1;
      ret (obind x (\<lambda>(r, test2). Ok (if r < 0 then -1 else 0, test2)))})" if "framed test test1" for test1
    using that
    by (intro always_bind [OF frames_send_results] always_ret) (auto elim!: on_ok_mono dest: framed_trans)
  from False show ?thesis
    unfolding iperf_exchange_results_def
    by (auto intro!: always_outcome [OF frames_get_results] always_if always_ret always_prod main split: prod.split)
qed


section \<open>Watched descriptors\<close>

text \<open>Every descriptor in the sets of the test, and every socket of a stream, is at most \<open>max_fd\<close>.\<close>

definition watched :: "iperf_test \<Rightarrow> bool" where
  "watched test \<longleftrightarrow> (\<forall>fd \<in> t_read_set test \<union> t_write_set test \<union> sockets test. fd \<le> t_max_fd test)"

lemma framed_watched: "framed a b \<Longrightarrow> watched a \<Longrightarrow> watched b"
  using framed_sockets [of a b] unfolding watched_def framed_def by fastforce

lemma watched_upd [simp]:
  "watched (a\<lparr>i_errno := e\<rparr>) = watched a"
  "watched (a\<lparr>t_state := x\<rparr>) = watched a"
  "watched (a\<lparr>t_prot_listener := x\<rparr>) = watched a"
  "watched (a\<lparr>t_listener := x\<rparr>) = watched a"
  "watched (a\<lparr>t_ctrl_sck := x\<rparr>) = watched a"
  "watched (a\<lparr>t_settings := c\<rparr>) = watched a"
  "watched (a\<lparr>t_timer := q\<rparr>) = watched a"
  "watched (a\<lparr>t_omit_timer := q\<rparr>) = watched a"
  "watched (a\<lparr>t_stats_timer := q\<rparr>) = watched a"
  "watched (a\<lparr>t_reporter_timer := q\<rparr>) = watched a"
  "watched (a\<lparr>t_done := r\<rparr>) = watched a"
  "watched (a\<lparr>t_omitting := r\<rparr>) = watched a"
  "watched (a\<lparr>t_cookie := bs\<rparr>) = watched a"
  "watched (a\<lparr>t_congestion_used := o1\<rparr>) = watched a"
  "watched (a\<lparr>t_bind_port := x\<rparr>) = watched a"
  "watched (a\<lparr>t_ctrl_sck_mss := x\<rparr>) = watched a"
  "watched (a\<lparr>t_cpu_util := p\<rparr>) = watched a"
  by (simp_all add: watched_def sockets_def)

lemma watched_grow:
  assumes "watched a" "t_read_set b \<subseteq> insert s (t_read_set a)" "t_write_set b \<subseteq> insert s (t_write_set a)"
    and "sockets b \<subseteq> insert s (sockets a)" "t_max_fd a \<le> t_max_fd b" "s \<le> t_max_fd b"
  shows "watched b"
  unfolding watched_def
proof
  fix fd assume "fd \<in> t_read_set b \<union> t_write_set b \<union> sockets b"
  then have "fd = s \<or> fd \<in> t_read_set a \<union> t_write_set a \<union> sockets a" using assms(2-4) by blast
  then show "fd \<le> t_max_fd b" using assms(1,5,6) unfolding watched_def by (meson order.trans)
qed

lemma watched_listener':
  "watched a \<Longrightarrow> watched (a\<lparr>t_read_set := insert s (t_read_set a),
     t_max_fd := if t_max_fd a < s then s else t_max_fd a\<rparr>)"
  by (erule watched_grow [where s = s]) (auto simp: sockets_def)

lemma send_state_state: "always (\<lambda>(r, b). t_state b = st) (iperf_set_send_state os test st)"
  unfolding iperf_set_send_state_def by (intro always_intros) simp

text \<open>
  A property that survives what \<^const>\<open>framed\<close> allows, a change of the state and a new listener of the protocol survives the
  acceptance of a stream and the exchange of parameters.
\<close>

locale setup_invariant =
  fixes I :: "iperf_test \<Rightarrow> bool"
  assumes framed: "framed a b \<Longrightarrow> I a \<Longrightarrow> I b"
    and state: "I a \<Longrightarrow> I (a\<lparr>t_state := st\<rparr>)"
    and listener: "I a \<Longrightarrow> I (a\<lparr>t_read_set := insert s (t_read_set a), t_max_fd := if t_max_fd a < s then s else t_max_fd a\<rparr>)"
begin

lemma frames_keep: "frames test m \<Longrightarrow> always (\<lambda>(r, b). I test \<longrightarrow> I b) m"
  by (erule always_mono) (auto intro: framed)

lemma frames_keep_outcome: "frames_outcome test m \<Longrightarrow> always (on_ok (\<lambda>(r, b). I test \<longrightarrow> I b)) m"
  by (erule always_mono) (auto elim!: on_ok_mono intro: framed)

lemma keep_upd: "I a \<Longrightarrow> I (a\<lparr>i_errno := e\<rparr>)" "I a \<Longrightarrow> I (a\<lparr>t_prot_listener := x\<rparr>)"
  by (erule framed [rotated], simp)+

lemma new_listener:
  assumes "I a"
  shows "I (a\<lparr>t_prot_listener := x, t_read_set := insert s (t_read_set a), t_max_fd := if t_max_fd a < s then s else t_max_fd a\<rparr>)"
  using listener [OF keep_upd(2) [OF assms, of x], of s] by (simp cong: if_cong split del: if_split)

lemma send_state_keeps: "always (\<lambda>(r, b). I test \<longrightarrow> I b) (iperf_set_send_state os test st)"
  unfolding iperf_set_send_state_def by (intro always_intros) (auto intro: state keep_upd)

lemma udp_accept_keeps: "always (\<lambda>(r, b). I test \<longrightarrow> I b) (iperf_udp_accept os test)"
  unfolding iperf_udp_accept_def Let_def
proof (rule always_bind_any, rule always_if, goal_cases)
  case (2 r)
  show ?case
    by (rule always_bind_any, rule always_if, rule always_ret, simp add: keep_upd, rule always_bind [OF frames_keep [OF frames_udp_check_grow]])
      (auto intro!: always_intros new_listener intro: keep_upd cong: if_cong split del: if_split)
qed (auto intro!: always_ret keep_upd)

lemma accept: "always (\<lambda>(r, b). I test \<longrightarrow> I b) (prot_accept os u test)"
  unfolding prot_accept_def using udp_accept_keeps frames_keep [OF frames_tcp_accept] by auto

lemma parameters: "always (on_ok (\<lambda>(r, b). I test \<longrightarrow> I b)) (iperf_exchange_parameters os junk test)"
proof (cases "t_role test = CHR ''c''")
  case True
  then show ?thesis by (rule frames_keep_outcome [OF frames_exchange_parameters_client])
next
  case False
  have send: "always (\<lambda>x. I test1 \<longrightarrow> I (snd x)) (iperf_set_send_state os test1 st)" for test1 st
    by (rule always_mono [OF send_state_keeps]) auto
  have listen: "always (\<lambda>x. I test1 \<longrightarrow> I (snd x)) (prot_listen os test1)" for test1
    by (rule always_mono [OF frames_keep [OF frames_prot_listen]]) auto
  from False show ?thesis
    unfolding iperf_exchange_parameters_def
    by (auto intro!: always_outcome [OF frames_keep_outcome [OF frames_get_parameters]] always_if always_ret always_prod
        always_bind [OF send] always_bind [OF listen] always_bind_any [where m = "send_number os a b" for a b]
        always_bind_any [where m = get_errno] split: prod.split split del: if_split simp: Let_def keep_upd(2) [OF listener] intro: keep_upd)
qed

end

interpretation ws: setup_invariant watched
  by unfold_locales (erule framed_watched, assumption, simp, rule watched_listener')

section \<open>Statistics and new streams\<close>

lemma on_result_key [simp]: "stream_key (on_result f sp) = stream_key sp"
  by (simp add: on_result_def stream_key_def)

lemma frames_init_test: "frames test (iperf_init_test os test)"
proof -
  have keys: "map (\<lambda>x. stream_key (on_result f x)) sps = map stream_key sps" for f sps
    by simp
  show ?thesis
    unfolding iperf_init_test_def
    by (intro always_intros) (auto intro!: framed_streams simp: keys comp_def)
qed

lemma key_stream_interval: "always (\<lambda>(x1, sp1). stream_key sp1 = stream_key sp) (stream_interval os test x sp)"
  unfolding stream_interval_def
  by (intro always_intros) (auto simp: stream_key_def split: prod.split intro!: always_ret)

lemma keys_stream_intervals:
  "always (\<lambda>sps1. map stream_key sps1 = map stream_key sps) (stream_intervals os test x sps)"
proof (induction sps arbitrary: x)
  case (Cons sp sps)
  show ?case
    unfolding stream_intervals.simps
    by (rule always_bind [OF key_stream_interval]) (auto intro!: always_prod always_bind [OF Cons] always_ret)
qed (simp add: always_ret)

lemma frames_stats_callback: "always (framed test) (iperf_stats_callback os junk test)"
  unfolding iperf_stats_callback_def
  by (rule always_bind [OF keys_stream_intervals]) (auto intro!: always_ret framed_streams)

lemma key_reset_stream: "always (\<lambda>sp1. stream_key sp1 = stream_key sp) (reset_stream os now junk test sp)"
  unfolding reset_stream_def by (intro always_intros) (simp add: stream_key_def)

lemma keys_reset_streams:
  "always (\<lambda>sps1. map stream_key sps1 = map stream_key sps) (reset_streams os now junk test sps)"
proof (induction sps)
  case (Cons sp sps)
  show ?case
    unfolding reset_streams.simps
    by (rule always_bind [OF key_reset_stream]) (auto intro!: always_bind [OF Cons] always_ret)
qed (simp add: always_ret)

lemma frames_reset_stats: "always (framed test) (iperf_reset_stats os junk test)"
  unfolding iperf_reset_stats_def Let_def
  by (intro always_bind_any always_prod always_bind [OF keys_reset_streams] always_ret framed_streams) simp_all

lemma frames_init_stream: "frames test (iperf_init_stream os sp test)"
  unfolding iperf_init_stream_def by (intro always_intros) simp_all

text \<open>What \<open>iperf_new_stream\<close> adds to the test.\<close>

definition with_stream :: "int \<Rightarrow> bool \<Rightarrow> iperf_test \<Rightarrow> iperf_test \<Rightarrow> bool" where
  "with_stream s is_sender a b \<longleftrightarrow> (\<exists>sps sp. t_streams b = sps @ [sp] \<and> sp_socket sp = s \<and> sp_sender sp = is_sender \<and>
     framed a (b\<lparr>t_streams := sps\<rparr>))"

lemma add_stream_shape:
  "\<exists>i. iperf_add_stream sps sp = sps @ [sp\<lparr>sp_id := i\<rparr>]"
  by (auto simp: iperf_add_stream_def Let_def)

lemma frames_new_stream:
  "always (\<lambda>r. case r of None \<Rightarrow> True | Some (None, t) \<Rightarrow> framed test t
     | Some (Some sp, t) \<Rightarrow> with_stream s is_sender test t) (iperf_new_stream os test s is_sender)"
proof -
  have "with_stream s is_sender test (t\<lparr>t_streams := iperf_add_stream (t_streams t) (blank_stream s is_sender bf df b)\<rparr>)"
    if "framed test t" for t bf df b
    using add_stream_shape [of "t_streams t" "blank_stream s is_sender bf df b"] that
    by (auto simp: with_stream_def blank_stream_def)
  then have fill: "always (\<lambda>r. case r of None \<Rightarrow> True | Some (None, t) \<Rightarrow> framed test t
     | Some (Some sp, t) \<Rightarrow> with_stream s is_sender test t) (new_stream_fill os test s is_sender bf df)" for bf df
    unfolding new_stream_fill_def Let_def
    by (intro always_bind_any always_option always_bind [OF frames_init_stream])
      (auto intro!: always_intros)
  show ?thesis
    unfolding iperf_new_stream_def Let_def
    by (intro always_intros fill) simp_all
qed

lemma with_stream_watched:
  assumes "with_stream s is_sender a b" "watched a"
  shows "watched (watch_stream s is_sender b)" "s \<le> t_max_fd a \<Longrightarrow> watched b"
proof -
  obtain sps sp where b: "t_streams b = sps @ [sp]" "sp_socket sp = s" "framed a (b\<lparr>t_streams := sps\<rparr>)"
    using assms(1) by (auto simp: with_stream_def)
  let ?c = "b\<lparr>t_streams := sps\<rparr>"
  have c: "watched ?c" using b(3) assms(2) framed_watched by blast
  show "watched (watch_stream s is_sender b)"
    using b(1,2) by (intro watched_grow [OF c, of _ s]) (auto simp: watch_stream_def Let_def sockets_def)
  show "watched b" if "s \<le> t_max_fd a"
    using b that by (intro watched_grow [OF c, of _ s]) (auto simp: sockets_def framed_def)
qed

section \<open>Sending and receiving\<close>

text \<open>A transfer keeps the key of its stream and all of the test but \<open>done\<close>.\<close>

definition key_law :: "iperf_test \<Rightarrow> iperf_stream \<Rightarrow> int \<times> iperf_test \<times> iperf_stream \<Rightarrow> bool" where
  "key_law test sp x \<longleftrightarrow> (case x of (r, test', sp') \<Rightarrow> same_but_done test test' \<and> stream_key sp' = stream_key sp)"

definition round_framed :: "iperf_test \<Rightarrow> iperf_stream list \<Rightarrow> iperf_test \<Rightarrow> iperf_stream list \<Rightarrow> bool" where
  "round_framed a sps b sps' \<longleftrightarrow>
     t_state b = t_state a \<and> t_role b = t_role a \<and> t_ctrl_sck b = t_ctrl_sck a \<and> t_max_fd b = t_max_fd a \<and>
     t_protocols b = t_protocols a \<and> t_read_set b = t_read_set a \<and> t_write_set b \<subseteq> t_write_set a \<union> sp_socket ` set sps \<and>
     map stream_key sps' = map stream_key sps"

lemma round_framed_done: "same_but_done a b \<Longrightarrow> round_framed a sps b sps"
  by (cases a, cases b) (simp add: same_but_done_def round_framed_def)

lemma round_framed_refl [simp]: "round_framed a sps a sps"
  by (simp add: round_framed_def)

lemma socket_of_key: "stream_key sp' = stream_key sp \<Longrightarrow> sp_socket sp' = sp_socket sp"
  by (simp add: stream_key_def)

lemma round_framed_trans:
  assumes "round_framed a sps b sps1" "round_framed b sps1 c sps2"
  shows "round_framed a sps c sps2"
proof -
  have "sp_socket ` set xs = fst ` set (map stream_key xs)" for xs
    by (simp add: stream_key_def image_image)
  then have "sp_socket ` set sps1 = sp_socket ` set sps"
    using assms(1) by (simp only: round_framed_def)
  then show ?thesis using assms by (auto simp: round_framed_def)
qed

lemma round_framed_Cons:
  "round_framed a sps b sps' \<Longrightarrow> stream_key sp' = stream_key sp \<Longrightarrow> round_framed a (sp # sps) b (sp' # sps')"
  by (auto simp: round_framed_def)

lemma round_framed_head:
  "round_framed a [sp] b [sp'] \<Longrightarrow> round_framed a (sp # sps) b (sp' # sps)"
  by (auto simp: round_framed_def)

lemma round_framed_step:
  "round_framed a [sp] b [sp1] \<Longrightarrow> round_framed b sps c sps' \<Longrightarrow> round_framed a (sp # sps) c (sp1 # sps')"
  by (rule round_framed_trans [OF round_framed_head round_framed_Cons]) auto

lemma round_framed_upd [simp]:
  "round_framed a sps (b\<lparr>i_errno := e\<rparr>) sps' = round_framed a sps b sps'"
  "round_framed a sps (b\<lparr>t_bytes_sent := w\<rparr>) sps' = round_framed a sps b sps'"
  "round_framed a sps (b\<lparr>t_blocks_sent := w\<rparr>) sps' = round_framed a sps b sps'"
  "round_framed a sps (b\<lparr>t_bytes_received := w\<rparr>) sps' = round_framed a sps b sps'"
  "round_framed a sps (b\<lparr>t_blocks_received := w\<rparr>) sps' = round_framed a sps b sps'"
  by (simp_all add: round_framed_def)

lemma round_framed_framed: "round_framed a (t_streams a) b sps \<Longrightarrow> framed a (b\<lparr>t_streams := sps\<rparr>)"
  by (auto simp: round_framed_def framed_def sockets_def)

lemma framed_throttle:
  "on_ok (\<lambda>(test', sp'). round_framed test [sp] test' [sp']) (iperf_check_throttle now (test, sp))"
  by (auto simp: iperf_check_throttle_def round_framed_def stream_key_def Let_def split: option.split)

lemma framed_count_sent:
  "on_ok (\<lambda>(test', sp'). round_framed test [sp] test' [sp']) (count_sent now r test sp)"
  using framed_throttle [of "test\<lparr>t_bytes_sent := t_bytes_sent test + word_of_int r, t_blocks_sent := t_blocks_sent test + 1\<rparr>" sp now]
  by (auto simp: count_sent_def Let_def round_framed_def)

lemma framed_throttle_all:
  "on_ok (\<lambda>(test', sps'). round_framed test sps test' sps') (throttle_all now test sps)"
proof (induction sps arbitrary: test)
  case (Cons sp sps)
  have "on_ok (\<lambda>x. round_framed test (sp # sps) (fst x) (sp1 # snd x)) (throttle_all now test1 sps)"
    if "round_framed test [sp] test1 [sp1]" for test1 sp1
    by (rule on_ok_mono [OF Cons]) (auto intro: round_framed_step [OF that])
  then show ?case
    by (auto intro!: on_ok_mono [OF framed_throttle] simp: case_prod_beta)
qed simp

locale key_transfer =
  fixes tx :: "iperf_test \<Rightarrow> iperf_stream \<Rightarrow> ('w, int \<times> iperf_test \<times> iperf_stream) io"
  assumes keys: "always (key_law test sp) (tx test sp)"
begin

lemma framed_send_round:
  "always (on_ok (\<lambda>(e, act', test', sps'). round_framed test sps test' sps')) (send_round tx k now ws test act sps)"
proof (induction sps arbitrary: test act)
  case (Cons sp sps)
  let ?P = "on_ok (\<lambda>(e, act', test', sps'). round_framed test (sp # sps) test' sps')"
  have rest: "always ?P (do { m \<leftarrow> send_round tx k now ws t act sps; ret (after_stream sp1 m) })"
    if "round_framed test [sp] t [sp1]" for t sp1 act
    by (intro always_bind [OF Cons] always_ret)
      (auto simp: after_stream_def elim!: on_ok_mono intro: round_framed_step [OF that])
  have sent: "always ?P (case count_sent now r t sp1 of
      Ok (test2, sp2) \<Rightarrow>
        if k > 1 \<and> limit_reached test2 then ret (Ok (None, True, test2, sp2 # sps))
        else do { m \<leftarrow> send_round tx k now ws test2 True sps; ret (after_stream sp2 m) }
    | _ \<Rightarrow> ret Fault)" if "round_framed test [sp] t [sp1]" for r t sp1
  proof (cases "count_sent now r t sp1")
    case (Ok x)
    obtain test2 sp2 where x: "x = (test2, sp2)" by (cases x)
    have "round_framed test [sp] test2 [sp2]"
      using framed_count_sent [of t sp1 now r] unfolding Ok x by (auto intro: round_framed_trans [OF that])
    then show ?thesis
      unfolding Ok x outcome.case prod.case by (intro always_if always_ret rest) (auto intro: round_framed_head)
  qed (simp_all add: always_ret)
  have head: "round_framed test [sp] t [sp1]" if "key_law test sp (r, t, sp1)" for r t sp1
    using that by (auto simp: key_law_def intro: round_framed_trans [OF round_framed_done] round_framed_Cons [OF round_framed_refl])
  show ?case
    unfolding send_round.simps
    by (intro always_if rest always_bind [OF keys] always_prod sent always_ret)
      (auto dest!: head intro: round_framed_head)
qed (simp add: always_ret)

lemma framed_send_rounds:
  "always (on_ok (\<lambda>(e, test'). framed test test')) (send_rounds os tx k now ws test)"
proof (induction k arbitrary: now test)
  case (Suc k)
  have body: "always (on_ok (\<lambda>(e, test'). framed test test')) (case m of
       Ok (e, act, test1, sps) \<Rightarrow>
         let test2 = test1\<lparr>t_streams := sps\<rparr> in
         if e \<noteq> None then ret (Ok (e, test2))
         else if act then send_rounds os tx k now1 ws test2
         else ret (Ok (None, test2))
     | _ \<Rightarrow> ret Fault)"
    if m: "on_ok (\<lambda>(e, act', test', sps'). round_framed test (t_streams test) test' sps') m" for m now1
  proof (cases m)
    case (Ok x)
    obtain e act test1 sps where x: "x = (e, act, test1, sps)" by (cases x)
    have f: "framed test (test1\<lparr>t_streams := sps\<rparr>)" using m unfolding Ok x by (simp add: round_framed_framed)
    have "always (on_ok (\<lambda>(e, test'). framed test test')) (send_rounds os tx k now1 ws (test1\<lparr>t_streams := sps\<rparr>))"
      by (rule always_mono [OF Suc]) (auto elim!: on_ok_mono intro: framed_trans [OF f])
    then show ?thesis
      unfolding Ok x outcome.case prod.case Let_def using f by (intro always_if always_ret) auto
  qed (simp_all add: always_ret)
  show ?case
    unfolding send_rounds.simps
    by (intro always_bind_any [where m = "if b then c else d" for b c d] always_prod always_bind [OF framed_send_round] body)
qed (simp add: always_ret)

lemma framed_send_via:
  "always (on_ok (\<lambda>(r, test', ws'). framed test test')) (iperf_send_via os tx now0 test ws)"
proof -
  have fin: "on_ok (framed test) (obind (throttle_all now test1 (t_streams test1)) (\<lambda>(t, sps). Ok (t\<lparr>t_streams := sps\<rparr>)))"
    if "framed test test1" for now test1
    unfolding on_ok_obind
    by (rule on_ok_mono [OF framed_throttle_all]) (auto intro: framed_trans [OF that round_framed_framed])
  show ?thesis
    unfolding iperf_send_via_def
  proof (rule always_bind [OF framed_send_rounds], goal_cases)
    case (1 m)
    show ?case
    proof (cases m)
      case (Ok x)
      obtain e test1 where x: "x = (e, test1)" by (cases x)
      have f: "framed test test1" using 1 unfolding Ok x by simp
      have "always (on_ok (\<lambda>(r, test', ws'). framed test test')) (do {
         m2 \<leftarrow> (if cfg_burst (t_settings test1) \<noteq> 0 then do {
                  (_, now) \<leftarrow> time_now os now0;
                  ret (obind (throttle_all now test1 (t_streams test1)) (\<lambda>(t, sps). Ok (t\<lparr>t_streams := sps\<rparr>)))
                } else ret (Ok test1));
         ret (obind m2 (\<lambda>test2. Ok (0, test2, map_option (\<lambda>w. w - sp_socket ` set (t_streams test2)) ws)))
       })"
        by (rule always_bind [of "on_ok (framed test)"])
          (auto intro!: always_if always_bind_any always_prod always_ret fin f elim!: on_ok_mono)
      then show ?thesis unfolding Ok x using f by (cases e) (auto intro: always_ret)
    qed (simp_all add: always_ret)
  qed
qed

lemma framed_recv_round:
  "always (\<lambda>(r, rs', test', sps'). round_framed test sps test' sps') (recv_round tx rs test sps)"
proof (induction sps arbitrary: test rs)
  case (Cons sp sps)
  let ?P = "\<lambda>(r, rs', test', sps'). round_framed test (sp # sps) test' sps'"
  have head: "round_framed test [sp] t [sp1]" if "key_law test sp (r, t, sp1)" for r t sp1
    using that by (auto simp: key_law_def intro: round_framed_trans [OF round_framed_done] round_framed_Cons [OF round_framed_refl])
  have rest: "always ?P (do { (e, rs', test2, sps') \<leftarrow> recv_round tx rs t sps; ret (e, rs', test2, sp1 # sps') })"
    if "round_framed test [sp] t [sp1]" for t sp1 rs
    by (intro always_bind [OF Cons] always_prod always_ret) (auto intro: round_framed_step [OF that])
  show ?case
    unfolding recv_round.simps Let_def
    by (intro always_if rest always_bind [OF keys] always_prod always_ret)
      (auto dest!: head intro: round_framed_head)
qed (simp add: always_ret)

lemma framed_recv_via: "always (\<lambda>(r, test', rs'). framed test test') (iperf_recv_via tx test rs)"
  unfolding iperf_recv_via_def
  by (intro always_bind [OF framed_recv_round] always_prod always_ret) (auto intro: round_framed_framed)

end

lemma key_prot_send: "always (key_law test sp) (prot_send os test sp)"
proof -
  have "always (\<lambda>(r, sp1). stream_key sp1 = stream_key sp) (iperf_udp_send os test sp)"
    unfolding iperf_udp_send_def by (intro always_intros) (auto simp: stream_key_def)
  moreover have "always (\<lambda>(r, sp1). stream_key sp1 = stream_key sp) (iperf_tcp_send os test sp)"
    unfolding iperf_tcp_send_def by (intro always_intros) (auto simp: stream_key_def)
  ultimately show ?thesis
    unfolding prot_send_def
    by (intro always_bind [of "\<lambda>(r, sp1). stream_key sp1 = stream_key sp"] always_prod always_ret) (auto simp: key_law_def)
qed

lemma key_prot_recv: "always (key_law test sp) (prot_recv os test sp)"
proof -
  have "always (\<lambda>(r, sp1). stream_key sp1 = stream_key sp) (iperf_udp_recv os test sp)"
    unfolding iperf_udp_recv_def by (intro always_intros) (auto simp: stream_key_def udp_account_def udp_jitter_def Let_def)
  moreover have "always (\<lambda>(r, sp1). stream_key sp1 = stream_key sp) (iperf_tcp_recv os test sp)"
    unfolding iperf_tcp_recv_def by (intro always_intros) (auto simp: stream_key_def)
  ultimately show ?thesis
    unfolding prot_recv_def
    by (intro always_bind [of "\<lambda>(r, sp1). stream_key sp1 = stream_key sp"] always_prod always_ret) (auto simp: key_law_def)
qed

lemma key_law_trans: "key_law a sp (r, b, sp1) \<Longrightarrow> key_law b sp1 (q, c, sp2) \<Longrightarrow> key_law a sp (q, c, sp2)"
  by (auto simp: key_law_def intro: same_but_done_trans)

lemma key_diskfile_fill: "always (\<lambda>(t, sp1). key_law test sp (0, t, sp1)) (diskfile_fill os test sp)"
  unfolding diskfile_fill_def Let_def by (intro always_intros) (auto simp: key_law_def stream_key_def)

lemma key_diskfile_send: "always (key_law test sp) (diskfile_send os (prot_send os) test sp)"
proof -
  have buf: "key_law test sp (r, t, sp1\<lparr>sp_diskfile_left := d\<rparr>)" "key_law test sp (r, t, sp1\<lparr>sp_diskfile_left := d, sp_buffer := b\<rparr>)"
    if "key_law test sp (r, t, sp1)" for r t sp1 d b
    using that by (simp_all add: key_law_def stream_key_def)
  show ?thesis
    unfolding diskfile_send_def Let_def
    by (intro always_bind [OF key_diskfile_fill] always_prod always_bind [OF key_prot_send] always_if always_ret)
      (auto intro: key_law_trans intro!: buf)
qed

lemma key_diskfile_recv: "always (key_law test sp) (diskfile_recv os (prot_recv os) test sp)"
  unfolding diskfile_recv_def
  by (intro always_bind [OF key_prot_recv] always_prod always_if always_ret always_bind_any) auto

interpretation ks: key_transfer "stream_snd os" for os :: "'w os"
  by unfold_locales (simp add: stream_snd_def key_diskfile_send key_prot_send)

interpretation kr: key_transfer "stream_rcv os" for os :: "'w os"
  by unfold_locales (simp add: stream_rcv_def key_diskfile_recv key_prot_recv)

lemma frames_send: "always (on_ok (\<lambda>(r, test', ws'). framed test test')) (iperf_send os now0 test ws)"
  unfolding iperf_send_def by (rule ks.framed_send_via)

lemma frames_recv: "always (\<lambda>(r, test', rs'). framed test test') (iperf_recv os test rs)"
  unfolding iperf_recv_def by (rule kr.framed_recv_via)

end
