(* ===== verification/Loop_Laws.thy ===== *)
theory Loop_Laws
  imports Frames
begin

text \<open>
  Invariants of the two main loops: a locale for a property of the test that the operations keep, with the
  lemmas for the steps of client and server, and its interpretation on the watched descriptors.
\<close>

section \<open>Properties that a step keeps\<close>

definition keeps :: "(iperf_test \<Rightarrow> bool) \<Rightarrow> ('w, 'a) act \<Rightarrow> bool" where
  "keeps I m \<longleftrightarrow> (\<forall>n. I (n_test n) \<longrightarrow> I (n_test (snd (run_state m n))))"

lemma keeps_return: "keeps I (State_Monad.return x)"
  by (simp add: keeps_def)

lemma keeps_get: "keeps I State_Monad.get"
  by (simp add: keeps_def)

lemma keeps_bind: "keeps I m \<Longrightarrow> (\<And>x. keeps I (f x)) \<Longrightarrow> keeps I (m \<bind> f)"
  by (simp add: keeps_def split: prod.splits) (metis snd_conv)

lemma keeps_if: "(b \<Longrightarrow> keeps I m) \<Longrightarrow> (\<not> b \<Longrightarrow> keeps I n) \<Longrightarrow> keeps I (if b then m else n)"
  by simp

lemma keeps_prod: "(\<And>a b. keeps I (f a b)) \<Longrightarrow> keeps I (case x of (a, b) \<Rightarrow> f a b)"
  by (cases x) simp

lemma keeps_option: "keeps I m \<Longrightarrow> (\<And>a. keeps I (f a)) \<Longrightarrow> keeps I (case x of None \<Rightarrow> m | Some a \<Rightarrow> f a)"
  by (cases x) simp_all

lemma keeps_outcome:
  "(\<And>a. keeps I (f a)) \<Longrightarrow> (\<And>k. keeps I (g k)) \<Longrightarrow> keeps I h \<Longrightarrow> keeps I i \<Longrightarrow>
     keeps I (case x of Ok a \<Rightarrow> f a | Err k \<Rightarrow> g k | Fault \<Rightarrow> h | Timeout \<Rightarrow> i)"
  by (cases x) simp_all

lemma keeps_let: "keeps I (f x) \<Longrightarrow> keeps I (let y = x in f y)"
  by (simp add: Let_def)

lemma keeps_lift: "keeps I (lift m)"
  by (simp add: keeps_def lift_def split: prod.splits)

lemma keeps_the_test: "keeps I the_test"
  by (simp add: keeps_def the_test_def)

lemma keeps_set_test: "(\<And>a. I a \<Longrightarrow> I (f a)) \<Longrightarrow> keeps I (set_test f)"
  by (simp add: keeps_def set_test_def)

lemma keeps_emit: "keeps I (log_event e)"
  by (simp add: keeps_def log_event_def)

lemma keeps_report: "keeps I report"
  by (simp add: keeps_def report_def)

lemma keeps_on_test: "(\<And>a. always (\<lambda>(r, b). I a \<longrightarrow> I b) (f a)) \<Longrightarrow> keeps I (on_test f)"
  by (auto simp: keeps_def on_test_def split: prod.splits dest: always_run)

lemma keeps_on_test_outcome: "(\<And>a. always (on_ok (\<lambda>(r, b). I a \<longrightarrow> I b)) (f a)) \<Longrightarrow> keeps I (on_test_outcome f)"
  by (auto simp: keeps_def on_test_outcome_def split: prod.splits outcome.splits) (metis always_run on_ok_simps(1) case_prod_conv)

lemma keeps_node: "(\<And>n. n_test (snd (f n)) = n_test n) \<Longrightarrow> keeps I (State f)"
  by (simp add: keeps_def)

lemma keeps_list: "keeps I m \<Longrightarrow> (\<And>a b. keeps I (f a b)) \<Longrightarrow> keeps I (case x of [] \<Rightarrow> m | a # b \<Rightarrow> f a b)"
  by (cases x) simp_all

lemma keeps_on_timers: "keeps I (on_timers f)"
  by (simp add: keeps_def on_timers_def split: option.splits)

lemma keeps_cpu_util: "(\<And>a b. framed a b \<Longrightarrow> I a \<Longrightarrow> I b) \<Longrightarrow> keeps I (cpu_util os u b)"
  by (simp add: keeps_def cpu_util_def split: prod.splits) (metis framed_refl framed_upd(30))

lemma keeps_unless_error: "keeps I k \<Longrightarrow> keeps I (unless_error r k)"
  by (simp add: unless_error_def keeps_return split: outcome.split)

lemma keeps_steps: "(\<And>m. m \<in> set ms \<Longrightarrow> keeps I m) \<Longrightarrow> keeps I (steps ms)"
  by (induction ms) (auto intro!: keeps_return keeps_bind keeps_unless_error)

lemmas keeps_intros = keeps_return keeps_get keeps_bind keeps_if keeps_prod keeps_option keeps_list keeps_outcome keeps_let keeps_lift
  keeps_the_test keeps_emit keeps_report keeps_on_timers keeps_unless_error

text \<open>The contract: what the modifications of a test by the main loops must keep.\<close>

locale test_invariant = setup_invariant I
  for I :: "iperf_test \<Rightarrow> bool" +
  fixes os :: "'w os"
  assumes control: "I a \<Longrightarrow> I (a\<lparr>t_ctrl_sck := s\<rparr>)"
    and watch_control: "I a \<Longrightarrow> I (watch_control a)"
    and watch_listener: "I a \<Longrightarrow> I (watch_listener a)"
    and watch_stream: "I a \<Longrightarrow> I (watch_stream s d a)"
    and add_watched: "I a \<Longrightarrow> with_stream s d (watch_stream s d a) b \<Longrightarrow> I b"
    and watch_added: "I a \<Longrightarrow> with_stream s d a b \<Longrightarrow> I (watch_stream s d b)"
    and drop_stream: "I a \<Longrightarrow> I (a\<lparr>t_streams := tl (t_streams a)\<rparr>)"
    and no_sets: "I a \<Longrightarrow> I (a\<lparr>t_read_set := {}, t_write_set := {}\<rparr>)"
begin

lemma keeps_cpu: "keeps I (cpu_util os u b)"
  by (rule keeps_cpu_util) (rule framed)

lemma keeps_framed: "(\<And>a. framed a (f a)) \<Longrightarrow> keeps I (set_test f)"
  by (rule keeps_set_test, rule framed)

lemma keeps_frames:
  assumes "\<And>a. frames a (f a)"
  shows "keeps I (on_test f)"
  by (rule keeps_on_test, rule always_mono [OF assms]) (auto intro: framed)

lemma keeps_frames_outcome:
  assumes "\<And>a. frames_outcome a (f a)"
  shows "keeps I (on_test_outcome f)"
  by (rule keeps_on_test_outcome, rule always_mono [OF assms]) (auto elim!: on_ok_mono intro: framed)

lemma keeps_fail: "keeps I (fail e)"
  unfolding fail_def by (intro keeps_intros keeps_framed) simp

lemma keeps_state: "keeps I (set_test (\<lambda>t. t\<lparr>t_state := st t\<rparr>))"
  by (intro keeps_set_test state)

subsection \<open>Shared steps\<close>

lemma keeps_stats: "keeps I (stats_callback os u)"
  unfolding stats_callback_def
  by (intro keeps_frames always_bind [OF frames_stats_callback] always_ret) simp

lemma keeps_reset_stats: "keeps I (on_test (\<lambda>test. do { t \<leftarrow> iperf_reset_stats os junk test; ret ((), t) }))"
  by (intro keeps_frames always_bind [OF frames_reset_stats] always_ret) simp

lemma keeps_new_timer: "keeps I (new_timer os u nowP proc cd us per)"
  unfolding new_timer_def by (intro keeps_intros keeps_node) (simp split: option.split prod.split)

lemma keeps_create_timer:
  "(\<And>p a. framed a (store p a)) \<Longrightarrow> keeps I (create_timer os u nowP proc cd us per store)"
  unfolding create_timer_def by (intro keeps_intros keeps_new_timer keeps_framed keeps_fail)

lemma keeps_cancel_timer: "(\<And>a. framed a (clear a)) \<Longrightarrow> keeps I (cancel_timer field clear)"
  unfolding cancel_timer_def by (intro keeps_intros keeps_steps) (auto intro!: keeps_intros keeps_framed)

lemma keeps_reset_timer: "keeps I (reset_timer now field)"
  unfolding reset_timer_def by (intro keeps_intros)

lemma keeps_free_stream: "keeps I (iperf_free_stream os sp)"
  unfolding iperf_free_stream_def by (intro keeps_intros)

lemma keeps_free_streams: "keeps I (free_streams os c k)"
  by (induction k) (auto intro!: keeps_intros keeps_set_test drop_stream keeps_free_stream)

lemma on_first_keys: "(\<And>sp. find (\<lambda>x. sp_id x = i) sps = Some sp \<Longrightarrow> stream_key (f sp) = stream_key sp) \<Longrightarrow>
    map stream_key (on_first i f sps) = map stream_key sps"
  by (induction sps) auto

lemma framed_on_stream: "(\<And>sp. stream_key (f sp) = stream_key sp) \<Longrightarrow> framed a (on_stream i f a)"
  unfolding on_stream_def by (intro framed_streams on_first_keys) auto

lemma framed_send_timer:
  assumes "iperf_check_throttle now (a, sp) = Ok (b, sp1)" "find (\<lambda>x. sp_id x = i) (t_streams a) = Some sp"
  shows "framed a (on_stream i (\<lambda>_. sp1) b)"
proof -
  have r: "round_framed a [sp] b [sp1]" using framed_throttle [of a sp now] assms(1) by simp
  have "t_streams b = t_streams a"
    using assms(1) by (auto simp: iperf_check_throttle_def Let_def split: if_splits option.splits)
  moreover have "sp \<in> set (t_streams a)" using assms(2) by (metis find_Some_iff nth_mem)
  ultimately show ?thesis
    using r assms(2) on_first_keys [of i "t_streams b" "\<lambda>_. sp1"] unfolding on_stream_def
    by (auto simp: round_framed_def framed_def sockets_def)
qed

lemma keeps_throttle_stream: "keeps I (send_timer_proc cd now)"
  unfolding keeps_def send_timer_proc_def
  by (auto simp: the_test_def set_test_def split: cdata.splits option.splits outcome.splits prod.splits
      intro: framed [OF framed_send_timer])

lemma keeps_run_proc: "keeps I (run_proc os u p cd now)"
proof (cases p)
  case Client_omit_timer_proc
  then show ?thesis
    by (auto simp: client_omit_timer_proc_def intro!: keeps_intros keeps_framed keeps_reset_stats keeps_steps keeps_reset_timer)
next
  case Server_omit_timer_proc
  then show ?thesis
    by (auto simp: server_omit_timer_proc_def intro!: keeps_intros keeps_framed keeps_reset_stats keeps_steps keeps_reset_timer)
qed (auto simp: test_timer_proc_def client_stats_timer_proc_def client_reporter_timer_proc_def server_timer_proc_def
    server_stats_timer_proc_def server_reporter_timer_proc_def
    intro!: keeps_intros keeps_framed keeps_stats keeps_free_streams keeps_throttle_stream)

lemma node_cb_keeps:
  assumes "node_cb os u p cd now ws = Some ws1" "I (n_test (fst ws))"
  shows "I (n_test (fst ws1))"
proof -
  obtain n s where ws: "ws = (n, s)" by (cases ws)
  obtain r n1 where run: "run_state (run_proc os u p cd now) (n\<lparr>n_tmr := s\<rparr>) = (r, n1)"
    by (cases "run_state (run_proc os u p cd now) (n\<lparr>n_tmr := s\<rparr>)")
  have "I (n_test n1)"
    using keeps_run_proc [of u p cd now] assms(2) run unfolding keeps_def ws
    by (metis fst_conv snd_conv node.select_convs(2) node.surjective node.update_convs(3))
  then show ?thesis using assms(1) run unfolding ws node_cb_def by (auto split: outcome.splits)
qed

lemma run_loop_keeps:
  assumes "tmr_run_loop (node_cb os u) now t ws = Some ws'" "I (n_test (fst ws))"
  shows "I (n_test (fst ws'))"
proof -
  have "node_cb os u = node_cb os u \<longrightarrow> I (n_test (fst ws)) \<longrightarrow> I (n_test (fst ws'))"
  proof (rule tmr_run_loop.raw_induct [where P = "\<lambda>cb now t ws ws'. cb = node_cb os u \<longrightarrow> I (n_test (fst ws)) \<longrightarrow> I (n_test (fst ws'))",
        OF _ assms(1)], goal_cases)
    case (1 f cb now t ws y)
    have "y = ws \<or> (\<exists>p cd t ws1 s. cb p cd now ws = Some ws1 \<and> f cb now t (fst ws1, s) = Some y)"
      using 1(2) by (auto split: option.splits if_splits bind_splits) blast+
    then show ?case
    proof (elim disjE exE conjE)
      fix p cd t ws1 s assume "cb p cd now ws = Some ws1" and y: "f cb now t (fst ws1, s) = Some y"
      then show ?thesis using 1(1) [OF y] by (auto dest: node_cb_keeps)
    qed simp
  qed
  then show ?thesis using assms(2) by simp
qed

lemma keeps_read_clock: "keeps I (read_clock os)"
  unfolding read_clock_def by (intro keeps_intros keeps_node) simp

lemma keeps_run_timers: "keeps I (run_timers os u)"
proof -
  have "keeps I (State (\<lambda>n. case tmr_run (node_cb os u) (Some (n_now n)) (0, 0, 0) (n_now n) (n, n_tmr n) of
       None \<Rightarrow> (Fault, n) | Some (n1, s) \<Rightarrow> (Ok 0, n1\<lparr>n_tmr := s\<rparr>)))"
    by (auto simp: keeps_def tmr_run_def Let_def split: option.split dest!: run_loop_keeps)
  then show ?thesis unfolding run_timers_def by (intro keeps_bind keeps_read_clock)
qed

lemma keeps_wait_select: "keeps I (wait_select os)"
  unfolding wait_select_def
  by (intro keeps_intros keeps_node keeps_read_clock) (simp_all add: after_select_def)

lemma keeps_send_state: "keeps I (send_state os st)"
  unfolding send_state_def
proof (intro keeps_on_test always_mono [OF frames_set_send_state])
  fix a x assume "case x of (r, b) \<Rightarrow> framed (a\<lparr>t_state := st\<rparr>) b"
  then show "case x of (r, b) \<Rightarrow> I a \<longrightarrow> I b" by (auto intro: framed state)
qed

lemma keeps_exchange: "keeps I (exchange_parameters os u)" "keeps I (exchange_results os u)"
  unfolding exchange_parameters_def exchange_results_def
  by (intro keeps_on_test_outcome parameters, intro keeps_frames_outcome frames_exchange_results)

lemma keeps_init_test: "keeps I (init_test os)"
  unfolding init_test_def by (intro keeps_intros keeps_frames frames_init_test)

lemma keeps_send_timers: "keeps I (send_timers os u ids)"
  by (induction ids)
    (auto intro!: keeps_intros keeps_framed framed_on_stream keeps_create_timer simp: stream_key_def)

lemma keeps_create_send_timers: "keeps I (iperf_create_send_timers os u)"
  unfolding iperf_create_send_timers_def by (intro keeps_intros keeps_send_timers keeps_fail)

lemma keeps_send_data: "keeps I (send_data os u)"
proof -
  have "I (n_test n) \<Longrightarrow> run_state (iperf_send os t (n_test n) ws) s = (Ok (r, test, ws'), s') \<Longrightarrow> I test"
    for n :: "'w node" and t ws s r test ws' s'
    by (drule always_run [OF frames_send]) (auto intro: framed)
  then show ?thesis
    unfolding send_data_def keeps_def by (auto simp: lift_def split: prod.split outcome.split)
qed

lemma keeps_recv_data: "keeps I (recv_data os)"
proof -
  have "I (n_test n) \<Longrightarrow> run_state (iperf_recv os (n_test n) rs) s = ((r, test, rs'), s') \<Longrightarrow> I test"
    for n :: "'w node" and rs s r test rs' s'
    by (drule always_run [OF frames_recv]) (auto intro: framed)
  then show ?thesis
    unfolding recv_data_def keeps_def by (auto simp: lift_def split: prod.split)
qed

lemma new_stream_result:
  "run_state (new_stream os s d) n = (r, n') \<Longrightarrow>
     framed (n_test n) (n_test n') \<or> with_stream s d (n_test n) (n_test n') \<and> r = Ok 0"
proof -
  assume run: "run_state (new_stream os s d) n = (r, n')"
  obtain x st where x: "run_state (iperf_new_stream os (n_test n) s d) (n_net n) = (x, st)"
    by (cases "run_state (iperf_new_stream os (n_test n) s d) (n_net n)")
  from always_run [OF frames_new_stream x] run x show ?thesis
    unfolding new_stream_def
    by (auto simp: lift_def set_test_def log_event_def split: option.splits prod.splits)
qed

lemma keeps_bind2:
  "keeps I (m \<bind> (\<lambda>_. m2)) \<Longrightarrow> (\<And>x. keeps I (f x)) \<Longrightarrow> keeps I (m \<bind> (\<lambda>_. m2 \<bind> f))"
  using keeps_bind [of I "m \<bind> (\<lambda>_. m2)" f] by simp

subsection \<open>The client\<close>

lemma keeps_watched_stream: "keeps I (set_test (watch_stream s d) \<bind> (\<lambda>_. new_stream os s d))"
  unfolding keeps_def
proof (intro allI impI)
  fix n :: "'w node" assume I: "I (n_test n)"
  let ?n = "n\<lparr>n_test := watch_stream s d (n_test n)\<rparr>"
  obtain r n' where run: "run_state (new_stream os s d) ?n = (r, n')" by (cases "run_state (new_stream os s d) ?n")
  have "I (n_test n')"
    using new_stream_result [OF run] I by (auto intro: framed watch_stream add_watched)
  then show "I (n_test (snd (run_state (set_test (watch_stream s d) \<bind> (\<lambda>_. new_stream os s d)) n)))"
    using run by (simp add: set_test_def)
qed

lemma keeps_create_streams: "keeps I (create_streams os d port i k)"
proof (induction k arbitrary: i)
  case (Suc k)
  have new: "keeps I (do {
       _ \<leftarrow> set_test (watch_stream s d);
       r \<leftarrow> new_stream os s d;
       unless_error r (create_streams os d port (i + 1) k)
     })" for s
    by (rule keeps_bind2 [OF keeps_watched_stream]) (intro keeps_unless_error Suc)
  show ?case
    unfolding create_streams.simps
    by (intro keeps_bind keeps_framed keeps_frames frames_prot_connect keeps_if keeps_return new) simp
qed (simp add: keeps_return)

lemma keeps_client_timers: "keeps I (create_client_timers os u)" "keeps I (create_client_omit_timer os u)"
  unfolding create_client_timers_def create_client_omit_timer_def
  by (auto intro!: keeps_intros keeps_fail keeps_framed keeps_steps keeps_create_timer)

lemma keeps_client_end: "keeps I (iperf_client_end os)"
  unfolding iperf_client_end_def by (intro keeps_intros keeps_send_state)

lemma keeps_client_dispatch: "keeps I (client_dispatch os u)"
  unfolding client_dispatch_def server_terminated_def server_error_def iperf_create_streams_def
  by (auto intro!: keeps_intros keeps_steps keeps_exchange keeps_create_streams keeps_init_test keeps_client_timers
      keeps_create_send_timers keeps_client_end keeps_fail keeps_state keeps_framed keeps_cpu)

lemma keeps_client_message: "keeps I (client_message os u)"
  unfolding client_message_def iperf_handle_message_client_def
  by (intro keeps_intros keeps_fail keeps_state keeps_client_dispatch keeps_node) simp

lemma keeps_client_running: "keeps I (client_running os u)"
  unfolding client_running_def first_time_def set_nonblocking_def client_transfer_def end_test_def
  by (auto intro!: keeps_intros keeps_steps keeps_node keeps_send_data keeps_recv_data keeps_run_timers keeps_framed
      keeps_cpu keeps_stats keeps_send_state)

lemma keeps_client_iteration: "keeps I (client_iteration os u)"
  unfolding client_iteration_def client_select_def
  by (auto intro!: keeps_steps keeps_intros keeps_wait_select keeps_fail keeps_client_message keeps_client_running)

lemma keeps_client_loop: "keeps I (client_loop os u k)"
  by (induction k) (auto intro!: keeps_intros keeps_client_iteration)

lemma keeps_run_client: "keeps I (iperf_run_client os u k)"
proof -
  have "keeps I (iperf_connect os)"
    unfolding iperf_connect_def dial_control_def
    by (intro keeps_intros keeps_set_test no_sets watch_control control keeps_fail)
      (auto elim!: framed [rotated] simp: set_mss_def default_blksize_def)
  then show ?thesis
    unfolding iperf_run_client_def iperf_setaffinity_def set_startup_def
    by (auto intro!: keeps_intros keeps_steps keeps_fail keeps_cpu keeps_node keeps_client_loop)
qed

subsection \<open>The server\<close>

lemma keeps_server_timers: "keeps I (create_server_timers os u)" "keeps I (create_server_omit_timer os u)"
  unfolding create_server_timers_def create_server_omit_timer_def
  by (auto intro!: keeps_intros keeps_fail keeps_framed keeps_steps keeps_create_timer simp: Let_def)

lemma keeps_send_step: "keeps I (send_step os st)"
  unfolding send_step_def by (intro keeps_intros keeps_send_state)

lemma keeps_accept: "keeps I (iperf_accept os u)"
  unfolding iperf_accept_def greet_client_def deny_client_def iperf_setaffinity_def
  by (auto intro!: keeps_intros keeps_steps keeps_fail keeps_set_test control watch_control keeps_send_step keeps_exchange elim: framed [rotated])

lemma framed_unwatch: "framed a (unwatch_streams a)"
  by (auto simp: unwatch_streams_def framed_def sockets_def)

lemma keeps_drop_streams: "keeps I (drop_streams os)"
  unfolding drop_streams_def by (intro keeps_intros keeps_framed framed_unwatch)

lemma keeps_server_dispatch: "keeps I (server_dispatch os u)"
  unfolding server_dispatch_def client_finished_def client_terminated_def
  by (auto intro!: keeps_intros keeps_steps keeps_fail keeps_framed keeps_cpu keeps_stats keeps_drop_streams keeps_send_step
      keeps_exchange keeps_state)

lemma keeps_handle_message_server: "keeps I (iperf_handle_message_server os u)"
proof -
  have "keeps I (set_test (\<lambda>t. t\<lparr>i_errno := IECTRLCLOSE, t_state := IPERF_DONE\<rparr>))"
    by (rule keeps_set_test) (auto intro!: state elim: framed [rotated])
  then show ?thesis
    unfolding iperf_handle_message_server_def
    by (auto intro!: keeps_intros keeps_fail keeps_state keeps_server_dispatch)
qed

lemma keeps_cleanup: "keeps I (cleanup_server os)"
  unfolding cleanup_server_def close_nonzero_def
  by (auto intro!: keeps_steps keeps_intros keeps_cancel_timer keeps_framed)

lemma keeps_or_cleanup: "keeps I m \<Longrightarrow> keeps I (or_cleanup os m)"
  unfolding or_cleanup_def by (intro keeps_intros keeps_cleanup)

lemma keeps_on_srv: "keeps I (on_srv f)"
  unfolding on_srv_def by (rule keeps_node) simp

lemma keeps_unset_read: "keeps I (unset_read f)"
  unfolding unset_read_def by (rule keeps_node) simp

lemma keeps_add_stream: "keeps I (add_stream os s d)"
proof -
  have tail: "keeps I (do {
       test \<leftarrow> the_test;
       _ \<leftarrow> (if t_protocol test \<noteq> Pudp \<or> \<not> d
            then do { _ \<leftarrow> lift (setnonblocking os s True); State_Monad.return () } else State_Monad.return ());
       _ \<leftarrow> on_srv (\<lambda>l. l\<lparr>sv_flag := -1\<rparr>);
       ok})"
    by (intro keeps_intros keeps_on_srv)
  have "keeps I (do { r \<leftarrow> new_stream os s d; unless_error r (do { _ \<leftarrow> set_test (watch_stream s d); m }) })"
    if "keeps I m" for m
    unfolding keeps_def
  proof (intro allI impI)
    fix n :: "'w node" assume I: "I (n_test n)"
    obtain r n' where run: "run_state (new_stream os s d) n = (r, n')" by (cases "run_state (new_stream os s d) n")
    let ?k = "do { _ \<leftarrow> set_test (watch_stream s d); m }"
    have "I (n_test (snd (run_state (unless_error r ?k) n')))"
      using new_stream_result [OF run]
    proof (elim disjE conjE)
      assume "framed (n_test n) (n_test n')"
      moreover have "keeps I (unless_error r ?k)"
        by (intro keeps_unless_error keeps_bind keeps_set_test watch_stream that)
      ultimately show ?thesis using I unfolding keeps_def by (metis framed)
    next
      assume "with_stream s d (n_test n) (n_test n')" "r = Ok 0"
      then show ?thesis
        using I that watch_added [of "n_test n" s d "n_test n'"] by (simp add: unless_error_def set_test_def keeps_def)
    qed
    then show "I (n_test (snd (run_state (do { r \<leftarrow> new_stream os s d; unless_error r ?k }) n)))"
      using run by simp
  qed
  from this [OF tail] show ?thesis unfolding add_stream_def .
qed

lemma keeps_accept_stream: "keeps I (server_accept_stream os u)"
  unfolding server_accept_stream_def admit_stream_def
  by (intro keeps_intros keeps_on_test accept keeps_or_cleanup keeps_on_srv keeps_add_stream keeps_unset_read)

lemma keeps_restore_listener: "keeps I (restore_listener os)"
proof -
  have listener: "keeps I (set_test (\<lambda>t. watch_listener (t\<lparr>t_listener := s\<rparr>)))" for s
    by (rule keeps_set_test, rule watch_listener) (auto elim: framed [rotated])
  show ?thesis
    unfolding restore_listener_def
    by (intro keeps_bind keeps_if keeps_return keeps_lift keeps_the_test keeps_fail listener keeps_framed) simp_all
qed

lemma keeps_start_test: "keeps I (server_start_test os u)"
  unfolding server_start_test_def
  by (auto intro!: keeps_intros keeps_or_cleanup keeps_steps keeps_restore_listener keeps_framed keeps_send_step keeps_init_test
      keeps_server_timers keeps_create_send_timers)

lemma keeps_server_iteration: "keeps I (server_iteration os u)"
proof -
  have "keeps I (server_ready os u)"
    unfolding server_ready_def server_new_client_def server_message_def server_create_streams_def server_transfer_def
    by (auto intro!: keeps_intros keeps_steps keeps_or_cleanup keeps_accept keeps_unset_read keeps_on_srv
        keeps_handle_message_server keeps_accept_stream keeps_start_test keeps_send_data keeps_recv_data)
  then show ?thesis
    unfolding server_iteration_def server_select_def server_timers_def
    by (auto intro!: keeps_steps keeps_intros keeps_wait_select keeps_fail keeps_cleanup keeps_run_timers)
qed

lemma keeps_server_loop: "keeps I (server_loop os u k)"
  by (induction k) (auto intro!: keeps_intros keeps_server_iteration)

lemma frames_announce: "frames a (announce os a)"
proof (induction os a rule: announce.induct)
  case (1 os test)
  show ?case
    unfolding announce.simps [of os test] Let_def
    by (intro always_bind_any always_if always_ret always_mono [OF 1 [OF refl]]) auto
qed

lemma keeps_run_server: "keeps I (iperf_run_server os u k)"
proof -
  have "keeps I (set_test (\<lambda>t. watch_listener (t\<lparr>t_read_set := {}, t_write_set := {}\<rparr>)))"
    by (rule keeps_set_test) (intro watch_listener no_sets)
  then have listen: "keeps I (iperf_server_listen os)"
    unfolding iperf_server_listen_def by (intro keeps_bind keeps_frames frames_announce keeps_if keeps_return)
  have start: "keeps I (start_server u)"
    unfolding keeps_def start_server_def by (auto intro: state)
  have minus: "keeps I m \<Longrightarrow> keeps I k \<Longrightarrow> keeps I (or_minus_2 m k)" for m k :: "'w step"
    unfolding or_minus_2_def by (intro keeps_intros)
  show ?thesis
    unfolding iperf_run_server_def iperf_setaffinity_def iperf_clearaffinity_def
    by (intro keeps_bind keeps_the_test minus keeps_if keeps_fail keeps_return listen keeps_steps)
      (auto intro!: keeps_intros keeps_cpu keeps_server_loop keeps_cleanup start keeps_fail)
qed

end

section \<open>Watched descriptors\<close>

lemma watched_watch_stream: "watched a \<Longrightarrow> watched (watch_stream s d a)"
  by (erule watched_grow [where s = s]) (auto simp: watch_stream_def Let_def sockets_def)

lemma watch_stream_max: "s \<le> t_max_fd (watch_stream s d a)"
  by (simp add: watch_stream_def Let_def)

interpretation wd: test_invariant watched os for os :: "'w os"
proof unfold_locales
  show "watched a \<Longrightarrow> watched (watch_control a)" for a
    by (erule watched_grow [where s = "t_ctrl_sck a"]) (auto simp: watch_control_def Let_def sockets_def)
  show "watched a \<Longrightarrow> watched (watch_listener a)" for a
    by (erule watched_grow [where s = "t_listener a"]) (auto simp: watch_listener_def Let_def sockets_def)
  show "watched a \<Longrightarrow> with_stream s d (watch_stream s d a) b \<Longrightarrow> watched b" for s d a b
    using with_stream_watched(2) [of s d "watch_stream s d a" b] by (simp add: watched_watch_stream watch_stream_max)
  show "watched a \<Longrightarrow> watched (a\<lparr>t_streams := tl (t_streams a)\<rparr>)" for a
    by (cases "t_streams a") (auto simp: watched_def sockets_def)
  show "watched a \<Longrightarrow> watched (a\<lparr>t_read_set := {}, t_write_set := {}\<rparr>)" for a
    by (simp add: watched_def sockets_def)
qed (auto intro: framed_watched watched_watch_stream with_stream_watched(1))

end
