(* ===== verification/Session_Laws.thy ===== *)
theory Session_Laws
  imports Loop_Laws
begin

text \<open>
  The properties of the running client and server.
\<close>

section \<open>What select is given\<close>

text \<open>A process before its main loop, and a system in which every call fails.\<close>

definition node_of :: "'w net \<Rightarrow> iperf_test \<Rightarrow> 'w node" where
  "node_of s test = \<lparr>n_net = s, n_test = test, n_tmr = tmr_init,
     n_cpu = \<lparr>cu_last = zero_time, cu_clast = 0, cu_rlast = rusage_of []\<rparr>, n_log = [], n_read_set = {}, n_write_set = {},
     n_result = 0, n_timeout = None, n_now = zero_time, n_startup = True,
     n_srv = \<lparr>sv_send_streams_accepted = 0, sv_rec_streams_accepted = 0, sv_streams_to_send = 0, sv_streams_to_rec = 0, sv_flag = 7\<rparr>\<rparr>"

abbreviation demo_node :: "iperf_test \<Rightarrow> unit node" where
  "demo_node \<equiv> node_of net0"

definition blank_interval :: iperf_interval_results where
  "blank_interval = \<lparr>ir_bytes_transferred = 0, ir_interval_start_time = zero_time, ir_interval_end_time = zero_time,
     ir_interval_duration = Fin 0, ir_interval_packet_count = 0, ir_interval_outoforder_packets = 0, ir_interval_cnt_error = 0,
     ir_packet_count = 0, ir_jitter = Fin 0, ir_outoforder_packets = 0, ir_cnt_error = 0, ir_omitted = False,
     ir_interval_retrans = 0, ir_snd_cwnd = 0, ir_rtt = 0, ir_rttvar = 0, ir_pmtu = 0\<rparr>"

definition demo_uninit :: uninit where
  "demo_uninit = \<lparr>u_bytes = [], u_interval = (blank_interval, tcp_info_of []), u_time = zero_time, u_rusage = rusage_of [], u_flag = 7\<rparr>"

definition deaf_os :: "unit os" where
  "deaf_os c w = (\<lparr>s_ret = -1, s_err = 5, s_bytes = [], s_val = 0, s_fam = 0, s_rset = {}, s_wset = {}, s_vals = []\<rparr>, w)"

text \<open>
  C8. Through any number of iterations of the client's main loop, whatever the system and the server
  answer, no descriptor in the sets that are passed to \<open>select\<close>, and no socket of a stream, exceeds the \<open>max_fd\<close> passed with them.
\<close>

theorem client_watches:
  assumes "watched (n_test n)"
  shows "watched (n_test (snd (run_state (iperf_run_client os u k) n)))"
  using wd.keeps_run_client assms by (auto simp: keeps_def)

theorem client_watches_witness:
  "watched (n_test (snd (run_state (iperf_run_client deaf_os demo_uninit 3) (demo_node (iperf_defaults iperf_new_test)))))"
  by (rule client_watches)
    (simp add: node_of_def iperf_defaults_def iperf_new_test_def set_protocol_def check_sender_has_retransmits_def
      watched_def sockets_def)

text \<open>
  C7. The same holds through any number of iterations of the server's main loop, in which control and data connections are
  accepted, listeners replaced and timers run.
\<close>

theorem server_watches:
  assumes "watched (n_test n)"
  shows "watched (n_test (snd (run_state (iperf_run_server os u k) n)))"
  using wd.keeps_run_server assms by (auto simp: keeps_def)

theorem server_watches_witness:
  "watched (n_test (snd (run_state (iperf_run_server deaf_os demo_uninit 3) (demo_node (iperf_defaults iperf_new_test)))))"
  by (rule server_watches)
    (simp add: node_of_def iperf_defaults_def iperf_new_test_def set_protocol_def check_sender_has_retransmits_def
      watched_def sockets_def)

section \<open>A busy server\<close>

text \<open>
  C16. A server that has a client does not take another one. The new connection is sent \<open>ACCESS_DENIED\<close>. When that
  write does not fail, the connection is closed and \<open>iperf_accept\<close> returns 0 with the running test, its timers and its
  statistics unchanged; in particular the client gets the byte when the connection takes data. When the write fails,
  \<open>iperf_accept\<close> returns -1 with \<open>IESENDMESSAGE\<close>, nothing else of the test, its timers and statistics has changed, and the connection
  is left open.
\<close>

theorem busy_server_denies:
  assumes "t_ctrl_sck (n_test n) \<noteq> -1" "os (Accept (t_listener (n_test n))) (world (n_net n)) = (a, w)" "0 \<le> s_ret a"
    and "run_state (Nwrite os (s_ret a) [255]) (after_call (Accept (t_listener (n_test n))) (n_net n) a w) = (k, s1)"
    and "run_state (iperf_accept os u) n = (r, n')"
  shows "(if k < 0 then r = Ok (-1) \<and> n' = n\<lparr>n_net := s1, n_test := (n_test n)\<lparr>i_errno := IESENDMESSAGE\<rparr>\<rparr>
      else r = Ok 0 \<and> n' = n\<lparr>n_net := n_net n'\<rparr> \<and> (\<exists>b. calls (n_net n') = calls s1 @ [(Close (s_ret a), b)])) \<and>
    (takes_data os (s_ret a) \<longrightarrow> k = 1 \<and>
      sent (s_ret a) (calls (n_net n')) = sent (s_ret a) (calls (n_net n)) @ [255])"
proof -
  let ?s = "after_call (Accept (t_listener (n_test n))) (n_net n) a w"
  have byte: "word_of_int ACCESS_DENIED = (255 :: u8)" by (simp add: ACCESS_DENIED_def)
  have main: "if k < 0 then r = Ok (-1) \<and> n' = n\<lparr>n_net := s1, n_test := (n_test n)\<lparr>i_errno := IESENDMESSAGE\<rparr>\<rparr>
      else r = Ok 0 \<and> n' = n\<lparr>n_net := n_net n'\<rparr> \<and> (\<exists>b. calls (n_net n') = calls s1 @ [(Close (s_ret a), b)])"
    using assms unfolding iperf_accept_def deny_client_def
    by (auto simp: lift_def the_test_def set_test_def fail_def run_sys byte split: prod.splits)
  moreover have "k = 1 \<and> sent (s_ret a) (calls s1) = sent (s_ret a) (calls (n_net n)) @ [255]" if "takes_data os (s_ret a)"
    using Nwrite_all [OF that, of "[255]" ?s] assms(4) by auto
  ultimately show ?thesis by auto
qed

text \<open>A server on descriptor 4 with a client on descriptor 5, and a system in which everything succeeds.\<close>

definition open_os :: "unit os" where
  "open_os c w = (\<lparr>s_ret = (case c of Accept f \<Rightarrow> 9 | Write f bs \<Rightarrow> int (length bs) | _ \<Rightarrow> 0), s_err = 0, s_bytes = [], s_val = 0,
     s_fam = 0, s_rset = {}, s_wset = {}, s_vals = []\<rparr>, w)"

definition busy_server :: iperf_test where
  "busy_server = iperf_new_test\<lparr>t_listener := 4, t_ctrl_sck := 5\<rparr>"

theorem busy_server_denies_witness:
  "case run_state (iperf_accept open_os demo_uninit) (demo_node busy_server) of (r, n') \<Rightarrow>
     r = Ok 0 \<and> n_test n' = busy_server \<and> sent 9 (calls (n_net n')) = [255]"
proof -
  let ?n = "demo_node busy_server"
  obtain r n' where run: "run_state (iperf_accept open_os demo_uninit) ?n = (r, n')"
    by (cases "run_state (iperf_accept open_os demo_uninit) ?n")
  obtain a where a: "open_os (Accept (t_listener (n_test ?n))) (world (n_net ?n)) = (a, ())" "s_ret a = 9"
    by (simp add: open_os_def)
  obtain k s1 where k: "run_state (Nwrite open_os (s_ret a) [255]) (after_call (Accept (t_listener (n_test ?n))) (n_net ?n) a ()) = (k, s1)"
    by (metis surj_pair)
  have "t_ctrl_sck (n_test ?n) \<noteq> -1" "takes_data open_os (s_ret a)" "sent 9 (calls (n_net ?n)) = []" "n_test ?n = busy_server"
    using a(2) by (auto simp: takes_data_def open_os_def node_of_def busy_server_def net0_def sent_def)
  with busy_server_denies [OF _ a(1) _ k run] a(2) have "r = Ok 0" "n' = ?n\<lparr>n_net := n_net n'\<rparr>" "sent 9 (calls (n_net n')) = [255]"
    by auto
  moreover from this(2) have "n_test n' = n_test ?n" by (metis node.select_convs(2) node.surjective node.update_convs(1))
  ultimately show ?thesis using run \<open>n_test ?n = busy_server\<close> by simp
qed

section \<open>Steps that succeed\<close>

text \<open>
  \<open>effect m f\<close>: whatever \<open>m\<close> returns, it turns the test \<open>t\<close> into \<open>f t\<close>; \<open>effects m f\<close> says so for the runs that return no error.
\<close>

definition effect :: "('w, 'a) act \<Rightarrow> (iperf_test \<Rightarrow> iperf_test) \<Rightarrow> bool" where
  "effect m f \<longleftrightarrow> (\<forall>n. n_test (snd (run_state m n)) = f (n_test n))"

definition effects :: "'w step \<Rightarrow> (iperf_test \<Rightarrow> iperf_test) \<Rightarrow> bool" where
  "effects m f \<longleftrightarrow> (\<forall>n v n'. run_state m n = (Ok v, n') \<longrightarrow> 0 \<le> v \<longrightarrow> n_test n' = f (n_test n))"

lemma effect_lift: "effect (lift m) (\<lambda>t. t)"
  by (simp add: effect_def lift_def split: prod.splits)

lemma effect_return: "effect (State_Monad.return x) (\<lambda>t. t)"
  by (simp add: effect_def)

lemma effect_set_test: "effect (set_test f) f"
  by (simp add: effect_def set_test_def)

lemma effect_bind: "effect m f \<Longrightarrow> (\<And>x. effect (k x) g) \<Longrightarrow> effect (m \<bind> k) (\<lambda>t. g (f t))"
  by (simp add: effect_def split: prod.splits) (metis snd_conv)

lemma effects_return: "effects (State_Monad.return (Ok v)) (\<lambda>t. t)"
  by (simp add: effects_def)

lemma effects_bind: "effect m f \<Longrightarrow> (\<And>x. effects (k x) g) \<Longrightarrow> effects (m \<bind> k) (\<lambda>t. g (f t))"
  by (simp add: effect_def effects_def split: prod.splits) (metis snd_conv)

lemma effects_on_timers: "effects (on_timers f) (\<lambda>t. t)"
  by (auto simp: effects_def on_timers_def split: option.splits)

lemma effects_then:
  assumes "effects m f" "effects k g"
  shows "effects (m \<bind> (\<lambda>r. unless_error r k)) (\<lambda>t. g (f t))"
  unfolding effects_def
proof (intro allI impI)
  fix n v n' assume run: "run_state (m \<bind> (\<lambda>r. unless_error r k)) n = (Ok v, n')" "(0 :: int) \<le> v"
  obtain r n1 where r: "run_state m n = (r, n1)" by (cases "run_state m n")
  then obtain w where "r = Ok w" "0 \<le> w" "run_state k n1 = (Ok v, n')"
    using run by (cases r) (auto simp: unless_error_def split: if_splits)
  then show "n_test n' = g (f (n_test n))" using assms r run(2) unfolding effects_def by metis
qed

lemma effects_steps: "effects m f \<Longrightarrow> effects (steps ms) g \<Longrightarrow> effects (steps (m # ms)) (\<lambda>t. g (f t))"
  unfolding steps.simps by (rule effects_then)

lemma effects_nil: "effects (steps []) (\<lambda>t. t)"
  by (simp add: effects_return)

lemma effects_test:
  assumes "\<And>test. effects (k test) (f test)"
  shows "effects (the_test \<bind> k) (\<lambda>t. f t t)"
  using assms by (simp add: effects_def the_test_def)

lemma effects_cong: "effects m f \<Longrightarrow> (\<And>t. f t = g t) \<Longrightarrow> effects m g"
  by (simp add: effects_def)

lemma effects_cancel_timer:
  assumes "\<And>t. field t = None \<Longrightarrow> clear t = t"
  shows "effects (cancel_timer field clear) clear"
proof -
  have "effects (case field test of None \<Rightarrow> ok
      | Some a \<Rightarrow> steps [on_timers (tmr_cancel a), do { _ \<leftarrow> set_test clear; ok }])
      (if field test = None then (\<lambda>t. t) else clear)" for test
    using effects_steps [OF effects_on_timers effects_steps [OF effects_bind [OF effect_set_test effects_return] effects_nil]]
    by (auto simp: effects_return split: option.split)
  from effects_test [of _ "\<lambda>test. if field test = None then (\<lambda>t. t) else clear", OF this]
  show ?thesis unfolding cancel_timer_def by (rule effects_cong) (simp add: assms)
qed

lemma effects_clear:
  "effects (cancel_timer t_omit_timer (\<lambda>t. t\<lparr>t_omit_timer := None\<rparr>)) (\<lambda>t. t\<lparr>t_omit_timer := None\<rparr>)"
  "effects (cancel_timer t_timer (\<lambda>t. t\<lparr>t_timer := None\<rparr>)) (\<lambda>t. t\<lparr>t_timer := None\<rparr>)"
  "effects (cancel_timer t_stats_timer (\<lambda>t. t\<lparr>t_stats_timer := None\<rparr>)) (\<lambda>t. t\<lparr>t_stats_timer := None\<rparr>)"
  "effects (cancel_timer t_reporter_timer (\<lambda>t. t\<lparr>t_reporter_timer := None\<rparr>)) (\<lambda>t. t\<lparr>t_reporter_timer := None\<rparr>)"
  by (rule effects_cancel_timer, simp)+

lemma effects_free_stream: "effects (iperf_free_stream os sp) (\<lambda>t. t)"
  unfolding iperf_free_stream_def
  by (intro effects_bind [where f = "\<lambda>t. t" and g = "\<lambda>t. t"] effect_lift)
    (auto intro!: effects_return effects_on_timers effect_return effect_bind [where f = "\<lambda>t. t" and g = "\<lambda>t. t"] effect_lift
      split: option.split)

lemma effects_free_streams: "effects (free_streams os c k) (\<lambda>t. t\<lparr>t_streams := drop k (t_streams t)\<rparr>)"
proof (induction k)
  case 0
  show ?case using effects_return [of 0] by (simp add: effects_def)
next
  case (Suc k)
  let ?f = "\<lambda>test t. case t_streams test of [] \<Rightarrow> t | _ \<Rightarrow> t\<lparr>t_streams := drop k (tl (t_streams t))\<rparr>"
  have close: "effect (if c then do { _ \<leftarrow> lift (sys os (Close (sp_socket sp))); State_Monad.return () }
      else State_Monad.return ()) (\<lambda>t. t)" for sp
    by (auto intro!: effect_return effect_bind [where f = "\<lambda>t. t" and g = "\<lambda>t. t"] effect_lift)
  have "effects (case t_streams test of [] \<Rightarrow> ok | sp # _ \<Rightarrow> do {
         _ \<leftarrow> set_test (\<lambda>t. t\<lparr>t_streams := tl (t_streams t)\<rparr>);
         _ \<leftarrow> (if c then do { _ \<leftarrow> lift (sys os (Close (sp_socket sp))); State_Monad.return () } else State_Monad.return ());
         r \<leftarrow> iperf_free_stream os sp;
         unless_error r (free_streams os c k)}) (?f test)" for test
  proof (cases "t_streams test")
    case (Cons sp sps)
    have "effects (do {
         _ \<leftarrow> set_test (\<lambda>t. t\<lparr>t_streams := tl (t_streams t)\<rparr>);
         _ \<leftarrow> (if c then do { _ \<leftarrow> lift (sys os (Close (sp_socket sp))); State_Monad.return () } else State_Monad.return ());
         r \<leftarrow> iperf_free_stream os sp;
         unless_error r (free_streams os c k)}) (\<lambda>t. t\<lparr>t_streams := drop k (tl (t_streams t))\<rparr>)"
      by (rule effects_cong, rule effects_bind [OF effect_set_test effects_bind [OF close effects_then [OF effects_free_stream Suc]]]) simp
    then show ?thesis using Cons by simp
  qed (simp add: effects_return)
  from effects_test [OF this] show ?case
    unfolding free_streams.simps
    by (rule effects_cong) (auto split: list.split simp: drop_Suc)
qed

section \<open>Reset between two clients\<close>

lemma effects_reset_test:
  "effects (iperf_reset_test os) (\<lambda>t. reset_fields (t\<lparr>t_omit_timer := None, t_timer := None, t_stats_timer := None,
     t_reporter_timer := None\<rparr>))"
  unfolding iperf_reset_test_def
  by (rule effects_cong, rule effects_test, (rule effects_steps effects_nil effects_free_streams effects_clear
        effects_bind [OF effect_set_test effects_return])+)
    (simp add: reset_fields_def set_protocol_def check_sender_has_retransmits_def Let_def)

text \<open>
  The parameters of a session that the reset sets, and those parameters that a client may send and the reset leaves as they are.
\<close>

definition session_params :: "iperf_test \<Rightarrow> _" where
  "session_params t =
     ((t_protocol t, t_role t, t_mode t, t_reverse t, t_bidirectional t, t_omit t, t_duration t, t_server_affinity t),
      (t_num_streams t, t_no_delay t, t_title t, t_extra_data t, t_udp_counters_64bit t, t_multisend t, t_cookie t),
      (cfg_socket_bufsize (t_settings t), cfg_blksize (t_settings t), cfg_rate (t_settings t), cfg_burst (t_settings t),
       cfg_mss (t_settings t), cfg_tos (t_settings t)),
      (t_state t, t_ctrl_sck t, t_prot_listener t, t_read_set t, t_write_set t, t_done t, t_streams t),
      (t_bytes_sent t, t_blocks_sent t, t_bytes_received t, t_blocks_received t, t_sender_has_retransmits t,
       t_other_side_has_retransmits t, t_remote_congestion_used t, t_server_output_list t),
      (t_timer t, t_omit_timer t, t_stats_timer t, t_reporter_timer t))"

definition leftovers :: "iperf_test \<Rightarrow> _" where
  "leftovers t =
     (cfg_bytes (t_settings t), cfg_blocks (t_settings t), cfg_fqrate (t_settings t), cfg_pacing_timer (t_settings t),
      cfg_flowlabel (t_settings t), t_congestion t, t_congestion_used t, t_get_server_output t, t_repeating_payload t)"

text \<open>
  C18. The reset between two clients: streams, timers, counters, sockets and the parameters that \<open>session_params\<close> lists
  are those of a new server, whatever the previous client did. The parameters in \<open>leftovers\<close>, which the
  client can set too, keep their values: the next client inherits them.
\<close>

theorem reset_forgets:
  assumes "run_state (iperf_reset_test os) n = (Ok 0, n')" "Ptcp \<in> set (t_protocols (n_test n))"
  shows "session_params (n_test n') = session_params (iperf_set_test_role (iperf_defaults iperf_new_test) (CHR ''s'')) \<and>
     leftovers (n_test n') = leftovers (n_test n)"
proof -
  have "n_test n' = reset_fields ((n_test n)\<lparr>t_omit_timer := None, t_timer := None, t_stats_timer := None, t_reporter_timer := None\<rparr>)"
    using effects_reset_test assms(1) unfolding effects_def by fastforce
  then show ?thesis
    using assms(2)
    by (simp add: session_params_def leftovers_def reset_fields_def set_protocol_def check_sender_has_retransmits_def Let_def
        iperf_set_test_role_def iperf_defaults_def iperf_new_test_def)
qed

theorem reset_forgets_witness:
  "case run_state (iperf_reset_test deaf_os) (demo_node (demo_server\<lparr>t_state := TEST_RUNNING, t_num_streams := 8, t_repeating_payload := 1\<rparr>)) of
     (r, n') \<Rightarrow> t_num_streams (n_test n') = 1 \<and> t_repeating_payload (n_test n') = 1"
proof -
  let ?t = "demo_server\<lparr>t_state := TEST_RUNNING, t_num_streams := 8, t_repeating_payload := 1\<rparr>"
  note defs = demo_server_def iperf_set_test_role_def iperf_defaults_def iperf_new_test_def set_protocol_def
    check_sender_has_retransmits_def Let_def
  have t: "t_streams ?t = []" "t_timer ?t = None" "t_omit_timer ?t = None" "t_stats_timer ?t = None" "t_reporter_timer ?t = None"
      "Ptcp \<in> set (t_protocols ?t)"
    by (simp_all add: defs)
  then have run: "run_state (iperf_reset_test deaf_os) (demo_node ?t) = (Ok 0, (demo_node ?t)\<lparr>n_test := reset_fields ?t\<rparr>)"
    by (simp add: iperf_reset_test_def the_test_def set_test_def cancel_timer_def unless_error_def node_of_def)
  from reset_forgets [OF run] t(6) have "session_params (reset_fields ?t) = session_params demo_server" "leftovers (reset_fields ?t) = leftovers ?t"
    by (simp_all add: node_of_def demo_server_def)
  then show ?thesis
    unfolding run by (simp add: session_params_def leftovers_def defs)
qed

section \<open>The end of a server\<close>

text \<open>The timers of a test in the order in which the server cancels them.\<close>

definition ptr_list :: "ptr \<Rightarrow> addr list" where
  "ptr_list p = (case p of None \<Rightarrow> [] | Some a \<Rightarrow> [a])"

definition own_timers :: "iperf_test \<Rightarrow> addr list" where
  "own_timers t = ptr_list (t_stats_timer t) @ ptr_list (t_reporter_timer t) @ ptr_list (t_omit_timer t) @ ptr_list (t_timer t)"

text \<open>
  \<open>releases m f c\<close>: on a well-formed pool in which the timers \<open>f t\<close> are active, the step \<open>m\<close> succeeds, cancels them and turns the
  test \<open>t\<close> into \<open>c t\<close>.
\<close>

definition releases :: "'w step \<Rightarrow> (iperf_test \<Rightarrow> addr list) \<Rightarrow> (iperf_test \<Rightarrow> iperf_test) \<Rightarrow> bool" where
  "releases m f c \<longleftrightarrow> (\<forall>n xs ys. timer_inv (n_tmr n) xs ys \<longrightarrow> set (f (n_test n)) \<subseteq> set xs \<longrightarrow> distinct (f (n_test n)) \<longrightarrow>
     (\<exists>s. run_state m n = (Ok 0, n\<lparr>n_test := c (n_test n), n_tmr := s\<rparr>) \<and>
        timer_inv s (filter (\<lambda>x. x \<notin> set (f (n_test n))) xs) (rev (f (n_test n)) @ ys)))"

lemma releasesD:
  assumes "releases m f c" "timer_inv (n_tmr n) xs ys" "set (f (n_test n)) \<subseteq> set xs" "distinct (f (n_test n))"
  obtains s where "run_state m n = (Ok 0, n\<lparr>n_test := c (n_test n), n_tmr := s\<rparr>)"
    "timer_inv s (filter (\<lambda>x. x \<notin> set (f (n_test n))) xs) (rev (f (n_test n)) @ ys)"
  using assms unfolding releases_def by blast

lemma releases_cancel:
  assumes "\<And>t. field t = None \<Longrightarrow> clear t = t"
  shows "releases (cancel_timer field clear) (\<lambda>t. ptr_list (field t)) clear"
  unfolding releases_def
proof (intro allI impI)
  fix n :: "'w node" and xs ys
  assume inv: "timer_inv (n_tmr n) xs ys" and sub: "set (ptr_list (field (n_test n))) \<subseteq> set xs"
  show "\<exists>s. run_state (cancel_timer field clear) n = (Ok 0, n\<lparr>n_test := clear (n_test n), n_tmr := s\<rparr>) \<and>
      timer_inv s (filter (\<lambda>x. x \<notin> set (ptr_list (field (n_test n)))) xs) (rev (ptr_list (field (n_test n))) @ ys)"
  proof (cases "field (n_test n)")
    case None
    then show ?thesis
      using inv assms by (intro exI [of _ "n_tmr n"]) (simp add: cancel_timer_def the_test_def ptr_list_def)
  next
    case (Some a)
    then obtain s where "tmr_cancel a (n_tmr n) = Some s" "timer_inv s (filter (\<lambda>x. x \<noteq> a) xs) (a # ys)"
      using tp.cancel_member [OF inv, of a] sub by (auto simp: ptr_list_def)
    then show ?thesis
      using Some by (intro exI [of _ s]) (simp add: cancel_timer_def the_test_def set_test_def on_timers_def unless_error_def ptr_list_def)
  qed
qed

lemma releases_set: "releases (do { _ \<leftarrow> set_test c; ok }) (\<lambda>_. []) c"
  unfolding releases_def
proof (intro allI impI, goal_cases)
  case (1 n xs ys)
  then show ?case by (intro exI [of _ "n_tmr n"]) (simp add: set_test_def)
qed

lemma releases_nil: "releases (steps []) (\<lambda>_. []) (\<lambda>t. t)"
  unfolding releases_def
proof (intro allI impI, goal_cases)
  case (1 n xs ys)
  then show ?case by (intro exI [of _ "n_tmr n"]) simp
qed

lemma releases_cong: "releases m f c \<Longrightarrow> (\<And>t. f t = g t) \<Longrightarrow> (\<And>t. c t = d t) \<Longrightarrow> releases m g d"
  by (simp add: releases_def)

lemma releases_clear:
  "releases (cancel_timer t_omit_timer (\<lambda>t. t\<lparr>t_omit_timer := None\<rparr>)) (\<lambda>t. ptr_list (t_omit_timer t)) (\<lambda>t. t\<lparr>t_omit_timer := None\<rparr>)"
  "releases (cancel_timer t_timer (\<lambda>t. t\<lparr>t_timer := None\<rparr>)) (\<lambda>t. ptr_list (t_timer t)) (\<lambda>t. t\<lparr>t_timer := None\<rparr>)"
  "releases (cancel_timer t_stats_timer (\<lambda>t. t\<lparr>t_stats_timer := None\<rparr>)) (\<lambda>t. ptr_list (t_stats_timer t)) (\<lambda>t. t\<lparr>t_stats_timer := None\<rparr>)"
  "releases (cancel_timer t_reporter_timer (\<lambda>t. t\<lparr>t_reporter_timer := None\<rparr>)) (\<lambda>t. ptr_list (t_reporter_timer t))
     (\<lambda>t. t\<lparr>t_reporter_timer := None\<rparr>)"
  by (rule releases_cancel, simp)+

lemma releases_steps:
  assumes "releases m f c" "releases (steps ms) g d"
  shows "releases (steps (m # ms)) (\<lambda>t. f t @ g (c t)) (\<lambda>t. d (c t))"
  unfolding releases_def
proof (intro allI impI)
  fix n :: "'a node" and xs ys
  let ?t = "n_test n"
  assume inv: "timer_inv (n_tmr n) xs ys" and sub: "set (f ?t @ g (c ?t)) \<subseteq> set xs" and dis: "distinct (f ?t @ g (c ?t))"
  obtain s1 where 1: "run_state m n = (Ok 0, n\<lparr>n_test := c ?t, n_tmr := s1\<rparr>)"
      "timer_inv s1 (filter (\<lambda>x. x \<notin> set (f ?t)) xs) (rev (f ?t) @ ys)"
    by (rule releasesD [OF assms(1) inv]) (use sub dis in auto)
  let ?n = "n\<lparr>n_test := c ?t, n_tmr := s1\<rparr>"
  have "set (g (n_test ?n)) \<subseteq> set (filter (\<lambda>x. x \<notin> set (f ?t)) xs)" "distinct (g (n_test ?n))" "timer_inv (n_tmr ?n) (filter (\<lambda>x. x \<notin> set (f ?t)) xs) (rev (f ?t) @ ys)"
    using sub dis 1(2) by auto
  then obtain s2 where "run_state (steps ms) ?n = (Ok 0, ?n\<lparr>n_test := d (n_test ?n), n_tmr := s2\<rparr>)"
      "timer_inv s2 (filter (\<lambda>x. x \<notin> set (g (n_test ?n))) (filter (\<lambda>x. x \<notin> set (f ?t)) xs)) (rev (g (n_test ?n)) @ rev (f ?t) @ ys)"
    by (elim releasesD [OF assms(2), rotated 1])
  then show "\<exists>s. run_state (steps (m # ms)) n = (Ok 0, n\<lparr>n_test := d (c ?t), n_tmr := s\<rparr>) \<and>
      timer_inv s (filter (\<lambda>x. x \<notin> set (f ?t @ g (c ?t))) xs) (rev (f ?t @ g (c ?t)) @ ys)"
    using 1(1) by (intro exI [of _ s2]) (simp add: unless_error_def conj_commute)
qed

lemma close_nonzero_run:
  obtains s where "run_state (close_nonzero os field) n = (Ok 0, n\<lparr>n_net := s\<rparr>)"
    "map fst (calls s) = map fst (calls (n_net n)) @ (if field (n_test n) \<noteq> 0 then [Close (field (n_test n))] else [])"
proof (cases "field (n_test n) = 0")
  case True
  then show ?thesis using that [of "n_net n"] by (simp add: close_nonzero_def the_test_def)
next
  case False
  obtain a w where "os (Close (field (n_test n))) (world (n_net n)) = (a, w)" by fastforce
  then show ?thesis
    using False that [of "after_call (Close (field (n_test n))) (n_net n) a w"]
    by (simp add: close_nonzero_def the_test_def lift_def run_sys)
qed

text \<open>
  C17. The clean-up of the server, when the timers of the test are active and different ones: it closes the control connection
  and the listener and nothing else, cancels exactly the timers of the test, never touching a timer that
  is not active, and leaves the timers well formed and no pointer to a cancelled timer.
\<close>

theorem cleanup_server_releases:
  assumes "timer_inv (n_tmr n) xs ys" "set (own_timers (n_test n)) \<subseteq> set xs" "distinct (own_timers (n_test n))"
  shows "\<exists>n'. run_state (cleanup_server os) n = (Ok 0, n') \<and>
    timer_inv (n_tmr n') (filter (\<lambda>x. x \<notin> set (own_timers (n_test n))) xs) (rev (own_timers (n_test n)) @ ys) \<and>
    own_timers (n_test n') = [] \<and>
    map fst (calls (n_net n')) = map fst (calls (n_net n)) @
      (if t_ctrl_sck (n_test n) \<noteq> 0 then [Close (t_ctrl_sck (n_test n))] else []) @
      (if t_listener (n_test n) \<noteq> 0 then [Close (t_listener (n_test n))] else [])"
proof -
  obtain s1 where 1: "run_state (close_nonzero os t_ctrl_sck) n = (Ok 0, n\<lparr>n_net := s1\<rparr>)"
      "map fst (calls s1) = map fst (calls (n_net n)) @ (if t_ctrl_sck (n_test n) \<noteq> 0 then [Close (t_ctrl_sck (n_test n))] else [])"
    by (rule close_nonzero_run)
  let ?n1 = "n\<lparr>n_net := s1\<rparr>"
  obtain s2 where 2: "run_state (close_nonzero os t_listener) ?n1 = (Ok 0, ?n1\<lparr>n_net := s2\<rparr>)"
      "map fst (calls s2) = map fst (calls (n_net ?n1)) @ (if t_listener (n_test ?n1) \<noteq> 0 then [Close (t_listener (n_test ?n1))] else [])"
    by (rule close_nonzero_run)
  let ?n2 = "?n1\<lparr>n_net := s2\<rparr>"
  let ?rest = "[cancel_timer t_stats_timer (\<lambda>t. t\<lparr>t_stats_timer := None\<rparr>),
      cancel_timer t_reporter_timer (\<lambda>t. t\<lparr>t_reporter_timer := None\<rparr>),
      cancel_timer t_omit_timer (\<lambda>t. t\<lparr>t_omit_timer := None\<rparr>),
      do { _ \<leftarrow> set_test (\<lambda>t. t\<lparr>t_congestion_used := None\<rparr>); ok },
      cancel_timer t_timer (\<lambda>t. t\<lparr>t_timer := None\<rparr>)]"
  have "releases (steps ?rest) own_timers (\<lambda>t. t\<lparr>t_stats_timer := None, t_reporter_timer := None, t_omit_timer := None,
      t_congestion_used := None, t_timer := None\<rparr>)"
    by (rule releases_cong, (rule releases_steps releases_clear releases_set releases_nil)+) (simp_all add: own_timers_def)
  moreover have "timer_inv (n_tmr ?n2) xs ys" "set (own_timers (n_test ?n2)) \<subseteq> set xs" "distinct (own_timers (n_test ?n2))"
    using assms by simp_all
  ultimately obtain s3 where 3: "run_state (steps ?rest) ?n2 = (Ok 0, ?n2\<lparr>n_test := (n_test ?n2)\<lparr>t_stats_timer := None, t_reporter_timer := None,
      t_omit_timer := None, t_congestion_used := None, t_timer := None\<rparr>, n_tmr := s3\<rparr>)"
      "timer_inv s3 (filter (\<lambda>x. x \<notin> set (own_timers (n_test ?n2))) xs) (rev (own_timers (n_test ?n2)) @ ys)"
    by (rule releasesD)
  have "run_state (cleanup_server os) n = run_state (steps ?rest) ?n2"
    unfolding cleanup_server_def using 1(1) 2(1) by (simp add: unless_error_def)
  with 1(2) 2(2) 3 show ?thesis
    by (intro exI [of _ "?n2\<lparr>n_test := (n_test ?n2)\<lparr>t_stats_timer := None, t_reporter_timer := None,
      t_omit_timer := None, t_congestion_used := None, t_timer := None\<rparr>, n_tmr := s3\<rparr>"]) (simp add: own_timers_def ptr_list_def)
qed

text \<open>A server with a test that runs too long, and the timer of a sending stream, both due.\<close>

definition demo_timer :: "proc \<Rightarrow> cdata \<Rightarrow> nat \<Rightarrow> int \<Rightarrow> ptr \<Rightarrow> ptr \<Rightarrow> (proc, cdata) timer" where
  "demo_timer p cd sec per pv nx = \<lparr>timer_proc = p, client_data = cd, t_usecs = 1000, periodic = per,
     t_time = \<lparr>secs = of_nat sec, usecs = 0\<rparr>, t_prev = pv, t_next = nx\<rparr>"

definition demo_timers :: "(proc, cdata) tmr_state" where
  "demo_timers = \<lparr>heap =
      [10 \<mapsto> demo_timer Server_timer_proc Cd_test 1 0 None (Some 20),
       20 \<mapsto> demo_timer Send_timer_proc (Cd_stream 1) 2 1 (Some 10) None],
     timers = Some 10, free_timers = None\<rparr>"

lemma demo_timers_inv: "timer_inv demo_timers [10, 20] []"
  by (simp add: timer_inv_def shape_def ekey_def view_def payload_def tkey_def demo_timers_def demo_timer_def)

theorem cleanup_server_releases_witness:
  "\<exists>n'. run_state (cleanup_server open_os) ((demo_node (busy_server\<lparr>t_timer := Some 10\<rparr>))\<lparr>n_tmr := demo_timers\<rparr>) = (Ok 0, n') \<and>
     timer_inv (n_tmr n') [20] [10] \<and> t_timer (n_test n') = None \<and> map fst (calls (n_net n')) = [Close 5, Close 4]"
proof -
  let ?n = "(demo_node (busy_server\<lparr>t_timer := Some 10\<rparr>))\<lparr>n_tmr := demo_timers\<rparr>"
  have "timer_inv (n_tmr ?n) [10, 20] []" using demo_timers_inv by simp
  moreover have own: "own_timers (n_test ?n) = [10]"
    by (simp add: own_timers_def ptr_list_def node_of_def busy_server_def iperf_new_test_def)
  moreover have "own_timers t = [] \<Longrightarrow> t_timer t = None" for t
    by (auto simp: own_timers_def ptr_list_def split: option.splits)
  ultimately show ?thesis
    using cleanup_server_releases [of ?n "[10, 20]" "[]" open_os]
    by (fastforce simp: node_of_def busy_server_def net0_def)
qed

text \<open>
  When the server gives up on a test (\<open>server_timer_proc\<close>), it frees the streams and cancels their timers; \<open>tmr_run\<close>
  has already noted the next timer, and if that is the timer of a stream and due, it is fired with the freed stream.
\<close>

definition sending_server :: iperf_test where
  "sending_server = busy_server\<lparr>t_timer := Some 10,
     t_streams := [(blank_stream 7 True 8 (-1) [])\<lparr>sp_id := 1, sp_send_timer := Some 20\<rparr>]\<rparr>"

definition clock_os :: "unit os" where
  "clock_os c w = (\<lparr>s_ret = 0, s_err = 0, s_bytes = [], s_val = 3, s_fam = 0, s_rset = {}, s_wset = {}, s_vals = []\<rparr>, w)"

lemma freed_stream_is_used:
  "fst (run_state (run_timers clock_os demo_uninit) ((demo_node sending_server)\<lparr>n_tmr := demo_timers\<rparr>)) = Fault"
  by (simp add: run_timers_def read_clock_def time_now_def lift_def run_sys clock_os_def iperf_time_now_def tmr_run_def getnow_def
      tmr_run_loop.simps node_cb_def server_timer_proc_def send_timer_proc_def the_test_def set_test_def free_streams.simps
      iperf_free_stream_def on_timers_def unless_error_def demo_timers_def demo_timer_def node_of_def sending_server_def
      busy_server_def iperf_new_test_def blank_stream_def iperf_time_compare_def tmr_cancel_def list_remove_def upd_def net0_def)

text \<open>
  A second client that breaks its connection before it can be turned away ends the running test: the server cleans up, and the
  socket of the second client stays open.
\<close>

definition reset_os :: "unit os" where
  "reset_os c w = (\<lparr>s_ret = (case c of Accept f \<Rightarrow> 9 | Write f bs \<Rightarrow> -1 | _ \<Rightarrow> 0), s_err = 104, s_bytes = [], s_val = 0,
     s_fam = 0, s_rset = {}, s_wset = {}, s_vals = []\<rparr>, w)"

lemma denied_client_ends_test:
  "case run_state (server_new_client reset_os demo_uninit)
       ((demo_node (busy_server\<lparr>t_state := TEST_RUNNING\<rparr>))\<lparr>n_read_set := {4}\<rparr>) of (r, n') \<Rightarrow>
     r = Ok (-1) \<and> i_errno (n_test n') = IESENDMESSAGE \<and>
     map fst (calls (n_net n')) = [Accept 4, Write 9 [255], Close 5, Close 4]"
  by (simp add: server_new_client_def iperf_accept_def deny_client_def or_cleanup_def cleanup_server_def close_nonzero_def
      cancel_timer_def the_test_def set_test_def lift_def run_sys reset_os_def unless_error_def fail_def node_of_def busy_server_def
      iperf_new_test_def net0_def Nwrite_def Nwrite_loop.simps iperf_states EINTR_def EAGAIN_def ENOBUFS_def NET_HARDERROR_def)

end
