(* ===== verification/Report_Laws.thy ===== *)
theory Report_Laws
  imports Session_Laws
begin

text \<open>
  The report of an error from the server to the client, over both implementations; the payload and the cookie.
\<close>

section \<open>What is not written\<close>

definition silent :: "int \<Rightarrow> ('w, 'a) io \<Rightarrow> bool" where
  "silent fd m \<longleftrightarrow> (\<forall>s. sent fd (calls (snd (run_state m s))) = sent fd (calls s))"

lemma silent_run: "silent fd m \<Longrightarrow> run_state m s = (r, s') \<Longrightarrow> sent fd (calls s') = sent fd (calls s)"
  unfolding silent_def by (metis snd_conv)

lemma silent_ret: "silent fd (ret x)"
  by (simp add: silent_def)

lemma silent_bind: "silent fd m \<Longrightarrow> (\<And>x. silent fd (f x)) \<Longrightarrow> silent fd (m \<bind> f)"
  by (simp add: silent_def split: prod.splits) (metis snd_conv)

lemma silent_if: "silent fd m \<Longrightarrow> silent fd n \<Longrightarrow> silent fd (if b then m else n)"
  by simp

lemma silent_prod: "(\<And>a b. silent fd (f a b)) \<Longrightarrow> silent fd (case x of (a, b) \<Rightarrow> f a b)"
  by (cases x) simp

lemma silent_option: "silent fd m \<Longrightarrow> (\<And>a. silent fd (f a)) \<Longrightarrow> silent fd (case x of None \<Rightarrow> m | Some a \<Rightarrow> f a)"
  by (cases x) simp_all

lemma silent_sum: "(\<And>a. silent fd (f a)) \<Longrightarrow> (\<And>b. silent fd (g b)) \<Longrightarrow> silent fd (case x of Inl a \<Rightarrow> f a | Inr b \<Rightarrow> g b)"
  by (cases x) simp_all

lemma silent_let: "silent fd (f x) \<Longrightarrow> silent fd (let y = x in f y)"
  by simp

lemma silent_sys: "(\<And>a. sent1 fd (c, a) = []) \<Longrightarrow> silent fd (sys os c)"
  by (simp add: silent_def run_sys Let_def split: prod.splits)

lemma silent_errno: "silent fd get_errno" "silent fd (set_errno e)" "silent fd (set_gerror e)"
  by (simp_all add: silent_def get_errno_def set_errno_def set_gerror_def)

lemmas silent_intros = silent_ret silent_bind silent_if silent_prod silent_option silent_sum silent_let silent_sys silent_errno

lemma silent_Nread_loop: "sent fd (calls (snd (Nread_loop os f n buf s))) = sent fd (calls s)"
proof (induction os f n buf s rule: Nread_loop.induct)
  case (1 os f n buf s)
  obtain a w where "os (Read f n) (world s) = (a, w)" by fastforce
  then show ?case
    using 1 by (subst Nread_loop.simps) (auto simp: run_sys Let_def)
qed

lemma silent_Nread: "silent fd (Nread os f n)"
proof -
  have "sent fd (calls s') = sent fd (calls s)" if "Nread_loop os f n [] s = (x, s')" for s s' x
    using silent_Nread_loop [of fd os f n "[]" s] that by simp
  then show ?thesis by (simp add: silent_def Nread_def Let_def split: prod.split)
qed

lemma silent_close_fail: "silent fd (close_fail os s ais)"
proof -
  have "silent fd (free_all os ais)" by (induction ais) (auto intro!: silent_intros)
  then show ?thesis unfolding close_fail_def by (intro silent_intros) simp_all
qed

lemma silent_netannounce: "silent fd (netannounce os domain proto local port)"
  unfolding netannounce_def netannounce_socket_def by (intro silent_intros silent_close_fail) simp_all

lemma silent_tcp_fail: "silent fd (tcp_fail os test s ais e)"
  unfolding tcp_fail_def by (intro silent_intros silent_close_fail)

lemma silent_set_options: "silent fd (set_options os s opts)"
  by (induction opts rule: induct_list012) (auto intro!: silent_intros split: prod.split)

lemma silent_tcp_listen: "silent fd (iperf_tcp_listen os test)"
  unfolding iperf_tcp_listen_def tcp_listen_socket_def tcp_verify_def
  by (intro silent_intros silent_tcp_fail silent_set_options) simp_all

lemma silent_prot_listen: "silent fd (prot_listen os test)"
  unfolding prot_listen_def iperf_udp_listen_def
  by (intro silent_intros silent_netannounce silent_tcp_listen)

lemma silent_get_parameters: "silent fd (get_parameters os junk test)"
  unfolding get_parameters_def JSON_read_def by (intro silent_intros silent_Nread)

section \<open>The report of an error\<close>

lemma Nwrite_loop_errno:
  assumes "takes_data os fd" "nleft \<le> length data"
  shows "errno (snd (Nwrite_loop os fd data nleft s)) = errno s"
  using assms(2)
proof (induction nleft arbitrary: s rule: less_induct)
  case (less n)
  show ?case
  proof (cases "n = 0")
    case False
    obtain a w where a: "os (Write fd (drop (length data - n) data)) (world s) = (a, w)" by fastforce
    have pos: "0 < s_ret a"
      using assms(1) a False less.prems unfolding takes_data_def by (metis drop_eq_Nil fst_conv le_zero_eq diff_is_0_eq diff_diff_cancel)
    then have "n - nat (s_ret a) < n" using False by simp
    then show ?thesis
      using False a pos less.IH [of "n - nat (s_ret a)" "after_call (Write fd (drop (length data - n) data)) s a w"] less.prems
      by (subst Nwrite_loop.simps) (simp add: run_sys Let_def)
  qed (simp add: Nwrite_loop.simps)
qed

lemma Nwrite_quietly:
  assumes "takes_data os fd" "length data < 2 ^ 31"
  obtains s' where "run_state (Nwrite os fd data) s = (int (length data), s')"
    "sent fd (calls s') = sent fd (calls s) @ data" "errno s' = errno s"
proof -
  obtain s' where s': "run_state (Nwrite os fd data) s = (int (length data), s')" "sent fd (calls s') = sent fd (calls s) @ data"
    using Nwrite_all [OF assms, of s] by blast
  then have "errno s' = errno s"
    using Nwrite_loop_errno [OF assms(1), of "length data" data s] by (simp add: Nwrite_def)
  with s' that show thesis by blast
qed

lemma c_int_mod: "c_int (v mod 2 ^ 32) = c_int v"
proof -
  have "word_of_int (v mod 2 ^ 32) = (word_of_int v :: u32)" by (simp add: word_of_int_eq_iff take_bit_eq_mod)
  then show ?thesis by (simp only: c_int_def)
qed

definition error_report :: "int \<Rightarrow> int \<Rightarrow> u8 list" where
  "error_report ie e = word_of_int SERVER_ERROR # be_bytes 4 ie @ be_bytes 4 e"

lemma server_reports:
  assumes "takes_data os (t_ctrl_sck srv)" "t_role srv \<noteq> CHR ''c''"
    and "run_state (get_parameters os junk srv) s = (Ok (r1, t1), s1)" "0 \<le> r1"
    and "run_state (prot_listen os t1) s1 = ((l, t2), s2)" "l < 0"
  obtains s' where "run_state (iperf_exchange_parameters os junk srv) s = (Ok (-1, t2\<lparr>t_state := SERVER_ERROR\<rparr>), s')"
    "sent (t_ctrl_sck srv) (calls s') = sent (t_ctrl_sck srv) (calls s) @ error_report (i_errno t2) (errno s2)"
proof -
  let ?fd = "t_ctrl_sck srv"
  have q1: "sent ?fd (calls s1) = sent ?fd (calls s)" by (rule silent_run [OF silent_get_parameters assms(3)])
  have f1: "framed srv t1" using always_run [OF frames_get_parameters assms(3)] by simp
  have q2: "sent ?fd (calls s2) = sent ?fd (calls s1)" by (rule silent_run [OF silent_prot_listen assms(5)])
  have "framed srv t2" using always_run [OF frames_prot_listen assms(5)] f1 by (auto elim: framed_trans)
  then have fd: "t_ctrl_sck t2 = ?fd" by (simp add: framed_def)
  obtain s3 where 3: "run_state (Nwrite os ?fd [word_of_int SERVER_ERROR]) s2 = (1, s3)"
      "sent ?fd (calls s3) = sent ?fd (calls s2) @ [word_of_int SERVER_ERROR]" "errno s3 = errno s2"
    using Nwrite_quietly [OF assms(1), of "[word_of_int SERVER_ERROR]" s2] by auto
  obtain s4 where 4: "run_state (Nwrite os ?fd (be_bytes 4 (i_errno t2))) s3 = (4, s4)"
      "sent ?fd (calls s4) = sent ?fd (calls s3) @ be_bytes 4 (i_errno t2)" "errno s4 = errno s3"
    using Nwrite_quietly [OF assms(1), of "be_bytes 4 (i_errno t2)" s3] by (auto simp: be_bytes_def)
  obtain s5 where 5: "run_state (Nwrite os ?fd (be_bytes 4 (errno s4))) s4 = (4, s5)"
      "sent ?fd (calls s5) = sent ?fd (calls s4) @ be_bytes 4 (errno s4)"
    using Nwrite_quietly [OF assms(1), of "be_bytes 4 (errno s4)" s4] by (auto simp: be_bytes_def)
  have "run_state (iperf_exchange_parameters os junk srv) s = (Ok (-1, t2\<lparr>t_state := SERVER_ERROR\<rparr>), s5)"
    using assms(2-6) 3(1) 4(1) 5(1) fd
    by (simp add: iperf_exchange_parameters_def iperf_set_send_state_def send_number_def get_errno_def Let_def)
  then show thesis using that 3 4 5 q1 q2 by (simp add: error_report_def)
qed

lemma client_receives_report:
  assumes "delivers os (t_ctrl_sck (n_test n)) pending" "pending (world (n_net n)) = error_report ie e @ rest"
  obtains n' where "run_state (iperf_handle_message_client os u) n = (Ok (-1), n')"
    "i_errno (n_test n') = c_int ie" "errno (n_net n') = c_int e"
proof -
  let ?fd = "t_ctrl_sck (n_test n)" and ?s = "n_net n"
  obtain a w where a: "os (Read ?fd 1) (world ?s) = (a, w)" by fastforce
  have "pending (world ?s) \<noteq> []" by (simp add: assms(2) error_report_def)
  then have "0 < s_ret a" "s_ret a \<le> 1" "s_bytes a = take (nat (s_ret a)) (error_report ie e @ rest)"
      "pending w = drop (nat (s_ret a)) (error_report ie e @ rest)"
    using assms(1) [unfolded delivers_def, THEN spec, of 1, THEN spec, of "world ?s"] a assms(2) by auto
  moreover from this have "s_ret a = 1" by simp
  ultimately have r: "s_ret a = 1" "s_bytes a = [word_of_int SERVER_ERROR]" "pending w = be_bytes 4 ie @ be_bytes 4 e @ rest"
    by (simp_all add: error_report_def)
  define s1 where "s1 = after_call (Read ?fd 1) ?s a w"
  have len: "length (be_bytes 4 v) = 4" for v by (simp add: be_bytes_def)
  have p1: "pending (world s1) = be_bytes 4 ie @ be_bytes 4 e @ rest" by (simp add: s1_def r)
  obtain s2 where 2: "run_state (Nread os ?fd 4) s1 = ((4, be_bytes 4 ie), s2)" "pending (world s2) = be_bytes 4 e @ rest"
    using Nread_all [OF assms(1), of 4 s1] by (auto simp: p1 len)
  obtain s3 where 3: "run_state (Nread os ?fd 4) s2 = ((4, be_bytes 4 e), s3)"
    using Nread_all [OF assms(1), of 4 s2] by (auto simp: 2(2) len)
  have val: "c_int (be_val (take 4 (overlay (be_bytes 4 v) junk))) = c_int v" for v junk
    using c_int_mod [of v] by (simp add: overlay_def len be_val_bytes)
  have byte: "state_byte [word_of_int SERVER_ERROR] st = SERVER_ERROR" for st
    by (simp add: state_byte_def SERVER_ERROR_def)
  have run: "run_state (iperf_handle_message_client os u) n = run_state (client_dispatch os u)
      (n\<lparr>n_net := s1, n_test := (n_test n)\<lparr>t_state := SERVER_ERROR\<rparr>\<rparr>)"
    by (simp add: iperf_handle_message_client_def the_test_def lift_def run_sys a [simplified] r set_test_def byte s1_def)
  let ?n = "n\<lparr>n_net := s1, n_test := (n_test n)\<lparr>t_state := SERVER_ERROR\<rparr>\<rparr>"
  have "run_state (client_dispatch os u) ?n = run_state (server_error os (u_bytes u)) ?n"
    by (simp add: client_dispatch_def the_test_def iperf_states)
  also have "\<dots> = (Ok (-1), n\<lparr>n_net := s3\<lparr>errno := c_int e\<rparr>, n_test := (n_test n)\<lparr>t_state := SERVER_ERROR, i_errno := c_int ie\<rparr>\<rparr>)"
    by (simp add: server_error_def the_test_def lift_def set_test_def 2(1) 3 val set_errno_def Let_def)
  finally show thesis using that run by simp
qed

text \<open>
  C9. When the server has read the parameters and cannot open its data listener (\<open>prot_listen\<close> fails), the client learns why: over a
  connection that takes and delivers the bytes in pieces of any size, the exchange of parameters fails in the state \<open>SERVER_ERROR\<close>,
  and the client's \<open>iperf_handle_message_client\<close> fails with the error number \<open>i_errno\<close> and the system error \<open>errno\<close> that the failed
  call left at the server.
\<close>

theorem errors_reported:
  assumes "takes_data oss (t_ctrl_sck srv)" "t_role srv \<noteq> CHR ''c''"
    and "run_state (get_parameters oss junk srv) s = (Ok (r1, t1), s1)" "0 \<le> r1"
    and "run_state (prot_listen oss t1) s1 = ((l, t2), s2)" "l < 0"
    and "run_state (iperf_exchange_parameters oss junk srv) s = (x, s')"
    and "delivers osc (t_ctrl_sck (n_test n)) pending"
    and "sent (t_ctrl_sck srv) (calls s') = sent (t_ctrl_sck srv) (calls s) @ pending (world (n_net n))"
  shows "x = Ok (-1, t2\<lparr>t_state := SERVER_ERROR\<rparr>) \<and>
    (\<exists>n'. run_state (iperf_handle_message_client osc u) n = (Ok (-1), n') \<and>
      i_errno (n_test n') = c_int (i_errno t2) \<and> errno (n_net n') = c_int (errno s2))"
proof -
  obtain s5 where r: "run_state (iperf_exchange_parameters oss junk srv) s = (Ok (-1, t2\<lparr>t_state := SERVER_ERROR\<rparr>), s5)"
      "sent (t_ctrl_sck srv) (calls s5) = sent (t_ctrl_sck srv) (calls s) @ error_report (i_errno t2) (errno s2)"
    using server_reports [OF assms(1-6)] by blast
  then have "pending (world (n_net n)) = error_report (i_errno t2) (errno s2) @ []" using assms(7,9) by simp
  from client_receives_report [OF assms(8) this, of u] r(1) assms(7) show ?thesis by auto
qed

text \<open>
  A server that receives the parameters \<open>{}\<close> and then cannot read the size of its socket buffer (\<open>ENOPROTOOPT\<close>).
\<close>

definition refusing_os :: "u8 list os" where
  "refusing_os c w = (case c of
       Read f n \<Rightarrow> (\<lparr>s_ret = int (min n (length w)), s_err = 0, s_bytes = take n w, s_val = 0, s_fam = 0, s_rset = {}, s_wset = {}, s_vals = []\<rparr>, drop n w)
     | Write f bs \<Rightarrow> (\<lparr>s_ret = int (length bs), s_err = 0, s_bytes = [], s_val = 0, s_fam = 0, s_rset = {}, s_wset = {}, s_vals = []\<rparr>, w)
     | _ \<Rightarrow> (\<lparr>s_ret = -1, s_err = 92, s_bytes = [], s_val = 0, s_fam = 0, s_rset = {}, s_wset = {}, s_vals = []\<rparr>, w))"

definition params_net :: "u8 list net" where
  "params_net = \<lparr>world = [0, 0, 0, 2, 123, 125], errno = 0, gerror = 0, calls = []\<rparr>"

lemma refused_run:
  "case run_state (get_parameters refusing_os [] busy_server) params_net of
     (Ok (r1, t1), s1) \<Rightarrow> 0 \<le> r1 \<and>
       (case run_state (prot_listen refusing_os t1) s1 of ((l, t2), s2) \<Rightarrow> l < 0 \<and> i_errno t2 = IESETBUF \<and> errno s2 = 92)
   | _ \<Rightarrow> False"
  by code_simp

theorem errors_reported_witness:
  "case run_state (iperf_exchange_parameters refusing_os [] busy_server) params_net of (x, s') \<Rightarrow>
     (\<exists>t. x = Ok (-1, t) \<and> t_state t = SERVER_ERROR) \<and>
     (\<exists>n'. run_state (iperf_handle_message_client pipe_os demo_uninit)
        (node_of \<lparr>world = sent 5 (calls s'), errno = 0, gerror = 0, calls = []\<rparr> demo_client) = (Ok (-1), n') \<and>
      i_errno (n_test n') = IESETBUF \<and> errno (n_net n') = 92)"
proof -
  obtain x s' where run: "run_state (iperf_exchange_parameters refusing_os [] busy_server) params_net = (x, s')"
    by (metis surj_pair)
  obtain y s1 where y: "run_state (get_parameters refusing_os [] busy_server) params_net = (y, s1)" by (metis surj_pair)
  obtain r1 t1 where ok: "y = Ok (r1, t1)" using refused_run y by (cases y) auto
  have g: "run_state (get_parameters refusing_os [] busy_server) params_net = (Ok (r1, t1), s1)" "0 \<le> r1"
    and pl: "case run_state (prot_listen refusing_os t1) s1 of ((l, t2), s2) \<Rightarrow> l < 0 \<and> i_errno t2 = IESETBUF \<and> errno s2 = 92"
    using refused_run y ok by simp_all
  obtain l t2 s2 where p: "run_state (prot_listen refusing_os t1) s1 = ((l, t2), s2)" "l < 0" "i_errno t2 = IESETBUF" "errno s2 = 92"
    using pl by (auto split: prod.splits)
  have "takes_data refusing_os 5" by (simp add: takes_data_def refusing_os_def)
  moreover have "t_ctrl_sck busy_server = 5" "t_role busy_server \<noteq> CHR ''c''"
    by (simp_all add: busy_server_def iperf_new_test_def)
  moreover have "sent 5 (calls params_net) = []" by (simp add: params_net_def sent_def)
  moreover have "c_int IESETBUF = IESETBUF" "c_int 92 = 92" by (simp_all add: c_int_id IESETBUF_def)
  ultimately show ?thesis
    using errors_reported [OF _ _ g p(1,2) run, of pipe_os
        "node_of \<lparr>world = sent 5 (calls s'), errno = 0, gerror = 0, calls = []\<rparr> demo_client" "\<lambda>w. w" demo_uninit]
      demo_connection(2) p(3,4) run by (simp add: node_of_def)
qed

section \<open>Payload and cookie\<close>

lemma repeating_map:
  "c \<le> 9 \<Longrightarrow> repeating (int c) n = map (\<lambda>i. word_of_int (48 + int ((c + i) mod 10))) [0..<n]"
proof (induction n arbitrary: c)
  case (Suc n)
  have next_c: "(if int c \<ge> 9 then 0 else int c + 1) = int (if c = 9 then 0 else c + 1)" using Suc.prems by auto
  have "((if c = 9 then 0 else c + 1) + i) mod 10 = (c + Suc i) mod 10" for i
    using Suc.prems by (auto simp: mod_Suc_eq)
  then show ?case
    using Suc.prems Suc.IH [of "if c = 9 then 0 else c + 1"]
    by (simp only: repeating.simps next_c upt_rec [of 0 "Suc n"] map_Suc_upt [symmetric]) (simp add: comp_def)
qed simp

text \<open>
  The repeating payload, which the code builds with a counter that wraps, is the closed form: byte \<open>i\<close> is the digit \<open>i mod 10\<close>.
\<close>

theorem repeating_pattern_equals:
  "fill_with_repeating_pattern n = map (\<lambda>i. word_of_int (48 + int (i mod 10))) [0..<n]"
  using repeating_map [of 0 n] by (simp add: fill_with_repeating_pattern_def)

text \<open>
  C40. A cookie, whatever the random source delivers, is a C string of 36 characters from the 32 letters and digits of the code,
  followed by the terminating zero byte: it fills its array exactly. There is none only when the source fails.
\<close>

theorem make_cookie_well_formed:
  "case fst (run_state (make_cookie os) s) of
     None \<Rightarrow> s_ret (fst (os (Fread_random COOKIE_SIZE) (world s))) \<noteq> 37
   | Some c \<Rightarrow> length c = COOKIE_SIZE \<and> c ! 36 = 0 \<and> length (c_str c) = 36 \<and> set (c_str c) \<subseteq> set (bytes_of rndchars)"
proof -
  obtain a w where a: "os (Fread_random COOKIE_SIZE) (world s) = (a, w)" by fastforce
  define bs where "bs = take COOKIE_SIZE (s_bytes a @ replicate COOKIE_SIZE 0)"
  define f :: "u8 \<Rightarrow> u8" where "f b = word_of_int (chr_code (rndchars ! nat (uint b mod int (length rndchars))))" for b
  have chars: "\<forall>x \<in> set rndchars. word_of_int (chr_code x) \<noteq> (0 :: u8)" by code_simp
  have len: "length rndchars = 32" by (simp add: rndchars_def)
  have f: "f b \<in> set (bytes_of rndchars)" "f b \<noteq> 0" for b
    using chars by (simp_all add: f_def bytes_of_def len)
  have lb: "length bs = 37" by (simp add: bs_def COOKIE_SIZE_def)
  have "takeWhile (\<lambda>b. b \<noteq> 0) (map f (take 36 bs) @ [0]) = map f (take 36 bs)"
    using f(2) by (simp add: takeWhile_append)
  then have "length (c_str (map f (take 36 bs) @ [0])) = 36" "set (c_str (map f (take 36 bs) @ [0])) \<subseteq> set (bytes_of rndchars)"
    using lb f(1) by (auto simp: c_str_def)
  moreover have "fst (run_state (make_cookie os) s) = (if s_ret a = 37 then Some (map f (take 36 bs) @ [0]) else None)"
    using a by (simp add: make_cookie_def readentropy_def run_sys COOKIE_SIZE_def bs_def f_def)
  ultimately show ?thesis using a lb by (simp add: COOKIE_SIZE_def nth_append)
qed

end
