(* ===== verification/Options.thy ===== *)
theory Options
  imports Exchange Units Dscp
begin

text \<open>
  The command line: \<open>getopt_long\<close> of the C library on the tables of the program, and \<open>iperf_parse_arguments\<close> of
  \<open>iperf_api.c\<close>, whose \<open>switch\<close> is a table from option numbers to what their cases do. Memory is
  available; warnings are output and left out.
\<close>

section \<open>Constants\<close>

definition OPT_SCTP :: int where "OPT_SCTP = 1"
definition OPT_LOGFILE :: int where "OPT_LOGFILE = 2"
definition OPT_GET_SERVER_OUTPUT :: int where "OPT_GET_SERVER_OUTPUT = 3"
definition OPT_UDP_COUNTERS_64BIT :: int where "OPT_UDP_COUNTERS_64BIT = 4"
definition OPT_CLIENT_PORT :: int where "OPT_CLIENT_PORT = 5"
definition OPT_NUMSTREAMS :: int where "OPT_NUMSTREAMS = 6"
definition OPT_FORCEFLUSH :: int where "OPT_FORCEFLUSH = 7"
definition OPT_NO_FQ_SOCKET_PACING :: int where "OPT_NO_FQ_SOCKET_PACING = 9"
definition OPT_FQ_RATE :: int where "OPT_FQ_RATE = 10"
definition OPT_DSCP :: int where "OPT_DSCP = 11"
definition OPT_PACING_TIMER :: int where "OPT_PACING_TIMER = 16"
definition OPT_CONNECT_TIMEOUT :: int where "OPT_CONNECT_TIMEOUT = 17"
definition OPT_REPEATING_PAYLOAD :: int where "OPT_REPEATING_PAYLOAD = 18"
definition OPT_EXTRA_DATA :: int where "OPT_EXTRA_DATA = 19"
definition OPT_BIDIRECTIONAL :: int where "OPT_BIDIRECTIONAL = 20"

definition UDP_RATE :: int where "UDP_RATE = 1024 * 1024"
definition MB :: int where "MB = 1024 * 1024"
definition MAX_TCP_BUFFER :: int where "MAX_TCP_BUFFER = 512 * MB"
definition MAX_BLOCKSIZE :: int where "MAX_BLOCKSIZE = MB"
definition MIN_INTERVAL :: double where "MIN_INTERVAL = Fin (rnd (1 / 10))"
definition MAX_INTERVAL :: double where "MAX_INTERVAL = Fin 60"
definition MAX_TIME :: int where "MAX_TIME = 86400"
definition MAX_BURST :: int where "MAX_BURST = 1000"
definition MAX_MSS :: int where "MAX_MSS = 9 * 1024"
definition MAX_STREAMS :: int where "MAX_STREAMS = 128"
definition DEFAULT_SCTP_BLKSIZE :: int where "DEFAULT_SCTP_BLKSIZE = 64 * 1024"

definition IESERVCLIENT :: int where "IESERVCLIENT = 1"
definition IENOROLE :: int where "IENOROLE = 2"
definition IESERVERONLY :: int where "IESERVERONLY = 3"
definition IECLIENTONLY :: int where "IECLIENTONLY = 4"
definition IEDURATION :: int where "IEDURATION = 5"
definition IENUMSTREAMS :: int where "IENUMSTREAMS = 6"
definition IEBLOCKSIZE :: int where "IEBLOCKSIZE = 7"
definition IEBUFSIZE :: int where "IEBUFSIZE = 8"
definition IEINTERVAL :: int where "IEINTERVAL = 9"
definition IEMSS :: int where "IEMSS = 10"
definition IENOSENDFILE :: int where "IENOSENDFILE = 11"
definition IEOMIT :: int where "IEOMIT = 12"
definition IEUNIMP :: int where "IEUNIMP = 13"
definition IEBURST :: int where "IEBURST = 15"
definition IEENDCONDITIONS :: int where "IEENDCONDITIONS = 16"
definition IEUDPBLOCKSIZE :: int where "IEUDPBLOCKSIZE = 20"
definition IEBADTOS :: int where "IEBADTOS = 21"
definition IEBADFORMAT :: int where "IEBADFORMAT = 24"
definition IEREVERSEBIDIR :: int where "IEREVERSEBIDIR = 25"
definition IEBADPORT :: int where "IEBADPORT = 26"

section \<open>The options of a command line\<close>

text \<open>The name, whether an argument follows, and the number of an option.\<close>

definition longopts :: "(string \<times> bool \<times> int) list" where
  "longopts =
     [(''port'', True, chr_code (CHR ''p'')), (''format'', True, chr_code (CHR ''f'')),
      (''interval'', True, chr_code (CHR ''i'')), (''daemon'', False, chr_code (CHR ''D'')),
      (''one-off'', False, chr_code (CHR ''1'')), (''verbose'', False, chr_code (CHR ''V'')),
      (''json'', False, chr_code (CHR ''J'')), (''version'', False, chr_code (CHR ''v'')),
      (''server'', False, chr_code (CHR ''s'')), (''client'', True, chr_code (CHR ''c'')),
      (''udp'', False, chr_code (CHR ''u'')), (''bitrate'', True, chr_code (CHR ''b'')),
      (''bandwidth'', True, chr_code (CHR ''b'')), (''time'', True, chr_code (CHR ''t'')),
      (''bytes'', True, chr_code (CHR ''n'')), (''blockcount'', True, chr_code (CHR ''k'')),
      (''length'', True, chr_code (CHR ''l'')), (''parallel'', True, chr_code (CHR ''P'')),
      (''reverse'', False, chr_code (CHR ''R'')), (''bidir'', False, OPT_BIDIRECTIONAL),
      (''window'', True, chr_code (CHR ''w'')), (''bind'', True, chr_code (CHR ''B'')),
      (''cport'', True, OPT_CLIENT_PORT), (''set-mss'', True, chr_code (CHR ''M'')),
      (''no-delay'', False, chr_code (CHR ''N'')), (''version4'', False, chr_code (CHR ''4'')),
      (''version6'', False, chr_code (CHR ''6'')), (''tos'', True, chr_code (CHR ''S'')),
      (''dscp'', True, OPT_DSCP), (''extra-data'', True, OPT_EXTRA_DATA),
      (''zerocopy'', False, chr_code (CHR ''Z'')), (''omit'', True, chr_code (CHR ''O'')),
      (''file'', True, chr_code (CHR ''F'')), (''repeating-payload'', False, OPT_REPEATING_PAYLOAD),
      (''title'', True, chr_code (CHR ''T'')), (''pidfile'', True, chr_code (CHR ''I'')),
      (''logfile'', True, OPT_LOGFILE), (''forceflush'', False, OPT_FORCEFLUSH),
      (''get-server-output'', False, OPT_GET_SERVER_OUTPUT), (''udp-counters-64bit'', False, OPT_UDP_COUNTERS_64BIT),
      (''no-fq-socket-pacing'', False, OPT_NO_FQ_SOCKET_PACING), (''fq-rate'', True, OPT_FQ_RATE),
      (''pacing-timer'', True, OPT_PACING_TIMER), (''connect-timeout'', True, OPT_CONNECT_TIMEOUT),
      (''debug'', False, chr_code (CHR ''d'')), (''help'', False, chr_code (CHR ''h''))]"

definition shortopts :: string where
  "shortopts = ''p:f:i:D1VJvsc:ub:t:n:k:l:P:Rw:B:M:N46S:L:ZO:F:A:T:C:dI:hX:''"

fun takes_arg :: "char \<Rightarrow> string \<Rightarrow> bool option" where
  "takes_arg c [] = None"
| "takes_arg c (x # r) =
     (if x = c then Some (case r of y # _ \<Rightarrow> y = CHR '':'' | [] \<Rightarrow> False) else takes_arg c r)"

text \<open>
  What \<open>getopt_long\<close> answers, call by call: the number of the option and \<open>optarg\<close>. An unknown or ambiguous option, or a missing
  argument, is a question mark. Arguments that are no options are skipped; \<open>--\<close> ends the options.
\<close>

type_synonym opt = "int \<times> string option"

abbreviation bad_option :: opt where
  "bad_option \<equiv> (chr_code (CHR ''?''), None)"

definition next_arg :: "int \<Rightarrow> string list \<Rightarrow> opt list \<times> string list" where
  "next_arg flag rest = (case rest of [] \<Rightarrow> ([bad_option], []) | a # as \<Rightarrow> ([(flag, Some a)], as))"

fun short_options :: "string \<Rightarrow> string list \<Rightarrow> opt list \<times> string list" where
  "short_options [] rest = ([], rest)"
| "short_options (c # cs) rest =
     (case (if c = CHR '':'' then None else takes_arg c shortopts) of
        None \<Rightarrow> (let (os, r) = short_options cs rest in (bad_option # os, r))
      | Some False \<Rightarrow> (let (os, r) = short_options cs rest in ((chr_code c, None) # os, r))
      | Some True \<Rightarrow> if cs \<noteq> [] then ([(chr_code c, Some cs)], rest) else next_arg (chr_code c) rest)"

definition long_match :: "string \<Rightarrow> (bool \<times> int) option" where
  "long_match name =
     (case map_of longopts name of
        Some x \<Rightarrow> Some x
      | None \<Rightarrow>
          (case remdups (map snd (filter (\<lambda>(n, _). take (length name) n = name) longopts)) of
             [x] \<Rightarrow> Some x
           | _ \<Rightarrow> None))"

definition long_option :: "string \<Rightarrow> string list \<Rightarrow> opt list \<times> string list" where
  "long_option s rest =
     (let name = takeWhile (\<lambda>c. c \<noteq> CHR ''='') s;
          val = (case dropWhile (\<lambda>c. c \<noteq> CHR ''='') s of [] \<Rightarrow> None | _ # v \<Rightarrow> Some v)
      in case long_match name of
           None \<Rightarrow> ([bad_option], rest)
         | Some (has_arg, flag) \<Rightarrow>
             if has_arg then (case val of Some v \<Rightarrow> ([(flag, Some v)], rest) | None \<Rightarrow> next_arg flag rest)
             else if val = None then ([(flag, None)], rest) else ([bad_option], rest))"

lemma next_arg_shorter [simp]: "length (snd (next_arg f rest)) \<le> length rest"
  by (simp add: next_arg_def split: list.split)

lemma short_options_shorter [simp]: "length (snd (short_options cs rest)) \<le> length rest"
  by (induction cs) (auto split: option.split bool.split prod.split)

lemma long_option_shorter [simp]: "length (snd (long_option s rest)) \<le> length rest"
  by (auto simp: long_option_def Let_def split: option.splits)

function getopt_long :: "string list \<Rightarrow> opt list" where
  "getopt_long [] = []"
| "getopt_long (a # rest) =
     (if a = ''--'' then []
      else if take 2 a = ''--'' then fst (long_option (drop 2 a) rest) @ getopt_long (snd (long_option (drop 2 a) rest))
      else if take 1 a = ''-'' \<and> length a > 1 then fst (short_options (tl a) rest) @ getopt_long (snd (short_options (tl a) rest))
      else getopt_long rest)"
  by pat_completeness auto
termination
  by (relation "measure length") (auto simp: le_imp_less_Suc)

section \<open>Numbers\<close>

text \<open>\<open>atoi\<close> with a \<open>long\<close> of \<open>w\<close> bits, \<open>atof\<close>, and the conversion of a double to \<open>int\<close>.\<close>

definition atoi :: "nat \<Rightarrow> string \<Rightarrow> int" where
  "atoi w s =
     (let (neg, r) = scan_sign (skip_ws s);
          n = int (base_val 10 (takeWhile isdigit r))
      in c_int (max (- (2 ^ (w - 1))) (min (2 ^ (w - 1) - 1) (if neg then - n else n))))"

definition atof :: "string \<Rightarrow> double" where
  "atof s = (case strtod s of None \<Rightarrow> Fin 0 | Some (d, _) \<Rightarrow> d)"

definition d_to_int :: "double \<Rightarrow> int option" where
  "d_to_int d = (case dtrunc d of None \<Rightarrow> None
     | Some k \<Rightarrow> if - (2 ^ 31) \<le> k \<and> k < 2 ^ 31 then Some k else None)"

section \<open>The parser\<close>

text \<open>
  The test with those of its fields that only \<open>main.c\<close> and the output use, and the local variables of the parser.
\<close>

record cli =
  a_test :: iperf_test
  a_verbose :: bool
  a_debug :: bool
  a_daemon :: bool
  a_one_off :: bool
  a_forceflush :: bool
  a_pidfile :: "string option"
  a_logfile :: "string option"
  a_xbind_addrs :: "string list"
  a_blksize :: int
  a_server_flag :: bool
  a_client_flag :: bool
  a_rate_flag :: bool
  a_duration_flag :: bool

text \<open>
  The outcome of a case or of the parser: it goes on (at the end, returns 0), returns -1, ends the process, or is undefined.
\<close>

datatype 'a verdict = Go 'a | Refused 'a | Exits int | Undefined

definition on_cli :: "(iperf_test \<Rightarrow> iperf_test) \<Rightarrow> cli \<Rightarrow> cli" where
  "on_cli f c = c\<lparr>a_test := f (a_test c)\<rparr>"

definition on_cfg :: "(iperf_settings \<Rightarrow> iperf_settings) \<Rightarrow> cli \<Rightarrow> cli" where
  "on_cfg f = on_cli (\<lambda>t. t\<lparr>t_settings := f (t_settings t)\<rparr>)"

definition refuse :: "int \<Rightarrow> cli \<Rightarrow> cli verdict" where
  "refuse e c = Refused (on_cli (\<lambda>t. t\<lparr>i_errno := e\<rparr>) c)"

definition client_only :: "cli \<Rightarrow> cli verdict" where
  "client_only c = Go (c\<lparr>a_client_flag := True\<rparr>)"

definition server_only :: "cli \<Rightarrow> cli verdict" where
  "server_only c = Go (c\<lparr>a_server_flag := True\<rparr>)"

type_synonym opt_case = "string option \<Rightarrow> cli \<Rightarrow> cli verdict"

text \<open>A case that reads \<open>optarg\<close>, and one that does not.\<close>

definition with_arg :: "(string \<Rightarrow> cli \<Rightarrow> cli verdict) \<Rightarrow> opt_case" where
  "with_arg h arg c = (case arg of None \<Rightarrow> Undefined | Some s \<Rightarrow> h s c)"

definition no_arg :: "(cli \<Rightarrow> cli verdict) \<Rightarrow> opt_case" where
  "no_arg h arg c = h c"

text \<open>\<open>x = unit_atoi (optarg)\<close>, where the conversion may be undefined.\<close>

definition with_size :: "double \<Rightarrow> (u64 \<Rightarrow> cli \<Rightarrow> cli verdict) \<Rightarrow> opt_case" where
  "with_size n0 h = with_arg (\<lambda>s c. case unit_atoi n0 s of None \<Rightarrow> Undefined | Some v \<Rightarrow> h v c)"

definition unit_formats :: string where
  "unit_formats = ''kKmMgGtT''"

definition set_format :: "string option \<Rightarrow> cli \<Rightarrow> cli verdict" where
  "set_format arg c = (case arg of
       None \<Rightarrow> refuse IEBADFORMAT c
     | Some s \<Rightarrow>
         (let f = (case s of [] \<Rightarrow> CHR 0x00 | x # _ \<Rightarrow> x);
              c1 = on_cfg (\<lambda>k. k\<lparr>cfg_unit_format := f\<rparr>) c
          in if f \<in> set unit_formats then Go c1 else refuse IEBADFORMAT c1))"

definition set_interval :: "string \<Rightarrow> cli \<Rightarrow> cli verdict" where
  "set_interval s c =
     (let d = atof s; c1 = on_cli (\<lambda>t. t\<lparr>t_stats_interval := d, t_reporter_interval := d\<rparr>) c
      in if (dlt d MIN_INTERVAL \<or> dlt MAX_INTERVAL d) \<and> \<not> deq d (Fin 0) then refuse IEINTERVAL c1 else Go c1)"

definition port_of :: "nat \<Rightarrow> (int \<Rightarrow> iperf_test \<Rightarrow> iperf_test) \<Rightarrow> string \<Rightarrow> cli \<Rightarrow> cli verdict" where
  "port_of w store s c =
     (let portno = atoi w s in if portno < 1 \<or> portno > 65535 then refuse IEBADPORT c else Go (on_cli (store portno) c))"

definition options_general :: "nat \<Rightarrow> (int \<times> opt_case) list" where
  "options_general w =
     [(chr_code (CHR ''p''), with_arg (port_of w (\<lambda>p t. t\<lparr>t_server_port := p\<rparr>))),
      (chr_code (CHR ''f''), set_format),
      (chr_code (CHR ''i''), with_arg set_interval),
      (chr_code (CHR ''D''), no_arg (\<lambda>c. server_only (c\<lparr>a_daemon := True\<rparr>))),
      (chr_code (CHR ''1''), no_arg (\<lambda>c. server_only (c\<lparr>a_one_off := True\<rparr>))),
      (chr_code (CHR ''V''), no_arg (\<lambda>c. Go (c\<lparr>a_verbose := True\<rparr>))),
      (chr_code (CHR ''J''), no_arg (\<lambda>c. Go (on_cli (\<lambda>t. t\<lparr>t_json_output := True\<rparr>) c))),
      (chr_code (CHR ''v''), no_arg (\<lambda>c. Exits 0)),
      (chr_code (CHR ''s''), no_arg (\<lambda>c.
         if t_role (a_test c) = CHR ''c'' then refuse IESERVCLIENT c
         else Go (on_cli (\<lambda>t. iperf_set_test_role t (CHR ''s'')) c))),
      (chr_code (CHR ''c''), with_arg (\<lambda>s c.
         if t_role (a_test c) = CHR ''s'' then refuse IESERVCLIENT c
         else Go (on_cli (\<lambda>t. (iperf_set_test_role t (CHR ''c''))\<lparr>t_server_hostname := s\<rparr>) c))),
      (chr_code (CHR ''u''), no_arg (\<lambda>c. client_only (on_cli (\<lambda>t. snd (set_protocol t Pudp)) c)))]"

text \<open>The bit rate with an optional burst behind a slash. The case of \<open>OPT_NUMSTREAMS\<close> has no \<open>break\<close> and goes on here.\<close>

definition set_rate :: "nat \<Rightarrow> double \<Rightarrow> string \<Rightarrow> cli \<Rightarrow> cli verdict" where
  "set_rate w n0 s c =
     (let rate = takeWhile (\<lambda>x. x \<noteq> CHR ''/'') s;
          burst = map_option (atoi w) (case dropWhile (\<lambda>x. x \<noteq> CHR ''/'') s of [] \<Rightarrow> None | _ # b \<Rightarrow> Some b);
          c1 = (case burst of None \<Rightarrow> c | Some b \<Rightarrow> on_cfg (\<lambda>k. k\<lparr>cfg_burst := b\<rparr>) c)
      in if (case burst of None \<Rightarrow> False | Some b \<Rightarrow> b \<le> 0 \<or> b > MAX_BURST) then refuse IEBURST c1
         else case d_to_u64 (unit_atof_rate n0 rate) of
           None \<Rightarrow> Undefined
         | Some r \<Rightarrow> client_only (on_cfg (\<lambda>k. k\<lparr>cfg_rate := r\<rparr>) (c1\<lparr>a_rate_flag := True\<rparr>)))"

definition set_duration :: "nat \<Rightarrow> string \<Rightarrow> cli \<Rightarrow> cli verdict" where
  "set_duration w s c =
     (let c1 = on_cli (\<lambda>t. t\<lparr>t_duration := atoi w s\<rparr>) c
      in if atoi w s > MAX_TIME then refuse IEDURATION c1 else client_only (c1\<lparr>a_duration_flag := True\<rparr>))"

definition set_streams :: "nat \<Rightarrow> string \<Rightarrow> cli \<Rightarrow> cli verdict" where
  "set_streams w s c =
     (let c1 = on_cli (\<lambda>t. t\<lparr>t_num_streams := atoi w s\<rparr>) c
      in if atoi w s > MAX_STREAMS then refuse IENUMSTREAMS c1 else client_only c1)"

definition set_window :: "double \<Rightarrow> string \<Rightarrow> cli \<Rightarrow> cli verdict" where
  "set_window n0 s c =
     (let farg = unit_atof n0 s
      in if dlt (d_of_int MAX_TCP_BUFFER) farg then refuse IEBUFSIZE c
         else case d_to_int farg of
           None \<Rightarrow> Undefined
         | Some v \<Rightarrow> client_only (on_cfg (\<lambda>k. k\<lparr>cfg_socket_bufsize := v\<rparr>) c))"

definition options_load :: "nat \<Rightarrow> double \<Rightarrow> (int \<times> opt_case) list" where
  "options_load w n0 =
     [(OPT_SCTP, no_arg (refuse IEUNIMP)),
      (OPT_NUMSTREAMS, with_arg (\<lambda>s c. case unit_atoi n0 s of
         None \<Rightarrow> Undefined
       | Some v \<Rightarrow> set_rate w n0 s (on_cfg (\<lambda>k. k\<lparr>cfg_num_ostreams := c_int (uint v)\<rparr>) (c\<lparr>a_client_flag := True\<rparr>)))),
      (chr_code (CHR ''b''), with_arg (set_rate w n0)),
      (chr_code (CHR ''t''), with_arg (set_duration w)),
      (chr_code (CHR ''n''), with_size n0 (\<lambda>v c. client_only (on_cfg (\<lambda>k. k\<lparr>cfg_bytes := v\<rparr>) c))),
      (chr_code (CHR ''k''), with_size n0 (\<lambda>v c. client_only (on_cfg (\<lambda>k. k\<lparr>cfg_blocks := v\<rparr>) c))),
      (chr_code (CHR ''l''), with_size n0 (\<lambda>v c. client_only (c\<lparr>a_blksize := c_int (uint v)\<rparr>))),
      (chr_code (CHR ''P''), with_arg (set_streams w)),
      (chr_code (CHR ''R''), no_arg (\<lambda>c.
         if t_bidirectional (a_test c) then refuse IEREVERSEBIDIR c
         else client_only (on_cli (\<lambda>t. iperf_set_test_reverse t True) c))),
      (OPT_BIDIRECTIONAL, no_arg (\<lambda>c.
         if t_reverse (a_test c) then refuse IEREVERSEBIDIR c
         else client_only (on_cli (\<lambda>t. iperf_set_test_bidirectional t True) c))),
      (chr_code (CHR ''w''), with_arg (set_window n0))]"

definition set_mss_option :: "nat \<Rightarrow> string \<Rightarrow> cli \<Rightarrow> cli verdict" where
  "set_mss_option w s c =
     (let c1 = on_cfg (\<lambda>k. k\<lparr>cfg_mss := atoi w s\<rparr>) c
      in if atoi w s > MAX_MSS then refuse IEMSS c1 else client_only c1)"

definition set_tos :: "nat \<Rightarrow> string \<Rightarrow> cli \<Rightarrow> cli verdict" where
  "set_tos w s c =
     (let (v, endptr) = strtol0 w s; tos = c_int v; c1 = on_cfg (\<lambda>k. k\<lparr>cfg_tos := tos\<rparr>) c
      in if endptr = s \<or> tos < 0 \<or> tos > 255 then refuse IEBADTOS c1 else client_only c1)"

definition set_dscp :: "nat \<Rightarrow> string \<Rightarrow> cli \<Rightarrow> cli verdict" where
  "set_dscp w s c =
     (let tos = parse_qos w (Some s); c1 = on_cfg (\<lambda>k. k\<lparr>cfg_tos := tos\<rparr>) c
      in if tos < 0 then refuse IEBADTOS c1 else client_only c1)"

definition set_omit :: "nat \<Rightarrow> string \<Rightarrow> cli \<Rightarrow> cli verdict" where
  "set_omit w s c =
     (let c1 = on_cli (\<lambda>t. t\<lparr>t_omit := atoi w s\<rparr>) c
      in if atoi w s < 0 \<or> atoi w s > 60 then refuse IEOMIT c1 else client_only c1)"

definition options_socket :: "nat \<Rightarrow> (int \<times> opt_case) list" where
  "options_socket w =
     [(chr_code (CHR ''B''), with_arg (\<lambda>s c. Go (on_cli (\<lambda>t. t\<lparr>t_bind_address := Some s\<rparr>) c))),
      (OPT_CLIENT_PORT, with_arg (port_of w (\<lambda>p t. t\<lparr>t_bind_port := p\<rparr>))),
      (chr_code (CHR ''M''), with_arg (set_mss_option w)),
      (chr_code (CHR ''N''), no_arg (\<lambda>c. client_only (on_cli (\<lambda>t. t\<lparr>t_no_delay := True\<rparr>) c))),
      (chr_code (CHR ''4''), no_arg (\<lambda>c. Go (on_cfg (\<lambda>k. k\<lparr>cfg_domain := AF_INET\<rparr>) c))),
      (chr_code (CHR ''6''), no_arg (\<lambda>c. Go (on_cfg (\<lambda>k. k\<lparr>cfg_domain := AF_INET6\<rparr>) c))),
      (chr_code (CHR ''S''), with_arg (set_tos w)),
      (OPT_DSCP, with_arg (set_dscp w)),
      (OPT_EXTRA_DATA, with_arg (\<lambda>s c. client_only (on_cli (\<lambda>t. t\<lparr>t_extra_data := Some s\<rparr>) c))),
      (chr_code (CHR ''L''), no_arg (refuse IEUNIMP)),
      (chr_code (CHR ''X''), with_arg (\<lambda>s c. Go (c\<lparr>a_xbind_addrs := a_xbind_addrs c @ [s]\<rparr>))),
      (chr_code (CHR ''Z''), no_arg (\<lambda>c.
         if has_sendfile = 0 then refuse IENOSENDFILE c else client_only (on_cli (\<lambda>t. t\<lparr>t_zerocopy := True\<rparr>) c))),
      (OPT_REPEATING_PAYLOAD, no_arg (\<lambda>c. client_only (on_cli (\<lambda>t. t\<lparr>t_repeating_payload := 1\<rparr>) c))),
      (chr_code (CHR ''O''), with_arg (set_omit w))]"

definition options_rest :: "double \<Rightarrow> (int \<times> opt_case) list" where
  "options_rest n0 =
     [(chr_code (CHR ''F''), \<lambda>arg c. Go (on_cli (\<lambda>t. t\<lparr>t_diskfile_name := arg\<rparr>) c)),
      (chr_code (CHR ''A''), no_arg (refuse IEUNIMP)),
      (chr_code (CHR ''T''), with_arg (\<lambda>s c. client_only (on_cli (\<lambda>t. t\<lparr>t_title := Some s\<rparr>) c))),
      (chr_code (CHR ''C''), no_arg (refuse IEUNIMP)),
      (chr_code (CHR ''d''), no_arg (\<lambda>c. Go (c\<lparr>a_debug := True\<rparr>))),
      (chr_code (CHR ''I''), with_arg (\<lambda>s c. server_only (c\<lparr>a_pidfile := Some s\<rparr>))),
      (OPT_LOGFILE, with_arg (\<lambda>s c. Go (c\<lparr>a_logfile := Some s\<rparr>))),
      (OPT_FORCEFLUSH, no_arg (\<lambda>c. Go (c\<lparr>a_forceflush := True\<rparr>))),
      (OPT_GET_SERVER_OUTPUT, no_arg (\<lambda>c. client_only (on_cli (\<lambda>t. t\<lparr>t_get_server_output := 1\<rparr>) c))),
      (OPT_UDP_COUNTERS_64BIT, no_arg (\<lambda>c. Go (on_cli (\<lambda>t. t\<lparr>t_udp_counters_64bit := 1\<rparr>) c))),
      (OPT_NO_FQ_SOCKET_PACING, no_arg (refuse IEUNIMP)),
      (OPT_FQ_RATE, no_arg (refuse IEUNIMP)),
      (OPT_PACING_TIMER, with_size n0 (\<lambda>v c. client_only (on_cfg (\<lambda>k. k\<lparr>cfg_pacing_timer := c_int (uint v)\<rparr>) c))),
      (OPT_CONNECT_TIMEOUT, with_size n0 (\<lambda>v c. client_only (on_cfg (\<lambda>k. k\<lparr>cfg_connect_timeout := c_int (uint v)\<rparr>) c))),
      (chr_code (CHR ''h''), no_arg (\<lambda>c. Exits 0))]"

text \<open>The \<open>switch\<close>, whose default ends the process with 1, and the loop.\<close>

definition option_case :: "nat \<Rightarrow> double \<Rightarrow> opt \<Rightarrow> cli \<Rightarrow> cli verdict" where
  "option_case w n0 opt c =
     (case map_of (options_general w @ options_load w n0 @ options_socket w @ options_rest n0) (fst opt) of
        None \<Rightarrow> Exits 1
      | Some h \<Rightarrow> h (snd opt) c)"

fun option_loop :: "nat \<Rightarrow> double \<Rightarrow> opt list \<Rightarrow> cli \<Rightarrow> cli verdict" where
  "option_loop w n0 [] c = Go c"
| "option_loop w n0 (opt # opts) c =
     (case option_case w n0 opt c of Go c1 \<Rightarrow> option_loop w n0 opts c1 | v \<Rightarrow> v)"

definition default_size :: "cli \<Rightarrow> cli" where
  "default_size c =
     (if a_blksize c = 0
      then c\<lparr>a_blksize := (if t_protocol (a_test c) = Pudp then 0
             else if t_protocol (a_test c) = Psctp then DEFAULT_SCTP_BLKSIZE else DEFAULT_TCP_BLKSIZE)\<rparr>
      else c)"

definition default_limits :: "cli \<Rightarrow> cli" where
  "default_limits c =
     (let c1 = on_cfg (\<lambda>k. k\<lparr>cfg_blksize := a_blksize c\<rparr>) c;
          c2 = (if a_rate_flag c1 then c1
                else on_cfg (\<lambda>k. k\<lparr>cfg_rate := (if t_protocol (a_test c1) = Pudp then word_of_int UDP_RATE else 0)\<rparr>) c1);
          cfg = t_settings (a_test c2)
      in if (cfg_bytes cfg \<noteq> 0 \<or> cfg_blocks cfg \<noteq> 0) \<and> \<not> a_duration_flag c2
         then on_cli (\<lambda>t. t\<lparr>t_duration := 0\<rparr>) c2 else c2)"

definition check_options :: "cli \<Rightarrow> cli verdict" where
  "check_options c0 =
     (if t_role (a_test c0) = CHR ''c'' \<and> a_server_flag c0 then refuse IESERVERONLY c0
      else if t_role (a_test c0) = CHR ''s'' \<and> a_client_flag c0 then refuse IECLIENTONLY c0
      else
        let c1 = default_size c0; blksize = a_blksize c1; prot = t_protocol (a_test c1) in
        if prot \<noteq> Pudp \<and> blksize \<le> 0 \<or> blksize > MAX_BLOCKSIZE then refuse IEBLOCKSIZE c1
        else if prot = Pudp \<and> blksize > 0 \<and> (blksize < MIN_UDP_BLOCKSIZE \<or> blksize > MAX_UDP_BLOCKSIZE)
        then refuse IEUDPBLOCKSIZE c1
        else
          let c2 = default_limits c1; cfg = t_settings (a_test c2) in
          if a_duration_flag c2 \<and> cfg_bytes cfg \<noteq> 0 \<or> a_duration_flag c2 \<and> cfg_blocks cfg \<noteq> 0 \<or>
             cfg_bytes cfg \<noteq> 0 \<and> cfg_blocks cfg \<noteq> 0
          then refuse IEENDCONDITIONS c2
          else if t_role (a_test c2) \<noteq> CHR ''c'' \<and> t_role (a_test c2) \<noteq> CHR ''s'' then refuse IENOROLE c2
          else Go c2)"

text \<open>
  \<open>argv\<close> without the name of the program; \<open>n0\<close> is the uninitialised number of \<open>units.c\<close>.
\<close>

definition iperf_parse_arguments :: "nat \<Rightarrow> double \<Rightarrow> string list \<Rightarrow> cli \<Rightarrow> cli verdict" where
  "iperf_parse_arguments w n0 argv c =
     (case option_loop w n0 (getopt_long argv)
        (c\<lparr>a_blksize := 0, a_server_flag := False, a_client_flag := False, a_rate_flag := False, a_duration_flag := False\<rparr>) of
        Go c1 \<Rightarrow> check_options c1
      | v \<Rightarrow> v)"

end
