(* ===== verification/Options_Laws.thy ===== *)
theory Options_Laws
  imports Options Exchange_Laws
begin

text \<open>
  What an accepted command line means: a locale for an invariant that every case of the \<open>switch\<close> keeps, its
  interpretations on the direction, on the ranges and on the options of a server, and the configuration that the parser returns.
\<close>

section \<open>Invariants of the loop\<close>

definition case_keeps :: "(cli \<Rightarrow> bool) \<Rightarrow> opt_case \<Rightarrow> bool" where
  "case_keeps P h \<longleftrightarrow> (\<forall>arg c c'. P c \<longrightarrow> h arg c = Go c' \<longrightarrow> P c')"

locale option_invariant =
  fixes P :: "cli \<Rightarrow> bool" and w :: nat and n0 :: double
  assumes general: "list_all (\<lambda>(flag, h). case_keeps P h) (options_general w)"
    and load: "list_all (\<lambda>(flag, h). case_keeps P h) (options_load w n0)"
    and socket: "list_all (\<lambda>(flag, h). case_keeps P h) (options_socket w)"
    and others: "list_all (\<lambda>(flag, h). case_keeps P h) (options_rest n0)"
begin

lemma case_invariant:
  assumes "P c" "option_case w n0 opt c = Go c'"
  shows "P c'"
proof -
  let ?table = "options_general w @ options_load w n0 @ options_socket w @ options_rest n0"
  have all: "list_all (\<lambda>(flag, h). case_keeps P h) ?table" using general load socket others by simp
  obtain h where h: "map_of ?table (fst opt) = Some h" "h (snd opt) c = Go c'"
    using assms(2) unfolding option_case_def by (auto split: option.splits)
  then have "(fst opt, h) \<in> set ?table" by (blast dest: map_of_SomeD)
  then show ?thesis using all h(2) assms(1) unfolding list_all_iff case_keeps_def by blast
qed

lemma loop_invariant: "P c \<Longrightarrow> option_loop w n0 opts c = Go c' \<Longrightarrow> P c'"
  by (induction opts arbitrary: c) (auto split: verdict.splits intro: case_invariant)

end

lemmas case_rules = case_keeps_def with_arg_def no_arg_def with_size_def server_only_def client_only_def refuse_def on_cfg_def on_cli_def

text \<open>The direction that role, \<open>--reverse\<close> and \<open>--bidir\<close> ask for.\<close>

definition mode_of :: "iperf_test \<Rightarrow> int" where
  "mode_of t =
     (if t_bidirectional t then BIDIRECTIONAL
      else if t_role t = CHR ''c'' then (if t_reverse t then RECEIVER else SENDER)
      else if t_role t = CHR ''s'' then (if t_reverse t then SENDER else RECEIVER)
      else RECEIVER)"

definition directed :: "iperf_test \<Rightarrow> bool" where
  "directed t \<longleftrightarrow>
     t_role t \<in> {CHR 0x00, CHR ''c'', CHR ''s''} \<and> t_mode t = mode_of t \<and> \<not> (t_reverse t \<and> t_bidirectional t) \<and>
     t_protocol t \<in> {Ptcp, Pudp} \<and> t_protocols t = [Ptcp, Pudp] \<and>
     (t_role t = CHR ''c'' \<longrightarrow>
        t_sender_has_retransmits t = (if t_mode t \<noteq> RECEIVER \<and> t_protocol t = Ptcp then 1 else 0))"

lemma directed_frame [simp]:
  "directed (t\<lparr>t_server_port := i\<rparr>) = directed t" "directed (t\<lparr>t_stats_interval := d, t_reporter_interval := d\<rparr>) = directed t"
  "directed (t\<lparr>t_json_output := b\<rparr>) = directed t" "directed (t\<lparr>t_server_hostname := s\<rparr>) = directed t"
  "directed (t\<lparr>t_settings := k\<rparr>) = directed t" "directed (t\<lparr>t_duration := i\<rparr>) = directed t"
  "directed (t\<lparr>t_num_streams := i\<rparr>) = directed t" "directed (t\<lparr>t_bind_address := so\<rparr>) = directed t"
  "directed (t\<lparr>t_bind_port := i\<rparr>) = directed t" "directed (t\<lparr>t_no_delay := b\<rparr>) = directed t"
  "directed (t\<lparr>t_extra_data := so\<rparr>) = directed t" "directed (t\<lparr>t_zerocopy := b\<rparr>) = directed t"
  "directed (t\<lparr>t_repeating_payload := i\<rparr>) = directed t" "directed (t\<lparr>t_omit := i\<rparr>) = directed t"
  "directed (t\<lparr>t_diskfile_name := so\<rparr>) = directed t" "directed (t\<lparr>t_title := so\<rparr>) = directed t"
  "directed (t\<lparr>t_get_server_output := i\<rparr>) = directed t" "directed (t\<lparr>t_udp_counters_64bit := i\<rparr>) = directed t"
  by (simp_all add: directed_def mode_of_def)

lemmas direction_rules = directed_def mode_of_def Let_def check_sender_has_retransmits_def has_tcpinfo_retransmits_def iperf_modes

lemma directed_role: "directed t \<Longrightarrow> r \<in> {CHR ''c'', CHR ''s''} \<Longrightarrow> directed (iperf_set_test_role t r)"
  by (auto simp: direction_rules iperf_set_test_role_def)

lemma directed_reverse: "directed t \<Longrightarrow> \<not> t_bidirectional t \<Longrightarrow> directed (iperf_set_test_reverse t b)"
  by (auto simp: direction_rules iperf_set_test_reverse_def)

lemma directed_bidirectional: "directed t \<Longrightarrow> \<not> t_reverse t \<Longrightarrow> directed (iperf_set_test_bidirectional t True)"
  by (auto simp: direction_rules iperf_set_test_bidirectional_def)

lemma directed_protocol: "directed t \<Longrightarrow> directed (snd (set_protocol t Pudp))"
  by (auto simp: direction_rules set_protocol_def)

lemmas table_rules = options_general_def options_load_def options_socket_def options_rest_def set_format_def set_interval_def
  port_of_def set_rate_def set_duration_def set_streams_def set_window_def set_mss_option_def set_tos_def set_dscp_def set_omit_def
  Let_def

interpretation dir: option_invariant "\<lambda>c. directed (a_test c)" w n0 for w n0
proof
  show "list_all (\<lambda>(flag, h). case_keeps (\<lambda>c. directed (a_test c)) h) (options_general w)"
    by (auto simp: table_rules case_rules intro: directed_role directed_protocol split: option.splits if_splits)
  show "list_all (\<lambda>(flag, h). case_keeps (\<lambda>c. directed (a_test c)) h) (options_load w n0)"
    by (auto simp: table_rules case_rules intro: directed_reverse directed_bidirectional split: option.splits if_splits)
  show "list_all (\<lambda>(flag, h). case_keeps (\<lambda>c. directed (a_test c)) h) (options_socket w)"
    by (auto simp: table_rules case_rules split: option.splits if_splits prod.splits)
  show "list_all (\<lambda>(flag, h). case_keeps (\<lambda>c. directed (a_test c)) h) (options_rest n0)"
    by (auto simp: table_rules case_rules split: option.splits if_splits)
qed

section \<open>Ranges\<close>

lemma in_int_c_int [simp]: "in_int (c_int n)"
  using sint_greater_eq [of "word_of_int n :: u32"] sint_lt [of "word_of_int n :: u32"] by (simp add: in_int_def c_int_def)

lemma in_int_atoi [simp]: "in_int (atoi w s)"
  by (simp add: atoi_def Let_def split: prod.split)

lemma parse_qos_max: "parse_qos w s \<le> 255"
  using ipqos_range [OF qos_lookup_in] by (auto simp: parse_qos_def split: option.splits prod.splits)

lemma d_to_int_max:
  assumes "d_to_int d = Some v" "\<not> dlt (d_of_int m) d" "\<bar>m\<bar> \<le> 2 ^ 53"
  shows "in_int v \<and> v \<le> m"
proof -
  have m: "d_of_int m = Fin (of_int m)" using d_of_int_exact [of m] assms(3) by simp
  have floor: "x \<le> rat_of_int m \<Longrightarrow> \<lfloor>x\<rfloor> \<le> m" for x by linarith
  show ?thesis
    using assms(1,2) unfolding m
    by (cases d) (auto simp: d_to_int_def in_int_def floor_less_iff ceiling_le_iff not_less le_floor_iff
        split: if_splits option.splits elim: order_trans [rotated] intro: floor)
qed

text \<open>The check of an interval: 0, within its bounds, or not a number, which no comparison rejects.\<close>

definition interval_in_range :: "double \<Rightarrow> bool" where
  "interval_in_range d \<longleftrightarrow> deq d (Fin 0) \<or> \<not> (dlt d MIN_INTERVAL \<or> dlt MAX_INTERVAL d)"

definition settings_ranged :: "iperf_settings \<Rightarrow> bool" where
  "settings_ranged k \<longleftrightarrow>
     0 \<le> cfg_burst k \<and> cfg_burst k \<le> MAX_BURST \<and> in_int (cfg_mss k) \<and> cfg_mss k \<le> MAX_MSS \<and>
     0 \<le> cfg_tos k \<and> cfg_tos k \<le> 255 \<and> in_int (cfg_socket_bufsize k) \<and> cfg_socket_bufsize k \<le> MAX_TCP_BUFFER \<and>
     in_int (cfg_pacing_timer k) \<and> cfg_fqrate k = 0 \<and> cfg_flowlabel k = 0 \<and>
     cfg_unit_format k \<in> set (CHR ''a'' # unit_formats) \<and> cfg_domain k \<in> {AF_UNSPEC, AF_INET, AF_INET6}"

definition test_ranged :: "iperf_test \<Rightarrow> bool" where
  "test_ranged t \<longleftrightarrow>
     1 \<le> t_server_port t \<and> t_server_port t \<le> 65535 \<and> 0 \<le> t_bind_port t \<and> t_bind_port t \<le> 65535 \<and>
     0 \<le> t_omit t \<and> t_omit t \<le> 60 \<and> in_int (t_duration t) \<and> t_duration t \<le> MAX_TIME \<and>
     in_int (t_num_streams t) \<and> t_num_streams t \<le> MAX_STREAMS \<and>
     interval_in_range (t_stats_interval t) \<and> t_reporter_interval t = t_stats_interval t \<and>
     {t_get_server_output t, t_udp_counters_64bit t, t_repeating_payload t} \<subseteq> {0, 1} \<and>
     t_server_affinity t = -1 \<and> t_congestion t = None \<and> t_congestion_used t = None \<and> settings_ranged (t_settings t)"

definition ranged :: "cli \<Rightarrow> bool" where
  "ranged c \<longleftrightarrow> in_int (a_blksize c) \<and> test_ranged (a_test c)"

lemma settings_frame [simp]:
  "settings_ranged (k\<lparr>cfg_rate := r\<rparr>) = settings_ranged k" "settings_ranged (k\<lparr>cfg_bytes := r\<rparr>) = settings_ranged k"
  "settings_ranged (k\<lparr>cfg_blocks := r\<rparr>) = settings_ranged k" "settings_ranged (k\<lparr>cfg_num_ostreams := i\<rparr>) = settings_ranged k"
  "settings_ranged (k\<lparr>cfg_connect_timeout := i\<rparr>) = settings_ranged k" "settings_ranged (k\<lparr>cfg_blksize := i\<rparr>) = settings_ranged k"
  by (simp_all add: settings_ranged_def)

lemma settings_upd [simp]:
  assumes "settings_ranged k"
  shows "settings_ranged (k\<lparr>cfg_burst := i\<rparr>) \<longleftrightarrow> 0 \<le> i \<and> i \<le> MAX_BURST"
    and "settings_ranged (k\<lparr>cfg_mss := i\<rparr>) \<longleftrightarrow> in_int i \<and> i \<le> MAX_MSS"
    and "settings_ranged (k\<lparr>cfg_tos := i\<rparr>) \<longleftrightarrow> 0 \<le> i \<and> i \<le> 255"
    and "settings_ranged (k\<lparr>cfg_socket_bufsize := i\<rparr>) \<longleftrightarrow> in_int i \<and> i \<le> MAX_TCP_BUFFER"
    and "settings_ranged (k\<lparr>cfg_pacing_timer := i\<rparr>) \<longleftrightarrow> in_int i"
    and "settings_ranged (k\<lparr>cfg_unit_format := f\<rparr>) \<longleftrightarrow> f \<in> set (CHR ''a'' # unit_formats)"
    and "settings_ranged (k\<lparr>cfg_domain := i\<rparr>) \<longleftrightarrow> i \<in> {AF_UNSPEC, AF_INET, AF_INET6}"
  using assms by (simp_all add: settings_ranged_def)

lemma test_frame [simp]:
  "test_ranged (t\<lparr>t_json_output := b\<rparr>) = test_ranged t" "test_ranged (t\<lparr>t_server_hostname := s\<rparr>) = test_ranged t"
  "test_ranged (t\<lparr>t_bind_address := so\<rparr>) = test_ranged t" "test_ranged (t\<lparr>t_no_delay := b\<rparr>) = test_ranged t"
  "test_ranged (t\<lparr>t_extra_data := so\<rparr>) = test_ranged t" "test_ranged (t\<lparr>t_zerocopy := b\<rparr>) = test_ranged t"
  "test_ranged (t\<lparr>t_diskfile_name := so\<rparr>) = test_ranged t" "test_ranged (t\<lparr>t_title := so\<rparr>) = test_ranged t"
  "test_ranged (iperf_set_test_role t r) = test_ranged t"
  "test_ranged (iperf_set_test_reverse t b) = test_ranged t"
  "test_ranged (iperf_set_test_bidirectional t b) = test_ranged t"
  "test_ranged (snd (set_protocol t p)) = test_ranged t"
  by (simp_all add: test_ranged_def iperf_set_test_role_def iperf_set_test_reverse_def iperf_set_test_bidirectional_def
      set_protocol_def check_sender_has_retransmits_def Let_def)

lemma test_upd [simp]:
  assumes "test_ranged t"
  shows "test_ranged (t\<lparr>t_server_port := i\<rparr>) \<longleftrightarrow> 1 \<le> i \<and> i \<le> 65535"
    and "test_ranged (t\<lparr>t_bind_port := i\<rparr>) \<longleftrightarrow> 0 \<le> i \<and> i \<le> 65535"
    and "test_ranged (t\<lparr>t_omit := i\<rparr>) \<longleftrightarrow> 0 \<le> i \<and> i \<le> 60"
    and "test_ranged (t\<lparr>t_duration := i\<rparr>) \<longleftrightarrow> in_int i \<and> i \<le> MAX_TIME"
    and "test_ranged (t\<lparr>t_num_streams := i\<rparr>) \<longleftrightarrow> in_int i \<and> i \<le> MAX_STREAMS"
    and "test_ranged (t\<lparr>t_stats_interval := d, t_reporter_interval := d\<rparr>) \<longleftrightarrow> interval_in_range d"
    and "test_ranged (t\<lparr>t_get_server_output := i\<rparr>) \<longleftrightarrow> i \<in> {0, 1}"
    and "test_ranged (t\<lparr>t_udp_counters_64bit := i\<rparr>) \<longleftrightarrow> i \<in> {0, 1}"
    and "test_ranged (t\<lparr>t_repeating_payload := i\<rparr>) \<longleftrightarrow> i \<in> {0, 1}"
    and "test_ranged (t\<lparr>t_settings := k\<rparr>) \<longleftrightarrow> settings_ranged k"
    and "settings_ranged (t_settings t)"
  using assms by (simp_all add: test_ranged_def)

interpretation rng: option_invariant ranged w n0 for w n0
proof
  show "list_all (\<lambda>(flag, h). case_keeps ranged h) (options_general w)"
    by (auto simp: table_rules case_rules ranged_def interval_in_range_def split: option.splits if_splits)
  show "list_all (\<lambda>(flag, h). case_keeps ranged h) (options_load w n0)"
    by (auto simp: table_rules case_rules ranged_def MAX_TCP_BUFFER_def MB_def split: option.splits if_splits dest: d_to_int_max)
  show "list_all (\<lambda>(flag, h). case_keeps ranged h) (options_socket w)"
    by (auto simp: table_rules case_rules ranged_def parse_qos_max split: option.splits if_splits prod.splits)
  show "list_all (\<lambda>(flag, h). case_keeps ranged h) (options_rest n0)"
    by (auto simp: table_rules case_rules ranged_def split: option.splits if_splits)
qed

text \<open>Without an option of the client, what the client decides has its default.\<close>

definition client_defaults :: "iperf_test \<Rightarrow> bool" where
  "client_defaults t \<longleftrightarrow>
     t_protocol t = Ptcp \<and> \<not> t_reverse t \<and> \<not> t_bidirectional t \<and> t_num_streams t = 1 \<and> t_omit t = OMIT \<and> t_duration t = DURATION \<and>
     \<not> t_no_delay t \<and> \<not> t_zerocopy t \<and> t_title t = None \<and> t_extra_data t = None \<and> t_get_server_output t = 0 \<and>
     t_repeating_payload t = 0 \<and>
     (let k = t_settings t in cfg_bytes k = 0 \<and> cfg_blocks k = 0 \<and> cfg_rate k = 0 \<and> cfg_burst k = 0 \<and> cfg_mss k = 0 \<and>
        cfg_tos k = 0 \<and> cfg_socket_bufsize k = 0 \<and> cfg_pacing_timer k = 1000 \<and> cfg_connect_timeout k = -1)"

definition untouched :: "cli \<Rightarrow> bool" where
  "untouched c \<longleftrightarrow> a_client_flag c \<or>
     client_defaults (a_test c) \<and> a_blksize c = 0 \<and> \<not> a_rate_flag c \<and> \<not> a_duration_flag c"

lemma defaults_frame [simp]:
  "client_defaults (t\<lparr>t_server_port := i\<rparr>) = client_defaults t" "client_defaults (t\<lparr>t_bind_port := i\<rparr>) = client_defaults t"
  "client_defaults (t\<lparr>t_stats_interval := d, t_reporter_interval := d\<rparr>) = client_defaults t"
  "client_defaults (t\<lparr>t_json_output := b\<rparr>) = client_defaults t" "client_defaults (t\<lparr>t_server_hostname := s\<rparr>) = client_defaults t"
  "client_defaults (t\<lparr>t_bind_address := so\<rparr>) = client_defaults t" "client_defaults (t\<lparr>t_diskfile_name := so\<rparr>) = client_defaults t"
  "client_defaults (t\<lparr>t_udp_counters_64bit := i\<rparr>) = client_defaults t"
  "client_defaults (t\<lparr>t_settings := (t_settings t)\<lparr>cfg_unit_format := f\<rparr>\<rparr>) = client_defaults t"
  "client_defaults (t\<lparr>t_settings := (t_settings t)\<lparr>cfg_domain := i\<rparr>\<rparr>) = client_defaults t"
  "client_defaults (iperf_set_test_role t r) = client_defaults t"
  by (simp_all add: client_defaults_def iperf_set_test_role_def check_sender_has_retransmits_def Let_def)

interpretation srv: option_invariant untouched w n0 for w n0
proof
  show "list_all (\<lambda>(flag, h). case_keeps untouched h) (options_general w)"
    by (auto simp: table_rules case_rules untouched_def split: option.splits if_splits)
  show "list_all (\<lambda>(flag, h). case_keeps untouched h) (options_load w n0)"
    by (auto simp: table_rules case_rules untouched_def split: option.splits if_splits)
  show "list_all (\<lambda>(flag, h). case_keeps untouched h) (options_socket w)"
    by (auto simp: table_rules case_rules untouched_def split: option.splits if_splits prod.splits)
  show "list_all (\<lambda>(flag, h). case_keeps untouched h) (options_rest n0)"
    by (auto simp: table_rules case_rules untouched_def split: option.splits if_splits)
qed

section \<open>Accepted command lines\<close>

definition new_cli :: cli where
  "new_cli = \<lparr>a_test = iperf_defaults iperf_new_test, a_verbose = False, a_debug = False, a_daemon = False,
     a_one_off = False, a_forceflush = False, a_pidfile = None, a_logfile = None, a_xbind_addrs = [], a_blksize = 0,
     a_server_flag = False, a_client_flag = False, a_rate_flag = False, a_duration_flag = False\<rparr>"

text \<open>The check of the block size; that of UDP has no lower bound.\<close>

definition block_size_ok :: "iperf_test \<Rightarrow> bool" where
  "block_size_ok t \<longleftrightarrow> (let n = cfg_blksize (t_settings t) in
     in_int n \<and>
     (if t_protocol t = Pudp then n \<le> 0 \<or> MIN_UDP_BLOCKSIZE \<le> n \<and> n \<le> MAX_UDP_BLOCKSIZE
      else 1 \<le> n \<and> n \<le> MAX_BLOCKSIZE))"

text \<open>A test ends by time, by bytes or by blocks.\<close>

definition one_limit :: "iperf_test \<Rightarrow> bool" where
  "one_limit t \<longleftrightarrow> (let k = t_settings t in
     (cfg_bytes k = 0 \<or> cfg_blocks k = 0) \<and> (cfg_bytes k \<noteq> 0 \<or> cfg_blocks k \<noteq> 0 \<longrightarrow> t_duration t = 0))"

definition configured :: "iperf_test \<Rightarrow> bool" where
  "configured t \<longleftrightarrow> t_role t \<in> {CHR ''c'', CHR ''s''} \<and> directed t \<and> test_ranged t \<and> block_size_ok t \<and> one_limit t \<and>
     (t_role t = CHR ''s'' \<longrightarrow> client_defaults t \<and> cfg_blksize (t_settings t) = DEFAULT_TCP_BLKSIZE)"

text \<open>What the JSON text of the parameters can carry exactly.\<close>

definition sendable :: "iperf_test \<Rightarrow> bool" where
  "sendable t \<longleftrightarrow> list_all (\<lambda>v. uint v \<le> 2 ^ 53) [cfg_bytes (t_settings t), cfg_blocks (t_settings t), cfg_rate (t_settings t)] \<and>
     list_all valid_opt [t_title t, t_extra_data t]"

lemma loop_result:
  assumes "option_loop w n0 opts new_cli = Go c"
  shows "directed (a_test c) \<and> ranged c \<and> untouched c"
proof -
  note start = new_cli_def iperf_defaults_def iperf_new_test_def set_protocol_def check_sender_has_retransmits_def Let_def
  have "directed (a_test new_cli)" by (simp add: start directed_def mode_of_def iperf_modes)
  moreover have min: "rnd (1 / 10) \<le> 1" using repr_int [of 1] by (auto intro: rnd_le)
  moreover have "ranged new_cli"
    by (simp add: start ranged_def test_ranged_def settings_ranged_def in_int_def interval_in_range_def PORT_def OMIT_def DURATION_def
        MAX_TIME_def MAX_STREAMS_def MAX_BURST_def MAX_MSS_def MAX_TCP_BUFFER_def MB_def MIN_INTERVAL_def MAX_INTERVAL_def min not_less)
  moreover have "untouched new_cli" by (simp add: start untouched_def client_defaults_def)
  ultimately show ?thesis using assms dir.loop_invariant rng.loop_invariant srv.loop_invariant by blast
qed

lemma limits_facts:
  assumes "directed (a_test c)" "ranged c"
  shows "directed (a_test (default_limits c))" "test_ranged (a_test (default_limits c))"
    "t_role (a_test (default_limits c)) = t_role (a_test c)" "t_protocol (a_test (default_limits c)) = t_protocol (a_test c)"
    "cfg_blksize (t_settings (a_test (default_limits c))) = a_blksize c"
    "client_defaults (a_test c) \<Longrightarrow> \<not> a_rate_flag c \<Longrightarrow> client_defaults (a_test (default_limits c))"
  using assms
  by (simp_all add: default_limits_def on_cfg_def on_cli_def Let_def ranged_def in_int_def MAX_TIME_def)
    (auto simp: client_defaults_def Let_def Ptcp_def Pudp_def SOCK_STREAM_def SOCK_DGRAM_def)

lemma limits_end:
  assumes "\<not> a_duration_flag (default_limits c) \<or> cfg_bytes (t_settings (a_test (default_limits c))) = 0 \<and> cfg_blocks (t_settings (a_test (default_limits c))) = 0"
    and "cfg_bytes (t_settings (a_test (default_limits c))) = 0 \<or> cfg_blocks (t_settings (a_test (default_limits c))) = 0"
  shows "one_limit (a_test (default_limits c))"
proof -
  have "a_duration_flag (default_limits c) = a_duration_flag c"
    "cfg_bytes (t_settings (a_test (default_limits c))) = cfg_bytes (t_settings (a_test c))"
    "cfg_blocks (t_settings (a_test (default_limits c))) = cfg_blocks (t_settings (a_test c))"
    "(cfg_bytes (t_settings (a_test c)) \<noteq> 0 \<or> cfg_blocks (t_settings (a_test c)) \<noteq> 0) \<and> \<not> a_duration_flag c \<Longrightarrow>
       t_duration (a_test (default_limits c)) = 0"
    by (auto simp: default_limits_def on_cfg_def on_cli_def Let_def)
  then show ?thesis using assms by (auto simp: one_limit_def Let_def)
qed

lemma in_int_small: "0 \<le> i \<Longrightarrow> i \<le> 1000 \<Longrightarrow> in_int i"
  by (simp add: in_int_def)

lemma configured_valid:
  assumes "configured t" "sendable t"
  shows "valid_params t"
proof -
  have t: "test_ranged t" "directed t" "in_int (cfg_blksize (t_settings t))"
    using assms(1) by (simp_all add: configured_def block_size_ok_def Let_def)
  have "in_int (t_get_server_output t)" "in_int (t_udp_counters_64bit t)" "in_int (t_repeating_payload t)"
    using t(1) unfolding test_ranged_def by (auto intro: in_int_small)
  then show ?thesis
    using t assms(2)
    by (simp add: test_ranged_def directed_def settings_ranged_def sendable_def valid_params_def valid_opt_def in_int_small MAX_BURST_def
        Let_def in_int_def [of "-1"] in_int_def [of 0])
qed

lemma refuse_if: "(if A then refuse e x else k) = Go c \<longleftrightarrow> \<not> A \<and> k = Go c"
  by (simp add: refuse_def)

lemma check_options_Go:
  assumes "check_options c0 = Go c"
  defines "c1 \<equiv> default_size c0"
  shows "default_limits c1 = c" "\<not> (t_role (a_test c0) = CHR ''s'' \<and> a_client_flag c0)"
    "t_protocol (a_test c1) \<noteq> Pudp \<Longrightarrow> 0 < a_blksize c1" "a_blksize c1 \<le> MAX_BLOCKSIZE"
    "t_protocol (a_test c1) = Pudp \<Longrightarrow> 0 < a_blksize c1 \<Longrightarrow> MIN_UDP_BLOCKSIZE \<le> a_blksize c1 \<and> a_blksize c1 \<le> MAX_UDP_BLOCKSIZE"
    "\<not> a_duration_flag c \<or> cfg_bytes (t_settings (a_test c)) = 0 \<and> cfg_blocks (t_settings (a_test c)) = 0"
    "cfg_bytes (t_settings (a_test c)) = 0 \<or> cfg_blocks (t_settings (a_test c)) = 0"
    "t_role (a_test c) \<in> {CHR ''c'', CHR ''s''}"
proof -
  have *: "\<not> (t_role (a_test c0) = CHR ''s'' \<and> a_client_flag c0) \<and>
    \<not> (t_protocol (a_test c1) \<noteq> Pudp \<and> a_blksize c1 \<le> 0 \<or> MAX_BLOCKSIZE < a_blksize c1) \<and>
    \<not> (t_protocol (a_test c1) = Pudp \<and> 0 < a_blksize c1 \<and> (a_blksize c1 < MIN_UDP_BLOCKSIZE \<or> MAX_UDP_BLOCKSIZE < a_blksize c1)) \<and>
    (let c2 = default_limits c1; cfg = t_settings (a_test c2) in
       \<not> (a_duration_flag c2 \<and> cfg_bytes cfg \<noteq> 0 \<or> a_duration_flag c2 \<and> cfg_blocks cfg \<noteq> 0 \<or> cfg_bytes cfg \<noteq> 0 \<and> cfg_blocks cfg \<noteq> 0) \<and>
       \<not> (t_role (a_test c2) \<noteq> CHR ''c'' \<and> t_role (a_test c2) \<noteq> CHR ''s'') \<and> c2 = c)"
    using assms(1) unfolding check_options_def Let_def c1_def [symmetric] refuse_if verdict.inject by (elim conjE) (intro conjI)
  then show "default_limits c1 = c" by (simp add: Let_def)
  note * = * [unfolded Let_def this]
  show "\<not> (t_role (a_test c0) = CHR ''s'' \<and> a_client_flag c0)"
    "t_protocol (a_test c1) \<noteq> Pudp \<Longrightarrow> 0 < a_blksize c1" "a_blksize c1 \<le> MAX_BLOCKSIZE"
    "t_protocol (a_test c1) = Pudp \<Longrightarrow> 0 < a_blksize c1 \<Longrightarrow> MIN_UDP_BLOCKSIZE \<le> a_blksize c1 \<and> a_blksize c1 \<le> MAX_UDP_BLOCKSIZE"
    "\<not> a_duration_flag c \<or> cfg_bytes (t_settings (a_test c)) = 0 \<and> cfg_blocks (t_settings (a_test c)) = 0"
    "cfg_bytes (t_settings (a_test c)) = 0 \<or> cfg_blocks (t_settings (a_test c)) = 0"
    "t_role (a_test c) \<in> {CHR ''c'', CHR ''s''}"
    using * by (auto simp: not_le not_less)
qed

lemma check_configures:
  assumes "check_options c0 = Go c" "directed (a_test c0)" "ranged c0" "untouched c0"
  shows "configured (a_test c)"
proof -
  let ?c1 = "default_size c0"
  have c1: "a_test ?c1 = a_test c0" "ranged ?c1" "a_rate_flag ?c1 = a_rate_flag c0"
    using assms(3) by (simp_all add: default_size_def ranged_def in_int_def DEFAULT_SCTP_BLKSIZE_def DEFAULT_TCP_BLKSIZE_def)
  note ok = check_options_Go [OF assms(1)]
  note f = limits_facts [of ?c1, unfolded ok(1) c1(1,3), OF assms(2) c1(2)]
  have "block_size_ok (a_test c)"
    unfolding block_size_ok_def Let_def f(4,5) using ok(3,4,5) c1(1,2) by (simp add: ranged_def) linarith
  moreover have "one_limit (a_test c)"
    using limits_end [of ?c1, unfolded ok(1)] ok(6,7) by blast
  moreover have "client_defaults (a_test c) \<and> cfg_blksize (t_settings (a_test c)) = DEFAULT_TCP_BLKSIZE" if "t_role (a_test c) = CHR ''s''"
  proof -
    have "client_defaults (a_test c0)" "a_blksize c0 = 0" "\<not> a_rate_flag c0"
      using ok(2) assms(4) that f(3) by (simp_all add: untouched_def)
    moreover from this have "t_protocol (a_test c0) = Ptcp" by (simp add: client_defaults_def)
    ultimately show ?thesis
      using f(5,6) by (simp add: default_size_def Ptcp_def Pudp_def Psctp_def SOCK_STREAM_def SOCK_DGRAM_def)
  qed
  ultimately show ?thesis using f(1,2) ok(8) by (simp add: configured_def)
qed

text \<open>
  A command line that the parser accepts gives one role, the direction that role, \<open>--reverse\<close> and \<open>--bidir\<close> ask for, in any order,
  values that passed the checks of the parser (which have no lower bound for the streams, the time and the block size of UDP, and let an
  interval that is not a number through), at most one way to end the test besides the time, and for a server none of the options of a
  client. When its sizes fit a double and its texts are valid, its parameters are ones that reach the server unchanged.
\<close>

lemma accepted_configuration:
  assumes "iperf_parse_arguments w n0 argv new_cli = Go c"
  shows "configured (a_test c) \<and> (sendable (a_test c) \<longrightarrow> valid_params (a_test c))"
proof -
  have "new_cli\<lparr>a_blksize := 0, a_server_flag := False, a_client_flag := False, a_rate_flag := False, a_duration_flag := False\<rparr> = new_cli"
    by (simp add: new_cli_def)
  then obtain c1 where "option_loop w n0 (getopt_long argv) new_cli = Go c1" "check_options c1 = Go c"
    using assms by (auto simp: iperf_parse_arguments_def split: verdict.splits)
  then have "configured (a_test c)" using loop_result check_configures by blast
  then show ?thesis using configured_valid by blast
qed

section \<open>What the parser lets through\<close>

text \<open>A block size of 2 GB is negative as an \<open>int\<close>, which the check for UDP does not reject.\<close>

lemma negative_block_size:
  "case iperf_parse_arguments 64 NaN [''-c'', ''host'', ''-u'', ''-l'', ''2G''] new_cli of
     Go c \<Rightarrow> cfg_blksize (t_settings (a_test c)) = - (2 ^ 31) | _ \<Rightarrow> False"
  by code_simp

text \<open>The number of streams and the time have no lower bound, and an interval that is not a number is within the limits.\<close>

lemma negative_streams:
  "case iperf_parse_arguments 64 NaN [''-c'', ''host'', ''-P'', ''-1'', ''-t'', ''-1'', ''-i'', ''nan''] new_cli of
     Go c \<Rightarrow> t_num_streams (a_test c) = -1 \<and> t_duration (a_test c) = -1 \<and> t_stats_interval (a_test c) = NaN | _ \<Rightarrow> False"
  by code_simp

text \<open>The sanity check of the window precedes its conversion, but bounds it only from above.\<close>

lemma window_undefined:
  "iperf_parse_arguments 64 NaN [''-c'', ''host'', ''-w'', ''-3G''] new_cli = Undefined"
  "iperf_parse_arguments 64 NaN [''-c'', ''host'', ''-n'', ''-1''] new_cli = Undefined"
  by code_simp+

end
