(* ===== verification/Command_Line.thy ===== *)
theory Command_Line
  imports Options_Laws
begin

text \<open>
  The command line of a client: what the options that are given, in short or in long form and in any order, make of the test.
  The last of several options for the same value counts, as does the default where none is given.
\<close>

section \<open>Numbers as they are written\<close>

text \<open>A number with an optional suffix, its text, and its value where a kilo is \<open>base\<close>.\<close>

datatype amount = Amount nat "char option"

fun amount_text :: "amount \<Rightarrow> string" where
  "amount_text (Amount n None) = nat_str n"
| "amount_text (Amount n (Some c)) = nat_str n @ [c]"

fun amount_val :: "nat \<Rightarrow> amount \<Rightarrow> nat" where
  "amount_val base (Amount n s) = n * base ^ (case s of None \<Rightarrow> 0 | Some c \<Rightarrow> suffix_exp c)"

fun amount_ok :: "amount \<Rightarrow> bool" where
  "amount_ok (Amount n s) \<longleftrightarrow> n \<le> 2 ^ 53 \<and> (case s of None \<Rightarrow> True | Some c \<Rightarrow> unit_suffix c)"

lemma scan_nat_plain:
  assumes "n \<le> 2 ^ 53"
  shows "scan_lf_c n0 (nat_str n) = (Fin (of_nat n), CHR 0x00)" "strtod (nat_str n) = Some (Fin (of_nat n), [])"
  using strtod_nat [of "[]" n] d_of_int_exact [of "int n"] assms
  by (simp_all add: scan_lf_c_def d_of_int_def num_end_def)

lemma amount_size:
  assumes "amount_ok a" "amount_val 1024 a < 2 ^ 64"
  shows "unit_atoi n0 (amount_text a) = Some (of_nat (amount_val 1024 a))"
proof (cases a rule: amount_text.cases)
  case (1 n)
  then show ?thesis using assms scan_nat_plain(1) [of n n0] d_to_u64_nat [of n] by (simp add: unit_atoi_def)
next
  case (2 n c)
  then have "10 * suffix_exp c \<le> 40" "(1024 :: nat) ^ suffix_exp c = 2 ^ (10 * suffix_exp c)"
    by (simp_all add: suffix_exp_def Let_def power_mult)
  then show ?thesis
    using 2 assms unit_atoi_scaled [of c n n0] scale_exact [of n "10 * suffix_exp c"] d_to_u64_nat [of "n * 2 ^ (10 * suffix_exp c)"]
    by simp
qed

lemma atoi_nat: "32 \<le> w \<Longrightarrow> n < 2 ^ 31 \<Longrightarrow> atoi w (nat_str n) = int n"
proof -
  assume w: "32 \<le> w" and n: "n < 2 ^ 31"
  have "(2 :: int) ^ 31 \<le> 2 ^ (w - 1)" using w by (intro power_increasing) auto
  moreover have "int n < 2 ^ 31" using n by (metis of_nat_less_iff of_nat_numeral of_nat_power)
  moreover have tw: "takeWhile isdigit (nat_str n) = nat_str n" using nat_str_digits by (simp add: takeWhile_eq_all_conv)
  ultimately show ?thesis by (simp add: atoi_def nat_str_val c_int_id tw)
qed

lemma amount_rate:
  assumes "amount_ok a" "0 < amount_val 1 a" "amount_val 1000 a \<le> 2 ^ 53"
  shows "d_to_u64 (unit_atof_rate n0 (amount_text a)) = Some (of_nat (amount_val 1000 a))"
proof (cases a rule: amount_text.cases)
  case (1 n)
  then show ?thesis using assms scan_nat_plain(1) [of n n0] d_to_u64_nat [of n] by (simp add: unit_atof_rate_def)
next
  case (2 n c)
  let ?v = "n * 1000 ^ suffix_exp c"
  have "int ?v \<le> int (2 ^ 53)" using 2 assms(3) by (simp only: of_nat_le_iff) simp
  then have "dmul (Fin (of_nat n)) (Fin (of_int (1000 ^ suffix_exp c))) = Fin (of_nat ?v)"
    using fin_mult_int [of "int n" "1000 ^ suffix_exp c"] 2 assms(2) by simp
  then show ?thesis
    using 2 assms unit_atof_rate_scaled [of c n n0] d_to_u64_nat [of ?v] by simp
qed

lemma amount_window:
  assumes "amount_ok a" "amount_val 1024 a < 2 ^ 31"
  shows "unit_atof n0 (amount_text a) = Fin (of_nat (amount_val 1024 a))"
    "d_to_int (Fin (of_nat (amount_val 1024 a))) = Some (int (amount_val 1024 a))"
proof -
  show "unit_atof n0 (amount_text a) = Fin (of_nat (amount_val 1024 a))"
  proof (cases a rule: amount_text.cases)
    case (1 n)
    then show ?thesis using assms scan_nat_plain(1) [of n n0] by (simp add: unit_atof_def)
  next
    case (2 n c)
    then have "10 * suffix_exp c \<le> 40" "(1024 :: nat) ^ suffix_exp c = 2 ^ (10 * suffix_exp c)"
      by (simp_all add: suffix_exp_def Let_def power_mult)
    moreover have "unit_atof n0 (nat_str n @ [c]) = dmul (Fin (of_nat n)) (Fin (2 ^ (10 * suffix_exp c)))"
      using 2 assms(1) unfolding unit_atof_def
      by (auto simp: scan_nat_suffix unit_suffix_def suffix_exp_simps unit_values simp del: dmul.simps)
    ultimately show ?thesis using 2 assms(1) scale_exact [of n "10 * suffix_exp c"] by simp
  qed
  show "d_to_int (Fin (of_nat (amount_val 1024 a))) = Some (int (amount_val 1024 a))"
    using assms(2) by (simp add: d_to_int_def)
qed

section \<open>The options of a client\<close>

datatype request =
    Client string | Port nat | Format char | Interval nat | Json | Verbose | Debug | Logfile string | Forceflush
  | Udp | Bitrate amount | Time nat | Bytes amount | Blocks amount | Length amount | Parallel nat | Reverse | Bidir | Window amount
  | Bind string | Cport nat | Mss nat | No_delay | Version4 | Version6 | Tos nat | Extra_data string | Zerocopy | Repeating_payload
  | Omit nat | File string | Title string | Get_server_output | Udp_counters_64bit | Pacing_timer amount | Connect_timeout amount

text \<open>The letter of the option, or its number where it has none, its name, and its argument.\<close>

fun spelling :: "request \<Rightarrow> (char + int) \<times> string \<times> string option" where
  "spelling (Client host) = (Inl (CHR ''c''), ''client'', Some host)"
| "spelling (Port n) = (Inl (CHR ''p''), ''port'', Some (nat_str n))"
| "spelling (Format f) = (Inl (CHR ''f''), ''format'', Some [f])"
| "spelling (Interval n) = (Inl (CHR ''i''), ''interval'', Some (nat_str n))"
| "spelling Json = (Inl (CHR ''J''), ''json'', None)"
| "spelling Verbose = (Inl (CHR ''V''), ''verbose'', None)"
| "spelling Debug = (Inl (CHR ''d''), ''debug'', None)"
| "spelling (Logfile f) = (Inr OPT_LOGFILE, ''logfile'', Some f)"
| "spelling Forceflush = (Inr OPT_FORCEFLUSH, ''forceflush'', None)"
| "spelling Udp = (Inl (CHR ''u''), ''udp'', None)"
| "spelling (Bitrate a) = (Inl (CHR ''b''), ''bitrate'', Some (amount_text a))"
| "spelling (Time n) = (Inl (CHR ''t''), ''time'', Some (nat_str n))"
| "spelling (Bytes a) = (Inl (CHR ''n''), ''bytes'', Some (amount_text a))"
| "spelling (Blocks a) = (Inl (CHR ''k''), ''blockcount'', Some (amount_text a))"
| "spelling (Length a) = (Inl (CHR ''l''), ''length'', Some (amount_text a))"
| "spelling (Parallel n) = (Inl (CHR ''P''), ''parallel'', Some (nat_str n))"
| "spelling Reverse = (Inl (CHR ''R''), ''reverse'', None)"
| "spelling Bidir = (Inr OPT_BIDIRECTIONAL, ''bidir'', None)"
| "spelling (Window a) = (Inl (CHR ''w''), ''window'', Some (amount_text a))"
| "spelling (Bind s) = (Inl (CHR ''B''), ''bind'', Some s)"
| "spelling (Cport n) = (Inr OPT_CLIENT_PORT, ''cport'', Some (nat_str n))"
| "spelling (Mss n) = (Inl (CHR ''M''), ''set-mss'', Some (nat_str n))"
| "spelling No_delay = (Inl (CHR ''N''), ''no-delay'', None)"
| "spelling Version4 = (Inl (CHR ''4''), ''version4'', None)"
| "spelling Version6 = (Inl (CHR ''6''), ''version6'', None)"
| "spelling (Tos n) = (Inl (CHR ''S''), ''tos'', Some (nat_str n))"
| "spelling (Extra_data s) = (Inr OPT_EXTRA_DATA, ''extra-data'', Some s)"
| "spelling Zerocopy = (Inl (CHR ''Z''), ''zerocopy'', None)"
| "spelling Repeating_payload = (Inr OPT_REPEATING_PAYLOAD, ''repeating-payload'', None)"
| "spelling (Omit n) = (Inl (CHR ''O''), ''omit'', Some (nat_str n))"
| "spelling (File f) = (Inl (CHR ''F''), ''file'', Some f)"
| "spelling (Title s) = (Inl (CHR ''T''), ''title'', Some s)"
| "spelling Get_server_output = (Inr OPT_GET_SERVER_OUTPUT, ''get-server-output'', None)"
| "spelling Udp_counters_64bit = (Inr OPT_UDP_COUNTERS_64BIT, ''udp-counters-64bit'', None)"
| "spelling (Pacing_timer a) = (Inr OPT_PACING_TIMER, ''pacing-timer'', Some (amount_text a))"
| "spelling (Connect_timeout a) = (Inr OPT_CONNECT_TIMEOUT, ''connect-timeout'', Some (amount_text a))"

text \<open>The words of an option, in the long form or, where there is one, in the short form.\<close>

definition option_words :: "bool \<times> request \<Rightarrow> string list" where
  "option_words lr = (case spelling (snd lr) of (short, name, arg) \<Rightarrow>
     (case short of
        Inl c \<Rightarrow> if fst lr then ''--'' @ name else [CHR ''-'', c]
      | Inr _ \<Rightarrow> ''--'' @ name) # (case arg of None \<Rightarrow> [] | Some a \<Rightarrow> [a]))"

definition command_line :: "(bool \<times> request) list \<Rightarrow> string list" where
  "command_line lrs = concat (map option_words lrs)"

text \<open>What \<open>getopt_long\<close> makes of the words.\<close>

definition opt_of :: "request \<Rightarrow> opt" where
  "opt_of r = (case spelling r of (short, name, arg) \<Rightarrow> (case short of Inl c \<Rightarrow> chr_code c | Inr flag \<Rightarrow> flag, arg))"

text \<open>That the tables of the program know the option under its name and its letter.\<close>

definition known :: "(char + int) \<times> string \<times> bool \<Rightarrow> bool" where
  "known x = (case x of (short, name, has_arg) \<Rightarrow>
     name \<noteq> [] \<and> CHR ''='' \<notin> set name \<and>
     (case short of
        Inl c \<Rightarrow> c \<noteq> CHR ''-'' \<and> c \<noteq> CHR '':'' \<and> takes_arg c shortopts = Some has_arg \<and>
          map_of longopts name = Some (has_arg, chr_code c)
      | Inr flag \<Rightarrow> map_of longopts name = Some (has_arg, flag)))"

lemma spelling_known: "case spelling r of (short, name, arg) \<Rightarrow> known (short, name, arg \<noteq> None)"
  by (cases r; simp only: spelling.simps prod.case option.distinct not_False_eq_True simp_thms; code_simp)

lemma getopt_words: "getopt_long (option_words (l, r) @ rest) = opt_of r # getopt_long rest"
proof -
  obtain short name arg where sp: "spelling r = (short, name, arg)" by (cases "spelling r") auto
  define flag where "flag = (case short of Inl c \<Rightarrow> chr_code c | Inr f \<Rightarrow> f)"
  have k: "known (short, name, arg \<noteq> None)" using spelling_known [of r] by (simp add: sp)
  then have m: "map_of longopts name = Some (arg \<noteq> None, flag)" and ne: "name \<noteq> []" and eq: "CHR ''='' \<notin> set name"
    by (auto simp: known_def flag_def split: sum.splits)
  have o: "opt_of r = (flag, arg)" by (simp add: opt_of_def sp flag_def)
  have tw: "takeWhile (\<lambda>c. c \<noteq> CHR ''='') name = name" "dropWhile (\<lambda>c. c \<noteq> CHR ''='') name = []"
    using eq by (auto simp: takeWhile_eq_all_conv dropWhile_eq_Nil_conv)
  have long: "getopt_long ((''--'' @ name) # (case arg of None \<Rightarrow> [] | Some a \<Rightarrow> [a]) @ rest) = opt_of r # getopt_long rest"
    using m ne o by (cases arg) (auto simp: long_option_def long_match_def next_arg_def tw)
  have "getopt_long ([CHR ''-'', c] # (case arg of None \<Rightarrow> [] | Some a \<Rightarrow> [a]) @ rest) = opt_of r # getopt_long rest"
    if "short = Inl c" for c
    using k that o by (cases arg) (auto simp: next_arg_def known_def flag_def)
  with long show ?thesis by (cases short) (auto simp: option_words_def sp simp del: getopt_long.simps)
qed

lemma getopt_command_line: "getopt_long (command_line lrs) = map (opt_of \<circ> snd) lrs"
  using getopt_words by (induction lrs) (auto simp: command_line_def simp del: getopt_long.simps(2))

section \<open>What the options ask for\<close>

text \<open>The value that the last option gives to which \<open>f\<close> assigns one, or the default.\<close>

definition given :: "(request \<Rightarrow> 'a option) \<Rightarrow> request list \<Rightarrow> 'a \<Rightarrow> 'a" where
  "given f rs d = fold (\<lambda>r v. case f r of Some x \<Rightarrow> x | None \<Rightarrow> v) rs d"

lemma given_snoc [simp]: "given f (rs @ [r]) d = (case f r of Some x \<Rightarrow> x | None \<Rightarrow> given f rs d)"
  by (simp add: given_def split: option.split)

lemma given_Nil [simp]: "given f [] d = d"
  by (simp add: given_def)

text \<open>The range of each value.\<close>

fun in_range :: "request \<Rightarrow> bool" where
  "in_range (Port n) \<longleftrightarrow> 1 \<le> n \<and> n \<le> 65535"
| "in_range (Format f) \<longleftrightarrow> f \<in> set ''kKmMgGtT''"
| "in_range (Interval n) \<longleftrightarrow> n \<le> 60"
| "in_range (Bitrate a) \<longleftrightarrow> amount_ok a \<and> 0 < amount_val 1 a \<and> amount_val 1000 a \<le> 2 ^ 53"
| "in_range (Time n) \<longleftrightarrow> n \<le> 86400"
| "in_range (Bytes a) \<longleftrightarrow> amount_ok a \<and> amount_val 1024 a < 2 ^ 64"
| "in_range (Blocks a) \<longleftrightarrow> amount_ok a \<and> amount_val 1024 a < 2 ^ 64"
| "in_range (Length a) \<longleftrightarrow> amount_ok a \<and> amount_val 1024 a < 2 ^ 31"
| "in_range (Parallel n) \<longleftrightarrow> n \<le> 128"
| "in_range (Window a) \<longleftrightarrow> amount_ok a \<and> amount_val 1024 a \<le> 512 * 1024 * 1024"
| "in_range (Cport n) \<longleftrightarrow> 1 \<le> n \<and> n \<le> 65535"
| "in_range (Mss n) \<longleftrightarrow> n \<le> 9 * 1024"
| "in_range (Tos n) \<longleftrightarrow> n \<le> 255"
| "in_range (Omit n) \<longleftrightarrow> n \<le> 60"
| "in_range (Pacing_timer a) \<longleftrightarrow> amount_ok a \<and> amount_val 1024 a < 2 ^ 31"
| "in_range (Connect_timeout a) \<longleftrightarrow> amount_ok a \<and> amount_val 1024 a < 2 ^ 31"
| "in_range _ \<longleftrightarrow> True"

abbreviation wants_client :: "request list \<Rightarrow> string option" where
  "wants_client rs \<equiv> given (\<lambda>r. case r of Client h \<Rightarrow> Some (Some h) | _ \<Rightarrow> None) rs None"

abbreviation wants_bytes :: "request list \<Rightarrow> nat" where
  "wants_bytes rs \<equiv> given (\<lambda>r. case r of Bytes a \<Rightarrow> Some (amount_val 1024 a) | _ \<Rightarrow> None) rs 0"

abbreviation wants_blocks :: "request list \<Rightarrow> nat" where
  "wants_blocks rs \<equiv> given (\<lambda>r. case r of Blocks a \<Rightarrow> Some (amount_val 1024 a) | _ \<Rightarrow> None) rs 0"

abbreviation wants_time :: "request list \<Rightarrow> nat option" where
  "wants_time rs \<equiv> given (\<lambda>r. case r of Time n \<Rightarrow> Some (Some n) | _ \<Rightarrow> None) rs None"

abbreviation wants_rate :: "request list \<Rightarrow> nat option" where
  "wants_rate rs \<equiv> given (\<lambda>r. case r of Bitrate a \<Rightarrow> Some (Some (amount_val 1000 a)) | _ \<Rightarrow> None) rs None"

abbreviation wants_length :: "request list \<Rightarrow> nat" where
  "wants_length rs \<equiv> given (\<lambda>r. case r of Length a \<Rightarrow> Some (amount_val 1024 a) | _ \<Rightarrow> None) rs 0"

abbreviation wants_text :: "(request \<Rightarrow> string option) \<Rightarrow> request list \<Rightarrow> string option" where
  "wants_text f rs \<equiv> given (\<lambda>r. map_option Some (f r)) rs None"

text \<open>The settings and the test, apart from what the checks at the end of the parser fill in.\<close>

definition asked_settings :: "request list \<Rightarrow> iperf_settings" where
  "asked_settings rs = (t_settings (iperf_defaults iperf_new_test))\<lparr>
     cfg_domain := given (\<lambda>r. case r of Version4 \<Rightarrow> Some AF_INET | Version6 \<Rightarrow> Some AF_INET6 | _ \<Rightarrow> None) rs AF_UNSPEC,
     cfg_socket_bufsize := given (\<lambda>r. case r of Window a \<Rightarrow> Some (int (amount_val 1024 a)) | _ \<Rightarrow> None) rs 0,
     cfg_rate := of_nat (case wants_rate rs of None \<Rightarrow> 0 | Some n \<Rightarrow> n),
     cfg_pacing_timer := given (\<lambda>r. case r of Pacing_timer a \<Rightarrow> Some (int (amount_val 1024 a)) | _ \<Rightarrow> None) rs 1000,
     cfg_mss := given (\<lambda>r. case r of Mss n \<Rightarrow> Some (int n) | _ \<Rightarrow> None) rs 0,
     cfg_tos := given (\<lambda>r. case r of Tos n \<Rightarrow> Some (int n) | _ \<Rightarrow> None) rs 0,
     cfg_bytes := of_nat (wants_bytes rs), cfg_blocks := of_nat (wants_blocks rs),
     cfg_unit_format := given (\<lambda>r. case r of Format f \<Rightarrow> Some f | _ \<Rightarrow> None) rs (CHR ''a''),
     cfg_connect_timeout := given (\<lambda>r. case r of Connect_timeout a \<Rightarrow> Some (int (amount_val 1024 a)) | _ \<Rightarrow> None) rs (-1)\<rparr>"

definition asked_mode :: "request list \<Rightarrow> int" where
  "asked_mode rs = (if Bidir \<in> set rs then BIDIRECTIONAL else if wants_client rs = None \<or> Reverse \<in> set rs then RECEIVER else SENDER)"

definition asked_test :: "request list \<Rightarrow> iperf_test" where
  "asked_test rs = (iperf_defaults iperf_new_test)\<lparr>
     t_role := (if wants_client rs = None then CHR 0x00 else CHR ''c''),
     t_mode := asked_mode rs,
     t_sender_has_retransmits := (if wants_client rs \<noteq> None \<and> asked_mode rs \<noteq> RECEIVER \<and> Udp \<notin> set rs then 1 else 0),
     t_protocol := (if Udp \<in> set rs then Pudp else Ptcp),
     t_server_hostname := (case wants_client rs of None \<Rightarrow> [] | Some h \<Rightarrow> h),
     t_bind_address := wants_text (\<lambda>r. case r of Bind s \<Rightarrow> Some s | _ \<Rightarrow> None) rs,
     t_bind_port := given (\<lambda>r. case r of Cport n \<Rightarrow> Some (int n) | _ \<Rightarrow> None) rs 0,
     t_server_port := given (\<lambda>r. case r of Port n \<Rightarrow> Some (int n) | _ \<Rightarrow> None) rs PORT,
     t_omit := given (\<lambda>r. case r of Omit n \<Rightarrow> Some (int n) | _ \<Rightarrow> None) rs OMIT,
     t_duration := (case wants_time rs of None \<Rightarrow> DURATION | Some n \<Rightarrow> int n),
     t_title := wants_text (\<lambda>r. case r of Title s \<Rightarrow> Some s | _ \<Rightarrow> None) rs,
     t_extra_data := wants_text (\<lambda>r. case r of Extra_data s \<Rightarrow> Some s | _ \<Rightarrow> None) rs,
     t_no_delay := No_delay \<in> set rs, t_reverse := Reverse \<in> set rs, t_bidirectional := Bidir \<in> set rs,
     t_json_output := Json \<in> set rs, t_zerocopy := Zerocopy \<in> set rs,
     t_get_server_output := of_bool (Get_server_output \<in> set rs), t_udp_counters_64bit := of_bool (Udp_counters_64bit \<in> set rs),
     t_repeating_payload := of_bool (Repeating_payload \<in> set rs),
     t_stats_interval := given (\<lambda>r. case r of Interval n \<Rightarrow> Some (Fin (of_nat n)) | _ \<Rightarrow> None) rs (Fin 1),
     t_reporter_interval := given (\<lambda>r. case r of Interval n \<Rightarrow> Some (Fin (of_nat n)) | _ \<Rightarrow> None) rs (Fin 1),
     t_num_streams := given (\<lambda>r. case r of Parallel n \<Rightarrow> Some (int n) | _ \<Rightarrow> None) rs 1,
     t_diskfile_name := wants_text (\<lambda>r. case r of File s \<Rightarrow> Some s | _ \<Rightarrow> None) rs,
     t_settings := asked_settings rs\<rparr>"

section \<open>The loop over the options\<close>

text \<open>The options after which the parser refuses to be a server.\<close>

fun client_option :: "request \<Rightarrow> bool" where
  "client_option (Client _) = False"
| "client_option (Port _) = False"
| "client_option (Format _) = False"
| "client_option (Interval _) = False"
| "client_option Json = False"
| "client_option Verbose = False"
| "client_option Debug = False"
| "client_option (Logfile _) = False"
| "client_option Forceflush = False"
| "client_option (Bind _) = False"
| "client_option (Cport _) = False"
| "client_option Version4 = False"
| "client_option Version6 = False"
| "client_option (File _) = False"
| "client_option Udp_counters_64bit = False"
| "client_option _ = True"

definition asked_cli :: "request list \<Rightarrow> cli" where
  "asked_cli rs = new_cli\<lparr>a_test := asked_test rs,
     a_verbose := Verbose \<in> set rs, a_debug := Debug \<in> set rs, a_forceflush := Forceflush \<in> set rs,
     a_logfile := wants_text (\<lambda>r. case r of Logfile s \<Rightarrow> Some s | _ \<Rightarrow> None) rs,
     a_blksize := int (wants_length rs), a_client_flag := list_ex client_option rs,
     a_rate_flag := wants_rate rs \<noteq> None, a_duration_flag := wants_time rs \<noteq> None\<rparr>"

lemma option_codes:
  "chr_code (CHR ''1'') = 49" "chr_code (CHR ''4'') = 52" "chr_code (CHR ''6'') = 54" "chr_code (CHR ''?'') = 63"
  "chr_code (CHR ''A'') = 65" "chr_code (CHR ''B'') = 66" "chr_code (CHR ''C'') = 67" "chr_code (CHR ''D'') = 68"
  "chr_code (CHR ''F'') = 70" "chr_code (CHR ''I'') = 73" "chr_code (CHR ''J'') = 74" "chr_code (CHR ''L'') = 76"
  "chr_code (CHR ''M'') = 77" "chr_code (CHR ''N'') = 78" "chr_code (CHR ''O'') = 79" "chr_code (CHR ''P'') = 80"
  "chr_code (CHR ''R'') = 82" "chr_code (CHR ''S'') = 83" "chr_code (CHR ''T'') = 84" "chr_code (CHR ''V'') = 86"
  "chr_code (CHR ''X'') = 88" "chr_code (CHR ''Z'') = 90" "chr_code (CHR ''b'') = 98" "chr_code (CHR ''c'') = 99"
  "chr_code (CHR ''d'') = 100" "chr_code (CHR ''f'') = 102" "chr_code (CHR ''h'') = 104" "chr_code (CHR ''i'') = 105"
  "chr_code (CHR ''k'') = 107" "chr_code (CHR ''l'') = 108" "chr_code (CHR ''n'') = 110" "chr_code (CHR ''p'') = 112"
  "chr_code (CHR ''s'') = 115" "chr_code (CHR ''t'') = 116" "chr_code (CHR ''u'') = 117" "chr_code (CHR ''v'') = 118"
  "chr_code (CHR ''w'') = 119"
  by code_simp+

lemmas option_numbers = OPT_SCTP_def OPT_LOGFILE_def OPT_GET_SERVER_OUTPUT_def OPT_UDP_COUNTERS_64BIT_def OPT_CLIENT_PORT_def
  OPT_NUMSTREAMS_def OPT_FORCEFLUSH_def OPT_NO_FQ_SOCKET_PACING_def OPT_FQ_RATE_def OPT_DSCP_def OPT_PACING_TIMER_def
  OPT_CONNECT_TIMEOUT_def OPT_REPEATING_PAYLOAD_def OPT_EXTRA_DATA_def OPT_BIDIRECTIONAL_def option_codes

lemmas switch = option_case_def opt_of_def options_general_def options_load_def options_socket_def options_rest_def option_numbers

lemmas asked = asked_cli_def asked_test_def asked_settings_def asked_mode_def new_cli_def iperf_defaults_def iperf_new_test_def set_protocol_def
  check_sender_has_retransmits_def Let_def

definition takes :: "nat \<Rightarrow> double \<Rightarrow> request list \<Rightarrow> request \<Rightarrow> bool" where
  "takes w n0 rs r \<longleftrightarrow> option_case w n0 (opt_of r) (asked_cli rs) = Go (asked_cli (rs @ [r]))"

lemmas handlers = switch with_arg_def no_arg_def with_size_def client_only_def on_cli_def on_cfg_def

lemma tos_nat: "32 \<le> w \<Longrightarrow> n \<le> 255 \<Longrightarrow> set_tos w (nat_str n) c = client_only (on_cfg (\<lambda>k. k\<lparr>cfg_tos := int n\<rparr>) c)"
proof -
  assume w: "32 \<le> w" and n: "n \<le> 255"
  have "(2 :: int) ^ 31 \<le> 2 ^ (w - 1)" using w by (intro power_increasing) auto
  then have "strtol0 w (nat_str n) = (int n, [])" using w n by (simp add: strtol0_nat)
  moreover have "[] \<noteq> nat_str n" using nat_str_nonempty [of n] by metis
  moreover have "c_int (int n) = int n" using n by (simp add: c_int_id)
  ultimately show ?thesis using n by (simp add: set_tos_def Let_def)
qed

lemma takes_general:
  assumes "32 \<le> w"
  shows "in_range (Port n) \<Longrightarrow> takes w n0 rs (Port n)" "in_range (Format f) \<Longrightarrow> takes w n0 rs (Format f)"
    "takes w n0 rs Json" "takes w n0 rs Verbose" "takes w n0 rs Debug" "takes w n0 rs (Logfile s)" "takes w n0 rs Forceflush"
  using assms by (simp_all add: takes_def handlers port_of_def atoi_nat set_format_def unit_formats_def asked)

lemma takes_socket:
  assumes "32 \<le> w"
  shows "takes w n0 rs (Bind s)" "in_range (Cport n) \<Longrightarrow> takes w n0 rs (Cport n)" "in_range (Mss n) \<Longrightarrow> takes w n0 rs (Mss n)"
    "takes w n0 rs No_delay" "takes w n0 rs Version4" "takes w n0 rs Version6" "takes w n0 rs (Extra_data s)"
    "takes w n0 rs Zerocopy" "takes w n0 rs Repeating_payload" "in_range (Omit n) \<Longrightarrow> takes w n0 rs (Omit n)"
    "in_range (Tos n) \<Longrightarrow> takes w n0 rs (Tos n)"
  using assms
  by (simp_all add: takes_def handlers port_of_def set_mss_option_def set_omit_def tos_nat
      atoi_nat MAX_MSS_def has_sendfile_def asked)

lemma takes_rest:
  shows "takes w n0 rs (File s)" "takes w n0 rs (Title s)" "takes w n0 rs Get_server_output" "takes w n0 rs Udp_counters_64bit"
  by (simp_all add: takes_def handlers asked)

lemma word_to_int: "n < 2 ^ 31 \<Longrightarrow> c_int (uint (of_nat n :: u64)) = int n"
proof -
  assume n: "n < 2 ^ 31"
  then have "int n < 2 ^ 31" by (metis of_nat_less_iff of_nat_numeral of_nat_power)
  moreover from this have "uint (of_nat n :: u64) = int n" by (simp add: uint_nat unat_of_nat take_bit_nat_eq_self n)
  ultimately show ?thesis by (simp add: c_int_id)
qed

lemma interval_nat:
  assumes "n \<le> 60"
  shows "set_interval (nat_str n) c = Go (on_cli (\<lambda>t. t\<lparr>t_stats_interval := Fin (of_nat n), t_reporter_interval := Fin (of_nat n)\<rparr>) c)"
proof -
  have "rnd (1 / 10) \<le> 1" using repr_int [of 1] by (auto intro: rnd_le)
  then have "0 < n \<Longrightarrow> rnd (1 / 10) \<le> rat_of_nat n" by (metis One_nat_def Suc_leI of_nat_1 of_nat_le_iff order_trans)
  moreover have "rat_of_nat n \<le> 60" using assms by (metis of_nat_le_iff of_nat_numeral)
  moreover have "atof (nat_str n) = Fin (of_nat n)" using assms scan_nat_plain(2) [of n] by (simp add: atof_def)
  ultimately show ?thesis
    by (cases "n = 0") (auto simp: set_interval_def MIN_INTERVAL_def MAX_INTERVAL_def Let_def deq_def)
qed

lemma rate_nat:
  assumes "in_range (Bitrate a)"
  shows "set_rate w n0 (amount_text a) c =
    client_only (on_cfg (\<lambda>k. k\<lparr>cfg_rate := of_nat (amount_val 1000 a)\<rparr>) (c\<lparr>a_rate_flag := True\<rparr>))"
proof -
  have "CHR ''/'' \<notin> set (nat_str n)" for n using nat_str_digits [of n] by (auto simp: isdigit_def chr_code_def)
  then have "CHR ''/'' \<notin> set (amount_text a)"
    using assms by (cases a rule: amount_text.cases) (auto simp: unit_suffix_def)
  then have tw: "takeWhile (\<lambda>x. x \<noteq> CHR ''/'') (amount_text a) = amount_text a" "dropWhile (\<lambda>x. x \<noteq> CHR ''/'') (amount_text a) = []"
    by (auto simp: takeWhile_eq_all_conv dropWhile_eq_Nil_conv)
  then show ?thesis using amount_rate [of a n0] assms by (simp add: set_rate_def tw)
qed

lemma window_nat:
  assumes "in_range (Window a)"
  shows "set_window n0 (amount_text a) c = client_only (on_cfg (\<lambda>k. k\<lparr>cfg_socket_bufsize := int (amount_val 1024 a)\<rparr>) c)"
proof -
  have v: "amount_val 1024 a \<le> 536870912" using assms by simp
  then have "rat_of_nat (amount_val 1024 a) \<le> 536870912" by (metis of_nat_le_iff of_nat_numeral)
  moreover have "d_of_int MAX_TCP_BUFFER = Fin 536870912" by code_simp
  ultimately show ?thesis using amount_window(1) [of a n0] amount_window(2) [of a] assms v by (simp add: set_window_def)
qed

lemma takes_sizes:
  shows "in_range (Bytes a) \<Longrightarrow> takes w n0 rs (Bytes a)" "in_range (Blocks a) \<Longrightarrow> takes w n0 rs (Blocks a)"
    "in_range (Length a) \<Longrightarrow> takes w n0 rs (Length a)" "in_range (Pacing_timer a) \<Longrightarrow> takes w n0 rs (Pacing_timer a)"
    "in_range (Connect_timeout a) \<Longrightarrow> takes w n0 rs (Connect_timeout a)"
  by (simp_all add: takes_def handlers amount_size word_to_int asked)

lemma takes_load:
  assumes "32 \<le> w"
  shows "in_range (Interval n) \<Longrightarrow> takes w n0 rs (Interval n)" "in_range (Time n) \<Longrightarrow> takes w n0 rs (Time n)"
    "in_range (Parallel n) \<Longrightarrow> takes w n0 rs (Parallel n)" "in_range (Bitrate a) \<Longrightarrow> takes w n0 rs (Bitrate a)"
    "in_range (Window a) \<Longrightarrow> takes w n0 rs (Window a)"
  using assms
  by (simp_all add: takes_def handlers interval_nat rate_nat window_nat set_duration_def set_streams_def atoi_nat MAX_TIME_def
      MAX_STREAMS_def asked del: in_range.simps(4,10) amount_val.simps)

lemma protocols_differ [simp]: "Pudp \<noteq> Ptcp" "Ptcp \<noteq> Pudp"
  by (simp_all add: Pudp_def Ptcp_def SOCK_STREAM_def SOCK_DGRAM_def)

lemmas direction = takes_def handlers iperf_set_test_role_def iperf_set_test_reverse_def iperf_set_test_bidirectional_def
  iperf_modes has_tcpinfo_retransmits_def asked

lemma takes_client:
  "\<not> (Reverse \<in> set rs \<and> Bidir \<in> set rs) \<Longrightarrow> takes w n0 rs (Client h)"
  by (cases "Bidir \<in> set rs"; cases "Reverse \<in> set rs"; cases "Udp \<in> set rs"; cases "wants_client rs"; simp add: direction)

lemma takes_udp:
  "\<not> (Reverse \<in> set rs \<and> Bidir \<in> set rs) \<Longrightarrow> takes w n0 rs Udp"
  by (cases "Bidir \<in> set rs"; cases "Reverse \<in> set rs"; cases "wants_client rs"; simp add: direction)

lemma takes_reverse:
  "Bidir \<notin> set rs \<Longrightarrow> takes w n0 rs Reverse"
  by (cases "Reverse \<in> set rs"; cases "Udp \<in> set rs"; cases "wants_client rs"; simp add: direction)

lemma takes_bidir:
  "Reverse \<notin> set rs \<Longrightarrow> takes w n0 rs Bidir"
  by (cases "Bidir \<in> set rs"; cases "Udp \<in> set rs"; cases "wants_client rs"; simp add: direction)

text \<open>Every option in its range, and not both \<open>--reverse\<close> and \<open>--bidir\<close>.\<close>

definition acceptable :: "request list \<Rightarrow> bool" where
  "acceptable rs \<longleftrightarrow> list_all in_range rs \<and> \<not> (Reverse \<in> set rs \<and> Bidir \<in> set rs)"

lemma takes_request: "32 \<le> w \<Longrightarrow> acceptable (rs @ r # rs') \<Longrightarrow> takes w n0 rs r"
  by (cases r) (auto simp: acceptable_def simp del: in_range.simps
      intro: takes_general takes_socket takes_rest takes_sizes takes_load takes_client takes_udp takes_reverse takes_bidir)

lemma loop_takes:
  "32 \<le> w \<Longrightarrow> acceptable (rs @ rs') \<Longrightarrow> option_loop w n0 (map opt_of rs') (asked_cli rs) = Go (asked_cli (rs @ rs'))"
proof (induction rs' arbitrary: rs)
  case (Cons r rs')
  then have "option_case w n0 (opt_of r) (asked_cli rs) = Go (asked_cli (rs @ [r]))"
    using takes_request by (simp add: takes_def)
  then show ?case using Cons.IH [of "rs @ [r]"] Cons.prems by simp
qed simp

section \<open>The checks at the end\<close>

text \<open>The number of bytes and of blocks fit their type.\<close>

lemma wants_fit:
  assumes "list_all in_range rs"
  shows "wants_bytes rs < 2 ^ 64" "wants_blocks rs < 2 ^ 64"
proof -
  have "wants_bytes rs < 2 ^ 64 \<and> wants_blocks rs < 2 ^ 64"
    using assms
  proof (induction rs rule: rev_induct)
    case (snoc r rs)
    then show ?case by (cases r) (auto simp del: amount_val.simps)
  qed simp
  then show "wants_bytes rs < 2 ^ 64" "wants_blocks rs < 2 ^ 64" by simp_all
qed

text \<open>What is refused, with its error number, and the configuration otherwise.\<close>

definition refusal :: "request list \<Rightarrow> int option" where
  "refusal rs =
     (let n = wants_length rs; limits = (if wants_bytes rs \<noteq> 0 then 1 else 0) + (if wants_blocks rs \<noteq> 0 then 1 else 0 :: nat) +
            (if wants_time rs \<noteq> None then 1 else 0)
      in if n > 1024 * 1024 then Some IEBLOCKSIZE
         else if Udp \<in> set rs \<and> n \<noteq> 0 \<and> (n < 16 \<or> n > 65507) then Some IEUDPBLOCKSIZE
         else if limits > 1 then Some IEENDCONDITIONS
         else if wants_client rs = None then Some IENOROLE
         else None)"

definition configuration :: "request list \<Rightarrow> iperf_test" where
  "configuration rs = (asked_test rs)\<lparr>
     t_duration := (case wants_time rs of Some n \<Rightarrow> int n
        | None \<Rightarrow> if wants_bytes rs \<noteq> 0 \<or> wants_blocks rs \<noteq> 0 then 0 else 10),
     t_settings := (asked_settings rs)\<lparr>
       cfg_blksize := (if wants_length rs \<noteq> 0 then int (wants_length rs) else if Udp \<in> set rs then 0 else 128 * 1024),
       cfg_rate := (case wants_rate rs of Some n \<Rightarrow> of_nat n | None \<Rightarrow> if Udp \<in> set rs then 1024 * 1024 else 0)\<rparr>\<rparr>"

lemma asked_fields:
  "t_role (asked_test rs) = (if wants_client rs = None then CHR 0x00 else CHR ''c'')"
  "t_protocol (asked_test rs) = (if Udp \<in> set rs then Pudp else Ptcp)"
  "t_settings (asked_test rs) = asked_settings rs"
  "cfg_bytes (asked_settings rs) = of_nat (wants_bytes rs)" "cfg_blocks (asked_settings rs) = of_nat (wants_blocks rs)"
  "cfg_rate (asked_settings rs) = of_nat (case wants_rate rs of None \<Rightarrow> 0 | Some n \<Rightarrow> n)"
  "t_duration (asked_test rs) = (case wants_time rs of None \<Rightarrow> DURATION | Some n \<Rightarrow> int n)"
  "a_test (asked_cli rs) = asked_test rs" "a_blksize (asked_cli rs) = int (wants_length rs)"
  "a_duration_flag (asked_cli rs) = (wants_time rs \<noteq> None)" "a_rate_flag (asked_cli rs) = (wants_rate rs \<noteq> None)"
  "a_server_flag (asked_cli rs) = False"
  by (simp_all add: asked_cli_def asked_test_def asked_settings_def new_cli_def)

lemma asked_sizes:
  assumes "list_all in_range rs"
  shows "(of_nat (wants_bytes rs) = (0 :: u64)) = (wants_bytes rs = 0)" "(of_nat (wants_blocks rs) = (0 :: u64)) = (wants_blocks rs = 0)"
    "a_blksize (default_size (asked_cli rs)) =
      (if wants_length rs \<noteq> 0 then int (wants_length rs) else if Udp \<in> set rs then 0 else 128 * 1024)"
    "a_test (default_size (asked_cli rs)) = asked_test rs" "a_rate_flag (default_size (asked_cli rs)) = (wants_rate rs \<noteq> None)"
    "a_duration_flag (default_size (asked_cli rs)) = (wants_time rs \<noteq> None)"
proof -
  show "(of_nat (wants_bytes rs) = (0 :: u64)) = (wants_bytes rs = 0)" "(of_nat (wants_blocks rs) = (0 :: u64)) = (wants_blocks rs = 0)"
    using wants_fit [OF assms] by (auto simp: word_of_nat_eq_0_iff dest: dvd_imp_le)
qed (simp_all add: default_size_def asked_fields DEFAULT_TCP_BLKSIZE_def Psctp_def Pudp_def Ptcp_def SOCK_STREAM_def SOCK_DGRAM_def)

lemma limits_test:
  "a_test (default_limits c) = (let t = a_test c; k = t_settings t in
     t\<lparr>t_duration := (if (cfg_bytes k \<noteq> 0 \<or> cfg_blocks k \<noteq> 0) \<and> \<not> a_duration_flag c then 0 else t_duration t),
       t_settings := k\<lparr>cfg_blksize := a_blksize c,
         cfg_rate := (if a_rate_flag c then cfg_rate k else if t_protocol t = Pudp then word_of_int UDP_RATE else 0)\<rparr>\<rparr>)"
  by (auto simp: default_limits_def on_cfg_def on_cli_def Let_def intro!: iperf_test.equality)

lemma limits_of_asked:
  assumes "list_all in_range rs"
  defines "c \<equiv> default_limits (default_size (asked_cli rs))"
  shows "a_test c = configuration rs" "a_duration_flag c = (wants_time rs \<noteq> None)"
    "a_verbose c = (Verbose \<in> set rs)" "a_debug c = (Debug \<in> set rs)" "a_forceflush c = (Forceflush \<in> set rs)"
    "a_logfile c = wants_text (\<lambda>r. case r of Logfile s \<Rightarrow> Some s | _ \<Rightarrow> None) rs"
proof -
  note size = asked_sizes [OF assms(1)]
  show "a_test c = configuration rs"
    unfolding c_def limits_test size asked_fields Let_def configuration_def
    by (cases "wants_rate rs"; cases "wants_time rs") (simp_all add: UDP_RATE_def DURATION_def)
  have "a_duration_flag c = a_duration_flag (default_size (asked_cli rs))"
    by (simp add: c_def default_limits_def on_cfg_def on_cli_def Let_def)
  then show "a_duration_flag c = (wants_time rs \<noteq> None)" by (simp add: size)
qed (simp_all add: c_def default_limits_def default_size_def on_cfg_def on_cli_def Let_def asked_cli_def)

text \<open>
  C10. What a client's command line configures. For options in any order, each in its short or its long form and any of them several
  times, with every value in its range and not both \<open>--reverse\<close> and \<open>--bidir\<close>: the parser refuses a block size out of bounds, two
  ways to end the test, and a command line without \<open>--client\<close>, each with its own error number, and otherwise returns exactly
  the test that the options ask for: every field is the value of the last option for it, or its default, and the mode
  follows from \<open>--client\<close>, \<open>--reverse\<close> and \<open>--bidir\<close>.
\<close>

theorem command_line_configures:
  assumes "32 \<le> w" "acceptable (map snd lrs)"
  shows "case refusal (map snd lrs) of
      Some e \<Rightarrow> (\<exists>c. iperf_parse_arguments w n0 (command_line lrs) new_cli = Refused c \<and> i_errno (a_test c) = e)
    | None \<Rightarrow> (\<exists>c. iperf_parse_arguments w n0 (command_line lrs) new_cli = Go c \<and> a_test c = configuration (map snd lrs) \<and>
        a_verbose c = (Verbose \<in> set (map snd lrs)) \<and> a_debug c = (Debug \<in> set (map snd lrs)) \<and>
        a_forceflush c = (Forceflush \<in> set (map snd lrs)) \<and>
        a_logfile c = wants_text (\<lambda>r. case r of Logfile s \<Rightarrow> Some s | _ \<Rightarrow> None) (map snd lrs))"
proof -
  define rs where "rs = map snd lrs"
  have r: "list_all in_range rs" using assms(2) by (simp add: acceptable_def rs_def)
  have start: "new_cli\<lparr>a_blksize := 0, a_server_flag := False, a_client_flag := False, a_rate_flag := False, a_duration_flag := False\<rparr> =
      asked_cli []" by (simp add: asked)
  have "iperf_parse_arguments w n0 (command_line lrs) new_cli = check_options (asked_cli rs)"
    using loop_takes [of w "[]" rs n0] assms
    by (simp add: iperf_parse_arguments_def start getopt_command_line rs_def flip: map_map)
  moreover define c where "c = default_limits (default_size (asked_cli rs))"
  note l = limits_of_asked [OF r, folded c_def]
  have t: "t_role (configuration rs) = (if wants_client rs = None then CHR 0x00 else CHR ''c'')"
    "cfg_bytes (t_settings (configuration rs)) = of_nat (wants_bytes rs)" "cfg_blocks (t_settings (configuration rs)) = of_nat (wants_blocks rs)"
    by (simp_all add: configuration_def asked_fields)
  have "check_options (asked_cli rs) =
     (case refusal rs of Some e \<Rightarrow> refuse e (if e \<in> {IEBLOCKSIZE, IEUDPBLOCKSIZE} then default_size (asked_cli rs) else c) | None \<Rightarrow> Go c)"
    by (cases "Udp \<in> set rs"; cases "wants_time rs";
        simp add: check_options_def refusal_def Let_def asked_fields asked_sizes [OF r] c_def [symmetric] l(1,2) t MAX_BLOCKSIZE_def MB_def
        MIN_UDP_BLOCKSIZE_def MAX_UDP_BLOCKSIZE_def IEBLOCKSIZE_def IEUDPBLOCKSIZE_def IEENDCONDITIONS_def IENOROLE_def)
  ultimately show ?thesis
    using l by (auto simp: refuse_def on_cli_def split: option.split simp flip: rs_def)
qed

text \<open>\<open>iperf3 -R --client host -t 5 -uP4 ...\<close> in separate words: the last of two ports counts.\<close>

theorem command_line_configures_witness:
  "\<exists>c. iperf_parse_arguments 64 NaN (command_line [(False, Reverse), (True, Client ''host''), (False, Port 1), (False, Udp),
        (False, Bytes (Amount 3 (Some (CHR ''K'')))), (True, Parallel 4), (True, Port 5001)]) new_cli = Go c \<and>
     t_mode (a_test c) = RECEIVER \<and> t_num_streams (a_test c) = 4 \<and> cfg_bytes (t_settings (a_test c)) = 3072 \<and>
     t_server_port (a_test c) = 5001 \<and> t_duration (a_test c) = 0 \<and> t_protocol (a_test c) = Pudp"
proof -
  let ?lrs = "[(False, Reverse), (True, Client ''host''), (False, Port 1), (False, Udp),
        (False, Bytes (Amount 3 (Some (CHR ''K'')))), (True, Parallel 4), (True, Port 5001)]"
  have "acceptable (map snd ?lrs)" by (simp add: acceptable_def unit_suffix_def suffix_exp_simps)
  moreover have "refusal (map snd ?lrs) = None" by (simp add: refusal_def given_def suffix_exp_simps)
  ultimately obtain c where "iperf_parse_arguments 64 NaN (command_line ?lrs) new_cli = Go c" "a_test c = configuration (map snd ?lrs)"
    using command_line_configures [of 64 ?lrs NaN] by auto
  then show ?thesis
    by (simp add: configuration_def asked_test_def asked_settings_def asked_mode_def given_def suffix_exp_simps)
qed

end
