(* ===== verification/Errors.thy ===== *)
theory Errors
  imports Options Session
begin

text \<open>
  \<open>iperf_error.c\<close>: the message of an error number. \<open>strerror\<close> and \<open>gai_strerror\<close> of the system are parameters. The static
  buffer of 256 bytes is a string with its terminator left out; a copy that would leave it faults.
\<close>

section \<open>Error numbers\<close>

definition IELOGFILE :: int where "IELOGFILE = 17"
definition IENOSCTP :: int where "IENOSCTP = 18"
definition IEBIND :: int where "IEBIND = 19"
definition IESETCLIENTAUTH :: int where "IESETCLIENTAUTH = 22"
definition IESETSERVERAUTH :: int where "IESETSERVERAUTH = 23"
definition IENEWTEST :: int where "IENEWTEST = 100"
definition IESETFLOW :: int where "IESETFLOW = 127"
definition IENONBLOCKING :: int where "IENONBLOCKING = 129"
definition IESETWINDOWSIZE :: int where "IESETWINDOWSIZE = 130"
definition IEDAEMON :: int where "IEDAEMON = 133"
definition IESETCONGESTION :: int where "IESETCONGESTION = 134"
definition IEPIDFILE :: int where "IEPIDFILE = 135"
definition IESETSCTPDISABLEFRAG :: int where "IESETSCTPDISABLEFRAG = 137"
definition IESETSCTPNSTREAM :: int where "IESETSCTPNSTREAM = 138"
definition IESETSCTPBINDX :: int where "IESETSCTPBINDX = 139"
definition IESETPACING :: int where "IESETPACING = 140"
definition IEAUTHTEST :: int where "IEAUTHTEST = 142"
definition IESTREAMCLOSE :: int where "IESTREAMCLOSE = 207"
definition IENEWTIMER :: int where "IENEWTIMER = 300"
definition IEUPDATETIMER :: int where "IEUPDATETIMER = 301"

section \<open>Texts\<close>

text \<open>The text of an error number, and whether \<open>herr\<close> and \<open>perr\<close> are set.\<close>

definition parameter_errors :: "(int \<times> string \<times> bool \<times> bool) list" where
  "parameter_errors =
     [(IENONE, ''no error'', False, False),
      (IESERVCLIENT, ''cannot be both server and client'', False, False),
      (IENOROLE, ''must either be a client (-c) or server (-s)'', False, False),
      (IESERVERONLY, ''some option you are trying to set is server only'', False, False),
      (IECLIENTONLY, ''some option you are trying to set is client only'', False, False),
      (IEDURATION, ''test duration too long (maximum = '' @ zstr MAX_TIME @ '' seconds)'', False, False),
      (IENUMSTREAMS, ''number of parallel streams too large (maximum = '' @ zstr MAX_STREAMS @ '')'', False, False),
      (IEBLOCKSIZE, ''block size too large (maximum = '' @ zstr MAX_BLOCKSIZE @ '' bytes)'', False, False),
      (IEBUFSIZE, ''socket buffer size too large (maximum = '' @ zstr MAX_TCP_BUFFER @ '' bytes)'', False, False),
      (IEINTERVAL, ''invalid report interval (min = '' @ fmt_g 6 MIN_INTERVAL @ '', max = '' @ fmt_g 6 MAX_INTERVAL @ '' seconds)'', False, False),
      (IEBIND, ''--bind must be specified to use --cport'', False, False),
      (IEUDPBLOCKSIZE, ''block size invalid (minimum = '' @ zstr MIN_UDP_BLOCKSIZE @ '' bytes, maximum = '' @ zstr MAX_UDP_BLOCKSIZE @ '' bytes)'', False, False),
      (IEBADTOS, ''bad TOS value (must be between 0 and 255 inclusive)'', False, False),
      (IESETCLIENTAUTH, ''you must specify username (max 20 chars), password (max 20 chars) and a path to a valid public rsa client to be used'', False, False),
      (IESETSERVERAUTH, ''you must specify path to a valid private rsa server to be used and a user credential file'', False, False),
      (IEBADFORMAT, ''bad format specifier (valid formats are in the set [kmgtKMGT])'', False, False),
      (IEBADPORT, ''port number must be between 1 and 65535 inclusive'', False, False),
      (IEMSS, ''TCP MSS too large (maximum = '' @ zstr MAX_MSS @ '' bytes)'', False, False),
      (IENOSENDFILE, ''this OS does not support sendfile'', False, False),
      (IEOMIT, ''bogus value for --omit'', False, False),
      (IEUNIMP, ''an option you are trying to set is not implemented yet'', False, False),
      (IEFILE, ''unable to open -F file'', False, True),
      (IEBURST, ''invalid burst count (maximum = '' @ zstr MAX_BURST @ '')'', False, False),
      (IEENDCONDITIONS, ''only one test end condition (-t, -n, -k) may be specified'', False, False),
      (IELOGFILE, ''unable to open log file'', False, True),
      (IENOSCTP, ''no SCTP support available'', False, False)]"

definition control_errors :: "(int \<times> string \<times> bool \<times> bool) list" where
  "control_errors =
     [(IENEWTEST, ''unable to create a new test'', False, True),
      (IEINITTEST, ''test initialization failed'', False, True),
      (IEAUTHTEST, ''test authorization failed'', False, False),
      (IELISTEN, ''unable to start listener for connections'', True, True),
      (IECONNECT, ''unable to connect to server'', True, True),
      (IEACCEPT, ''unable to accept connection from client'', True, True),
      (IESENDCOOKIE, ''unable to send cookie to server'', False, True),
      (IERECVCOOKIE, ''unable to receive cookie at server'', False, True),
      (IECTRLWRITE, ''unable to write to the control socket'', False, True),
      (IECTRLREAD, ''unable to read from the control socket'', False, True),
      (IECTRLCLOSE, ''control socket has closed unexpectedly'', False, False),
      (IEMESSAGE, ''received an unknown control message'', False, False),
      (IESENDMESSAGE, ''unable to send control message'', False, True),
      (IERECVMESSAGE, ''unable to receive control message'', False, True),
      (IESENDPARAMS, ''unable to send parameters to server'', False, True),
      (IERECVPARAMS, ''unable to receive parameters from client'', False, True),
      (IEPACKAGERESULTS, ''unable to package results'', False, True),
      (IESENDRESULTS, ''unable to send results'', False, True),
      (IERECVRESULTS, ''unable to receive results'', False, True),
      (IESELECT, ''select failed'', False, True),
      (IECLIENTTERM, ''the client has terminated'', False, False),
      (IESERVERTERM, ''the server has terminated'', False, False),
      (IEACCESSDENIED, ''the server is busy running a test. try again later'', False, False)]"

definition stream_errors :: "(int \<times> string \<times> bool \<times> bool) list" where
  "stream_errors =
     [(IESETNODELAY, ''unable to set TCP/SCTP NODELAY'', False, True),
      (IESETMSS, ''unable to set TCP/SCTP MSS'', False, True),
      (IESETBUF, ''unable to set socket buffer size'', False, True),
      (IESETTOS, ''unable to set IP TOS'', False, True),
      (IESETCOS, ''unable to set IPv6 traffic class'', False, True),
      (IESETFLOW, ''unable to set IPv6 flow label'', False, False),
      (IEREUSEADDR, ''unable to reuse address on socket'', False, True),
      (IENONBLOCKING, ''unable to set socket to non-blocking'', False, True),
      (IESETWINDOWSIZE, ''unable to set socket window size'', False, True),
      (IEPROTOCOL, ''protocol does not exist'', False, False),
      (IEAFFINITY, ''unable to set CPU affinity'', False, True),
      (IEDAEMON, ''unable to become a daemon'', False, True),
      (IECREATESTREAM, ''unable to create a new stream'', True, True),
      (IEINITSTREAM, ''unable to initialize stream'', True, True),
      (IESTREAMLISTEN, ''unable to start stream listener'', True, True),
      (IESTREAMCONNECT, ''unable to connect stream'', True, True),
      (IESTREAMACCEPT, ''unable to accept stream connection'', False, True),
      (IESTREAMWRITE, ''unable to write to stream socket'', False, True),
      (IESTREAMREAD, ''unable to read from stream socket'', False, True),
      (IESTREAMCLOSE, ''stream socket has closed unexpectedly'', False, False),
      (IESTREAMID, ''stream has an invalid id'', False, False),
      (IENEWTIMER, ''unable to create new timer'', False, True),
      (IEUPDATETIMER, ''unable to update timer'', False, True),
      (IESETCONGESTION, ''unable to set TCP_CONGESTION: Supplied congestion control algorithm not supported on this host'', False, False),
      (IEPIDFILE, ''unable to write PID file'', False, True),
      (IEV6ONLY, ''Unable to set/reset IPV6_V6ONLY'', False, True),
      (IESETSCTPDISABLEFRAG, ''unable to set SCTP_DISABLE_FRAGMENTS'', False, True),
      (IESETSCTPNSTREAM, ''unable to set SCTP_INIT num of SCTP streams'' @ [CHR 0x0A], False, True),
      (IESETPACING, ''unable to set socket pacing'', False, True),
      (IESETBUF2, ''socket buffer size not set correctly'', False, False),
      (IEREVERSEBIDIR, ''cannot be both reverse and bidirectional'', False, False)]"

text \<open>The error numbers of \<open>iperf_api.h\<close>.\<close>

definition error_numbers :: "int list" where
  "error_numbers =
     [IENONE, IESERVCLIENT, IENOROLE, IESERVERONLY, IECLIENTONLY, IEDURATION, IENUMSTREAMS, IEBLOCKSIZE, IEBUFSIZE,
      IEINTERVAL, IEMSS, IENOSENDFILE, IEOMIT, IEUNIMP, IEFILE, IEBURST, IEENDCONDITIONS, IELOGFILE, IENOSCTP, IEBIND,
      IEUDPBLOCKSIZE, IEBADTOS, IESETCLIENTAUTH, IESETSERVERAUTH, IEBADFORMAT, IEREVERSEBIDIR, IEBADPORT, IENEWTEST,
      IEINITTEST, IELISTEN, IECONNECT, IEACCEPT, IESENDCOOKIE, IERECVCOOKIE, IECTRLWRITE, IECTRLREAD, IECTRLCLOSE, IEMESSAGE,
      IESENDMESSAGE, IERECVMESSAGE, IESENDPARAMS, IERECVPARAMS, IEPACKAGERESULTS, IESENDRESULTS, IERECVRESULTS, IESELECT,
      IECLIENTTERM, IESERVERTERM, IEACCESSDENIED, IESETNODELAY, IESETMSS, IESETBUF, IESETTOS, IESETCOS, IESETFLOW,
      IEREUSEADDR, IENONBLOCKING, IESETWINDOWSIZE, IEPROTOCOL, IEAFFINITY, IEDAEMON, IESETCONGESTION, IEPIDFILE, IEV6ONLY,
      IESETSCTPDISABLEFRAG, IESETSCTPNSTREAM, IESETSCTPBINDX, IESETPACING, IESETBUF2, IEAUTHTEST, IECREATESTREAM,
      IEINITSTREAM, IESTREAMLISTEN, IESTREAMCONNECT, IESTREAMACCEPT, IESTREAMWRITE, IESTREAMREAD, IESTREAMCLOSE, IESTREAMID,
      IENEWTIMER, IEUPDATETIMER]"

section \<open>The message\<close>

definition error_table :: "(int \<times> string \<times> bool \<times> bool) list" where
  "error_table = parameter_errors @ control_errors @ stream_errors"

definition error_entry :: "int \<Rightarrow> string \<times> bool \<times> bool" where
  "error_entry e = (case map_of error_table e of None \<Rightarrow> ([], False, False) | Some x \<Rightarrow> x)"

definition ERRSTR_SIZE :: nat where "ERRSTR_SIZE = 256"

text \<open>\<open>snprintf\<close> cuts the text to the buffer; \<open>strncat\<close> appends at most \<open>n\<close> characters and a terminator.\<close>

definition snprintf_text :: "nat \<Rightarrow> string \<Rightarrow> string" where
  "snprintf_text room s = take (room - 1) s"

definition strncat :: "nat \<Rightarrow> string \<Rightarrow> string \<Rightarrow> nat \<Rightarrow> string outcome" where
  "strncat room dest src n =
     (let s = dest @ take n src in if length s + 1 \<le> room then Ok s else Fault)"

definition iperf_strerror :: "(int \<Rightarrow> string) \<Rightarrow> (int \<Rightarrow> string) \<Rightarrow> int \<Rightarrow> int \<Rightarrow> int \<Rightarrow> (string \<times> int) outcome" where
  "iperf_strerror strerror gai_strerror int_errno err gerr =
     (let (msg, herr, perr) = error_entry int_errno;
          len = ERRSTR_SIZE;
          s0 = snprintf_text len msg
      in obind (if herr \<or> perr then strncat len s0 '': '' (len - length s0 - 1) else Ok s0) (\<lambda>s1.
           if err \<noteq> 0 \<and> perr
           then obind (strncat len s1 (strerror err) (len - length s1 - 1)) (\<lambda>s2. Ok (s2, gerr))
           else if herr \<and> gerr \<noteq> 0
           then obind (strncat len s1 (gai_strerror gerr) (len - length s1 - 1)) (\<lambda>s2. Ok (s2, 0))
           else Ok (s1, gerr)))"

section \<open>What is reported\<close>

definition error_cause :: "(int \<Rightarrow> string) \<Rightarrow> (int \<Rightarrow> string) \<Rightarrow> bool \<Rightarrow> bool \<Rightarrow> int \<Rightarrow> int \<Rightarrow> string" where
  "error_cause strerror gai_strerror herr perr err gerr =
     (if err \<noteq> 0 \<and> perr then strerror err else if herr \<and> gerr \<noteq> 0 then gai_strerror gerr else [])"

definition error_message :: "(int \<Rightarrow> string) \<Rightarrow> (int \<Rightarrow> string) \<Rightarrow> int \<Rightarrow> int \<Rightarrow> int \<Rightarrow> string" where
  "error_message strerror gai_strerror e err gerr =
     (let (msg, herr, perr) = error_entry e
      in take 255 (msg @ (if herr \<or> perr then '': '' else []) @ error_cause strerror gai_strerror herr perr err gerr))"

text \<open>The table as a whole: no text is empty or long, and one number is missing.\<close>

lemma table_texts: "list_all (\<lambda>(e, msg, h, p). msg \<noteq> [] \<and> length msg \<le> 120) error_table"
  by code_simp

lemma table_numbers: "filter (\<lambda>e. e \<notin> set (map fst error_table)) error_numbers = [IESETSCTPBINDX]"
  by code_simp

lemma table_lookup: "map_of error_table e = Some (msg, h, p) \<Longrightarrow> msg \<noteq> [] \<and> length msg \<le> 120"
  using table_texts by (fastforce simp: list_all_iff dest: map_of_SomeD)

lemma entry_short: "error_entry e = (msg, h, p) \<Longrightarrow> length msg \<le> 120"
  using table_lookup [of e msg h p] by (auto simp: error_entry_def split: option.splits)

lemma entry_empty: "fst (error_entry e) = [] \<longleftrightarrow> e \<notin> set (map fst error_table)"
proof (cases "map_of error_table e")
  case None
  then have "e \<notin> set (map fst error_table)" by (simp add: map_of_eq_None_iff)
  then show ?thesis using None by (simp add: error_entry_def)
next
  case (Some x)
  moreover obtain msg h p where "x = (msg, h, p)" by (cases x)
  ultimately show ?thesis
    using table_lookup [of e msg h p] map_of_SomeD [OF Some] by (force simp: error_entry_def)
qed

text \<open>
  C35. The message of every error number, whatever the texts of the system: it is the text of the number, a colon where a cause
  belongs to it and the cause, cut to the 255 characters that fit the buffer, which is never left. The texts themselves are
  never cut, and every number of \<open>iperf_api.h\<close> but one has a text.
\<close>

theorem strerror_equals:
  "(\<exists>g. iperf_strerror se ge e err gerr = Ok (error_message se ge e err gerr, g)) \<and>
   length (error_message se ge e err gerr) < ERRSTR_SIZE \<and>
   take (length (fst (error_entry e))) (error_message se ge e err gerr) = fst (error_entry e) \<and>
   filter (\<lambda>e. fst (error_entry e) = []) error_numbers = [IESETSCTPBINDX]"
proof -
  obtain msg h p where e: "error_entry e = (msg, h, p)" by (cases "error_entry e") auto
  note short = entry_short [OF e]
  have "filter (\<lambda>e. fst (error_entry e) = []) error_numbers = [IESETSCTPBINDX]"
    unfolding entry_empty by (rule table_numbers)
  moreover have "take (length msg) (take 255 (msg @ xs)) = msg" for xs using short by simp
  moreover have "\<exists>g. iperf_strerror se ge e err gerr = Ok (error_message se ge e err gerr, g)"
    using short
    by (auto simp: iperf_strerror_def error_message_def error_cause_def e ERRSTR_SIZE_def snprintf_text_def strncat_def Let_def min_def)
  moreover obtain xs where "error_message se ge e err gerr = take 255 (msg @ xs)"
    by (simp only: error_message_def e Let_def prod.case)
  moreover have "length (take 255 (msg @ xs)) < 256" for xs by (simp only: length_take)
  ultimately show ?thesis using e unfolding ERRSTR_SIZE_def by (metis fst_conv)
qed

text \<open>
  A failed name resolution is shown with the stale \<open>errno\<close> of an earlier call instead of its own cause, which
  stays in \<open>gerror\<close> for a later message.
\<close>

lemma stale_errno_hides_resolver:
  "iperf_strerror (\<lambda>_. ''stale'') (\<lambda>_. ''unknown host'') IECONNECT 11 (-2) =
     Ok (''unable to connect to server: stale'', -2)"
  by code_simp

end
