(* ===== verification/Results_Laws.thy ===== *)
theory Results_Laws
  imports Exchange_Laws Stats
begin

text \<open>
  The exchange of results, from end to end: what one side reports about its streams over a reliable
  byte stream is what the other side stores with the streams of the same numbers.
\<close>

section \<open>The room of an item\<close>

primrec room :: "cJSON \<Rightarrow> nat" where
  "room (Item t vs vi vd s cs) = 32 + 6 * length (str_of vs) + 6 * length (str_of s) + sum_list (map room cs)"

definition key_room :: "cJSON \<Rightarrow> nat" where
  "key_room c = 6 * length (str_of (jstring c)) + 4"

lemma elems_room:
  assumes "\<And>c t. c \<in> set cs \<Longrightarrow> sp c = Some t \<Longrightarrow> length t + key_room c \<le> room c" "elems_spec False sp cs = Some r"
  shows "length r \<le> sum_list (map room cs)"
  using assms
proof (induction cs arbitrary: r)
  case (Cons c cs)
  obtain t q where "sp c = Some t" "elems_spec False sp cs = Some q" "length r \<le> length t + 1 + length q"
    using Cons.prems(2) by (auto split: option.splits if_splits)
  moreover from this have "length q \<le> sum_list (map room cs)" using Cons by auto
  moreover have "length t + key_room c \<le> room c" using Cons.prems(1) calculation(1) by simp
  ultimately show ?case by (simp add: key_room_def)
qed simp

lemma members_all_room:
  assumes "\<And>c t. c \<in> set cs \<Longrightarrow> sp c = Some t \<Longrightarrow> length t + key_room c \<le> room c" "members_spec False d sp cs = Some r"
  shows "length r \<le> sum_list (map room cs)"
  using assms
proof (induction cs arbitrary: r)
  case (Cons c cs)
  obtain t q where "sp c = Some t" "members_spec False d sp cs = Some q"
      "length r \<le> length (quoted (jstring c)) + length t + 2 + length q"
    using Cons.prems(2) by (auto split: option.splits if_splits)
  moreover from this have "length q \<le> sum_list (map room cs)" using Cons by auto
  moreover have "length t + key_room c \<le> room c" using Cons.prems(1) calculation(1) by simp
  moreover have "length (quoted (jstring c)) \<le> 6 * length (str_of (jstring c)) + 2"
    using quoted_length [of "jstring c"] by (cases "jstring c") simp_all
  ultimately show ?case by (simp add: key_room_def)
qed simp

lemma room_parts:
  "room item = 32 + 6 * length (str_of (valuestring item)) + 6 * length (str_of (jstring item)) + sum_list (map room (child item))"
  by (cases item) simp

lemma text_room: "print_spec False d item = Some t \<Longrightarrow> length t + key_room item \<le> room item"
proof (induction item arbitrary: d t rule: item_induct)
  case (1 item)
  have q: "length (quoted (valuestring item)) \<le> 6 * length (str_of (valuestring item)) + 2"
    using quoted_length [of "valuestring item"] by (cases "valuestring item") simp_all
  have "length t \<le> 28 + 6 * length (str_of (valuestring item)) + sum_list (map room (child item))"
  proof (cases rule: kind_cases [of item])
    case array
    then obtain r where r: "elems_spec False (print_spec False (d + 1)) (child item) = Some r" "length t = length r + 2"
      using 1(2) by (auto simp: print_spec_kind)
    have "length r \<le> sum_list (map room (child item))" by (rule elems_room [OF _ r(1)]) (rule 1(1))
    then show ?thesis using r(2) by simp
  next
    case object
    then obtain r where r: "members_spec False (d + 1) (print_spec False (d + 1)) (child item) = Some r" "length t = length r + 2"
      using 1(2) by (auto simp: print_spec_kind)
    have "length r \<le> sum_list (map room (child item))" by (rule members_all_room [OF _ r(1)]) (rule 1(1))
    then show ?thesis using r(2) by simp
  qed (use 1(2) q in \<open>auto simp: print_spec_kind split: if_splits\<close>)
  then show ?case by (simp add: key_room_def room_parts [of item])
qed

text \<open>An object that fits is printed, and its text read back.\<close>

lemma object_text:
  assumes "\<forall>c \<in> set es. c_strings c" "\<forall>c \<in> set es. printable 10 c" "sum_list (map room es) \<le> 2 ^ 30"
  obtains body where "cJSON_PrintUnformatted mem (object_of es) = Ok body" "no_nul body"
    "length body < 2 ^ 31 - 1" "cJSON_Parse (\<lambda>_. mem) (Some body) = Some (object_of (map reparse es))"
proof -
  let ?o = "object_of es"
  have k: "kind ?o = cJSON_Object" by (simp add: object_of_def json_types)
  have cs: "c_strings ?o" using assms(1) by (simp add: object_of_def opt_no_nul_def list_all_iff)
  have "printable (Suc 10) ?o" unfolding printable.simps(2) using assms(2) k by (simp add: object_of_def)
  then have pr: "printable CJSON_NESTING_LIMIT ?o" by (rule printable_mono) (simp add: CJSON_NESTING_LIMIT_def)
  have len: "length t \<le> 2 ^ 30 + 32" if "print_spec False 0 ?o = Some t" for t
    using text_room [OF that] assms(3) by (simp add: object_of_def key_room_def)
  obtain t0 where "print_spec False 0 ?o = Some t0" using printable_prints[OF pr] by blast
  then have "length (the (print_spec False 0 ?o)) + 2 \<le> size_limit"
    using len by (fastforce simp: size_limit_val)
  from print_then_parse[OF cs pr this] obtain t where t: "print_spec False 0 ?o = Some t" "print mem ?o False = Ok t"
      "cJSON_Parse (\<lambda>_. mem) (Some t) = Some (set_string None (reparse ?o))" by blast
  show thesis
  proof (rule that)
    show "cJSON_PrintUnformatted mem ?o = Ok t" using t(2) by (simp add: cJSON_PrintUnformatted_def)
    show "no_nul t" using print_spec_no_nul cs t(1) by blast
    show "length t < 2 ^ 31 - 1" using len[OF t(1)] by simp
    show "cJSON_Parse (\<lambda>_. mem) (Some t) = Some (object_of (map reparse es))"
      using t(3) by (simp add: object_of_def json_types)
  qed
qed

section \<open>The results as an object\<close>

definition reported_bytes :: "iperf_stream \<Rightarrow> u64" where
  "reported_bytes sp = (if sp_sender sp then res_bytes_sent (sp_result sp) - res_bytes_sent_omit (sp_result sp)
     else res_bytes_received (sp_result sp))"

definition reported_retransmits :: "iperf_test \<Rightarrow> iperf_stream \<Rightarrow> int" where
  "reported_retransmits p sp = (if sp_sender sp \<and> t_sender_has_retransmits p \<noteq> 0 then res_stream_retrans (sp_result sp) else -1)"

definition time_between :: "iperf_time \<Rightarrow> iperf_time \<Rightarrow> double" where
  "time_between a b = iperf_time_in_secs (snd (iperf_time_diff a b))"

definition finite_double :: "double \<Rightarrow> bool" where
  "finite_double d \<longleftrightarrow> is_fin d \<and> dbl_ok d"

text \<open>Results that the text carries exactly, and whose text fits.\<close>

definition valid_stream :: "iperf_test \<Rightarrow> iperf_stream \<Rightarrow> bool" where
  "valid_stream p sp \<longleftrightarrow>
     list_all in_int [sp_id sp, sp_cnt_error sp, sp_packet_count sp, reported_retransmits p sp] \<and>
     uint (reported_bytes sp) \<le> 2 ^ 53 \<and> finite_double (sp_jitter sp)"

definition valid_results :: "iperf_test \<Rightarrow> bool" where
  "valid_results p \<longleftrightarrow>
     (case t_cpu_util p of (tot, user, system) \<Rightarrow> list_all finite_double [tot, user, system]) \<and>
     in_int (t_sender_has_retransmits p) \<and> valid_opt (t_congestion_used p) \<and>
     length (t_streams p) \<le> 2 ^ 16 \<and> list_all (valid_stream p) (t_streams p) \<and>
     (t_role p \<noteq> CHR ''s'' \<or> t_get_server_output p = 0)"

lemma stream_fields_alt:
  "stream_fields p sp =
     [(True, ''id'', JNumber (d_of_int (sp_id sp))), (True, ''bytes'', JNumber (d_of_u64 (reported_bytes sp))),
      (True, ''retransmits'', JNumber (d_of_int (reported_retransmits p sp))), (True, ''jitter'', JNumber (sp_jitter sp)),
      (True, ''errors'', JNumber (d_of_int (sp_cnt_error sp))), (True, ''packets'', JNumber (d_of_int (sp_packet_count sp))),
      (True, ''start_time'', JNumber (time_between (res_start_time (sp_result sp)) (res_start_time (sp_result sp)))),
      (True, ''end_time'', JNumber (time_between (res_start_time (sp_result sp)) (res_end_time (sp_result sp))))]"
  by (simp add: stream_fields_def reported_bytes_def reported_retransmits_def time_between_def Let_def)

lemma time_valid: "valid_value (JNumber (time_between a b))"
proof -
  have "(2 :: rat) ^ 33 \<le> dbl_max" by code_simp
  then show ?thesis
    using transit_range [of "snd (iperf_time_diff a b)"] by (simp add: time_between_def between_def dbl_ok_def)
qed

lemma u64_valid: "uint w \<le> 2 ^ 53 \<Longrightarrow> valid_value (JNumber (d_of_u64 w))"
  unfolding d_of_u64_def by (rule number_valid) simp

lemma int_valid: "in_int n \<Longrightarrow> valid_value (JNumber (d_of_int n))"
  by (rule number_valid) (auto simp: in_int_def)

lemma stream_names: "list_all no_nul (map (\<lambda>(b, name, v). name) (stream_fields p sp))"
  "keys_apart (stream_fields p sp)"
proof -
  have "list_all no_nul [''id'', ''bytes'', ''retransmits'', ''jitter'', ''errors'', ''packets'', ''start_time'', ''end_time'']"
    "distinct (map (map tolower) [''id'', ''bytes'', ''retransmits'', ''jitter'', ''errors'', ''packets'', ''start_time'', ''end_time''])"
    by code_simp+
  then show "list_all no_nul (map (\<lambda>(b, name, v). name) (stream_fields p sp))" "keys_apart (stream_fields p sp)"
    by (simp_all add: stream_fields_alt keys_apart_def del: distinct.simps)
qed

lemma stream_valid: "valid_stream p sp \<Longrightarrow> valid_fields (stream_fields p sp)"
  using stream_names(1) [of p sp]
  by (auto simp: valid_fields_def stream_fields_alt valid_stream_def finite_double_def int_valid u64_valid time_valid
      simp del: valid_value.simps(2)) (auto simp: finite_double_def)

lemma head_valid: "valid_results p \<Longrightarrow> valid_fields (results_head p)"
proof -
  assume p: "valid_results p"
  have "list_all no_nul [''cpu_util_total'', ''cpu_util_user'', ''cpu_util_system'', ''sender_has_retransmits'', ''congestion_used'']"
    by code_simp
  moreover have "in_int (if t_mode p = RECEIVER then -1 else t_sender_has_retransmits p)"
    using p by (simp add: valid_results_def in_int_def)
  ultimately show ?thesis
    using p int_valid
    by (auto simp: valid_fields_def results_head_def opt_field_def valid_results_def finite_double_def valid_opt_def
        split: option.splits prod.splits simp del: valid_value.simps(2)) (auto simp: finite_double_def)
qed

lemma keys_apart_names: "keys_apart fs \<longleftrightarrow> distinct (map (map tolower) (map (\<lambda>(b, name, v). name) fs))"
  by (simp add: keys_apart_def case_prod_unfold comp_def)

lemma head_apart: "keys_apart (results_head p @ [(True, ''streams'', JTrue)])"
proof -
  have "map (\<lambda>(b, name, v). name) (results_head p @ [(True, ''streams'', JTrue)]) =
      [''cpu_util_total'', ''cpu_util_user'', ''cpu_util_system'', ''sender_has_retransmits'', ''congestion_used'', ''streams'']"
    by (simp add: results_head_def opt_field_def split: prod.split)
  moreover have "distinct (map (map tolower)
      [''cpu_util_total'', ''cpu_util_user'', ''cpu_util_system'', ''sender_has_retransmits'', ''congestion_used'', ''streams''])"
    by code_simp
  ultimately show ?thesis by (simp only: keys_apart_names)
qed

text \<open>The member with the reports of the streams.\<close>

definition stream_items :: "iperf_test \<Rightarrow> cJSON" where
  "stream_items p = Item cJSON_Array None 0 (Fin 0) (Some ''streams'')
     (map (\<lambda>sp. object_of (items (stream_fields p sp))) (t_streams p))"

lemma streams_json_alt:
  "streams_json p = Some (Item cJSON_Array None 0 (Fin 0) None (map (\<lambda>sp. object_of (items (stream_fields p sp))) (t_streams p)))"
proof -
  have "fold (\<lambda>sp arr. cJSON_AddItemToArray arr (add_fields (stream_fields p sp) (cJSON_CreateObject mem))) sps
      (Some (Item cJSON_Array None 0 (Fin 0) None cs)) =
    Some (Item cJSON_Array None 0 (Fin 0) None (cs @ map (\<lambda>sp. object_of (items (stream_fields p sp))) sps))" for sps cs
    by (induction sps arbitrary: cs) (simp_all add: cJSON_AddItemToArray_def create_object add_fields_object)
  then show ?thesis by (simp add: streams_json_def cJSON_CreateArray_def)
qed

lemma results_json_alt:
  assumes "valid_results p"
  shows "results_json p = Ok (Some (object_of (items (results_head p) @ [stream_items p])))"
proof -
  have "add_server_output p (add_fields (results_head p) (cJSON_CreateObject mem)) = Ok (Some (object_of (items (results_head p))))"
    using assms by (auto simp: add_server_output_def create_object add_fields_object valid_results_def)
  then show ?thesis
    by (simp add: results_json_def streams_json_alt cJSON_AddItemToObject_def cJSON_AddItemToArray_def cJSON_strdup_def object_of_def
        stream_items_def json_types)
qed

lemma stream_room: "room (object_of (items (stream_fields p sp))) \<le> 1000"
  by (simp add: object_of_def items_def stream_fields_alt)

lemma results_room:
  assumes "valid_results p"
  shows "sum_list (map room (items (results_head p) @ [stream_items p])) \<le> 2 ^ 30"
proof -
  have "sum_list (map room (map (\<lambda>sp. object_of (items (stream_fields p sp))) sps)) \<le> length sps * 1000" for sps
    by (induction sps) (use stream_room [of p] in \<open>auto intro: add_mono\<close>)
  note this [of "t_streams p"]
  also have "length (t_streams p) * 1000 \<le> 2 ^ 16 * 1000" using assms by (intro mult_right_mono) (simp_all add: valid_results_def)
  finally have "room (stream_items p) \<le> 2 ^ 16 * 1000 + 100"
    by (simp add: stream_items_def)
  moreover have "sum_list (map room (items (results_head p))) \<le> 6 * 2 ^ 24 + 1000"
    using assms by (auto simp: items_def results_head_def opt_field_def valid_results_def valid_opt_def split: prod.split option.splits)
  ultimately show ?thesis by simp
qed

lemma results_text:
  assumes "valid_results p"
  obtains body where "cJSON_PrintUnformatted mem (object_of (items (results_head p) @ [stream_items p])) = Ok body" "no_nul body"
    "length body < 2 ^ 31 - 1"
    "cJSON_Parse (\<lambda>_. mem) (Some body) = Some (object_of (map reparse (items (results_head p) @ [stream_items p])))"
proof -
  note h = items_facts [OF head_valid [OF assms]]
  have s: "\<forall>c \<in> set (items (stream_fields p sp)). c_strings c" "\<forall>c \<in> set (items (stream_fields p sp)). scalar c"
    if "sp \<in> set (t_streams p)" for sp
    using items_facts [OF stream_valid, of p sp] that assms by (auto simp: valid_results_def list_all_iff)
  have "no_nul ''streams''" by code_simp
  then have "c_strings (stream_items p)"
    using s(1) by (auto simp: stream_items_def object_of_def opt_no_nul_def list_all_iff)
  moreover have flat: "printable (Suc n) (object_of (items (stream_fields p sp)))" if "sp \<in> set (t_streams p)" for sp n
    using s(2) [OF that] printable_mono [of 0] by (fastforce simp: object_of_def json_types)
  have "printable (Suc (Suc 8)) (stream_items p)"
    unfolding printable.simps(2) [of "Suc 8"] using flat [of _ 8] by (auto simp: stream_items_def json_types)
  moreover have "\<forall>c \<in> set (items (results_head p)). printable 10 c" using h(2) printable_mono [of 0] by simp
  ultimately show thesis
    using object_text [of "items (results_head p) @ [stream_items p]"] h(1) results_room [OF assms] that by auto
qed

section \<open>Reading the results\<close>

text \<open>Looking up a member behind fields of other names.\<close>

lemma find_key_append:
  "find_key False name (xs @ ys) = (if find_key False name xs = Some None then find_key False name ys else find_key False name xs)"
  by (induction xs) auto

lemma lookup_missing:
  assumes "keys_apart fs" "valid_fields fs" "no_nul name" "map tolower name \<notin> set (map (map tolower) (map (\<lambda>(b, k, v). k) fs))"
  shows "find_key False name (map reparse (items fs)) = Some None"
proof -
  have "find (\<lambda>(b, k, v). map tolower k = map tolower name) fs = None"
    using assms(4) by (force simp: find_None_iff)
  then show ?thesis using find_key_fields [OF assms(1-3)] by (simp add: items_facts(3) [OF assms(2)])
qed

lemma lookup_before:
  assumes "keys_apart fs" "valid_fields fs" "(b, name, v) \<in> set fs"
  shows "find_key False name (map reparse (items fs)) = Some (if b then Some (read_item name v) else None)"
proof -
  have "no_nul name" using assms(2,3) by (auto simp: valid_fields_def)
  then show ?thesis
    using find_key_fields [OF assms(1,2)] find_apart [OF assms(1,3)] by (simp add: items_facts(3) [OF assms(2)])
qed

text \<open>The members of the parsed results.\<close>

definition parsed_results :: "iperf_test \<Rightarrow> cJSON" where
  "parsed_results p = object_of (map reparse (items (results_head p) @ [stream_items p]))"

definition parsed_stream :: "iperf_test \<Rightarrow> iperf_stream \<Rightarrow> cJSON" where
  "parsed_stream p sp = object_of (map reparse (items (stream_fields p sp)))"

definition parsed_streams :: "iperf_test \<Rightarrow> cJSON" where
  "parsed_streams p = Item cJSON_Array None 0 (Fin 0) (Some ''streams'') (map (parsed_stream p) (t_streams p))"

lemma reparse_streams: "reparse (stream_items p) = parsed_streams p"
  by (simp add: stream_items_def parsed_streams_def parsed_stream_def object_of_def json_types)

lemma parsed_lookup:
  "cJSON_GetObjectItem (Some (parsed_results p)) (Some name) =
     the (find_key False name (map reparse (items (results_head p)) @ [parsed_streams p]))"
proof -
  obtain r where "find_key False name (map reparse (items (results_head p)) @ [parsed_streams p]) = Some r"
    using find_key_ci by blast
  then show ?thesis
    by (simp add: cJSON_GetObjectItem_def get_object_item_def parsed_results_def object_of_def reparse_streams)
qed

lemma head_names: "map (\<lambda>(b, name, v). name) (results_head p) =
    [''cpu_util_total'', ''cpu_util_user'', ''cpu_util_system'', ''sender_has_retransmits'', ''congestion_used'']"
  by (simp add: results_head_def opt_field_def split: prod.split)

lemma head_keys: "keys_apart (results_head p)"
  using head_apart [of p] by (simp add: keys_apart_def)

lemma parsed_head:
  assumes "valid_results p" "(True, name, v) \<in> set (results_head p)"
  shows "cJSON_GetObjectItem (Some (parsed_results p)) (Some name) = Some (read_item name v)"
  using lookup_before [OF head_keys head_valid [OF assms(1)] assms(2)] by (simp add: parsed_lookup find_key_append)

lemma parsed_behind:
  assumes "valid_results p"
  shows "cJSON_GetObjectItem (Some (parsed_results p)) (Some ''streams'') = Some (parsed_streams p)"
    "cJSON_GetObjectItem (Some (parsed_results p)) (Some ''server_output_json'') = None"
    "cJSON_GetObjectItem (Some (parsed_results p)) (Some ''server_output_text'') = None"
    "t_congestion_used p = None \<Longrightarrow> cJSON_GetObjectItem (Some (parsed_results p)) (Some ''congestion_used'') = None"
proof -
  note miss = lookup_missing [OF head_keys head_valid [OF assms], unfolded head_names]
  have names: "list_all (\<lambda>n. no_nul n \<and> map tolower n \<notin> set (map (map tolower)
      [''cpu_util_total'', ''cpu_util_user'', ''cpu_util_system'', ''sender_has_retransmits'', ''congestion_used'']))
      [''streams'', ''server_output_json'', ''server_output_text'']" by code_simp
  have keys: "ci_cmp ''streams'' ''streams'' = 0" "ci_cmp ''server_output_json'' ''streams'' \<noteq> 0"
    "ci_cmp ''server_output_text'' ''streams'' \<noteq> 0" "ci_cmp ''congestion_used'' ''streams'' \<noteq> 0" by code_simp+
  have m: "find_key False n (map reparse (items (results_head p))) = Some None"
    if "n \<in> {''streams'', ''server_output_json'', ''server_output_text''}" for n
    using names that by (intro miss) auto
  note look = parsed_lookup find_key_append parsed_streams_def case_insensitive_strcmp_def keys
  show "cJSON_GetObjectItem (Some (parsed_results p)) (Some ''streams'') = Some (parsed_streams p)"
    using m [of "''streams''"] by (simp add: look del: ci_cmp.simps)
  show "cJSON_GetObjectItem (Some (parsed_results p)) (Some ''server_output_json'') = None"
    using m [of "''server_output_json''"] by (simp add: look del: ci_cmp.simps)
  show "cJSON_GetObjectItem (Some (parsed_results p)) (Some ''server_output_text'') = None"
    using m [of "''server_output_text''"] by (simp add: look del: ci_cmp.simps)
  show "cJSON_GetObjectItem (Some (parsed_results p)) (Some ''congestion_used'') = None" if "t_congestion_used p = None"
  proof -
    have "opt_field ''congestion_used'' (t_congestion_used p) \<in> set (results_head p)"
      by (cases "t_cpu_util p") (simp add: results_head_def)
    then show ?thesis using that lookup_before [OF head_keys head_valid [OF assms]] by (fastforce simp: look opt_field_def simp del: ci_cmp.simps)
  qed
qed

text \<open>What a stream of the receiver becomes by the report of the sender about the stream of the same number.\<close>

definition elapsed_time :: "iperf_stream \<Rightarrow> double" where
  "elapsed_time sp = (let rp = sp_result sp in
     dsub (time_between (res_start_time rp) (res_end_time rp)) (time_between (res_start_time rp) (res_start_time rp)))"

definition report :: "iperf_test \<Rightarrow> iperf_stream \<Rightarrow> iperf_stream \<Rightarrow> iperf_stream" where
  "report p sp s =
     (if sp_sender s then
        s\<lparr>sp_jitter := sp_jitter sp, sp_cnt_error := sp_cnt_error sp, sp_peer_packet_count := sp_packet_count sp,
          sp_result := (sp_result s)\<lparr>res_bytes_received := reported_bytes sp, res_receiver_time := elapsed_time sp\<rparr>\<rparr>
      else
        s\<lparr>sp_peer_packet_count := sp_packet_count sp,
          sp_result := (sp_result s)\<lparr>res_bytes_sent := reported_bytes sp, res_stream_retrans := reported_retransmits p sp,
                                     res_sender_time := elapsed_time sp\<rparr>\<rparr>)"

lemma report_id [simp]: "sp_id (report p sp s) = sp_id s"
  by (simp add: report_def)

lemma apply_report_report:
  "apply_report (sp_packet_count sp) (reported_bytes sp) (reported_retransmits p sp) (sp_jitter sp) (sp_cnt_error sp)
     (dsub (time_between (res_start_time (sp_result sp)) (res_end_time (sp_result sp)))
        (time_between (res_start_time (sp_result sp)) (res_start_time (sp_result sp)))) = report p sp"
  by (simp add: fun_eq_iff apply_report_def report_def elapsed_time_def Let_def)

lemma saturate_u64: "uint w \<le> 2 ^ 53 \<Longrightarrow> word_of_int (saturate (d_of_u64 w)) = w"
  unfolding d_of_u64_def by (subst saturate_int) simp_all

lemma parsed_stream_field:
  assumes "valid_stream p sp" "(True, name, v) \<in> set (stream_fields p sp)"
  shows "cJSON_GetObjectItem (Some (parsed_stream p sp)) (Some name) = Some (read_item name v)"
  using lookup_field [OF stream_names(2) stream_valid [OF assms(1)] assms(2)] by (simp add: parsed_stream_def)

lemma read_stream:
  assumes "valid_stream p sp"
  shows "get_stream_result (Some (parsed_stream p sp)) (r, t) =
     (case update_stream (sp_id sp) (report p sp) (t_streams t) of
        None \<Rightarrow> (-1, t\<lparr>i_errno := IESTREAMID\<rparr>) | Some sps \<Rightarrow> (r, t\<lparr>t_streams := sps\<rparr>))"
proof -
  note f = parsed_stream_field [OF assms]
  have mem: "(True, ''id'', JNumber (d_of_int (sp_id sp))) \<in> set (stream_fields p sp)"
    "(True, ''bytes'', JNumber (d_of_u64 (reported_bytes sp))) \<in> set (stream_fields p sp)"
    "(True, ''retransmits'', JNumber (d_of_int (reported_retransmits p sp))) \<in> set (stream_fields p sp)"
    "(True, ''jitter'', JNumber (sp_jitter sp)) \<in> set (stream_fields p sp)"
    "(True, ''errors'', JNumber (d_of_int (sp_cnt_error sp))) \<in> set (stream_fields p sp)"
    "(True, ''packets'', JNumber (d_of_int (sp_packet_count sp))) \<in> set (stream_fields p sp)"
    "(True, ''start_time'', JNumber (time_between (res_start_time (sp_result sp)) (res_start_time (sp_result sp)))) \<in> set (stream_fields p sp)"
    "(True, ''end_time'', JNumber (time_between (res_start_time (sp_result sp)) (res_end_time (sp_result sp)))) \<in> set (stream_fields p sp)"
    unfolding stream_fields_alt by simp_all
  have ints: "c_int (saturate (d_of_int n)) = n" if "in_int n" for n
    using that saturate_int [of n] c_int_id [of n] by (simp add: in_int_def abs_le_iff)
  have v: "in_int (sp_id sp)" "in_int (sp_cnt_error sp)" "in_int (sp_packet_count sp)" "in_int (reported_retransmits p sp)"
    "uint (reported_bytes sp) \<le> 2 ^ 53" using assms by (simp_all add: valid_stream_def)
  show ?thesis
    by (simp add: get_stream_result_def f [OF mem(1)] f [OF mem(2)] f [OF mem(3)] f [OF mem(4)] f [OF mem(5)] f [OF mem(6)]
        f [OF mem(7)] f [OF mem(8)] Let_def apply_report_report ints [OF v(1)] ints [OF v(2)] ints [OF v(3)] ints [OF v(4)] saturate_u64 [OF v(5)])
qed

text \<open>The loop over the reports.\<close>

lemma update_stream_map:
  "distinct (map sp_id sps) \<Longrightarrow> sid \<in> sp_id ` set sps \<Longrightarrow>
     update_stream sid f sps = Some (map (\<lambda>s. if sp_id s = sid then f s else s) sps)"
proof (induction sps)
  case (Cons s sps)
  then show ?case by (cases "sp_id s = sid") (auto simp: image_iff intro!: map_idI [symmetric])
qed simp

definition matched :: "iperf_test \<Rightarrow> iperf_stream list \<Rightarrow> iperf_stream \<Rightarrow> iperf_stream" where
  "matched p sps s = (case find (\<lambda>sp. sp_id sp = sp_id s) sps of None \<Rightarrow> s | Some sp \<Rightarrow> report p sp s)"

lemma matched_Cons:
  assumes "sp_id sp \<notin> sp_id ` set sps"
  shows "matched p sps (if sp_id s = sp_id sp then report p sp s else s) = matched p (sp # sps) s"
proof (cases "sp_id s = sp_id sp")
  case True
  then have "find (\<lambda>x. sp_id x = sp_id s) sps = None" using assms by (auto simp: find_None_iff image_iff)
  then show ?thesis using True by (simp add: matched_def)
qed (simp add: matched_def)

lemma matched_id [simp]: "sp_id (matched p sps s) = sp_id s"
  by (simp add: matched_def split: option.split)

lemma read_streams:
  assumes "list_all (valid_stream p) sps" "distinct (map sp_id sps)" "distinct (map sp_id (t_streams t))"
    "sp_id ` set sps \<subseteq> sp_id ` set (t_streams t)"
  shows "fold (\<lambda>j. get_stream_result (Some j)) (map (parsed_stream p) sps) (r, t) =
     (r, t\<lparr>t_streams := map (matched p sps) (t_streams t)\<rparr>)"
  using assms
proof (induction sps arbitrary: t)
  case Nil
  have "matched p [] = id" by (simp add: matched_def fun_eq_iff)
  then show ?case by simp
next
  case (Cons sp sps)
  let ?f = "\<lambda>s. if sp_id s = sp_id sp then report p sp s else s"
  let ?t = "t\<lparr>t_streams := map ?f (t_streams t)\<rparr>"
  have ids: "map sp_id (t_streams ?t) = map sp_id (t_streams t)" by simp
  have set_ids: "sp_id ` set (t_streams ?t) = sp_id ` set (t_streams t)" using arg_cong [OF ids, of set] by (simp only: set_map)
  have "get_stream_result (Some (parsed_stream p sp)) (r, t) = (r, ?t)"
    using Cons.prems by (simp add: read_stream update_stream_map)
  moreover have "distinct (map sp_id (t_streams ?t))" "sp_id ` set sps \<subseteq> sp_id ` set (t_streams ?t)"
    unfolding ids set_ids using Cons.prems(3,4) by simp_all
  moreover have "map (matched p sps) (t_streams ?t) = map (matched p (sp # sps)) (t_streams t)"
    using Cons.prems(2) matched_Cons [of sp sps p] by simp
  ultimately show ?case using Cons.IH [of ?t] Cons.prems(1,2) by simp
qed

lemma get_nth_nth: "i < length cs \<Longrightarrow> get_nth cs i = Some (cs ! i)"
  by (induction cs i rule: get_nth.induct) (auto simp: nth_Cons')

lemma fold_items:
  assumes "length (child a) \<le> 2 ^ 16"
  shows "fold (\<lambda>i. g (cJSON_GetArrayItem (Some a) (int i))) [0..<nat (cJSON_GetArraySize a)] x = fold (\<lambda>j. g (Some j)) (child a) x"
proof -
  have size: "nat (cJSON_GetArraySize a) = length (child a)"
    using assms c_int_id [of "int (length (child a))"] by (simp add: cJSON_GetArraySize_def c_int_def)
  have "fold (\<lambda>j. g (Some j)) (map ((!) (child a)) [0..<length (child a)]) x =
      fold (\<lambda>i. g (Some (child a ! i))) [0..<length (child a)] x" by (simp add: fold_map comp_def)
  moreover have "\<dots> = fold (\<lambda>i. g (cJSON_GetArrayItem (Some a) (int i))) [0..<length (child a)] x"
    by (rule fold_cong) (simp_all add: cJSON_GetArrayItem_def get_array_item_def get_nth_nth)
  ultimately show ?thesis by (simp add: size map_nth)
qed

section \<open>From end to end\<close>

text \<open>What the receiver \<open>q\<close> knows after the results of \<open>p\<close>.\<close>

definition note_retransmits :: "int \<Rightarrow> iperf_test \<Rightarrow> iperf_test" where
  "note_retransmits has q =
     (if t_mode q = RECEIVER then q\<lparr>t_sender_has_retransmits := has, t_other_side_has_retransmits := 0\<rparr>
      else if t_mode q = BIDIRECTIONAL then q\<lparr>t_other_side_has_retransmits := has\<rparr> else q)"

definition informed :: "iperf_test \<Rightarrow> iperf_test \<Rightarrow> iperf_test" where
  "informed p q =
     (note_retransmits (if t_mode p = RECEIVER then -1 else t_sender_has_retransmits p) q)
       \<lparr>t_remote_cpu_util := t_cpu_util p, t_streams := map (matched p (t_streams p)) (t_streams q),
        t_remote_congestion_used := (if t_congestion_used p = None then t_remote_congestion_used q else t_congestion_used p)\<rparr>"

lemma note_retransmits_frame [simp]:
  "t_streams (note_retransmits h q) = t_streams q" "t_remote_congestion_used (note_retransmits h q) = t_remote_congestion_used q"
  "t_role (note_retransmits h q) = t_role q" "t_get_server_output (note_retransmits h q) = t_get_server_output q"
  "note_retransmits h (q\<lparr>t_remote_cpu_util := u\<rparr>) = (note_retransmits h q)\<lparr>t_remote_cpu_util := u\<rparr>"
  by (simp_all add: note_retransmits_def)

lemma read_results_parsed:
  assumes "valid_results p" "distinct (map sp_id (t_streams p))" "distinct (map sp_id (t_streams q))"
    "sp_id ` set (t_streams p) \<subseteq> sp_id ` set (t_streams q)"
  shows "read_results (parsed_results p) q =
     Ok (0, parsed_results p, (informed p q)\<lparr>t_remote_congestion_used := t_remote_congestion_used q\<rparr>)"
proof -
  obtain tot user system where cpu: "t_cpu_util p = (tot, user, system)" by (cases "t_cpu_util p")
  define has where "has = (if t_mode p = RECEIVER then -1 else t_sender_has_retransmits p)"
  let ?q = "(note_retransmits has q)\<lparr>t_remote_cpu_util := (tot, user, system)\<rparr>"
  let ?q' = "?q\<lparr>t_streams := map (matched p (t_streams p)) (t_streams q)\<rparr>"
  note h = parsed_head [OF assms(1)]
  have mem: "(True, ''cpu_util_total'', JNumber tot) \<in> set (results_head p)" "(True, ''cpu_util_user'', JNumber user) \<in> set (results_head p)"
    "(True, ''cpu_util_system'', JNumber system) \<in> set (results_head p)"
    "(True, ''sender_has_retransmits'', JNumber (d_of_int has)) \<in> set (results_head p)"
    unfolding results_head_def cpu has_def by simp_all
  have v: "list_all (valid_stream p) (t_streams p)" "length (t_streams p) \<le> 2 ^ 16" "in_int has"
    using assms(1) by (simp_all add: valid_results_def in_int_def has_def)
  have has: "c_int (saturate (d_of_int has)) = has"
    using v(3) saturate_int [of has] c_int_id [of has] unfolding in_int_def abs_le_iff by simp
  have "fold (\<lambda>i. get_stream_result (cJSON_GetArrayItem (Some (parsed_streams p)) (int i)))
      [0..<nat (cJSON_GetArraySize (parsed_streams p))] (0, ?q) = (0, ?q')"
    using fold_items [of "parsed_streams p" get_stream_result] v(1,2) read_streams [OF v(1) assms(2), of ?q 0] assms(3,4)
    by (simp add: parsed_streams_def)
  moreover have "get_server_output (parsed_results p) ?q' = Ok (parsed_results p, ?q')"
    by (simp add: get_server_output_def cJSON_DetachItemFromObject_def parsed_behind [OF assms(1)])
  moreover have "(let q1 = q\<lparr>t_remote_cpu_util := (tot, user, system)\<rparr> in
      if t_mode q1 = RECEIVER then q1\<lparr>t_sender_has_retransmits := has, t_other_side_has_retransmits := 0\<rparr>
      else if t_mode q1 = BIDIRECTIONAL then q1\<lparr>t_other_side_has_retransmits := has\<rparr> else q1) = ?q"
    by (simp add: note_retransmits_def)
  moreover have "(informed p q)\<lparr>t_remote_congestion_used := t_remote_congestion_used q\<rparr> = ?q'"
    by (simp add: informed_def cpu flip: has_def)
  ultimately show ?thesis
    unfolding read_results_def Let_def h [OF mem(1)] h [OF mem(2)] h [OF mem(3)] h [OF mem(4)] parsed_behind(1) [OF assms(1)]
      option.case prod.case read_item.simps field_item.simps cJSON.sel has
    by simp
qed

lemma informed_congestion:
  "t_congestion_used p = None \<Longrightarrow> (informed p q)\<lparr>t_remote_congestion_used := t_remote_congestion_used q\<rparr> = informed p q"
  "t_congestion_used p = Some a \<Longrightarrow> (informed p q)\<lparr>t_remote_congestion_used := Some a\<rparr> = informed p q"
  by (simp_all add: informed_def)

text \<open>
  C2. The exchange of results: over a connection that takes and delivers the bytes in pieces of any size, \<open>send_results\<close> of one side
  succeeds, and \<open>get_results\<close> of the other succeeds and stores exactly what was reported: the processor times, whether
  retransmits are known, the congestion algorithm, and for every stream, found by its number in whatever order the streams are
  listed, the bytes, packets, errors, jitter, retransmits and elapsed time of the peer.
\<close>

theorem results_agree:
  assumes "valid_results p" "distinct (map sp_id (t_streams p))" "distinct (map sp_id (t_streams q))"
    and "sp_id ` set (t_streams p) \<subseteq> sp_id ` set (t_streams q)"
    and "takes_data osp (t_ctrl_sck p)" "delivers osq (t_ctrl_sck q) pending"
    and "run_state (send_results osp p) s = (x, s')"
    and "sent (t_ctrl_sck p) (calls s') = sent (t_ctrl_sck p) (calls s) @ pending (world u)"
  shows "x = Ok (0, p) \<and> fst (run_state (get_results osq junk q) u) = Ok (0, informed p q)"
proof -
  obtain body where b: "cJSON_PrintUnformatted mem (object_of (items (results_head p) @ [stream_items p])) = Ok body" "no_nul body"
      "length body < 2 ^ 31 - 1" "cJSON_Parse (\<lambda>_. mem) (Some body) = Some (parsed_results p)"
    using results_text [OF assms(1)] unfolding parsed_results_def by blast
  obtain s1 where "run_state (JSON_write osp (t_ctrl_sck p) (object_of (items (results_head p) @ [stream_items p]))) s = (0, s1)"
      "sent (t_ctrl_sck p) (calls s1) = sent (t_ctrl_sck p) (calls s) @ message body"
    using JSON_write_sends [OF assms(5) b(1), of s] b(3) by auto
  then have c: "x = Ok (0, p)" "pending (world u) = message body"
    using assms(7,8) by (auto simp: send_results_def results_json_alt [OF assms(1)])
  obtain u' where read: "run_state (JSON_read mem (\<lambda>_. mem) osq junk (t_ctrl_sck q)) u = (Ok (Some (parsed_results p)), u')"
    using JSON_read_receives [OF assms(6) _ b(2,3), of u "[]" junk] c(2) b(4) by auto
  have "case cJSON_GetObjectItem (Some (parsed_results p)) (Some ''congestion_used'') of
      None \<Rightarrow> t_congestion_used p = None | Some i \<Rightarrow> t_congestion_used p = valuestring i \<and> valuestring i \<noteq> None"
  proof (cases "t_congestion_used p")
    case (Some a)
    then have "(True, ''congestion_used'', JString a) \<in> set (results_head p)"
      by (cases "t_cpu_util p") (simp add: results_head_def opt_field_def)
    from parsed_head [OF assms(1) this] Some show ?thesis by simp
  qed (simp add: parsed_behind(4) [OF assms(1)])
  then have "obind (read_results (parsed_results p) q) (\<lambda>(r, j', test1).
      case cJSON_GetObjectItem (Some j') (Some ''congestion_used'') of None \<Rightarrow> Ok (r, test1)
      | Some c \<Rightarrow> (case valuestring c of None \<Rightarrow> Fault | Some s \<Rightarrow> Ok (r, test1\<lparr>t_remote_congestion_used := Some s\<rparr>))) =
    Ok (0, informed p q)"
    unfolding read_results_parsed [OF assms(1-4)] obind.simps prod.case
    by (cases "cJSON_GetObjectItem (Some (parsed_results p)) (Some ''congestion_used'')") (auto simp: informed_congestion split: option.splits)
  then show ?thesis using c(1) read by (simp add: get_results_def)
qed

text \<open>A server with two streams, of which it sent 1000 and 2500 bytes, and a client that lists them in the other order.\<close>

definition demo_stream :: "bool \<Rightarrow> int \<Rightarrow> u64 \<Rightarrow> iperf_stream" where
  "demo_stream snd_side i n = (blank_stream 5 snd_side 6 (-1) [])\<lparr>sp_id := i,
     sp_result := blank_result\<lparr>res_bytes_sent := n, res_stream_retrans := 4\<rparr>\<rparr>"

definition demo_sender :: iperf_test where
  "demo_sender = demo_server\<lparr>t_mode := SENDER, t_sender_has_retransmits := 1, t_streams := [demo_stream True 1 1000, demo_stream True 3 2500]\<rparr>"

definition demo_receiver :: iperf_test where
  "demo_receiver = demo_client\<lparr>t_streams := [demo_stream False 3 0, demo_stream False 1 0]\<rparr>"

theorem results_agree_witness:
  "case run_state (send_results demo_io demo_sender) net0 of (x, s') \<Rightarrow>
     x = Ok (0, demo_sender) \<and> (case fst (run_state (get_results pipe_os [] demo_receiver)
       \<lparr>world = sent (-1) (calls s'), errno = 0, gerror = 0, calls = []\<rparr>) of
       Ok (e, q) \<Rightarrow> e = 0 \<and> map (\<lambda>sp. (sp_id sp, res_bytes_sent (sp_result sp), res_stream_retrans (sp_result sp))) (t_streams q) =
         [(3, 2500, 4), (1, 1000, 4)] \<and> t_sender_has_retransmits q = 1
     | _ \<Rightarrow> False)"
proof -
  let ?u = "\<lambda>s' :: unit net. \<lparr>world = sent (-1) (calls s'), errno = 0, gerror = 0, calls = []\<rparr>"
  note defs = demo_sender_def demo_receiver_def demo_stream_def demo_client_def demo_server_def iperf_set_test_reverse_def
    iperf_set_test_role_def iperf_defaults_def iperf_new_test_def set_protocol_def check_sender_has_retransmits_def
    blank_stream_def blank_result_def Let_def
  have "0 \<le> dbl_max" by code_simp
  then have "valid_results demo_sender"
    by (simp add: defs valid_results_def valid_stream_def finite_double_def dbl_ok_def valid_opt_def in_int_def reported_bytes_def
        reported_retransmits_def)
  moreover have "t_ctrl_sck demo_sender = -1" "distinct (map sp_id (t_streams demo_sender))" "distinct (map sp_id (t_streams demo_receiver))"
    "sp_id ` set (t_streams demo_sender) \<subseteq> sp_id ` set (t_streams demo_receiver)" by (simp_all add: defs)
  moreover have "sent (-1) (calls net0) = []" by (simp add: net0_def sent_def)
  moreover obtain x s' where run: "run_state (send_results demo_io demo_sender) net0 = (x, s')" by (metis surj_pair)
  ultimately have "x = Ok (0, demo_sender) \<and> fst (run_state (get_results pipe_os [] demo_receiver) (?u s')) = Ok (0, informed demo_sender demo_receiver)"
    using results_agree [where p = demo_sender and q = demo_receiver and osp = demo_io and osq = pipe_os and pending = "\<lambda>w. w"
        and s = net0 and u = "?u s'" and junk = "[]"] demo_connection by simp
  moreover have "map (\<lambda>sp. (sp_id sp, res_bytes_sent (sp_result sp), res_stream_retrans (sp_result sp)))
      (t_streams (informed demo_sender demo_receiver)) = [(3, 2500, 4), (1, 1000, 4)]"
    "t_sender_has_retransmits (informed demo_sender demo_receiver) = 1"
    by (simp_all add: informed_def note_retransmits_def matched_def report_def reported_bytes_def reported_retransmits_def
        defs iperf_modes)
  ultimately show ?thesis using run by simp
qed

end
