(* ===== verification/Formats.thy ===== *)
theory Formats
  imports C_Stdlib C_Double Prelude
begin

text \<open>
  Formatted output: \<open>printf\<close> of the C library on the conversions that the program uses, with arguments that carry their C
  type, and the formats of \<open>iperf_locale.c\<close>.
\<close>

section \<open>The conversions\<close>

text \<open>An argument: \<open>int\<close>, \<open>uint64_t\<close>, \<open>double\<close> or a string.\<close>

datatype arg = AInt int | AU64 u64 | ADouble double | AText string

text \<open>A character, or a conversion: left-justified, width, precision, the letters of the length, and the conversion itself.\<close>

datatype directive = Lit char | Conv bool nat "nat option" string char

definition precision :: "string \<Rightarrow> nat option \<times> string" where
  "precision s = (if take 1 s = ''.'' then (Some (base_val 10 (takeWhile isdigit (drop 1 s))), dropWhile isdigit (drop 1 s)) else (None, s))"

definition parse_conv :: "string \<Rightarrow> directive \<times> string" where
  "parse_conv s =
     (let left = (take 1 s = ''-'');
          s1 = (if left then drop 1 s else s);
          s2 = precision (dropWhile isdigit s1);
          s3 = dropWhile (\<lambda>c. c = CHR ''l'') (snd s2)
      in (Conv left (base_val 10 (takeWhile isdigit s1)) (fst s2) (takeWhile (\<lambda>c. c = CHR ''l'') (snd s2))
            (case s3 of [] \<Rightarrow> CHR 0x00 | c # _ \<Rightarrow> c), drop 1 s3))"

lemma precision_shorter: "length (snd (precision s)) \<le> length s"
  using length_dropWhile_le [of isdigit "drop 1 s"] by (auto simp: precision_def)

lemma parse_conv_shorter: "length (snd (parse_conv s)) \<le> length s"
proof -
  let ?s1 = "if take 1 s = ''-'' then drop 1 s else s"
  let ?s2 = "snd (precision (dropWhile isdigit ?s1))"
  have "length (dropWhile (\<lambda>c. c = CHR ''l'') ?s2) \<le> length ?s2" by (rule length_dropWhile_le)
  also have "\<dots> \<le> length (dropWhile isdigit ?s1)" by (rule precision_shorter)
  also have "\<dots> \<le> length ?s1" by (rule length_dropWhile_le)
  also have "\<dots> \<le> length s" by simp
  finally show ?thesis unfolding parse_conv_def Let_def snd_conv length_drop by linarith
qed

function parse_format :: "string \<Rightarrow> directive list" where
  "parse_format [] = []"
| "parse_format (c # s) = (if c = CHR ''%'' then fst (parse_conv s) # parse_format (snd (parse_conv s)) else Lit c # parse_format s)"
  by pat_completeness auto
termination
  by (relation "measure length") (auto simp: le_imp_less_Suc parse_conv_shorter)

declare parse_format.simps [simp del]

definition pad :: "bool \<Rightarrow> nat \<Rightarrow> string \<Rightarrow> string" where
  "pad left w s = (if left then s @ replicate (w - length s) (CHR '' '') else pad_left w (CHR '' '') s)"

definition special :: "(double \<Rightarrow> string) \<Rightarrow> double \<Rightarrow> string" where
  "special f d = (case d of NaN \<Rightarrow> ''nan'' | Inf s \<Rightarrow> if s then ''-inf'' else ''inf'' | _ \<Rightarrow> f d)"

text \<open>The text of one argument; \<^const>\<open>None\<close> when its type is not that of the conversion, which is undefined in C.\<close>

fun conv_text :: "nat option \<Rightarrow> string \<Rightarrow> char \<Rightarrow> arg \<Rightarrow> string option" where
  "conv_text p len c (AInt n) =
     (if len = [] \<and> c = CHR ''d'' then Some (int_str n) else if len = [] \<and> c = CHR ''u'' then Some (zstr (n mod 2 ^ 32)) else None)"
| "conv_text p len c (AU64 v) = (if len = ''ll'' \<and> c = CHR ''u'' then Some (zstr (uint v)) else None)"
| "conv_text p len c (ADouble d) =
     (let k = (case p of None \<Rightarrow> 6 | Some k \<Rightarrow> k)
      in if len = [] \<and> c = CHR ''f'' then Some (fmt_f 0 k d)
         else if len = [] \<and> c = CHR ''g'' then Some (special (fmt_g (max 1 k)) d) else None)"
| "conv_text p len c (AText s) = (if len = [] \<and> c = CHR ''s'' then Some (case p of None \<Rightarrow> s | Some k \<Rightarrow> take k s) else None)"

fun render :: "directive list \<Rightarrow> arg list \<Rightarrow> string option" where
  "render [] as = Some []"
| "render (Lit c # ds) as = map_option (\<lambda>r. c # r) (render ds as)"
| "render (Conv left w p len c # ds) as =
     (if c = CHR ''%'' then map_option (\<lambda>r. c # r) (render ds as)
      else case as of [] \<Rightarrow> None
        | a # rest \<Rightarrow> (case conv_text p len c a of None \<Rightarrow> None
            | Some s \<Rightarrow> map_option (\<lambda>r. pad left w s @ r) (render ds rest)))"

definition printf_text :: "string \<Rightarrow> arg list \<Rightarrow> string option" where
  "printf_text fmt as = render (parse_format fmt) as"

text \<open>The kinds of arguments that a format takes.\<close>

fun accepts :: "directive \<Rightarrow> arg \<Rightarrow> bool" where
  "accepts (Lit c) a = False"
| "accepts (Conv left w p len c) a = (conv_text p len c a \<noteq> None)"

fun wants :: "directive \<Rightarrow> bool" where
  "wants (Lit c) = False"
| "wants (Conv left w p len c) = (c \<noteq> CHR ''%'')"

lemma render_defined: "list_all2 accepts (filter wants ds) as \<Longrightarrow> \<exists>s. render ds as = Some s"
proof (induction ds arbitrary: as)
  case (Cons d ds)
  show ?case
  proof (cases d)
    case (Lit c)
    then show ?thesis using Cons by auto
  next
    case (Conv left w p len c)
    show ?thesis
    proof (cases "c = CHR ''%''")
      case True
      then show ?thesis using Cons Conv by auto
    next
      case False
      then obtain a rest where as: "as = a # rest" "conv_text p len c a \<noteq> None" "list_all2 accepts (filter wants ds) rest"
        using Cons.prems Conv by (auto simp: list_all2_Cons1)
      then show ?thesis using Cons.IH [OF as(3)] False Conv by auto
    qed
  qed
qed simp

section \<open>The formats\<close>

definition test_start_time :: string where
  "test_start_time = ''Starting Test: protocol: %s, %d streams, %d byte blocks, omitting %d seconds, %d second test, tos %d'' @ [CHR 0x0A]"

definition test_start_bytes :: string where
  "test_start_bytes = ''Starting Test: protocol: %s, %d streams, %d byte blocks, omitting %d seconds, %llu bytes to send, tos %d'' @ [CHR 0x0A]"

definition test_start_blocks :: string where
  "test_start_blocks = ''Starting Test: protocol: %s, %d streams, %d byte blocks, omitting %d seconds, %d blocks to send, tos %d'' @ [CHR 0x0A]"

definition report_time :: string where
  "report_time = ''Time: %s'' @ [CHR 0x0A]"

definition report_connecting :: string where
  "report_connecting = ''Connecting to host %s, port %d'' @ [CHR 0x0A]"

definition report_reverse :: string where
  "report_reverse = ''Reverse mode, remote host %s is sending'' @ [CHR 0x0A]"

definition report_accepted :: string where
  "report_accepted = ''Accepted connection from %s, port %d'' @ [CHR 0x0A]"

definition report_cookie :: string where
  "report_cookie = ''      Cookie: %s'' @ [CHR 0x0A]"

definition report_connected :: string where
  "report_connected = ''[%3d] local %s port %d connected to %s port %d'' @ [CHR 0x0A]"

definition report_diskfile :: string where
  "report_diskfile = ''        Sent %s / %s (%d%%) of %s'' @ [CHR 0x0A]"

definition report_bw_header :: string where
  "report_bw_header = ''[ ID] Interval           Transfer     Bitrate'' @ [CHR 0x0A]"

definition report_bw_header_bidir :: string where
  "report_bw_header_bidir = ''[ ID][Role] Interval           Transfer     Bitrate'' @ [CHR 0x0A]"

definition report_bw_retrans_header :: string where
  "report_bw_retrans_header = ''[ ID] Interval           Transfer     Bitrate         Retr'' @ [CHR 0x0A]"

definition report_bw_retrans_header_bidir :: string where
  "report_bw_retrans_header_bidir = ''[ ID][Role] Interval           Transfer     Bitrate         Retr'' @ [CHR 0x0A]"

definition report_bw_retrans_cwnd_header :: string where
  "report_bw_retrans_cwnd_header = ''[ ID] Interval           Transfer     Bitrate         Retr  Cwnd'' @ [CHR 0x0A]"

definition report_bw_retrans_cwnd_header_bidir :: string where
  "report_bw_retrans_cwnd_header_bidir = ''[ ID][Role] Interval           Transfer     Bitrate         Retr  Cwnd'' @ [CHR 0x0A]"

definition report_bw_udp_header :: string where
  "report_bw_udp_header = ''[ ID] Interval           Transfer     Bitrate         Jitter    Lost/Total Datagrams'' @ [CHR 0x0A]"

definition report_bw_udp_header_bidir :: string where
  "report_bw_udp_header_bidir = ''[ ID][Role] Interval           Transfer     Bitrate         Jitter    Lost/Total Datagrams'' @ [CHR 0x0A]"

definition report_bw_udp_sender_header :: string where
  "report_bw_udp_sender_header = ''[ ID] Interval           Transfer     Bitrate         Total Datagrams'' @ [CHR 0x0A]"

definition report_bw_format :: string where
  "report_bw_format = ''[%3d]%s %6.2f-%-6.2f sec  %ss  %ss/sec                  %s'' @ [CHR 0x0A]"

definition report_bw_retrans_format :: string where
  "report_bw_retrans_format = ''[%3d]%s %6.2f-%-6.2f sec  %ss  %ss/sec  %3u             %s'' @ [CHR 0x0A]"

definition report_bw_retrans_cwnd_format :: string where
  "report_bw_retrans_cwnd_format = ''[%3d]%s %6.2f-%-6.2f sec  %ss  %ss/sec  %3u   %ss       %s'' @ [CHR 0x0A]"

definition report_bw_udp_format :: string where
  "report_bw_udp_format = ''[%3d]%s %6.2f-%-6.2f sec  %ss  %ss/sec  %5.3f ms  %d/%d (%.2g%%)  %s'' @ [CHR 0x0A]"

definition report_bw_udp_sender_format :: string where
  "report_bw_udp_sender_format = ''[%3d]%s %6.2f-%-6.2f sec  %ss  %ss/sec %s %d  %s'' @ [CHR 0x0A]"

definition report_summary :: string where
  "report_summary = ''Test Complete. Summary Results:'' @ [CHR 0x0A]"

definition report_sum_bw_format :: string where
  "report_sum_bw_format = ''[SUM]%s %6.2f-%-6.2f sec  %ss  %ss/sec                  %s'' @ [CHR 0x0A]"

definition report_sum_bw_retrans_format :: string where
  "report_sum_bw_retrans_format = ''[SUM]%s %6.2f-%-6.2f sec  %ss  %ss/sec  %3d             %s'' @ [CHR 0x0A]"

definition report_sum_bw_udp_format :: string where
  "report_sum_bw_udp_format = ''[SUM]%s %6.2f-%-6.2f sec  %ss  %ss/sec  %5.3f ms  %d/%d (%.2g%%)  %s'' @ [CHR 0x0A]"

definition report_sum_bw_udp_sender_format :: string where
  "report_sum_bw_udp_sender_format = ''[SUM]%s %6.2f-%-6.2f sec  %ss  %ss/sec %s %d  %s'' @ [CHR 0x0A]"

definition report_omitted :: string where
  "report_omitted = ''(omitted)''"

definition report_bw_separator :: string where
  "report_bw_separator = ''- - - - - - - - - - - - - - - - - - - - - - - - -'' @ [CHR 0x0A]"

definition report_sum_outoforder :: string where
  "report_sum_outoforder = ''[SUM]%s %4.1f-%4.1f sec  %d datagrams received out-of-order'' @ [CHR 0x0A]"

definition report_cpu :: string where
  "report_cpu = ''CPU Utilization: %s/%s %.1f%% (%.1f%%u/%.1f%%s), %s/%s %.1f%% (%.1f%%u/%.1f%%s)'' @ [CHR 0x0A]"

definition report_local :: string where
  "report_local = ''local''"

definition report_remote :: string where
  "report_remote = ''remote''"

definition report_sender :: string where
  "report_sender = ''sender''"

definition report_receiver :: string where
  "report_receiver = ''receiver''"

definition report_sender_not_available_format :: string where
  "report_sender_not_available_format = ''[%3d] (sender statistics not available)'' @ [CHR 0x0A]"

definition report_sender_not_available_summary_format :: string where
  "report_sender_not_available_summary_format = ''[%3s] (sender statistics not available)'' @ [CHR 0x0A]"

definition report_receiver_not_available_format :: string where
  "report_receiver_not_available_format = ''[%3d] (receiver statistics not available)'' @ [CHR 0x0A]"

definition report_receiver_not_available_summary_format :: string where
  "report_receiver_not_available_summary_format = ''[%3s] (receiver statistics not available)'' @ [CHR 0x0A]"

end
