(* ===== verification/Reports.thy ===== *)
theory Reports
  imports Exchange Options Formats
begin

text \<open>
  The reports of a test: the JSON document and the text that \<open>iperf_api.c\<close> writes, with \<open>iperf_json_printf\<close> of \<open>iperf_util.c\<close> and
  \<open>iperf_err\<close> of \<open>iperf_error.c\<close>. Memory is available. The pointers into the document (\<open>json_start\<close>,
  \<open>json_intervals\<close>, and those of the interval and of the summary) are paths from its root, so that what is added through one of
  them appears in the document.
\<close>

section \<open>The state of the output\<close>

text \<open>
  The test, whether the report is verbose, the document \<open>json_top\<close>, what went to \<open>outfile\<close> and to \<open>stderr\<close>, whether
  \<open>outfile\<close> is a log file and not \<open>stdout\<close>, and whether the program ran
  into undefined behaviour: an argument of the wrong type, a null pointer, or a conversion out of range.
\<close>

record reports =
  r_test :: iperf_test
  r_verbose :: bool
  r_json :: "cJSON option"
  r_out :: "string list"
  r_err :: "string list"
  r_log :: bool
  r_fault :: bool

type_synonym step = "reports \<Rightarrow> reports"

definition fault :: step where
  "fault r = r\<lparr>r_fault := True\<rparr>"

definition iperf_printf :: "string \<Rightarrow> arg list \<Rightarrow> step" where
  "iperf_printf fmt args r =
     (let test = r_test r in
      if t_role test = CHR ''c'' then
        (case printf_text fmt args of None \<Rightarrow> fault r
         | Some line \<Rightarrow> r\<lparr>r_out := r_out r @ [(case t_title test of None \<Rightarrow> [] | Some title \<Rightarrow> title @ '':  '') @ line]\<rparr>)
      else if t_role test = CHR ''s'' then
        (case printf_text fmt args of None \<Rightarrow> fault r
         | Some line \<Rightarrow>
             (let linebuffer = take 1023 line; r1 = r\<lparr>r_out := r_out r @ [linebuffer]\<rparr>
              in if t_get_server_output test \<noteq> 0
                 then r1\<lparr>r_test := test\<lparr>t_server_output_list := t_server_output_list test @ [linebuffer]\<rparr>\<rparr> else r1))
      else r)"

section \<open>The JSON document\<close>

text \<open>\<open>iperf_json_printf\<close>: boolean, integer, number and string arguments.\<close>

datatype jarg = JB bool | JD int | JF double | JS "string option"

fun json_value :: "char \<Rightarrow> jarg list \<Rightarrow> (cJSON option \<times> jarg list) outcome" where
  "json_value k (JB b # rest) = (if k = CHR ''b'' then Ok (cJSON_CreateBool mem b, rest) else Fault)"
| "json_value k (JD n # rest) = (if k = CHR ''d'' then Ok (cJSON_CreateNumber mem (d_of_int n), rest) else Fault)"
| "json_value k (JF d # rest) = (if k = CHR ''f'' then Ok (cJSON_CreateNumber mem d, rest) else Fault)"
| "json_value k (JS s # rest) = (if k = CHR ''s'' then Ok (cJSON_CreateString mem s, rest) else Fault)"
| "json_value k [] = Fault"

text \<open>
  The loop over the format, with the characters in the buffer of 100 bytes and whether they are terminated. \<open>Ok None\<close> is a null
  pointer.
\<close>

fun json_fields :: "string \<Rightarrow> string \<Rightarrow> bool \<Rightarrow> jarg list \<Rightarrow> cJSON \<Rightarrow> cJSON option outcome" where
  "json_fields [] name ended args j = Ok (Some j)"
| "json_fields (c # s) name ended args j =
     (if c = CHR '' '' then json_fields s name ended args j
      else if c = CHR '':'' then (if length name < 100 then json_fields s name True args j else Fault)
      else if c = CHR ''%'' then
        (case s of [] \<Rightarrow> Ok None
         | k # s' \<Rightarrow>
             if k \<notin> set ''bdfs'' then Ok None
             else (case json_value k args of
                Ok (None, _) \<Rightarrow> Ok None
              | Ok (Some v, rest) \<Rightarrow>
                  if ended then
                    (case cJSON_AddItemToObject mem (Some j) (Some name) (Some v) of
                       Some (Some j') \<Rightarrow> json_fields s' [] False rest j' | _ \<Rightarrow> Fault)
                  else Fault
              | _ \<Rightarrow> Fault))
      else if length name < 100 then json_fields s (name @ [c]) False args j else Fault)"

definition iperf_json_printf :: "string \<Rightarrow> jarg list \<Rightarrow> cJSON option outcome" where
  "iperf_json_printf fmt args = (case cJSON_CreateObject mem of None \<Rightarrow> Ok None | Some j \<Rightarrow> json_fields fmt [] False args j)"

text \<open>A change of the item at the end of a path.\<close>

fun update_at :: "nat list \<Rightarrow> (cJSON \<Rightarrow> cJSON) \<Rightarrow> cJSON \<Rightarrow> cJSON" where
  "update_at [] f j = f j"
| "update_at (i # p) f j = (if i < length (child j) then set_child ((child j)[i := update_at p f (child j ! i)]) j else j)"

fun item_at :: "nat list \<Rightarrow> cJSON \<Rightarrow> cJSON option" where
  "item_at [] j = Some j"
| "item_at (i # p) j = (if i < length (child j) then item_at p (child j ! i) else None)"

definition json_update :: "nat list \<Rightarrow> (cJSON \<Rightarrow> cJSON) \<Rightarrow> step" where
  "json_update p f r = r\<lparr>r_json := map_option (update_at p f) (r_json r)\<rparr>"

definition json_count :: "nat list \<Rightarrow> reports \<Rightarrow> nat" where
  "json_count p r = (case Option.bind (r_json r) (item_at p) of None \<Rightarrow> 0 | Some j \<Rightarrow> length (child j))"

text \<open>\<open>cJSON_AddItemToObject\<close> and \<open>cJSON_AddItemToArray\<close> on the item at a path.\<close>

definition add_member :: "nat list \<Rightarrow> string \<Rightarrow> cJSON option outcome \<Rightarrow> step" where
  "add_member p key item r = (case item of
       Ok (Some i) \<Rightarrow> json_update p (\<lambda>j. case cJSON_AddItemToObject mem (Some j) (Some key) (Some i) of Some (Some j') \<Rightarrow> j' | _ \<Rightarrow> j) r
     | _ \<Rightarrow> fault r)"

definition add_element :: "nat list \<Rightarrow> cJSON option outcome \<Rightarrow> step" where
  "add_element p item r = (case item of
       Ok i \<Rightarrow> json_update p (\<lambda>j. case cJSON_AddItemToArray (Some j) i of Some j' \<Rightarrow> j' | None \<Rightarrow> j) r
     | _ \<Rightarrow> fault r)"

abbreviation json_start_path :: "nat list" where "json_start_path \<equiv> [0]"
abbreviation json_connected_path :: "nat list" where "json_connected_path \<equiv> [0, 0]"
abbreviation json_intervals_path :: "nat list" where "json_intervals_path \<equiv> [1]"
abbreviation json_end_path :: "nat list" where "json_end_path \<equiv> [2]"

definition iperf_json_start :: step where
  "iperf_json_start r =
     (let r1 = r\<lparr>r_json := cJSON_CreateObject mem\<rparr>;
          r2 = add_member [] ''start'' (Ok (cJSON_CreateObject mem)) r1;
          r3 = add_member json_start_path ''connected'' (Ok (cJSON_CreateArray mem)) r2;
          r4 = add_member [] ''intervals'' (Ok (cJSON_CreateArray mem)) r3
      in add_member [] ''end'' (Ok (cJSON_CreateObject mem)) r4)"

definition add_text :: "nat list \<Rightarrow> string \<Rightarrow> string \<Rightarrow> step" where
  "add_text p key s = add_member p key (Ok (cJSON_CreateString mem (Some s)))"

definition add_number :: "nat list \<Rightarrow> string \<Rightarrow> double \<Rightarrow> step" where
  "add_number p key d = add_member p key (Ok (cJSON_CreateNumber mem d))"

definition opt_step :: "'a option \<Rightarrow> ('a \<Rightarrow> step) \<Rightarrow> step" where
  "opt_step x f r = (case x of None \<Rightarrow> r | Some a \<Rightarrow> f a r)"

text \<open>The result is -1 when the document cannot be printed.\<close>

definition iperf_json_finish :: "reports \<Rightarrow> int \<times> reports" where
  "iperf_json_finish r =
     (let test = r_test r;
          r1 = opt_step (t_title test) (add_text [] ''title'') r;
          r2 = opt_step (t_extra_data test) (add_text [] ''extra_data'') r1;
          r3 = opt_step (t_json_server_output test) (\<lambda>j. add_member [] ''server_output_json'' (Ok (Some j))) r2;
          r4 = opt_step (t_server_output_text test) (add_text [] ''server_output_text'') r3
      in case r_json r4 of
           None \<Rightarrow> (-1, r4)
         | Some doc \<Rightarrow>
             (case cJSON_Print mem doc of
                Ok s \<Rightarrow> (0, r4\<lparr>r_out := r_out r4 @ [s @ [CHR 0x0A]], r_json := None,
                              r_test := test\<lparr>t_json_server_output := None, t_json_start := None\<rparr>\<rparr>)
              | Err n \<Rightarrow> (-1, r4)
              | _ \<Rightarrow> (-1, fault r4)))"

definition iperf_err :: "string \<Rightarrow> step" where
  "iperf_err msg r =
     (let str = take 999 msg in
      if t_json_output (r_test r) \<and> r_json r \<noteq> None then add_text [] ''error'' str r
      else if r_log r then r\<lparr>r_out := r_out r @ [''iperf3: '' @ str @ [CHR 0x0A]]\<rparr>
      else r\<lparr>r_err := r_err r @ [''iperf3: '' @ str @ [CHR 0x0A]]\<rparr>)"

section \<open>The start of a test\<close>

definition protocol_name :: "int \<Rightarrow> string" where
  "protocol_name p = (if p = Ptcp then ''TCP'' else if p = Pudp then ''UDP'' else ''SCTP'')"

definition iperf_on_test_start :: step where
  "iperf_on_test_start r =
     (let test = r_test r; cfg = t_settings test; name = protocol_name (t_protocol test) in
      if t_json_output test then
        add_member json_start_path ''test_start'' (iperf_json_printf
          ''protocol: %s  num_streams: %d  blksize: %d  omit: %d  duration: %d  bytes: %d  blocks: %d  reverse: %d  tos: %d''
          [JS (Some name), JD (t_num_streams test), JD (cfg_blksize cfg), JD (t_omit test), JD (t_duration test),
           JD (sint (cfg_bytes cfg)), JD (sint (cfg_blocks cfg)), JD (if t_reverse test then 1 else 0), JD (cfg_tos cfg)]) r
      else if r_verbose r then
        if cfg_bytes cfg \<noteq> 0 then iperf_printf test_start_bytes
          [AText name, AInt (t_num_streams test), AInt (cfg_blksize cfg), AInt (t_omit test), AU64 (cfg_bytes cfg), AInt (cfg_tos cfg)] r
        else if cfg_blocks cfg \<noteq> 0 then iperf_printf test_start_blocks
          [AText name, AInt (t_num_streams test), AInt (cfg_blksize cfg), AInt (t_omit test), AU64 (cfg_blocks cfg), AInt (cfg_tos cfg)] r
        else iperf_printf test_start_time
          [AText name, AInt (t_num_streams test), AInt (cfg_blksize cfg), AInt (t_omit test), AInt (t_duration test), AInt (cfg_tos cfg)] r
      else r)"

definition mapped_v4_to_regular_v4 :: "string \<Rightarrow> string" where
  "mapped_v4_to_regular_v4 str =
     (let prefix = ''::ffff:''; prefix_len = length prefix
      in if take prefix_len str = prefix then drop prefix_len str else str)"

text \<open>\<open>now\<close> is the time as text and number, \<open>peer\<close> the address and port of the control connection.\<close>

definition greet_peer :: "string \<times> int \<Rightarrow> step" where
  "greet_peer peer r =
     (let test = r_test r; ipr = mapped_v4_to_regular_v4 (fst peer) in
      if t_role test = CHR ''c'' then
        if t_json_output test then
          add_member json_start_path ''connecting_to''
            (iperf_json_printf ''host: %s  port: %d'' [JS (Some (t_server_hostname test)), JD (t_server_port test)]) r
        else
          (let r1 = iperf_printf report_connecting [AText (t_server_hostname test), AInt (t_server_port test)] r
           in if t_reverse test then iperf_printf report_reverse [AText (t_server_hostname test)] r1 else r1)
      else if t_json_output test then
        add_member json_start_path ''accepted_connection'' (iperf_json_printf ''host: %s  port: %d'' [JS (Some ipr), JD (snd peer)]) r
      else iperf_printf report_accepted [AText ipr, AInt (snd peer)] r)"

definition iperf_on_connect :: "string \<times> int \<Rightarrow> string \<times> int \<Rightarrow> step" where
  "iperf_on_connect now peer r =
     (let test = r_test r; cfg = t_settings test;
          cookie = string_of (takeWhile (\<lambda>b. b \<noteq> 0) (t_cookie test));
          r1 = (if t_json_output test
                then add_member json_start_path ''timestamp'' (iperf_json_printf ''time: %s  timesecs: %d'' [JS (Some (fst now)), JD (snd now)]) r
                else if r_verbose r then iperf_printf report_time [AText (fst now)] r else r);
          r2 = greet_peer peer r1
      in if t_json_output test then
           (let r3 = add_text json_start_path ''cookie'' cookie r2
            in if t_protocol test = SOCK_STREAM then
                 (let r4 = (if cfg_mss cfg \<noteq> 0 then add_number json_start_path ''tcp_mss'' (d_of_int (cfg_mss cfg)) r3
                            else add_number json_start_path ''tcp_mss_default'' (d_of_int (t_ctrl_sck_mss test)) r3)
                  in if cfg_rate cfg \<noteq> 0 then add_number json_start_path ''target_bitrate'' (d_of_u64 (cfg_rate cfg)) r4 else r4)
               else r3)
         else if r_verbose r then
           (let r3 = iperf_printf report_cookie [AText cookie] r2;
                r4 = (if t_protocol test = SOCK_STREAM then
                        if cfg_mss cfg \<noteq> 0 then iperf_printf (''      TCP MSS: %d'' @ [CHR 0x0A]) [AInt (cfg_mss cfg)] r3
                        else iperf_printf (''      TCP MSS: %d (default)'' @ [CHR 0x0A]) [AInt (t_ctrl_sck_mss test)] r3
                      else r3)
            in if cfg_rate cfg \<noteq> 0 then iperf_printf (''      Target Bitrate: %llu'' @ [CHR 0x0A]) [AU64 (cfg_rate cfg)] r4 else r4)
         else r2)"

text \<open>The addresses of the ends of a stream are those of its socket.\<close>

definition connect_msg :: "string \<times> int \<Rightarrow> string \<times> int \<Rightarrow> iperf_stream \<Rightarrow> step" where
  "connect_msg local_end remote_end sp r =
     (let ipl = mapped_v4_to_regular_v4 (fst local_end); ipr = mapped_v4_to_regular_v4 (fst remote_end) in
      if t_json_output (r_test r) then
        add_element json_connected_path (iperf_json_printf
          ''socket: %d  local_host: %s  local_port: %d  remote_host: %s  remote_port: %d''
          [JD (sp_socket sp), JS (Some ipl), JD (snd local_end), JS (Some ipr), JD (snd remote_end)]) r
      else iperf_printf report_connected [AInt (sp_socket sp), AText ipl, AInt (snd local_end), AText ipr, AInt (snd remote_end)] r)"

section \<open>The report of an interval\<close>

definition UNIT_LEN :: nat where "UNIT_LEN = 32"

definition streamed :: "iperf_test \<Rightarrow> bool" where
  "streamed test \<longleftrightarrow> t_protocol test = Ptcp \<or> t_protocol test = Psctp"

text \<open>The role of a stream in a bidirectional test, and the blanks that take its place.\<close>

definition mbuf :: "iperf_test \<Rightarrow> bool \<Rightarrow> string" where
  "mbuf test is_sender =
     (if t_mode test = BIDIRECTIONAL
      then ''['' @ (if is_sender then ''TX'' else ''RX'') @ ''-'' @ (if t_role test = CHR ''c'' then ''C'' else ''S'') @ '']'' else [])"

definition zbuf :: "iperf_test \<Rightarrow> string" where
  "zbuf test = (if t_mode test = BIDIRECTIONAL then replicate 10 (CHR '' '') else [])"

definition secs_between :: "iperf_time \<Rightarrow> iperf_time \<Rightarrow> double" where
  "secs_between a b = iperf_time_in_secs (snd (iperf_time_diff a b))"

definition omitted_text :: "bool \<Rightarrow> string" where
  "omitted_text b = (if b then report_omitted else [])"

definition loss_percent :: "int \<Rightarrow> int \<Rightarrow> double" where
  "loss_percent lost packets = (if packets > 0 then ddiv (dmul (Fin 100) (d_of_int lost)) (d_of_int packets) else Fin 0)"

definition rate_over :: "u64 \<Rightarrow> double \<Rightarrow> double" where
  "rate_over bytes time = (if dlt (Fin 0) time then ddiv (d_of_u64 bytes) time else Fin 0)"

definition millis :: "double \<Rightarrow> double" where
  "millis d = dmul d (Fin 1000)"

definition bits :: "double \<Rightarrow> double" where
  "bits bandwidth = dmul bandwidth (Fin 8)"

definition size_text :: "u64 \<Rightarrow> string" where
  "size_text bytes = unit_snprintf UNIT_LEN (d_of_u64 bytes) (CHR ''A'')"

definition rate_text :: "iperf_test \<Rightarrow> double \<Rightarrow> string" where
  "rate_text test bandwidth = unit_snprintf UNIT_LEN bandwidth (cfg_unit_format (t_settings test))"

definition interval_header :: "iperf_stream \<Rightarrow> iperf_interval_results \<Rightarrow> step" where
  "interval_header sp irp r =
     (let test = r_test r in
      if iperf_time_compare (res_start_time (sp_result sp)) (ir_interval_start_time irp) = 0 then
        if streamed test then
          if t_sender_has_retransmits test = 1 then
            iperf_printf ''%s'' [AText (if t_bidirectional test then report_bw_retrans_cwnd_header_bidir else report_bw_retrans_cwnd_header)] r
          else iperf_printf ''%s'' [AText (if t_bidirectional test then report_bw_header_bidir else report_bw_header)] r
        else if t_mode test = SENDER then iperf_printf ''%s'' [AText report_bw_udp_sender_header] r
        else if t_mode test = RECEIVER then iperf_printf ''%s'' [AText report_bw_udp_header] r
        else iperf_printf ''%s'' [AText report_bw_udp_header_bidir] r
      else if t_num_streams test > 1 then iperf_printf ''%s'' [AText report_bw_separator] r
      else r)"

text \<open>\<open>first\<close>: the stream is the first of the test; \<open>p\<close> is the path of \<open>json_interval_streams\<close>.\<close>

definition interval_json :: "iperf_test \<Rightarrow> iperf_stream \<Rightarrow> iperf_interval_results \<Rightarrow> cJSON option outcome" where
  "interval_json test sp irp =
     (let start = res_start_time (sp_result sp);
          bandwidth = rate_over (ir_bytes_transferred irp) (ir_interval_duration irp);
          common = [JD (sp_socket sp), JF (secs_between start (ir_interval_start_time irp)), JF (secs_between start (ir_interval_end_time irp)),
                    JF (ir_interval_duration irp), JD (sint (ir_bytes_transferred irp)), JF (bits bandwidth)];
          final = [JB (ir_omitted irp), JB (sp_sender sp)]
      in if streamed test then
           if t_sender_has_retransmits test = 1 \<and> sp_sender sp then
             iperf_json_printf ''socket: %d  start: %f  end: %f  seconds: %f  bytes: %d  bits_per_second: %f  retransmits: %d  snd_cwnd:  %d  rtt:  %d  rttvar: %d  pmtu: %d  omitted: %b sender: %b''
               (common @ [JD (ir_interval_retrans irp), JD (ir_snd_cwnd irp), JD (ir_rtt irp), JD (ir_rttvar irp), JD (ir_pmtu irp)] @ final)
           else
             iperf_json_printf ''socket: %d  start: %f  end: %f  seconds: %f  bytes: %d  bits_per_second: %f  omitted: %b sender: %b''
               (common @ final)
         else if sp_sender sp then
           iperf_json_printf ''socket: %d  start: %f  end: %f  seconds: %f  bytes: %d  bits_per_second: %f  packets: %d  omitted: %b sender: %b''
             (common @ [JD (ir_interval_packet_count irp)] @ final)
         else
           iperf_json_printf ''socket: %d  start: %f  end: %f  seconds: %f  bytes: %d  bits_per_second: %f  jitter_ms: %f  lost_packets: %d  packets: %d  lost_percent: %f  omitted: %b sender: %b''
             (common @ [JF (millis (ir_jitter irp)), JD (ir_interval_cnt_error irp), JD (ir_interval_packet_count irp),
                JF (loss_percent (ir_interval_cnt_error irp) (ir_interval_packet_count irp))] @ final))"

definition interval_line :: "iperf_stream \<Rightarrow> iperf_interval_results \<Rightarrow> step" where
  "interval_line sp irp r =
     (let test = r_test r; start = res_start_time (sp_result sp);
          bandwidth = rate_over (ir_bytes_transferred irp) (ir_interval_duration irp);
          common = [AInt (sp_socket sp), AText (mbuf test (sp_sender sp)), ADouble (secs_between start (ir_interval_start_time irp)),
                    ADouble (secs_between start (ir_interval_end_time irp)), AText (size_text (ir_bytes_transferred irp)),
                    AText (rate_text test bandwidth)];
          final = [AText (omitted_text (ir_omitted irp))]
      in if streamed test then
           if t_sender_has_retransmits test = 1 \<and> sp_sender sp then
             iperf_printf report_bw_retrans_cwnd_format
               (common @ [AInt (ir_interval_retrans irp), AText (unit_snprintf UNIT_LEN (d_of_int (ir_snd_cwnd irp)) (CHR ''A''))] @ final) r
           else iperf_printf report_bw_format (common @ final) r
         else if sp_sender sp then
           iperf_printf report_bw_udp_sender_format (common @ [AText (zbuf test), AInt (ir_interval_packet_count irp)] @ final) r
         else
           iperf_printf report_bw_udp_format
             (common @ [ADouble (millis (ir_jitter irp)), AInt (ir_interval_cnt_error irp), AInt (ir_interval_packet_count irp),
                ADouble (loss_percent (ir_interval_cnt_error irp) (ir_interval_packet_count irp))] @ final) r)"

definition print_interval_results :: "nat list \<Rightarrow> bool \<Rightarrow> iperf_stream \<Rightarrow> step" where
  "print_interval_results p first sp r =
     (let irs = res_interval_results (sp_result sp) in
      if irs = [] then iperf_err ''print_interval_results error: interval_results is NULL'' r
      else if t_json_output (r_test r) then add_element p (interval_json (r_test r) sp (last irs)) r
      else interval_line sp (last irs) (if first then interval_header sp (last irs) r else r))"

text \<open>The sums over the streams of one direction.\<close>

record interval_sums =
  is_bytes :: u64
  is_retransmits :: int
  is_packets :: int
  is_lost :: int
  is_jitter :: double

definition no_sums :: interval_sums where
  "no_sums = \<lparr>is_bytes = 0, is_retransmits = 0, is_packets = 0, is_lost = 0, is_jitter = Fin 0\<rparr>"

definition sum_interval :: "iperf_test \<Rightarrow> iperf_interval_results \<Rightarrow> interval_sums \<Rightarrow> interval_sums" where
  "sum_interval test irp s =
     (let s1 = s\<lparr>is_bytes := is_bytes s + ir_bytes_transferred irp\<rparr> in
      if t_protocol test = Ptcp then
        if t_sender_has_retransmits test = 1 then s1\<lparr>is_retransmits := c_int (is_retransmits s1 + ir_interval_retrans irp)\<rparr> else s1
      else s1\<lparr>is_packets := c_int (is_packets s1 + ir_interval_packet_count irp),
              is_lost := c_int (is_lost s1 + ir_interval_cnt_error irp), is_jitter := dadd (is_jitter s1) (ir_jitter irp)\<rparr>)"

text \<open>The loop over the streams, each with whether it is the first; \<^const>\<open>None\<close>: the function returns.\<close>

fun interval_streams :: "nat list \<Rightarrow> bool \<Rightarrow> (bool \<times> iperf_stream) list \<Rightarrow> interval_sums \<Rightarrow> reports \<Rightarrow> interval_sums option \<times> reports" where
  "interval_streams p must_send [] s r = (Some s, r)"
| "interval_streams p must_send ((first, sp) # sps) s r =
     (if sp_sender sp = must_send then
        let r1 = print_interval_results p first sp r; irs = res_interval_results (sp_result sp) in
        if irs = [] then (None, iperf_err ''iperf_print_intermediate error: interval_results is NULL'' r1)
        else interval_streams p must_send sps (sum_interval (r_test r1) (last irs) s) r1
      else interval_streams p must_send sps s r)"

definition number_streams :: "iperf_stream list \<Rightarrow> (bool \<times> iperf_stream) list" where
  "number_streams sps = (case sps of [] \<Rightarrow> [] | sp # rest \<Rightarrow> (True, sp) # map (\<lambda>x. (False, x)) rest)"

definition sum_json :: "iperf_test \<Rightarrow> bool \<Rightarrow> iperf_time \<Rightarrow> iperf_interval_results \<Rightarrow> interval_sums \<Rightarrow> cJSON option outcome" where
  "sum_json test must_send start irp s =
     (let bandwidth = ddiv (d_of_u64 (is_bytes s)) (ir_interval_duration irp);
          common = [JF (secs_between start (ir_interval_start_time irp)), JF (secs_between start (ir_interval_end_time irp)),
                    JF (ir_interval_duration irp), JD (sint (is_bytes s)), JF (bits bandwidth)]
      in if streamed test then
           if t_sender_has_retransmits test = 1 \<and> must_send then
             iperf_json_printf ''start: %f  end: %f  seconds: %f  bytes: %d  bits_per_second: %f  retransmits: %d  omitted: %b sender: %b''
               (common @ [JD (is_retransmits s), JB (ir_omitted irp), JB must_send])
           else
             iperf_json_printf ''start: %f  end: %f  seconds: %f  bytes: %d  bits_per_second: %f  omitted: %b sender: %b''
               (common @ [JB (t_omitting test), JB must_send])
         else if must_send then
           iperf_json_printf ''start: %f  end: %f  seconds: %f  bytes: %d  bits_per_second: %f  packets: %d  omitted: %b sender: %b''
             (common @ [JD (is_packets s), JB (t_omitting test), JB must_send])
         else
           iperf_json_printf ''start: %f  end: %f  seconds: %f  bytes: %d  bits_per_second: %f  jitter_ms: %f  lost_packets: %d  packets: %d  lost_percent: %f  omitted: %b sender: %b''
             (common @ [JF (millis (ddiv (is_jitter s) (d_of_int (t_num_streams test)))), JD (is_lost s), JD (is_packets s),
                JF (loss_percent (is_lost s) (is_packets s)), JB (t_omitting test), JB must_send]))"

definition sum_line :: "bool \<Rightarrow> iperf_time \<Rightarrow> iperf_interval_results \<Rightarrow> interval_sums \<Rightarrow> step" where
  "sum_line must_send start irp s r =
     (let test = r_test r;
          bandwidth = ddiv (d_of_u64 (is_bytes s)) (ir_interval_duration irp);
          common = [AText (mbuf test must_send), ADouble (secs_between start (ir_interval_start_time irp)),
                    ADouble (secs_between start (ir_interval_end_time irp)), AText (size_text (is_bytes s)), AText (rate_text test bandwidth)]
      in if streamed test then
           if t_sender_has_retransmits test = 1 \<and> must_send then
             iperf_printf report_sum_bw_retrans_format (common @ [AInt (is_retransmits s), AText (omitted_text (ir_omitted irp))]) r
           else iperf_printf report_sum_bw_format (common @ [AText (omitted_text (t_omitting test))]) r
         else if must_send then
           iperf_printf report_sum_bw_udp_sender_format
             (common @ [AText (zbuf test), AInt (is_packets s), AText (omitted_text (t_omitting test))]) r
         else
           iperf_printf report_sum_bw_udp_format
             (common @ [ADouble (millis (ddiv (is_jitter s) (d_of_int (t_num_streams test)))), AInt (is_lost s), AInt (is_packets s),
                ADouble (loss_percent (is_lost s) (is_packets s)), AText (omitted_text (t_omitting test))]) r)"

text \<open>The sum takes its times from the first stream, whatever its direction; \<open>p\<close> is the path of \<open>json_interval\<close>.\<close>

definition interval_sum :: "nat list \<Rightarrow> bool \<Rightarrow> interval_sums \<Rightarrow> step" where
  "interval_sum p must_send s r =
     (let test = r_test r in
      if t_num_streams test > 1 \<or> t_json_output test then
        (case t_streams test of
           [] \<Rightarrow> r
         | sp # _ \<Rightarrow>
             (let irs = res_interval_results (sp_result sp); start = res_start_time (sp_result sp) in
              if irs = [] then fault r
              else if t_json_output test then add_member p ''sum'' (sum_json test must_send start (last irs) s) r
              else sum_line must_send start (last irs) s r))
      else r)"

definition interval_kept :: "iperf_test \<Rightarrow> bool" where
  "interval_kept test \<longleftrightarrow> list_ex (\<lambda>sp.
     let irs = res_interval_results (sp_result sp); irp = last irs in
     irs \<noteq> [] \<and>
     (dle (dmul (t_stats_interval test) (mk False (1 / 10))) (secs_between (ir_interval_start_time irp) (ir_interval_end_time irp)) \<or>
      ir_bytes_transferred irp \<noteq> 0)) (t_streams test)"

text \<open>The directions, by the square of the mode.\<close>

definition current_modes :: "iperf_test \<Rightarrow> int list" where
  "current_modes test =
     (if t_mode test = BIDIRECTIONAL then (if t_role test = CHR ''c'' then [-1, 0] else [0, 1]) else [t_mode test])"

fun interval_modes :: "nat list \<Rightarrow> int list \<Rightarrow> step" where
  "interval_modes p [] r = r"
| "interval_modes p (m # ms) r =
     (let must_send = (m * m \<noteq> 0) in
      case interval_streams (p @ [0]) must_send (number_streams (t_streams (r_test r))) no_sums r of
        (None, r1) \<Rightarrow> r1
      | (Some s, r1) \<Rightarrow> interval_modes p ms (interval_sum p must_send s r1))"

definition iperf_print_intermediate :: step where
  "iperf_print_intermediate r =
     (let test = r_test r; p = [1, json_count json_intervals_path r] in
      if \<not> interval_kept test then r
      else if t_json_output test then
        interval_modes p (current_modes test)
          (add_member p ''streams'' (Ok (cJSON_CreateArray mem)) (add_element json_intervals_path (Ok (cJSON_CreateObject mem)) r))
      else interval_modes [] (current_modes test) r)"

section \<open>The summary\<close>

definition summary_header :: step where
  "summary_header r =
     (let test = r_test r;
          r1 = iperf_printf ''%s'' [AText report_bw_separator] r;
          r2 = (if r_verbose r1 then iperf_printf ''%s'' [AText report_summary] r1 else r1)
      in if streamed test then
           if t_sender_has_retransmits test \<noteq> 0 \<or> t_other_side_has_retransmits test \<noteq> 0
           then iperf_printf ''%s'' [AText (if t_bidirectional test then report_bw_retrans_header_bidir else report_bw_retrans_header)] r2
           else iperf_printf ''%s'' [AText (if t_bidirectional test then report_bw_header_bidir else report_bw_header)] r2
         else iperf_printf ''%s'' [AText (if t_bidirectional test then report_bw_udp_header_bidir else report_bw_udp_header)] r2)"

text \<open>The local variables of a pass over the streams of one direction.\<close>

record summary =
  su_retransmits :: int
  su_packets :: int
  su_lost :: int
  su_sender_packets :: int
  su_receiver_packets :: int
  su_sent :: u64
  su_received :: u64
  su_jitter :: double
  su_end_time :: double
  su_sender_time :: double
  su_receiver_time :: double

definition no_summary :: summary where
  "no_summary = \<lparr>su_retransmits = 0, su_packets = 0, su_lost = 0, su_sender_packets = 0, su_receiver_packets = 0, su_sent = 0,
     su_received = 0, su_jitter = Fin 0, su_end_time = Fin 0, su_sender_time = Fin 0, su_receiver_time = Fin 0\<rparr>"

text \<open>The times of the first stream, which fall back to each other.\<close>

definition set_times :: "double \<Rightarrow> iperf_stream \<Rightarrow> iperf_stream" where
  "set_times end_time sp =
     (let rp = sp_result sp in
      if sp_sender sp then
        sp\<lparr>sp_result := rp\<lparr>res_sender_time := end_time,
          res_receiver_time := (if deq (res_receiver_time rp) (Fin 0) then end_time else res_receiver_time rp)\<rparr>\<rparr>
      else
        sp\<lparr>sp_result := rp\<lparr>res_receiver_time := end_time,
          res_sender_time := (if deq (res_sender_time rp) (Fin 0) then end_time else res_sender_time rp)\<rparr>\<rparr>)"

definition pass_times :: "reports \<Rightarrow> summary \<times> reports" where
  "pass_times r =
     (case t_streams (r_test r) of
        [] \<Rightarrow> (no_summary, r)
      | sp # sps \<Rightarrow>
          (let end_time = secs_between (res_start_time (sp_result sp)) (res_end_time (sp_result sp)); sp1 = set_times end_time sp
           in (no_summary\<lparr>su_end_time := end_time, su_sender_time := res_sender_time (sp_result sp1),
                 su_receiver_time := res_receiver_time (sp_result sp1)\<rparr>,
               r\<lparr>r_test := (r_test r)\<lparr>t_streams := sp1 # sps\<rparr>\<rparr>)))"

definition stream_sent :: "iperf_stream \<Rightarrow> u64" where
  "stream_sent sp = res_bytes_sent (sp_result sp) - res_bytes_sent_omit (sp_result sp)"

definition sender_packet_count :: "iperf_stream \<Rightarrow> int" where
  "sender_packet_count sp = (if sp_sender sp then sp_packet_count sp else sp_peer_packet_count sp)"

definition receiver_packet_count :: "iperf_stream \<Rightarrow> int" where
  "receiver_packet_count sp = (if sp_sender sp then sp_peer_packet_count sp else sp_packet_count sp)"

text \<open>The count of the sender where it is known, else that of the receiver.\<close>

definition best_packet_count :: "iperf_stream \<Rightarrow> int" where
  "best_packet_count sp = (if sender_packet_count sp \<noteq> 0 then sender_packet_count sp else receiver_packet_count sp)"

definition lost_packets :: "iperf_stream \<Rightarrow> int" where
  "lost_packets sp = c_int (sp_cnt_error sp - sp_omitted_cnt_error sp)"

definition without_omitted :: "iperf_stream \<Rightarrow> int \<Rightarrow> int" where
  "without_omitted sp n = c_int (n - sp_omitted_packet_count sp)"

definition sum_stream :: "iperf_test \<Rightarrow> iperf_stream \<Rightarrow> summary \<Rightarrow> summary" where
  "sum_stream test sp s =
     (let s1 = s\<lparr>su_sent := su_sent s + stream_sent sp, su_received := su_received s + res_bytes_received (sp_result sp)\<rparr> in
      if streamed test then
        if t_sender_has_retransmits test \<noteq> 0
        then s1\<lparr>su_retransmits := c_int (su_retransmits s1 + res_stream_retrans (sp_result sp))\<rparr> else s1
      else s1\<lparr>su_packets := c_int (su_packets s1 + without_omitted sp (best_packet_count sp)),
              su_sender_packets := c_int (su_sender_packets s1 + without_omitted sp (sender_packet_count sp)),
              su_receiver_packets := c_int (su_receiver_packets s1 + without_omitted sp (receiver_packet_count sp)),
              su_lost := c_int (su_lost s1 + lost_packets sp), su_jitter := dadd (su_jitter s1) (sp_jitter sp)\<rparr>)"

text \<open>A line that the server has no figures for.\<close>

definition unless_unknown :: "bool \<Rightarrow> string \<Rightarrow> arg \<Rightarrow> step \<Rightarrow> step" where
  "unless_unknown unknown fmt a f r =
     (if t_role (r_test r) = CHR ''s'' \<and> unknown then (if r_verbose r then iperf_printf fmt [a] r else r) else f r)"

definition sender_line :: "bool \<Rightarrow> summary \<Rightarrow> iperf_stream \<Rightarrow> step" where
  "sender_line must_send s sp r =
     (let test = r_test r; bandwidth = rate_over (stream_sent sp) (su_sender_time s);
          common = [AInt (sp_socket sp), AText (mbuf test must_send), ADouble (Fin 0), ADouble (su_sender_time s),
                    AText (size_text (stream_sent sp)), AText (rate_text test bandwidth)];
          absent = unless_unknown (\<not> sp_sender sp) report_sender_not_available_format (AInt (sp_socket sp));
          disordered = c_int (sp_outoforder_packets sp - sp_omitted_outoforder_packets sp)
      in if streamed test then
           if t_sender_has_retransmits test \<noteq> 0
           then absent (iperf_printf report_bw_retrans_format (common @ [AInt (res_stream_retrans (sp_result sp)), AText report_sender])) r
           else absent (iperf_printf report_bw_format (common @ [AText report_sender])) r
         else
           (let r1 = absent (iperf_printf report_bw_udp_format
                  (common @ [ADouble (Fin 0), AInt 0, AInt (without_omitted sp (sender_packet_count sp)), ADouble (Fin 0), AText report_sender])) r
            in if disordered > 0
               then iperf_printf report_sum_outoforder
                      [AText (mbuf test must_send), ADouble (Fin 0), ADouble (su_sender_time s), AInt disordered] r1
               else r1))"

definition sender_json :: "nat list \<Rightarrow> bool \<Rightarrow> summary \<Rightarrow> iperf_stream \<Rightarrow> step" where
  "sender_json p must_send s sp r =
     (let test = r_test r; rp = sp_result sp; bandwidth = rate_over (stream_sent sp) (su_sender_time s);
          common = [JD (sp_socket sp), JF (Fin 0), JF (su_sender_time s), JF (su_sender_time s), JD (sint (stream_sent sp)), JF (bits bandwidth)]
      in if streamed test then
           if t_sender_has_retransmits test \<noteq> 0 then
             add_member p ''sender'' (iperf_json_printf
               ''socket: %d  start: %f  end: %f  seconds: %f  bytes: %d  bits_per_second: %f  retransmits: %d  max_snd_cwnd:  %d  max_rtt:  %d  min_rtt:  %d  mean_rtt:  %d sender: %b''
               (common @ [JD (res_stream_retrans rp), JD (res_stream_max_snd_cwnd rp), JD (res_stream_max_rtt rp), JD (res_stream_min_rtt rp),
                  JD (if res_stream_count_rtt rp = 0 then 0 else res_stream_sum_rtt rp sdiv res_stream_count_rtt rp), JB must_send])) r
           else
             add_member p ''sender'' (iperf_json_printf
               ''socket: %d  start: %f  end: %f  seconds: %f  bytes: %d  bits_per_second: %f sender: %b'' (common @ [JB must_send])) r
         else
           add_member p ''udp'' (iperf_json_printf
             ''socket: %d  start: %f  end: %f  seconds: %f  bytes: %d  bits_per_second: %f  jitter_ms: %f  lost_packets: %d  packets: %d  lost_percent: %f  out_of_order: %d sender: %b''
             (common @ [JF (millis (sp_jitter sp)), JD (lost_packets sp), JD (without_omitted sp (best_packet_count sp)),
                JF (loss_percent (lost_packets sp) (without_omitted sp (sender_packet_count sp))),
                JD (c_int (sp_outoforder_packets sp - sp_omitted_outoforder_packets sp)), JB must_send])) r)"

text \<open>The share of a file; \<open>st_size\<close> is what \<open>fstat\<close> says of its size.\<close>

definition percent_of :: "u64 \<Rightarrow> int \<Rightarrow> int option" where
  "percent_of bytes st_size =
     (if st_size > 0 then d_to_int (dmul (ddiv (d_of_u64 bytes) (d_of_int st_size)) (Fin 100)) else Some 100)"

definition diskfile_report :: "(int \<Rightarrow> int option) \<Rightarrow> nat list \<Rightarrow> bool \<Rightarrow> iperf_stream \<Rightarrow> step" where
  "diskfile_report fstat p must_send sp r =
     (let test = r_test r; received = res_bytes_received (sp_result sp) in
      if sp_diskfile_fd sp < 0 then r
      else case fstat (sp_diskfile_fd sp) of
        None \<Rightarrow> r
      | Some st_size \<Rightarrow>
          (case (percent_of (stream_sent sp) st_size, percent_of received st_size, t_diskfile_name test) of
             (Some percent_sent, Some percent_received, Some filename) \<Rightarrow>
               (let sbuf = unit_snprintf UNIT_LEN (d_of_int st_size) (CHR ''A'') in
                if t_json_output test then
                  add_member p ''diskfile'' (iperf_json_printf
                    ''sent: %d  received: %d  size: %d  percent_sent: %d  percent_received: %d  filename: %s''
                    [JD (sint (stream_sent sp)), JD (sint received), JD st_size, JD percent_sent, JD percent_received, JS (Some filename)]) r
                else if must_send then
                  iperf_printf report_diskfile [AText (size_text (stream_sent sp)), AText sbuf, AInt percent_sent, AText filename] r
                else iperf_printf report_diskfile [AText (size_text received), AText sbuf, AInt percent_received, AText filename] r)
           | _ \<Rightarrow> fault r))"

definition receiver_report :: "nat list \<Rightarrow> bool \<Rightarrow> summary \<Rightarrow> iperf_stream \<Rightarrow> step" where
  "receiver_report p must_send s sp r =
     (let test = r_test r; received = res_bytes_received (sp_result sp); bandwidth = rate_over received (su_receiver_time s);
          common = [AInt (sp_socket sp), AText (mbuf test must_send), ADouble (Fin 0), ADouble (su_receiver_time s),
                    AText (size_text received), AText (rate_text test bandwidth)];
          absent = unless_unknown (sp_sender sp) report_receiver_not_available_format (AInt (sp_socket sp));
          packets = without_omitted sp (receiver_packet_count sp)
      in if streamed test then
           if t_json_output test then
             add_member p ''receiver'' (iperf_json_printf
               ''socket: %d  start: %f  end: %f  seconds: %f  bytes: %d  bits_per_second: %f sender: %b''
               [JD (sp_socket sp), JF (Fin 0), JF (su_receiver_time s), JF (su_end_time s), JD (sint received), JF (bits bandwidth), JB must_send]) r
           else absent (iperf_printf report_bw_format (common @ [AText report_receiver])) r
         else if t_json_output test then r
         else absent (iperf_printf report_bw_udp_format
                (common @ [ADouble (millis (sp_jitter sp)), AInt (lost_packets sp), AInt packets, ADouble (loss_percent (lost_packets sp) packets),
                   AText report_receiver])) r)"

text \<open>One stream: its object in the array at the path \<open>p\<close>, or its lines.\<close>

definition stream_summary :: "(int \<Rightarrow> int option) \<Rightarrow> nat list \<Rightarrow> bool \<Rightarrow> summary \<Rightarrow> iperf_stream \<Rightarrow> step" where
  "stream_summary fstat p must_send s sp r =
     (let q = p @ [json_count p r];
          r1 = (if t_json_output (r_test r) then sender_json q must_send s sp (add_element p (Ok (cJSON_CreateObject mem)) r)
                else sender_line must_send s sp r)
      in receiver_report q must_send s sp (diskfile_report fstat q must_send sp r1))"

fun stream_summaries :: "(int \<Rightarrow> int option) \<Rightarrow> nat list \<Rightarrow> bool \<Rightarrow> iperf_stream list \<Rightarrow> summary \<Rightarrow> reports \<Rightarrow> summary \<times> reports" where
  "stream_summaries fstat p must_send [] s r = (s, r)"
| "stream_summaries fstat p must_send (sp # sps) s r =
     (if sp_sender sp = must_send
      then stream_summaries fstat p must_send sps (sum_stream (r_test r) sp s) (stream_summary fstat p must_send s sp r)
      else stream_summaries fstat p must_send sps s r)"

definition total_streamed :: "bool \<Rightarrow> summary \<Rightarrow> step" where
  "total_streamed must_send s r =
     (let test = r_test r; sent_rate = rate_over (su_sent s) (su_sender_time s); received_rate = rate_over (su_received s) (su_receiver_time s);
          m = AText (mbuf test must_send); retransmitting = (t_sender_has_retransmits test \<noteq> 0);
          json = [JF (Fin 0), JF (su_sender_time s), JF (su_sender_time s), JD (sint (su_sent s)), JF (bits sent_rate)];
          common = [m, ADouble (Fin 0), ADouble (su_sender_time s), AText (size_text (su_sent s)), AText (rate_text test sent_rate)];
          absent = unless_unknown (\<not> must_send) report_sender_not_available_summary_format (AText ''SUM'');
          r1 = (if retransmitting then
                  if t_json_output test then add_member json_end_path ''sum_sent'' (iperf_json_printf
                    ''start: %f  end: %f  seconds: %f  bytes: %d  bits_per_second: %f  retransmits: %d sender: %b''
                    (json @ [JD (su_retransmits s), JB must_send])) r
                  else absent (iperf_printf report_sum_bw_retrans_format (common @ [AInt (su_retransmits s), AText report_sender])) r
                else
                  if t_json_output test then add_member json_end_path ''sum_sent'' (iperf_json_printf
                    ''start: %f  end: %f  seconds: %f  bytes: %d  bits_per_second: %f sender: %b'' (json @ [JB must_send])) r
                  else absent (iperf_printf report_sum_bw_format (common @ [AText report_sender])) r)
      in if t_json_output test then
           add_member json_end_path ''sum_received'' (iperf_json_printf
             ''start: %f  end: %f  seconds: %f  bytes: %d  bits_per_second: %f sender: %b''
             [JF (Fin 0), JF (su_receiver_time s), JF (su_receiver_time s), JD (sint (su_received s)), JF (bits received_rate), JB must_send]) r1
         else unless_unknown must_send report_receiver_not_available_summary_format (AText ''SUM'')
           (iperf_printf report_sum_bw_format
             [m, ADouble (Fin 0), ADouble (su_receiver_time s), AText (size_text (su_received s)), AText (rate_text test received_rate), AText report_receiver]) r1)"

text \<open>The rate of the receiver is divided when \<open>end_time\<close>, not \<open>receiver_time\<close>, is positive.\<close>

definition total_udp :: "bool \<Rightarrow> summary \<Rightarrow> step" where
  "total_udp must_send s r =
     (let test = r_test r; sent_rate = rate_over (su_sent s) (su_sender_time s);
          received_rate = (if dlt (Fin 0) (su_end_time s) then ddiv (d_of_u64 (su_received s)) (su_receiver_time s) else Fin 0);
          jitter = millis (ddiv (su_jitter s) (d_of_int (t_num_streams test)));
          lost = loss_percent (su_lost s) (su_packets s);
          m = AText (mbuf test must_send); server = (t_role test = CHR ''s'')
      in if t_json_output test then
           add_member json_end_path ''sum'' (iperf_json_printf
             ''start: %f  end: %f  seconds: %f  bytes: %d  bits_per_second: %f  jitter_ms: %f  lost_packets: %d  packets: %d  lost_percent: %f sender: %b''
             [JF (Fin 0), JF (su_receiver_time s), JF (su_receiver_time s), JD (sint (su_sent s)), JF (bits sent_rate), JF jitter,
              JD (su_lost s), JD (su_packets s), JF lost, JB must_send]) r
         else
           (let r1 = (if \<not> (server \<and> \<not> must_send) then
                  iperf_printf report_sum_bw_udp_format
                    [m, ADouble (Fin 0), ADouble (su_sender_time s), AText (size_text (su_sent s)), AText (rate_text test sent_rate),
                     ADouble (Fin 0), AInt 0, AInt (su_sender_packets s), ADouble (Fin 0), AText ''sender''] r
                else r)
            in if \<not> (server \<and> must_send) then
                 iperf_printf report_sum_bw_udp_format
                   [m, ADouble (Fin 0), ADouble (su_receiver_time s), AText (size_text (su_received s)), AText (rate_text test received_rate),
                    ADouble jitter, AInt (su_lost s), AInt (su_receiver_packets s), ADouble lost, AText ''receiver''] r1
               else r1))"

definition total_summary :: "bool \<Rightarrow> summary \<Rightarrow> step" where
  "total_summary must_send s r =
     (if t_num_streams (r_test r) > 1 \<or> t_json_output (r_test r) then
        if streamed (r_test r) then total_streamed must_send s r else total_udp must_send s r
      else r)"

definition snd_congestion :: "iperf_test \<Rightarrow> bool \<Rightarrow> string option" where
  "snd_congestion test must_send = (if must_send then t_congestion_used test else t_remote_congestion_used test)"

definition rcv_congestion :: "iperf_test \<Rightarrow> bool \<Rightarrow> string option" where
  "rcv_congestion test must_send = (if must_send then t_remote_congestion_used test else t_congestion_used test)"

definition cpu_json :: "bool \<Rightarrow> step" where
  "cpu_json must_send r =
     (let test = r_test r in
      case (t_cpu_util test, t_remote_cpu_util test) of
        ((a, b, c), (d, e, f)) \<Rightarrow>
          (let r1 = add_member json_end_path ''cpu_utilization_percent'' (iperf_json_printf
                 ''host_total: %f  host_user: %f  host_system: %f  remote_total: %f  remote_user: %f  remote_system: %f''
                 [JF a, JF b, JF c, JF d, JF e, JF f]) r
           in if t_protocol test = Ptcp then
                opt_step (rcv_congestion test must_send) (add_text json_end_path ''receiver_tcp_congestion'')
                  (opt_step (snd_congestion test must_send) (add_text json_end_path ''sender_tcp_congestion'') r1)
              else r1))"

definition cpu_line :: "string \<Rightarrow> string \<Rightarrow> step" where
  "cpu_line here there r =
     (case (t_cpu_util (r_test r), t_remote_cpu_util (r_test r)) of
        ((a, b, c), (d, e, f)) \<Rightarrow>
          iperf_printf report_cpu
            [AText report_local, AText here, ADouble a, ADouble b, ADouble c, AText report_remote, AText there, ADouble d, ADouble e, ADouble f] r)"

definition cpu_lines :: "bool \<Rightarrow> step" where
  "cpu_lines must_send r =
     (let test = r_test r;
          r1 = (if must_send then
                  (let r0 = cpu_line report_sender report_receiver r
                   in if t_bidirectional test then cpu_line report_receiver report_sender r0 else r0)
                else r)
      in if t_protocol test = Ptcp then
           opt_step (rcv_congestion test must_send) (\<lambda>c. iperf_printf (''rcv_tcp_congestion %s'' @ [CHR 0x0A]) [AText c])
             (opt_step (snd_congestion test must_send) (\<lambda>c. iperf_printf (''snd_tcp_congestion %s'' @ [CHR 0x0A]) [AText c]) r1)
         else r1)"

definition clear_json_output :: step where
  "clear_json_output r = r\<lparr>r_test := (r_test r)\<lparr>t_json_server_output := None\<rparr>\<rparr>"

definition clear_text_output :: step where
  "clear_text_output r = r\<lparr>r_test := (r_test r)\<lparr>t_server_output_text := None\<rparr>\<rparr>"

definition print_server_output :: step where
  "print_server_output r =
     (let test = r_test r in
      if t_role test = CHR ''c'' \<and> t_get_server_output test \<noteq> 0 \<and> \<not> t_json_output test then
        opt_step (t_server_output_text test)
          (\<lambda>s r. clear_text_output (iperf_printf (CHR 0x0A # ''Server output:'' @ [CHR 0x0A] @ ''%s'' @ [CHR 0x0A]) [AText s] r))
          (opt_step (t_json_server_output test)
            (\<lambda>j r. case cJSON_Print mem j of
               Ok s \<Rightarrow> clear_json_output (iperf_printf (CHR 0x0A # ''Server JSON output:'' @ [CHR 0x0A] @ ''%s'' @ [CHR 0x0A]) [AText s] r)
             | _ \<Rightarrow> fault r) r)
      else r)"

definition set_retransmits :: "int \<Rightarrow> step" where
  "set_retransmits n r = r\<lparr>r_test := (r_test r)\<lparr>t_sender_has_retransmits := n\<rparr>\<rparr>"

text \<open>
  One direction: \<open>p\<close> is the path of \<open>json_summary_streams\<close>, \<open>has\<close> the value of \<open>sender_has_retransmits\<close> on entry, and \<open>final\<close>
  whether the direction is the last one.
\<close>

definition summary_pass :: "(int \<Rightarrow> int option) \<Rightarrow> nat list \<Rightarrow> int \<Rightarrow> bool \<Rightarrow> bool \<Rightarrow> step" where
  "summary_pass fstat p has must_send final r =
     (let r1 = (if t_mode (r_test r) = BIDIRECTIONAL
                then set_retransmits (if must_send then has else t_other_side_has_retransmits (r_test r)) r else r);
          (s, r2) = pass_times r1;
          (s1, r3) = stream_summaries fstat p must_send (t_streams (r_test r2)) s r2;
          r4 = total_summary must_send s1 r3
      in if t_json_output (r_test r4) \<and> final then cpu_json must_send r4
         else print_server_output (if r_verbose r4 then cpu_lines must_send r4 else r4))"

fun summary_passes :: "(int \<Rightarrow> int option) \<Rightarrow> nat list \<Rightarrow> int \<Rightarrow> int list \<Rightarrow> step" where
  "summary_passes fstat p has [] r = r"
| "summary_passes fstat p has (m # ms) r =
     summary_passes fstat p has ms (summary_pass fstat p has (m * m \<noteq> 0) (ms = []) r)"

definition iperf_print_results :: "(int \<Rightarrow> int option) \<Rightarrow> step" where
  "iperf_print_results fstat r =
     (let test = r_test r; has = t_sender_has_retransmits test; p = [2, json_count json_end_path r];
          r1 = (if t_json_output test then add_member json_end_path ''streams'' (Ok (cJSON_CreateArray mem)) r else summary_header r);
          r2 = summary_passes fstat p has (current_modes test) r1
      in if t_mode test = BIDIRECTIONAL then set_retransmits has r2 else r2)"

definition STREAM_RUNNING :: int where "STREAM_RUNNING = 6"

definition iperf_reporter_callback :: "(int \<Rightarrow> int option) \<Rightarrow> step" where
  "iperf_reporter_callback fstat r =
     (let state = t_state (r_test r) in
      if state = TEST_RUNNING \<or> state = STREAM_RUNNING then iperf_print_intermediate r
      else if state = TEST_END \<or> state = DISPLAY_RESULTS then iperf_print_results fstat (iperf_print_intermediate r)
      else r)"

end
