(* ===== verification/Reports_Laws.thy ===== *)
theory Reports_Laws
  imports Reports Exchange_Laws Stats
begin

text \<open>
  What the reports guarantee. The formats fit their arguments; a locale for what every step of the report keeps,
  interpreted on the safety of the report and on the separation of text and document; and the object that an interval adds to the document.
\<close>

section \<open>Formats fit their arguments\<close>

text \<open>The conversions of every format, evaluated once.\<close>

named_theorems conversions

lemma printf_defined: "list_all2 accepts (filter wants (parse_format fmt)) args \<Longrightarrow> \<exists>s. printf_text fmt args = Some s"
  unfolding printf_text_def by (rule render_defined)

lemma conversions_test_start_time [conversions]: "filter wants (parse_format test_start_time) =
    [Conv False 0 None [] (CHR ''s''),
     Conv False 0 None [] (CHR ''d''),
     Conv False 0 None [] (CHR ''d''),
     Conv False 0 None [] (CHR ''d''),
     Conv False 0 None [] (CHR ''d''),
     Conv False 0 None [] (CHR ''d'')]"
  by code_simp

lemma conversions_test_start_bytes [conversions]: "filter wants (parse_format test_start_bytes) =
    [Conv False 0 None [] (CHR ''s''),
     Conv False 0 None [] (CHR ''d''),
     Conv False 0 None [] (CHR ''d''),
     Conv False 0 None [] (CHR ''d''),
     Conv False 0 None [CHR ''l'', CHR ''l''] (CHR ''u''),
     Conv False 0 None [] (CHR ''d'')]"
  by code_simp

lemma conversions_report_time [conversions]: "filter wants (parse_format report_time) =
    [Conv False 0 None [] (CHR ''s'')]"
  by code_simp

lemma conversions_report_connecting [conversions]: "filter wants (parse_format report_connecting) =
    [Conv False 0 None [] (CHR ''s''),
     Conv False 0 None [] (CHR ''d'')]"
  by code_simp

lemma conversions_report_reverse [conversions]: "filter wants (parse_format report_reverse) =
    [Conv False 0 None [] (CHR ''s'')]"
  by code_simp

lemma conversions_report_accepted [conversions]: "filter wants (parse_format report_accepted) =
    [Conv False 0 None [] (CHR ''s''),
     Conv False 0 None [] (CHR ''d'')]"
  by code_simp

lemma conversions_report_cookie [conversions]: "filter wants (parse_format report_cookie) =
    [Conv False 0 None [] (CHR ''s'')]"
  by code_simp

lemma conversions_report_connected [conversions]: "filter wants (parse_format report_connected) =
    [Conv False 3 None [] (CHR ''d''),
     Conv False 0 None [] (CHR ''s''),
     Conv False 0 None [] (CHR ''d''),
     Conv False 0 None [] (CHR ''s''),
     Conv False 0 None [] (CHR ''d'')]"
  by code_simp

lemma conversions_report_diskfile [conversions]: "filter wants (parse_format report_diskfile) =
    [Conv False 0 None [] (CHR ''s''),
     Conv False 0 None [] (CHR ''s''),
     Conv False 0 None [] (CHR ''d''),
     Conv False 0 None [] (CHR ''s'')]"
  by code_simp

lemma conversions_report_bw_format [conversions]: "filter wants (parse_format report_bw_format) =
    [Conv False 3 None [] (CHR ''d''),
     Conv False 0 None [] (CHR ''s''),
     Conv False 6 (Some 2) [] (CHR ''f''),
     Conv True 6 (Some 2) [] (CHR ''f''),
     Conv False 0 None [] (CHR ''s''),
     Conv False 0 None [] (CHR ''s''),
     Conv False 0 None [] (CHR ''s'')]"
  by code_simp

lemma conversions_report_bw_retrans_format [conversions]: "filter wants (parse_format report_bw_retrans_format) =
    [Conv False 3 None [] (CHR ''d''),
     Conv False 0 None [] (CHR ''s''),
     Conv False 6 (Some 2) [] (CHR ''f''),
     Conv True 6 (Some 2) [] (CHR ''f''),
     Conv False 0 None [] (CHR ''s''),
     Conv False 0 None [] (CHR ''s''),
     Conv False 3 None [] (CHR ''u''),
     Conv False 0 None [] (CHR ''s'')]"
  by code_simp

lemma conversions_report_bw_retrans_cwnd_format [conversions]: "filter wants (parse_format report_bw_retrans_cwnd_format) =
    [Conv False 3 None [] (CHR ''d''),
     Conv False 0 None [] (CHR ''s''),
     Conv False 6 (Some 2) [] (CHR ''f''),
     Conv True 6 (Some 2) [] (CHR ''f''),
     Conv False 0 None [] (CHR ''s''),
     Conv False 0 None [] (CHR ''s''),
     Conv False 3 None [] (CHR ''u''),
     Conv False 0 None [] (CHR ''s''),
     Conv False 0 None [] (CHR ''s'')]"
  by code_simp

lemma conversions_report_bw_udp_format [conversions]: "filter wants (parse_format report_bw_udp_format) =
    [Conv False 3 None [] (CHR ''d''),
     Conv False 0 None [] (CHR ''s''),
     Conv False 6 (Some 2) [] (CHR ''f''),
     Conv True 6 (Some 2) [] (CHR ''f''),
     Conv False 0 None [] (CHR ''s''),
     Conv False 0 None [] (CHR ''s''),
     Conv False 5 (Some 3) [] (CHR ''f''),
     Conv False 0 None [] (CHR ''d''),
     Conv False 0 None [] (CHR ''d''),
     Conv False 0 (Some 2) [] (CHR ''g''),
     Conv False 0 None [] (CHR ''s'')]"
  by code_simp

lemma conversions_report_bw_udp_sender_format [conversions]: "filter wants (parse_format report_bw_udp_sender_format) =
    [Conv False 3 None [] (CHR ''d''),
     Conv False 0 None [] (CHR ''s''),
     Conv False 6 (Some 2) [] (CHR ''f''),
     Conv True 6 (Some 2) [] (CHR ''f''),
     Conv False 0 None [] (CHR ''s''),
     Conv False 0 None [] (CHR ''s''),
     Conv False 0 None [] (CHR ''s''),
     Conv False 0 None [] (CHR ''d''),
     Conv False 0 None [] (CHR ''s'')]"
  by code_simp

lemma conversions_report_sum_bw_format [conversions]: "filter wants (parse_format report_sum_bw_format) =
    [Conv False 0 None [] (CHR ''s''),
     Conv False 6 (Some 2) [] (CHR ''f''),
     Conv True 6 (Some 2) [] (CHR ''f''),
     Conv False 0 None [] (CHR ''s''),
     Conv False 0 None [] (CHR ''s''),
     Conv False 0 None [] (CHR ''s'')]"
  by code_simp

lemma conversions_report_sum_bw_retrans_format [conversions]: "filter wants (parse_format report_sum_bw_retrans_format) =
    [Conv False 0 None [] (CHR ''s''),
     Conv False 6 (Some 2) [] (CHR ''f''),
     Conv True 6 (Some 2) [] (CHR ''f''),
     Conv False 0 None [] (CHR ''s''),
     Conv False 0 None [] (CHR ''s''),
     Conv False 3 None [] (CHR ''d''),
     Conv False 0 None [] (CHR ''s'')]"
  by code_simp

lemma conversions_report_sum_bw_udp_format [conversions]: "filter wants (parse_format report_sum_bw_udp_format) =
    [Conv False 0 None [] (CHR ''s''),
     Conv False 6 (Some 2) [] (CHR ''f''),
     Conv True 6 (Some 2) [] (CHR ''f''),
     Conv False 0 None [] (CHR ''s''),
     Conv False 0 None [] (CHR ''s''),
     Conv False 5 (Some 3) [] (CHR ''f''),
     Conv False 0 None [] (CHR ''d''),
     Conv False 0 None [] (CHR ''d''),
     Conv False 0 (Some 2) [] (CHR ''g''),
     Conv False 0 None [] (CHR ''s'')]"
  by code_simp

lemma conversions_report_sum_bw_udp_sender_format [conversions]: "filter wants (parse_format report_sum_bw_udp_sender_format) =
    [Conv False 0 None [] (CHR ''s''),
     Conv False 6 (Some 2) [] (CHR ''f''),
     Conv True 6 (Some 2) [] (CHR ''f''),
     Conv False 0 None [] (CHR ''s''),
     Conv False 0 None [] (CHR ''s''),
     Conv False 0 None [] (CHR ''s''),
     Conv False 0 None [] (CHR ''d''),
     Conv False 0 None [] (CHR ''s'')]"
  by code_simp

lemma conversions_report_sum_outoforder [conversions]: "filter wants (parse_format report_sum_outoforder) =
    [Conv False 0 None [] (CHR ''s''),
     Conv False 4 (Some 1) [] (CHR ''f''),
     Conv False 4 (Some 1) [] (CHR ''f''),
     Conv False 0 None [] (CHR ''d'')]"
  by code_simp

lemma conversions_report_cpu [conversions]: "filter wants (parse_format report_cpu) =
    [Conv False 0 None [] (CHR ''s''),
     Conv False 0 None [] (CHR ''s''),
     Conv False 0 (Some 1) [] (CHR ''f''),
     Conv False 0 (Some 1) [] (CHR ''f''),
     Conv False 0 (Some 1) [] (CHR ''f''),
     Conv False 0 None [] (CHR ''s''),
     Conv False 0 None [] (CHR ''s''),
     Conv False 0 (Some 1) [] (CHR ''f''),
     Conv False 0 (Some 1) [] (CHR ''f''),
     Conv False 0 (Some 1) [] (CHR ''f'')]"
  by code_simp

lemma conversions_report_sender_not_available_format [conversions]: "filter wants (parse_format report_sender_not_available_format) =
    [Conv False 3 None [] (CHR ''d'')]"
  by code_simp

lemma conversions_report_sender_not_available_summary_format [conversions]: "filter wants (parse_format report_sender_not_available_summary_format) =
    [Conv False 3 None [] (CHR ''s'')]"
  by code_simp

lemma conversions_report_receiver_not_available_format [conversions]: "filter wants (parse_format report_receiver_not_available_format) =
    [Conv False 3 None [] (CHR ''d'')]"
  by code_simp

lemma conversions_report_receiver_not_available_summary_format [conversions]: "filter wants (parse_format report_receiver_not_available_summary_format) =
    [Conv False 3 None [] (CHR ''s'')]"
  by code_simp

lemma conversions_line [conversions]: "filter wants (parse_format ''%s'') = [Conv False 0 None [] (CHR ''s'')]"
  by code_simp

section \<open>Objects from formats\<close>

text \<open>The names and kinds of the fields of a format of \<open>iperf_json_printf\<close>.\<close>

fun json_keys :: "string \<Rightarrow> string \<Rightarrow> bool \<Rightarrow> (string \<times> char) list option" where
  "json_keys [] name ended = Some []"
| "json_keys (c # s) name ended =
     (if c = CHR '' '' then json_keys s name ended
      else if c = CHR '':'' then (if length name < 100 then json_keys s name True else None)
      else if c = CHR ''%'' then
        (case s of [] \<Rightarrow> None
         | k # s' \<Rightarrow> if k \<in> set ''bdfs'' \<and> ended then map_option (\<lambda>ks. (name, k) # ks) (json_keys s' [] False) else None)
      else if length name < 100 then json_keys s (name @ [c]) False else None)"

fun jarg_kind :: "jarg \<Rightarrow> char" where
  "jarg_kind (JB b) = CHR ''b''"
| "jarg_kind (JD n) = CHR ''d''"
| "jarg_kind (JF d) = CHR ''f''"
| "jarg_kind (JS s) = CHR ''s''"

fun jarg_given :: "jarg \<Rightarrow> bool" where
  "jarg_given (JS s) \<longleftrightarrow> s \<noteq> None"
| "jarg_given a \<longleftrightarrow> True"

fun field_of :: "string \<Rightarrow> jarg \<Rightarrow> cJSON" where
  "field_of name (JB b) = Item (if b then cJSON_True else cJSON_False) None 0 (Fin 0) (Some name) []"
| "field_of name (JD n) = Item cJSON_Number None (saturate (d_of_int n)) (d_of_int n) (Some name) []"
| "field_of name (JF d) = Item cJSON_Number None (saturate d) d (Some name) []"
| "field_of name (JS s) = Item cJSON_String s 0 (Fin 0) (Some name) []"

lemma json_value_field:
  assumes "jarg_kind a = k" "jarg_given a"
  obtains v where "json_value k (a # rest) = Ok (Some v, rest)"
    "cJSON_AddItemToObject mem (Some j) (Some name) (Some v) = Some (Some (set_child (child j @ [field_of name a]) j))"
  using assms
  by (cases a) (auto simp: cJSON_CreateBool_def cJSON_CreateNumber_def cJSON_CreateString_def cJSON_CreateText_def cJSON_New_Item_def
      cJSON_blank_def cJSON_strdup_def cJSON_AddItemToObject_def cJSON_AddItemToArray_def json_types)

lemma set_child_twice [simp]: "set_child ys (set_child xs j) = set_child ys j" "child (set_child xs j) = xs" "set_child (child j) j = j"
  by (cases j; simp)+

lemma json_fields_object:
  "json_keys s name ended = Some ks \<Longrightarrow> map jarg_kind args = map snd ks \<Longrightarrow> list_all jarg_given args \<Longrightarrow>
     json_fields s name ended args j = Ok (Some (set_child (child j @ map2 (\<lambda>(n, k) a. field_of n a) ks args) j))"
proof (induction s name ended arbitrary: ks args j rule: json_keys.induct)
  case (1 name ended)
  then show ?case by simp
next
  case (2 c s name ended)
  show ?case
  proof (cases "c = CHR ''%''")
    case True
    obtain k s' ks' where s: "s = k # s'" "k \<in> set ''bdfs''" ended "json_keys s' [] False = Some ks'" "ks = (name, k) # ks'"
      using 2(5) True by (auto split: list.splits if_splits)
    then obtain a rest where a: "args = a # rest" "jarg_kind a = k" "jarg_given a" "map jarg_kind rest = map snd ks'" "list_all jarg_given rest"
      using 2(6,7) by (cases args) auto
    obtain v where v: "json_value k (a # rest) = Ok (Some v, rest)"
      "cJSON_AddItemToObject mem (Some j) (Some name) (Some v) = Some (Some (set_child (child j @ [field_of name a]) j))"
      using json_value_field [OF a(2,3)] by blast
    have "json_fields s' [] False rest (set_child (child j @ [field_of name a]) j) =
        Ok (Some (set_child (child j @ field_of name a # map2 (\<lambda>(n, k) a. field_of n a) ks' rest) j))"
      using 2(3) [of k s'] s a by (simp add: True)
    then show ?thesis using True s a(1) v by simp
  qed (use 2 in \<open>auto split: if_splits\<close>)
qed

text \<open>The object with the given fields.\<close>

definition object_with :: "(string \<times> char) list \<Rightarrow> jarg list \<Rightarrow> cJSON" where
  "object_with ks args = object_of (map2 (\<lambda>(n, k) a. field_of n a) ks args)"

lemma json_printf_object:
  "json_keys fmt [] False = Some ks \<Longrightarrow> map jarg_kind args = map snd ks \<Longrightarrow> list_all jarg_given args \<Longrightarrow>
     iperf_json_printf fmt args = Ok (Some (object_with ks args))"
  by (simp add: iperf_json_printf_def create_object json_fields_object object_with_def object_of_def)

lemma json_printf_ok:
  assumes "map_option (map snd) (json_keys fmt [] False) = Some (map jarg_kind args)" "list_all jarg_given args"
  shows "\<exists>i. iperf_json_printf fmt args = Ok (Some i)"
  using assms json_printf_object [of fmt _ args] by auto

section \<open>What the steps keep\<close>

text \<open>A test whose reports are defined: the shares of a file are numbers, and the output of the server is printable; and every stream has an interval.\<close>

definition file_reportable :: "(int \<Rightarrow> int option) \<Rightarrow> string option \<Rightarrow> iperf_stream \<Rightarrow> bool" where
  "file_reportable fstat fname sp \<longleftrightarrow>
     sp_diskfile_fd sp < 0 \<or>
     (case fstat (sp_diskfile_fd sp) of None \<Rightarrow> True
      | Some n \<Rightarrow> percent_of (stream_sent sp) n \<noteq> None \<and> percent_of (res_bytes_received (sp_result sp)) n \<noteq> None \<and>
          fname \<noteq> None)"

definition reportable :: "(int \<Rightarrow> int option) \<Rightarrow> iperf_test \<Rightarrow> bool" where
  "reportable fstat test \<longleftrightarrow>
     list_all (file_reportable fstat (t_diskfile_name test)) (t_streams test) \<and>
     (case t_json_server_output test of None \<Rightarrow> True | Some j \<Rightarrow> \<exists>s. cJSON_Print mem j = Ok s)"

definition intervals_known :: "iperf_test \<Rightarrow> bool" where
  "intervals_known test \<longleftrightarrow> list_all (\<lambda>sp. res_interval_results (sp_result sp) \<noteq> []) (t_streams test)"

text \<open>
  The contract of a step: a line is only printed where the report is text, or verbose in both directions, and the document only grows where
  it is wanted.
\<close>

locale interval_steps =
  fixes P :: "reports \<Rightarrow> bool" and json verbose :: bool and mode :: int
  assumes fixed: "P r \<Longrightarrow> t_json_output (r_test r) = json \<and> r_verbose r = verbose \<and> t_mode (r_test r) = mode"
    and known: "P r \<Longrightarrow> intervals_known (r_test r)"
    and prints: "P r \<Longrightarrow> json \<longrightarrow> verbose \<and> mode = BIDIRECTIONAL \<Longrightarrow> printf_text fmt args = Some s \<Longrightarrow> P (iperf_printf fmt args r)"
    and adds: "P r \<Longrightarrow> json \<Longrightarrow> P (json_update p f r)"
begin

lemma print_step:
  "P r \<Longrightarrow> list_all2 accepts (filter wants (parse_format fmt)) args \<Longrightarrow> json \<longrightarrow> verbose \<and> mode = BIDIRECTIONAL \<Longrightarrow> P (iperf_printf fmt args r)"
  using prints printf_defined by blast

lemma add_step: "P r \<Longrightarrow> json \<Longrightarrow> \<exists>i. item = Ok (Some i) \<Longrightarrow> P (add_member p key item r)"
  by (auto simp: add_member_def adds)

lemma element_step: "P r \<Longrightarrow> json \<Longrightarrow> \<exists>i. item = Ok (Some i) \<Longrightarrow> P (add_element p item r)"
  by (auto simp: add_element_def adds)

lemma text_step: "P r \<Longrightarrow> json \<Longrightarrow> P (add_text p key s r)"
  by (auto simp: add_text_def cJSON_CreateString_def cJSON_CreateText_def cJSON_New_Item_def cJSON_strdup_def intro!: add_step)

lemma opt_rule: "P r \<Longrightarrow> (\<And>a r. x = Some a \<Longrightarrow> P r \<Longrightarrow> P (f a r)) \<Longrightarrow> P (opt_step x f r)"
  by (simp add: opt_step_def split: option.split)

lemma header_step: "P r \<Longrightarrow> \<not> json \<Longrightarrow> P (interval_header sp irp r)"
  by (simp add: interval_header_def Let_def print_step conversions)

lemma line_step: "P r \<Longrightarrow> \<not> json \<Longrightarrow> P (interval_line sp irp r)"
  by (simp add: interval_line_def Let_def print_step conversions)

lemma sum_line_step: "P r \<Longrightarrow> \<not> json \<Longrightarrow> P (sum_line must_send start irp s r)"
  by (simp add: sum_line_def Let_def print_step conversions)

lemma interval_json_ok: "\<exists>i. interval_json test sp irp = Ok (Some i)"
  unfolding interval_json_def Let_def by (simp add: json_printf_ok)

lemma sum_json_ok: "\<exists>i. sum_json test must_send start irp s = Ok (Some i)"
  unfolding sum_json_def Let_def by (simp add: json_printf_ok)

lemma interval_results_step:
  assumes "P r" "res_interval_results (sp_result sp) \<noteq> []"
  shows "P (print_interval_results p first sp r)"
  using assms fixed [OF assms(1)] interval_json_ok
  by (auto simp: print_interval_results_def Let_def intro!: element_step line_step header_step)

lemma interval_streams_step:
  assumes "P r" "list_all (\<lambda>(first, sp). res_interval_results (sp_result sp) \<noteq> []) sps"
  shows "\<exists>s'. fst (interval_streams p must_send sps s r) = Some s' \<and> P (snd (interval_streams p must_send sps s r))"
  using assms
  by (induction p must_send sps s r rule: interval_streams.induct) (auto simp: Let_def interval_results_step)

lemma ready_streams: "P r \<Longrightarrow> list_all (\<lambda>(first, sp). res_interval_results (sp_result sp) \<noteq> []) (number_streams (t_streams (r_test r)))"
  using known [of r] by (cases "t_streams (r_test r)") (auto simp: intervals_known_def number_streams_def list_all_iff)

lemma interval_sum_step: "P r \<Longrightarrow> P (interval_sum p must_send s r)"
  using fixed [of r] known [of r] sum_json_ok
  by (auto simp: interval_sum_def Let_def intervals_known_def split: list.split intro!: add_step sum_line_step)

lemma interval_modes_step: "P r \<Longrightarrow> P (interval_modes p ms r)"
proof (induction p ms r rule: interval_modes.induct)
  case (2 p m ms r)
  obtain s r1 where "interval_streams (p @ [0]) (m * m \<noteq> 0) (number_streams (t_streams (r_test r))) no_sums r = (Some s, r1)" "P r1"
    using interval_streams_step [OF 2(2) ready_streams [OF 2(2)]] by (metis prod.collapse)
  then show ?case using 2(1) by (simp add: Let_def interval_sum_step)
qed simp

lemma intermediate_step: "P r \<Longrightarrow> P (iperf_print_intermediate r)"
  using fixed [of r]
  by (auto simp: iperf_print_intermediate_def Let_def cJSON_CreateArray_def cJSON_CreateObject_def cJSON_New_Item_def
      intro!: interval_modes_step add_step element_step)

end

locale report_steps = interval_steps P json verbose mode
  for P :: "reports \<Rightarrow> bool" and json verbose :: bool and mode :: int +
  fixes fstat :: "int \<Rightarrow> int option" and fname :: "string option"
  assumes named: "P r \<Longrightarrow> t_diskfile_name (r_test r) = fname"
    and ready: "P r \<Longrightarrow> reportable fstat (r_test r)"
    and times: "P r \<Longrightarrow> t_streams (r_test r) = sp # sps \<Longrightarrow> P (r\<lparr>r_test := (r_test r)\<lparr>t_streams := set_times d sp # sps\<rparr>\<rparr>)"
    and retransmits: "P r \<Longrightarrow> mode = BIDIRECTIONAL \<Longrightarrow> P (set_retransmits n r)"
    and clears: "P r \<Longrightarrow> P (clear_json_output r)" "P r \<Longrightarrow> P (clear_text_output r)"
begin

lemma summary_header_step: "P r \<Longrightarrow> \<not> json \<Longrightarrow> P (summary_header r)"
  by (simp add: summary_header_def Let_def print_step conversions)

lemma unless_step: "P r \<Longrightarrow> \<not> json \<Longrightarrow> list_all2 accepts (filter wants (parse_format fmt)) [a] \<Longrightarrow> P (f r) \<Longrightarrow> P (unless_unknown u fmt a f r)"
  by (simp add: unless_unknown_def print_step)

lemma sender_line_step: "P r \<Longrightarrow> \<not> json \<Longrightarrow> P (sender_line must_send s sp r)"
  by (simp add: sender_line_def Let_def print_step unless_step conversions)

lemma sender_json_step: "P r \<Longrightarrow> json \<Longrightarrow> P (sender_json p must_send s sp r)"
  unfolding sender_json_def Let_def by (simp add: json_printf_ok add_step)

lemma receiver_step: "P r \<Longrightarrow> P (receiver_report p must_send s sp r)"
  using fixed [of r] unfolding receiver_report_def Let_def
  by (simp add: json_printf_ok add_step print_step unless_step conversions)

lemma diskfile_step:
  assumes "P r" "file_reportable fstat fname sp"
  shows "P (diskfile_report fstat p must_send sp r)"
  using assms fixed [of r] named [of r]
  by (auto simp: diskfile_report_def file_reportable_def Let_def json_printf_ok conversions split: option.splits intro!: add_step print_step)

lemma stream_summary_step:
  assumes "P r" "file_reportable fstat fname sp"
  shows "P (stream_summary fstat p must_send s sp r)"
  using assms fixed [OF assms(1)]
  by (auto simp: stream_summary_def Let_def cJSON_CreateObject_def cJSON_New_Item_def
      intro!: receiver_step diskfile_step sender_json_step sender_line_step element_step)

lemma stream_summaries_step:
  "P r \<Longrightarrow> list_all (file_reportable fstat fname) sps \<Longrightarrow> P (snd (stream_summaries fstat p must_send sps s r))"
  by (induction sps arbitrary: s r) (auto simp: stream_summary_step)

lemma total_step: "P r \<Longrightarrow> P (total_summary must_send s r)"
proof -
  assume r: "P r"
  have "P (total_streamed must_send s r)" "P (total_udp must_send s r)"
    using r fixed [OF r] unfolding total_streamed_def total_udp_def Let_def
    by (simp_all add: json_printf_ok add_step print_step unless_step conversions)
  then show ?thesis using r by (simp add: total_summary_def)
qed

lemma cpu_json_step: "P r \<Longrightarrow> json \<Longrightarrow> P (cpu_json must_send r)"
  unfolding cpu_json_def Let_def
  by (auto split: prod.split intro!: opt_rule add_step text_step json_printf_ok)

lemma text_line: "filter wants (parse_format (''rcv_tcp_congestion %s'' @ [CHR 0x0A])) = [Conv False 0 None [] (CHR ''s'')]"
  "filter wants (parse_format (''snd_tcp_congestion %s'' @ [CHR 0x0A])) = [Conv False 0 None [] (CHR ''s'')]"
  "filter wants (parse_format (CHR 0x0A # ''Server output:'' @ [CHR 0x0A] @ ''%s'' @ [CHR 0x0A])) = [Conv False 0 None [] (CHR ''s'')]"
  "filter wants (parse_format (CHR 0x0A # ''Server JSON output:'' @ [CHR 0x0A] @ ''%s'' @ [CHR 0x0A])) = [Conv False 0 None [] (CHR ''s'')]"
  by code_simp+

lemma cpu_lines_step:
  assumes "P r" "json \<longrightarrow> verbose \<and> mode = BIDIRECTIONAL"
  shows "P (cpu_lines must_send r)"
proof -
  have line: "P (cpu_line here there r)" if "P r" for here there r
    using that assms(2) by (simp add: cpu_line_def print_step conversions split: prod.split)
  show ?thesis
    using assms unfolding cpu_lines_def Let_def
    by (auto intro!: opt_rule print_step line simp: text_line [unfolded append_Cons append_Nil])
qed

lemma server_output_step: "P r \<Longrightarrow> P (print_server_output r)"
  using fixed [of r] ready [of r] unfolding print_server_output_def Let_def reportable_def
  by (auto intro!: opt_rule clears print_step simp: text_line [unfolded append_Cons append_Nil] split: outcome.split)

lemma pass_step:
  assumes "P r" "final \<or> \<not> json \<or> mode = BIDIRECTIONAL"
  shows "P (summary_pass fstat p has must_send final r)"
proof -
  define r1 where "r1 = (if t_mode (r_test r) = BIDIRECTIONAL
    then set_retransmits (if must_send then has else t_other_side_has_retransmits (r_test r)) r else r)"
  have r1: "P r1" using assms(1) fixed [OF assms(1)] retransmits by (simp add: r1_def)
  obtain s r2 where p: "pass_times r1 = (s, r2)" by fastforce
  have r2: "P r2" using r1 p times by (auto simp: pass_times_def Let_def split: list.splits)
  obtain s1 r3 where q: "stream_summaries fstat p must_send (t_streams (r_test r2)) s r2 = (s1, r3)" by fastforce
  have "list_all (file_reportable fstat fname) (t_streams (r_test r2))"
    using ready [OF r2] named [OF r2] by (auto simp: reportable_def list_all_iff)
  then have "P r3" using stream_summaries_step [OF r2] q by (metis snd_conv)
  then have r4: "P (total_summary must_send s1 r3)" by (rule total_step)
  show ?thesis
    unfolding summary_pass_def r1_def [symmetric] Let_def p q prod.case
    using r4 fixed [OF r4] assms(2) by (auto intro!: cpu_json_step server_output_step cpu_lines_step)
qed

lemma passes_step: "P r \<Longrightarrow> length ms \<le> 1 \<or> mode = BIDIRECTIONAL \<Longrightarrow> P (summary_passes fstat p has ms r)"
proof (induction ms arbitrary: r)
  case (Cons m ms)
  have "ms = [] \<or> mode = BIDIRECTIONAL" using Cons.prems(2) by auto
  then have "P (summary_pass fstat p has (m * m \<noteq> 0) (ms = []) r)" "length ms \<le> 1 \<or> mode = BIDIRECTIONAL"
    using pass_step [OF Cons.prems(1), of "ms = []"] by auto
  then show ?case unfolding summary_passes.simps by (rule Cons.IH)
qed simp

lemma results_step: "P r \<Longrightarrow> P (iperf_print_results fstat r)"
proof -
  assume r: "P r"
  have "length (current_modes (r_test r)) \<le> 1 \<or> mode = BIDIRECTIONAL" using fixed [OF r] by (auto simp: current_modes_def)
  then show ?thesis
    using r fixed [OF r]
    by (auto simp: iperf_print_results_def Let_def cJSON_CreateArray_def cJSON_New_Item_def
        intro!: retransmits passes_step add_step summary_header_step)
qed

lemma reporter_step: "P r \<Longrightarrow> P (iperf_reporter_callback fstat r)"
  by (simp add: iperf_reporter_callback_def Let_def intermediate_step results_step)

end

section \<open>The report is safe\<close>

text \<open>What an interval report may change, and what a summary may.\<close>

definition but_lines :: "iperf_test \<Rightarrow> iperf_test" where
  "but_lines t = t\<lparr>t_server_output_list := []\<rparr>"

definition timeless :: "iperf_stream \<Rightarrow> iperf_stream" where
  "timeless sp = sp\<lparr>sp_result := (sp_result sp)\<lparr>res_sender_time := Fin 0, res_receiver_time := Fin 0\<rparr>\<rparr>"

definition but_summary :: "iperf_test \<Rightarrow> iperf_test" where
  "but_summary t = t\<lparr>t_server_output_list := [], t_streams := map timeless (t_streams t), t_json_server_output := None,
     t_server_output_text := None, t_sender_has_retransmits := (if t_mode t = BIDIRECTIONAL then 0 else t_sender_has_retransmits t)\<rparr>"

text \<open>No undefined behaviour, nothing on \<open>stderr\<close>, and text and document apart.\<close>

definition clean :: "reports \<Rightarrow> reports \<Rightarrow> bool" where
  "clean r0 r \<longleftrightarrow> \<not> r_fault r \<and> r_verbose r = r_verbose r0 \<and> r_err r = r_err r0 \<and>
     (if t_json_output (r_test r0) then r_verbose r0 \<and> t_mode (r_test r0) = BIDIRECTIONAL \<or> r_out r = r_out r0 else r_json r = r_json r0)"

definition interval_safe :: "reports \<Rightarrow> reports \<Rightarrow> bool" where
  "interval_safe r0 r \<longleftrightarrow> clean r0 r \<and> but_lines (r_test r) = but_lines (r_test r0) \<and> intervals_known (r_test r)"

definition report_safe :: "(int \<Rightarrow> int option) \<Rightarrow> reports \<Rightarrow> reports \<Rightarrow> bool" where
  "report_safe fstat r0 r \<longleftrightarrow> clean r0 r \<and> but_summary (r_test r) = but_summary (r_test r0) \<and> intervals_known (r_test r) \<and> reportable fstat (r_test r)"

lemma but_lines_fields:
  assumes "but_lines t = but_lines t0"
  shows "t_json_output t = t_json_output t0" "t_mode t = t_mode t0" "t_sender_has_retransmits t = t_sender_has_retransmits t0"
    "t_streams t = t_streams t0"
  using arg_cong [OF assms, of t_json_output] arg_cong [OF assms, of t_mode] arg_cong [OF assms, of t_sender_has_retransmits]
    arg_cong [OF assms, of t_streams] by (simp_all add: but_lines_def)

lemma but_summary_fields:
  assumes "but_summary t = but_summary t0"
  shows "t_json_output t = t_json_output t0" "t_mode t = t_mode t0" "t_diskfile_name t = t_diskfile_name t0"
    "t_mode t \<noteq> BIDIRECTIONAL \<Longrightarrow> t_sender_has_retransmits t = t_sender_has_retransmits t0"
  using arg_cong [OF assms, of t_json_output] arg_cong [OF assms, of t_mode] arg_cong [OF assms, of t_diskfile_name]
    arg_cong [OF assms, of t_sender_has_retransmits] by (simp_all add: but_summary_def)

lemma printf_effect:
  assumes "printf_text fmt args = Some s"
  shows "\<exists>ls xs. iperf_printf fmt args r = r\<lparr>r_out := r_out r @ ls, r_test := (r_test r)\<lparr>t_server_output_list := xs\<rparr>\<rparr>"
proof -
  have same: "r\<lparr>r_out := r_out r @ ls\<rparr> = r\<lparr>r_out := r_out r @ ls, r_test := (r_test r)\<lparr>t_server_output_list := t_server_output_list (r_test r)\<rparr>\<rparr>" for ls
    by simp
  have none: "r = r\<lparr>r_out := r_out r @ []\<rparr>" by simp
  show ?thesis
    unfolding iperf_printf_def Let_def assms option.case
    by (cases "t_role (r_test r) = CHR ''c''"; cases "t_role (r_test r) = CHR ''s''"; cases "t_get_server_output (r_test r) = 0")
      (simp_all only: if_True if_False simp_thms, (blast intro: same none trans)+)
qed

lemma update_frame [simp]:
  "r_fault (json_update p f r) = r_fault r" "r_test (json_update p f r) = r_test r" "r_out (json_update p f r) = r_out r"
  "r_err (json_update p f r) = r_err r" "r_verbose (json_update p f r) = r_verbose r"
  by (simp_all add: json_update_def)

interpretation int: interval_steps "interval_safe r0" "t_json_output (r_test r0)" "r_verbose r0" "t_mode (r_test r0)" for r0
proof
  fix r
  assume r: "interval_safe r0 r"
  then have eq: "but_lines (r_test r) = but_lines (r_test r0)" and c: "clean r0 r" and k: "intervals_known (r_test r)"
    by (simp_all add: interval_safe_def)
  show "t_json_output (r_test r) = t_json_output (r_test r0) \<and> r_verbose r = r_verbose r0 \<and> t_mode (r_test r) = t_mode (r_test r0)"
    using but_lines_fields [OF eq] c by (simp add: clean_def)
  show "intervals_known (r_test r)" by (rule k)
  show "interval_safe r0 (json_update p f r)" if "t_json_output (r_test r0)" for p f
    using c eq k that by (simp add: interval_safe_def clean_def)
  show "interval_safe r0 (iperf_printf fmt args r)"
    if m: "t_json_output (r_test r0) \<longrightarrow> r_verbose r0 \<and> t_mode (r_test r0) = BIDIRECTIONAL" and t: "printf_text fmt args = Some s" for fmt args s
  proof -
    obtain ls xs where "iperf_printf fmt args r = r\<lparr>r_out := r_out r @ ls, r_test := (r_test r)\<lparr>t_server_output_list := xs\<rparr>\<rparr>"
      using printf_effect [OF t] by blast
    then show ?thesis using c eq k m by (simp add: interval_safe_def clean_def but_lines_def intervals_known_def)
  qed
qed

lemma set_times_facts [simp]:
  "timeless (set_times d sp) = timeless sp" "res_interval_results (sp_result (set_times d sp)) = res_interval_results (sp_result sp)"
  "res_bytes_received (sp_result (set_times d sp)) = res_bytes_received (sp_result sp)"
  "stream_sent (set_times d sp) = stream_sent sp" "sp_diskfile_fd (set_times d sp) = sp_diskfile_fd sp"
  by (simp_all add: set_times_def timeless_def stream_sent_def Let_def)

lemma set_times_file [simp]: "file_reportable fstat fname (set_times d sp) = file_reportable fstat fname sp"
  by (simp add: file_reportable_def split: option.split)

interpretation rep: report_steps "report_safe fstat r0" "t_json_output (r_test r0)" "r_verbose r0" "t_mode (r_test r0)" fstat
  "t_diskfile_name (r_test r0)" for fstat r0
proof
  fix r
  assume r: "report_safe fstat r0 r"
  then have eq: "but_summary (r_test r) = but_summary (r_test r0)" and c: "clean r0 r" and k: "intervals_known (r_test r)"
    and f: "reportable fstat (r_test r)" by (simp_all add: report_safe_def)
  note fields = but_summary_fields [OF eq]
  show "t_json_output (r_test r) = t_json_output (r_test r0) \<and> r_verbose r = r_verbose r0 \<and> t_mode (r_test r) = t_mode (r_test r0)"
    using fields c by (simp add: clean_def)
  show "intervals_known (r_test r)" "reportable fstat (r_test r)" "t_diskfile_name (r_test r) = t_diskfile_name (r_test r0)"
    using k f fields by simp_all
  show "report_safe fstat r0 (json_update p f r)" if "t_json_output (r_test r0)" for p f
    using r that by (simp add: report_safe_def clean_def)
  have change: "report_safe fstat r0 (r\<lparr>r_test := t\<rparr>)"
    if "but_summary t = but_summary (r_test r)" "intervals_known t" "reportable fstat t" for t
    using c eq that by (simp add: report_safe_def clean_def)
  show "report_safe fstat r0 (r\<lparr>r_test := (r_test r)\<lparr>t_streams := set_times d sp # sps\<rparr>\<rparr>)" if "t_streams (r_test r) = sp # sps" for d sp sps
    using k f that by (intro change) (simp_all add: but_summary_def intervals_known_def reportable_def)
  show "report_safe fstat r0 (set_retransmits n r)" if "t_mode (r_test r0) = BIDIRECTIONAL" for n
    unfolding set_retransmits_def using k f fields(2) that
    by (intro change) (simp_all add: but_summary_def intervals_known_def reportable_def)
  show "report_safe fstat r0 (clear_json_output r)"
    unfolding clear_json_output_def using k f by (intro change) (simp_all add: but_summary_def intervals_known_def reportable_def)
  show "report_safe fstat r0 (clear_text_output r)"
    unfolding clear_text_output_def using k f by (intro change) (simp_all add: but_summary_def intervals_known_def reportable_def)
  show "report_safe fstat r0 (iperf_printf fmt args r)"
    if m: "t_json_output (r_test r0) \<longrightarrow> r_verbose r0 \<and> t_mode (r_test r0) = BIDIRECTIONAL" and t: "printf_text fmt args = Some s" for fmt args s
  proof -
    obtain ls xs where p: "iperf_printf fmt args r = r\<lparr>r_out := r_out r @ ls, r_test := (r_test r)\<lparr>t_server_output_list := xs\<rparr>\<rparr>"
      using printf_effect [OF t] by blast
    have "but_summary ((r_test r)\<lparr>t_server_output_list := xs\<rparr>) = but_summary (r_test r)" by (simp add: but_summary_def)
    then have "but_summary ((r_test r)\<lparr>t_server_output_list := xs\<rparr>) = but_summary (r_test r0)" using eq by simp
    then show ?thesis using c k f m unfolding p
      by (simp add: report_safe_def clean_def intervals_known_def reportable_def)
  qed
qed


text \<open>Two streams of a client that sent for 1.25 seconds, in text.\<close>

definition demo_figures :: "u64 \<Rightarrow> iperf_interval_results" where
  "demo_figures n = \<lparr>ir_bytes_transferred = n, ir_interval_start_time = \<lparr>secs = 5, usecs = 0\<rparr>,
     ir_interval_end_time = \<lparr>secs = 6, usecs = 250000\<rparr>, ir_interval_duration = Fin (5 / 4), ir_interval_packet_count = 10,
     ir_interval_outoforder_packets = 0, ir_interval_cnt_error = 1, ir_packet_count = 0, ir_jitter = Fin 0, ir_outoforder_packets = 0,
     ir_cnt_error = 0, ir_omitted = False, ir_interval_retrans = 3, ir_snd_cwnd = 20000, ir_rtt = 0, ir_rttvar = 0, ir_pmtu = 0\<rparr>"

definition demo_sent :: "int \<Rightarrow> u64 \<Rightarrow> iperf_stream" where
  "demo_sent i n = (blank_stream (i + 4) True 6 (-1) [])\<lparr>sp_id := i, sp_result := blank_result\<lparr>res_bytes_sent := n,
     res_start_time := \<lparr>secs = 5, usecs = 0\<rparr>, res_end_time := \<lparr>secs = 6, usecs = 250000\<rparr>, res_interval_results := [demo_figures n]\<rparr>\<rparr>"

definition demo_report :: "bool \<Rightarrow> bool \<Rightarrow> int \<Rightarrow> reports" where
  "demo_report json verbose mode = \<lparr>r_test = demo_client\<lparr>t_json_output := json, t_state := DISPLAY_RESULTS, t_mode := mode, t_num_streams := 2,
     t_title := None, t_sender_has_retransmits := 1, t_streams := [demo_sent 1 1000000, demo_sent 3 500000]\<rparr>,
     r_verbose = verbose, r_json = None, r_out = [], r_err = [], r_log = False, r_fault = False\<rparr>"


text \<open>A line of the report.\<close>

lemma sample_line:
  "printf_text report_bw_retrans_format [AInt 5, AText [], ADouble (Fin 0), ADouble (Fin (5 / 4)), AText '' 977 KByte'', AText ''6.40 Mbit'', AInt 3, AText report_sender] =
     Some (''[  5]   0.00-1.25   sec   977 KBytes  6.40 Mbits/sec    3             sender'' @ [CHR 0x0A])"
  by code_simp

section \<open>The document of an interval\<close>

text \<open>An object by the names and values of its fields.\<close>

definition record_object :: "(string \<times> jarg) list \<Rightarrow> cJSON" where
  "record_object fs = object_of (map (\<lambda>(n, a). field_of n a) fs)"

lemma map2_fields: "map fst ks = map fst fs \<Longrightarrow> map2 (\<lambda>(n, k) a. field_of n a) ks (map snd fs) = map (\<lambda>(n, a). field_of n a) fs"
  by (induction fs arbitrary: ks) (auto simp: case_prod_unfold)

lemma json_printf_record:
  assumes "map_option (\<lambda>ks. (map fst ks, map snd ks)) (json_keys fmt [] False) = Some (map fst fs, map (\<lambda>(n, a). jarg_kind a) fs)"
    "list_all (\<lambda>(n, a). jarg_given a) fs" "map snd fs = args"
  shows "iperf_json_printf fmt args = Ok (Some (record_object fs))"
proof -
  obtain ks where ks: "json_keys fmt [] False = Some ks" "map fst ks = map fst fs" "map snd ks = map (\<lambda>(n, a). jarg_kind a) fs"
    using assms(1) by auto
  then have k: "map snd ks = map jarg_kind args" using assms(3) by (auto simp: case_prod_unfold)
  have "map2 (\<lambda>(n, k) a. field_of n a) ks (map snd fs) = map (\<lambda>(n, a). field_of n a) fs"
    using ks(2) by (rule map2_fields)
  then show ?thesis
    using json_printf_object [OF ks(1), of args] k assms(2,3)
    by (auto simp: object_with_def record_object_def list_all_iff case_prod_unfold)
qed

definition interval_fields :: "iperf_test \<Rightarrow> iperf_stream \<Rightarrow> (string \<times> jarg) list" where
  "interval_fields t sp =
     (let irp = last (res_interval_results (sp_result sp)); start = res_start_time (sp_result sp) in
      [(''socket'', JD (sp_socket sp)), (''start'', JF (secs_between start (ir_interval_start_time irp))),
       (''end'', JF (secs_between start (ir_interval_end_time irp))), (''seconds'', JF (ir_interval_duration irp)),
       (''bytes'', JD (sint (ir_bytes_transferred irp))),
       (''bits_per_second'', JF (bits (rate_over (ir_bytes_transferred irp) (ir_interval_duration irp))))] @
      (if streamed t then
         if t_sender_has_retransmits t = 1 \<and> sp_sender sp then
           [(''retransmits'', JD (ir_interval_retrans irp)), (''snd_cwnd'', JD (ir_snd_cwnd irp)), (''rtt'', JD (ir_rtt irp)),
            (''rttvar'', JD (ir_rttvar irp)), (''pmtu'', JD (ir_pmtu irp))] else []
       else if sp_sender sp then [(''packets'', JD (ir_interval_packet_count irp))]
       else [(''jitter_ms'', JF (millis (ir_jitter irp))), (''lost_packets'', JD (ir_interval_cnt_error irp)),
             (''packets'', JD (ir_interval_packet_count irp)),
             (''lost_percent'', JF (loss_percent (ir_interval_cnt_error irp) (ir_interval_packet_count irp)))]) @
      [(''omitted'', JB (ir_omitted irp)), (''sender'', JB (sp_sender sp))])"

lemma interval_json_record:
  "interval_json t sp (last (res_interval_results (sp_result sp))) = Ok (Some (record_object (interval_fields t sp)))"
proof (cases "streamed t")
  case True
  then show ?thesis
    unfolding interval_json_def Let_def
    by (cases "t_sender_has_retransmits t = 1 \<and> sp_sender sp")
      (simp_all only: if_True if_False simp_thms, (rule json_printf_record; simp add: interval_fields_def Let_def)+)
next
  case False
  then show ?thesis
    unfolding interval_json_def Let_def
    by (cases "sp_sender sp") (simp_all only: if_True if_False, (rule json_printf_record; simp add: interval_fields_def Let_def)+)
qed

text \<open>The streams of a direction, and what they transferred together.\<close>

definition in_direction :: "iperf_test \<Rightarrow> bool \<Rightarrow> iperf_stream list" where
  "in_direction t must_send = filter (\<lambda>sp. sp_sender sp = must_send) (t_streams t)"

definition last_intervals :: "iperf_stream list \<Rightarrow> iperf_interval_results list" where
  "last_intervals sps = map (\<lambda>sp. last (res_interval_results (sp_result sp))) sps"

definition direction_sums :: "iperf_test \<Rightarrow> iperf_interval_results list \<Rightarrow> interval_sums" where
  "direction_sums t irs =
     (let tcp = (t_protocol t = Ptcp) in
      \<lparr>is_bytes = sum_list (map ir_bytes_transferred irs),
       is_retransmits = (if tcp \<and> t_sender_has_retransmits t = 1 then c_int (sum_list (map ir_interval_retrans irs)) else 0),
       is_packets = (if tcp then 0 else c_int (sum_list (map ir_interval_packet_count irs))),
       is_lost = (if tcp then 0 else c_int (sum_list (map ir_interval_cnt_error irs))),
       is_jitter = (if tcp then Fin 0 else foldl dadd (Fin 0) (map ir_jitter irs))\<rparr>)"

lemma c_int_add [simp]: "c_int (c_int a + b) = c_int (a + b)"
  by (simp add: c_int_def flip: wi_hom_add)

lemma c_int_zero: "c_int 0 = 0"
  by (simp add: c_int_id)

lemma sum_intervals: "fold (sum_interval t) irs no_sums = direction_sums t irs"
proof (induction irs rule: rev_induct)
  case Nil
  then show ?case by (simp add: no_sums_def direction_sums_def Let_def c_int_zero)
next
  case (snoc irp irs)
  have "sum_interval t irp (direction_sums t irs) = direction_sums t (irs @ [irp])"
    by (simp add: sum_interval_def direction_sums_def Let_def)
  then show ?case using snoc by simp
qed

definition sum_fields :: "iperf_test \<Rightarrow> bool \<Rightarrow> (string \<times> jarg) list" where
  "sum_fields t must_send =
     (let sp = hd (t_streams t); irp = last (res_interval_results (sp_result sp)); start = res_start_time (sp_result sp);
          s = direction_sums t (last_intervals (in_direction t must_send)) in
      [(''start'', JF (secs_between start (ir_interval_start_time irp))), (''end'', JF (secs_between start (ir_interval_end_time irp))),
       (''seconds'', JF (ir_interval_duration irp)), (''bytes'', JD (sint (is_bytes s))),
       (''bits_per_second'', JF (bits (ddiv (d_of_u64 (is_bytes s)) (ir_interval_duration irp))))] @
      (if streamed t then
         if t_sender_has_retransmits t = 1 \<and> must_send
         then [(''retransmits'', JD (is_retransmits s)), (''omitted'', JB (ir_omitted irp))] else [(''omitted'', JB (t_omitting t))]
       else if must_send then [(''packets'', JD (is_packets s)), (''omitted'', JB (t_omitting t))]
       else [(''jitter_ms'', JF (millis (ddiv (is_jitter s) (d_of_int (t_num_streams t))))), (''lost_packets'', JD (is_lost s)),
             (''packets'', JD (is_packets s)), (''lost_percent'', JF (loss_percent (is_lost s) (is_packets s))),
             (''omitted'', JB (t_omitting t))]) @
      [(''sender'', JB must_send)])"

lemma sum_json_record:
  assumes "t_streams t = sp # sps"
  shows "sum_json t must_send (res_start_time (sp_result sp)) (last (res_interval_results (sp_result sp)))
     (direction_sums t (last_intervals (in_direction t must_send))) = Ok (Some (record_object (sum_fields t must_send)))"
proof (cases "streamed t")
  case True
  then show ?thesis
    unfolding sum_json_def Let_def
    by (cases "t_sender_has_retransmits t = 1 \<and> must_send")
      (simp_all only: if_True if_False simp_thms, (rule json_printf_record; simp add: sum_fields_def Let_def assms)+)
next
  case False
  then show ?thesis
    unfolding sum_json_def Let_def
    by (cases must_send) (simp_all only: if_True if_False, (rule json_printf_record; simp add: sum_fields_def Let_def assms)+)
qed

text \<open>The object of an interval with its streams and sums, as the last one of the intervals of a document.\<close>

definition interval_object :: "cJSON list \<Rightarrow> cJSON list \<Rightarrow> cJSON" where
  "interval_object xs ss = object_of (Item cJSON_Array None 0 (Fin 0) (Some ''streams'') xs # ss)"

definition with_interval :: "cJSON \<Rightarrow> cJSON \<Rightarrow> cJSON" where
  "with_interval doc j = update_at json_intervals_path (\<lambda>a. set_child (child a @ [j]) a) doc"

lemma update_interval:
  assumes "1 < length (child doc)"
  shows "update_at (1 # length (child (child doc ! 1)) # q) f (with_interval doc j) = with_interval doc (update_at q f j)"
  using assms by (simp add: with_interval_def nth_append)

definition document_ready :: "cJSON \<Rightarrow> iperf_test \<Rightarrow> nat list \<Rightarrow> bool" where
  "document_ready doc t p \<longleftrightarrow> 1 < length (child doc) \<and> p = [1, length (child (child doc ! 1))] \<and> intervals_known t \<and> t_json_output t"

definition holds :: "cJSON \<Rightarrow> iperf_test \<Rightarrow> cJSON list \<Rightarrow> cJSON list \<Rightarrow> reports \<Rightarrow> bool" where
  "holds doc t xs ss r \<longleftrightarrow> r_json r = Some (with_interval doc (interval_object xs ss)) \<and> r_test r = t"

lemma stream_added:
  assumes "document_ready doc t p" "holds doc t xs ss r" "sp \<in> set (t_streams t)"
  shows "print_interval_results (p @ [0]) first sp r =
     r\<lparr>r_json := Some (with_interval doc (interval_object (xs @ [record_object (interval_fields t sp)]) ss))\<rparr>"
proof -
  have "res_interval_results (sp_result sp) \<noteq> []" using assms(1,3) by (auto simp: document_ready_def intervals_known_def list_all_iff)
  then show ?thesis
    using assms(1,2) update_interval [of doc]
    by (simp add: document_ready_def print_interval_results_def holds_def interval_json_record add_element_def json_update_def cJSON_AddItemToArray_def
        interval_object_def object_of_def)
qed

lemma streams_added:
  assumes "document_ready doc t p" "holds doc t xs ss r" "snd ` set nsps \<subseteq> set (t_streams t)"
    "sps = filter (\<lambda>sp. sp_sender sp = must_send) (map snd nsps)"
  shows "interval_streams (p @ [0]) must_send nsps s r =
     (Some (fold (sum_interval t) (last_intervals sps) s),
      r\<lparr>r_json := Some (with_interval doc (interval_object (xs @ map (\<lambda>sp. record_object (interval_fields t sp)) sps) ss))\<rparr>)"
  using assms(2,3) unfolding assms(4)
proof (induction nsps arbitrary: xs s r)
  case Nil
  then show ?case by (simp add: last_intervals_def holds_def)
next
  case (Cons x nsps)
  obtain first sp where x: "x = (first, sp)" by (cases x)
  have sp: "sp \<in> set (t_streams t)" "res_interval_results (sp_result sp) \<noteq> []"
    using Cons.prems(2) assms(1) by (auto simp: x document_ready_def intervals_known_def list_all_iff)
  let ?r = "r\<lparr>r_json := Some (with_interval doc (interval_object (xs @ [record_object (interval_fields t sp)]) ss))\<rparr>"
  have "holds doc t (xs @ [record_object (interval_fields t sp)]) ss ?r" "r_test ?r = t" using Cons.prems(1) by (simp_all add: holds_def)
  then show ?case
    using Cons.IH [of "xs @ [record_object (interval_fields t sp)]" ?r] Cons.IH [of xs r] Cons.prems stream_added [OF assms(1) Cons.prems(1) sp(1)] sp(2)
    by (simp add: x Let_def last_intervals_def)
qed

lemma sum_added:
  assumes "document_ready doc t p" "holds doc t xs ss r" "t_streams t \<noteq> []"
  shows "interval_sum p must_send (direction_sums t (last_intervals (in_direction t must_send))) r =
     r\<lparr>r_json := Some (with_interval doc (interval_object xs (ss @ [set_string (Some ''sum'') (record_object (sum_fields t must_send))])))\<rparr>"
proof -
  obtain sp sps where t: "t_streams t = sp # sps" using assms(3) by (cases "t_streams t") auto
  then have "res_interval_results (sp_result sp) \<noteq> []" using assms(1) by (simp add: document_ready_def intervals_known_def)
  then show ?thesis
    using assms(1,2) update_interval [of doc "[]"] t sum_json_record [OF t]
    by (simp add: document_ready_def interval_sum_def holds_def add_member_def json_update_def cJSON_AddItemToObject_def cJSON_AddItemToArray_def
        cJSON_strdup_def interval_object_def object_of_def record_object_def json_types)
qed

lemma modes_added:
  assumes "document_ready doc t p" "holds doc t xs ss r" "t_streams t \<noteq> []"
  shows "interval_modes p ms r = r\<lparr>r_json := Some (with_interval doc (interval_object
     (xs @ concat (map (\<lambda>m. map (\<lambda>sp. record_object (interval_fields t sp)) (in_direction t (m * m \<noteq> 0))) ms))
     (ss @ map (\<lambda>m. set_string (Some ''sum'') (record_object (sum_fields t (m * m \<noteq> 0)))) ms)))\<rparr>"
  using assms(2)
proof (induction ms arbitrary: xs ss r)
  case Nil
  then show ?case by (simp add: holds_def)
next
  case (Cons m ms)
  let ?d = "m * m \<noteq> 0"
  have n: "map snd (number_streams (t_streams t)) = t_streams t" by (simp add: number_streams_def comp_def split: list.split)
  then have sub: "snd ` set (number_streams (t_streams t)) \<subseteq> set (t_streams t)" by (metis order_refl set_map)
  let ?xs = "xs @ map (\<lambda>sp. record_object (interval_fields t sp)) (in_direction t ?d)"
  let ?r1 = "r\<lparr>r_json := Some (with_interval doc (interval_object ?xs ss))\<rparr>"
  let ?ss = "ss @ [set_string (Some ''sum'') (record_object (sum_fields t ?d))]"
  let ?r2 = "r\<lparr>r_json := Some (with_interval doc (interval_object ?xs ?ss))\<rparr>"
  have h: "holds doc t ?xs ss ?r1" "holds doc t ?xs ?ss ?r2" "r_test r = t" using Cons.prems by (simp_all add: holds_def)
  have "interval_streams (p @ [0]) ?d (number_streams (t_streams t)) no_sums r =
      (Some (direction_sums t (last_intervals (in_direction t ?d))), ?r1)"
    using streams_added [OF assms(1) Cons.prems sub refl, of ?d no_sums] by (simp add: n sum_intervals in_direction_def)
  moreover have "interval_sum p ?d (direction_sums t (last_intervals (in_direction t ?d))) ?r1 = ?r2"
    using sum_added [OF assms(1) h(1) assms(3), of ?d] by simp
  ultimately have "interval_modes p (m # ms) r = interval_modes p ms ?r2" using h(3) by (simp add: Let_def)
  then show ?case using Cons.IH [OF h(2)] by simp
qed

text \<open>The directions of a test, in the order they are reported.\<close>

definition directions :: "iperf_test \<Rightarrow> bool list" where
  "directions t =
     (if t_mode t = BIDIRECTIONAL then (if t_role t = CHR ''c'' then [True, False] else [False, True]) else [t_mode t \<noteq> RECEIVER])"

lemma modes_directions: "map (\<lambda>m. m * m \<noteq> 0) (current_modes t) = directions t"
  by (simp add: current_modes_def directions_def RECEIVER_def)

definition interval_report :: "iperf_test \<Rightarrow> cJSON" where
  "interval_report t = interval_object
     (concat (map (\<lambda>d. map (\<lambda>sp. record_object (interval_fields t sp)) (in_direction t d)) (directions t)))
     (map (\<lambda>d. set_string (Some ''sum'') (record_object (sum_fields t d))) (directions t))"

text \<open>
  C11. The document of an interval: unless it was short and empty in every stream, in which case nothing changes, the report of an
  interval appends exactly one object to the intervals of the document and changes nothing else. The object has one entry
  for each stream, direction by direction and in the order of the streams, and one sum for each direction: the bytes, packets,
  losses and retransmissions that its streams have together, with the integers wrapped to their width.
\<close>

theorem interval_document:
  assumes "t_json_output (r_test r)" "r_json r = Some doc" "1 < length (child doc)" "intervals_known (r_test r)"
  shows "iperf_print_intermediate r =
     (if interval_kept (r_test r) then r\<lparr>r_json := Some (with_interval doc (interval_report (r_test r)))\<rparr> else r)"
proof (cases "interval_kept (r_test r)")
  case True
  let ?t = "r_test r" and ?p = "[1, length (child (child doc ! 1))]"
  have ne: "t_streams ?t \<noteq> []" using True by (auto simp: interval_kept_def)
  have ready: "document_ready doc ?t ?p" using assms by (simp add: document_ready_def)
  let ?r = "r\<lparr>r_json := Some (with_interval doc (interval_object [] []))\<rparr>"
  have count: "json_count json_intervals_path r = length (child (child doc ! 1))" using assms by (simp add: json_count_def)
  have "json_update json_intervals_path (\<lambda>j. set_child (child j @ [object_of []]) j) r = r\<lparr>r_json := Some (with_interval doc (object_of []))\<rparr>"
    using assms(2) by (simp add: json_update_def with_interval_def)
  then have "add_element json_intervals_path (Ok (cJSON_CreateObject mem)) r = r\<lparr>r_json := Some (with_interval doc (object_of []))\<rparr>"
    by (simp add: add_element_def create_object cJSON_AddItemToArray_def)
  moreover have "add_member ?p ''streams'' (Ok (cJSON_CreateArray mem)) (r\<lparr>r_json := Some (with_interval doc (object_of []))\<rparr>) = ?r"
    using update_interval [OF assms(3), of "[]"]
    by (simp add: add_member_def json_update_def cJSON_CreateArray_def cJSON_New_Item_def cJSON_blank_def cJSON_AddItemToObject_def
        cJSON_AddItemToArray_def cJSON_strdup_def interval_object_def object_of_def json_types)
  moreover have "holds doc ?t [] [] ?r" by (simp add: holds_def)
  note modes_added [OF ready this ne, of "current_modes ?t"]
  moreover have "map (\<lambda>m. map (\<lambda>sp. record_object (interval_fields ?t sp)) (in_direction ?t (m * m \<noteq> 0))) (current_modes ?t) =
      map (\<lambda>d. map (\<lambda>sp. record_object (interval_fields ?t sp)) (in_direction ?t d)) (directions ?t)"
    "map (\<lambda>m. set_string (Some ''sum'') (record_object (sum_fields ?t (m * m \<noteq> 0)))) (current_modes ?t) =
      map (\<lambda>d. set_string (Some ''sum'') (record_object (sum_fields ?t d))) (directions ?t)"
    unfolding modes_directions [symmetric] map_map comp_def by (rule refl)+
  ultimately show ?thesis
    using True assms(1) by (simp add: iperf_print_intermediate_def Let_def count interval_report_def del: One_nat_def)
qed (simp add: iperf_print_intermediate_def Let_def)

theorem interval_document_witness:
  "let r = iperf_json_start (demo_report True False SENDER); r' = iperf_print_intermediate r in
     case item_at [1] (the (r_json r')) of
       Some a \<Rightarrow> child a = [interval_report (r_test r)] \<and> length (child (hd (child (hd (child a))))) = 2
     | None \<Rightarrow> False"
proof -
  let ?r = "iperf_json_start (demo_report True False SENDER)"
  define doc where "doc = object_of [Item cJSON_Object None 0 (Fin 0) (Some ''start'') [Item cJSON_Array None 0 (Fin 0) (Some ''connected'') []],
     Item cJSON_Array None 0 (Fin 0) (Some ''intervals'') [], Item cJSON_Object None 0 (Fin 0) (Some ''end'') []]"
  note start = iperf_json_start_def Let_def add_member_def json_update_def cJSON_CreateArray_def create_object cJSON_New_Item_def cJSON_blank_def
    cJSON_AddItemToObject_def cJSON_AddItemToArray_def cJSON_strdup_def json_types object_of_def
  have r: "r_json ?r = Some doc" "r_test ?r = r_test (demo_report True False SENDER)" "1 < length (child doc)"
    by (simp_all add: doc_def start)
  have t: "t_json_output (r_test ?r)" "intervals_known (r_test ?r)" "interval_kept (r_test ?r)" "t_streams (r_test ?r) = [demo_sent 1 1000000, demo_sent 3 500000]"
    "t_mode (r_test ?r) = SENDER"
    unfolding r(2) by (simp_all add: demo_report_def intervals_known_def interval_kept_def demo_sent_def demo_figures_def Let_def)
  have "length (child (hd (child (interval_report (r_test ?r))))) = 2"
    using t by (simp add: interval_report_def interval_object_def object_of_def directions_def in_direction_def demo_sent_def blank_stream_def iperf_modes)
  moreover have "iperf_print_intermediate ?r = ?r\<lparr>r_json := Some (with_interval doc (interval_report (r_test ?r)))\<rparr>"
    using interval_document [OF t(1) r(1,3) t(2)] t(3) by simp
  ultimately show ?thesis by (simp add: Let_def with_interval_def doc_def object_of_def)
qed

text \<open>A share of lost packets is a number from 0 to 100.\<close>

lemma loss_percent_range:
  assumes "0 \<le> lost" "lost \<le> packets" "packets < 2 ^ 31"
  shows "\<exists>q. loss_percent lost packets = Fin q \<and> 0 \<le> q \<and> q \<le> 100"
proof (cases "packets > 0")
  case True
  have l: "d_of_int lost = Fin (of_int lost)" "d_of_int packets = Fin (of_int packets)"
    using assms d_of_int_exact [of lost] d_of_int_exact [of packets] by simp_all
  have small: "\<bar>100 * lost\<bar> \<le> 2 ^ 53" using assms by simp
  have "dmul (Fin 100) (Fin (of_int lost)) = Fin (of_int (100 * lost))"
    using mk_exact [OF repr_int [OF small], of False] int_small [of "100 * lost"] assms by simp
  then have x: "loss_percent lost packets = mk False (of_int (100 * lost) / of_int packets)"
    using True l assms by (simp add: loss_percent_def)
  have q: "0 \<le> (of_int (100 * lost) / of_int packets :: rat)" "of_int (100 * lost) / of_int packets \<le> (100 :: rat)"
    using True assms by (simp_all add: divide_le_eq)
  then have "\<bar>of_int (100 * lost) / of_int packets :: rat\<bar> \<le> dbl_lim" using int_small [of 100] by simp
  from mk_small [OF this, of False] q(1) have "mk False (of_int (100 * lost) / of_int packets) = Fin (rnd (of_int (100 * lost) / of_int packets))"
    by (auto split: if_splits)
  then show ?thesis unfolding x using q rnd_nonneg rnd_le [of 100] repr_int [of 100] by fastforce
qed (simp add: loss_percent_def)

section \<open>What goes wrong\<close>

text \<open>In both directions the interval has two members of the same name; a reader of the document finds the first.\<close>

lemma sum_twice:
  "t_mode t = BIDIRECTIONAL \<Longrightarrow> map jstring (child (interval_report t)) = [Some ''streams'', Some ''sum'', Some ''sum'']"
  by (simp add: interval_report_def interval_object_def directions_def object_of_def record_object_def)

text \<open>A verbose report in JSON in both directions prints text between the parts of the document.\<close>

lemma add_member_frame [simp]:
  "r_out (add_member p k i r) = r_out r" "r_test (add_member p k i r) = r_test r" "r_verbose (add_member p k i r) = r_verbose r"
  by (simp_all add: add_member_def fault_def split: outcome.split option.split)

definition extends :: "reports \<Rightarrow> reports \<Rightarrow> bool" where
  "extends r r' \<longleftrightarrow> (\<exists>ls. r_out r' = r_out r @ ls)"

lemma extends_rules:
  "extends r r" "extends r r1 \<Longrightarrow> extends r (iperf_printf fmt args r1)" "extends r r1 \<Longrightarrow> extends r (cpu_line here there r1)"
proof -
  have p: "extends r (iperf_printf fmt args r1)" if "extends r r1" for fmt args
    using that by (auto simp: extends_def iperf_printf_def Let_def fault_def split: option.split)
  then show "extends r r1 \<Longrightarrow> extends r (iperf_printf fmt args r1)" .
  show "extends r r1 \<Longrightarrow> extends r (cpu_line here there r1)" using p by (simp add: cpu_line_def split: prod.split)
qed (simp add: extends_def)

lemma cpu_line_printed:
  assumes "t_role (r_test r) = CHR ''c''"
  shows "\<exists>line. r_out (cpu_line here there r) = r_out r @ [line]"
proof -
  obtain a b c d e f where u: "t_cpu_util (r_test r) = (a, b, c)" "t_remote_cpu_util (r_test r) = (d, e, f)"
    by (cases "t_cpu_util (r_test r)"; cases "t_remote_cpu_util (r_test r)")
  obtain s where "printf_text report_cpu [AText report_local, AText here, ADouble a, ADouble b, ADouble c, AText report_remote, AText there,
      ADouble d, ADouble e, ADouble f] = Some s"
    using printf_defined [of report_cpu] by (force simp: conversions)
  then show ?thesis using assms u by (simp add: cpu_line_def iperf_printf_def)
qed

lemma cpu_lines_printed:
  assumes "t_role (r_test r) = CHR ''c''"
  shows "\<exists>line ls. r_out (cpu_lines True r) = r_out r @ line # ls"
proof -
  have "extends (cpu_line report_sender report_receiver r) (cpu_lines True r)"
    by (simp add: cpu_lines_def opt_step_def Let_def extends_rules split: option.split)
  then show ?thesis
    using cpu_line_printed [OF assms, of report_sender report_receiver] unfolding extends_def by auto
qed

lemma printf_json [simp]: "t_json_output (r_test (iperf_printf fmt args r)) = t_json_output (r_test r)"
  by (simp add: iperf_printf_def Let_def fault_def split: option.split)

lemma cpu_lines_test: "t_json_output (r_test (cpu_lines must_send r)) = t_json_output (r_test r)"
  by (simp add: cpu_lines_def cpu_line_def opt_step_def Let_def split: prod.split option.split)

lemma text_in_document:
  assumes "t_json_output (r_test r)" "r_verbose r" "t_role (r_test r) = CHR ''c''" "t_streams (r_test r) = []"
  shows "\<exists>line ls. r_out (summary_pass fstat p has True False r) = r_out r @ line # ls"
proof -
  define r1 where "r1 = (if t_mode (r_test r) = BIDIRECTIONAL then set_retransmits (if True then has else t_other_side_has_retransmits (r_test r)) r else r)"
  have r1: "r_out r1 = r_out r" "t_json_output (r_test r1)" "r_verbose r1" "t_role (r_test r1) = CHR ''c''" "t_streams (r_test r1) = []"
    using assms by (simp_all add: r1_def set_retransmits_def)
  let ?r = "total_summary True no_summary r1"
  have r2: "r_out ?r = r_out r" "r_test ?r = r_test r1" "r_verbose ?r" using r1 by (simp_all add: total_summary_def total_streamed_def total_udp_def Let_def)
  obtain x ls where c: "r_out (cpu_lines True ?r) = r_out r @ x # ls" using cpu_lines_printed [of ?r] r1 r2 by auto
  have "t_json_output (r_test (cpu_lines True ?r))" using r1(2) r2(2) by (simp add: cpu_lines_test)
  then have "summary_pass fstat p has True False r = cpu_lines True ?r"
    unfolding summary_pass_def r1_def [symmetric] using r1 r2 by (simp add: pass_times_def print_server_output_def Let_def)
  then show ?thesis using c by auto
qed

text \<open>The number of blocks has 64 bits, and is printed as an \<open>int\<close>.\<close>

lemma blocks_printed_as_int: "printf_text test_start_blocks [AText p, AInt a, AInt b, AInt c, AU64 n, AInt d] = None"
proof -
  have "parse_format test_start_blocks = map Lit ''Starting Test: protocol: '' @ Conv False 0 None [] (CHR ''s'') # map Lit '', '' @
      Conv False 0 None [] (CHR ''d'') # map Lit '' streams, '' @ Conv False 0 None [] (CHR ''d'') # map Lit '' byte blocks, omitting '' @
      Conv False 0 None [] (CHR ''d'') # map Lit '' seconds, '' @ Conv False 0 None [] (CHR ''d'') # map Lit '' blocks to send, tos '' @
      Conv False 0 None [] (CHR ''d'') # [Lit (CHR 0x0A)]" by code_simp
  then show ?thesis by (simp add: printf_text_def)
qed

text \<open>The sum takes its times from the first stream, even where that has no interval yet.\<close>

lemma first_stream_without_interval:
  "t_json_output (r_test r) \<Longrightarrow> t_streams (r_test r) = sp # sps \<Longrightarrow> res_interval_results (sp_result sp) = [] \<Longrightarrow>
     r_fault (interval_sum p must_send s r)"
  by (simp add: interval_sum_def fault_def)

end
