(* ===== verification/Json_Ops.thy ===== *)
theory Json_Ops
  imports Json_Roundtrip
begin

text \<open>
  The operations of \<open>cjson.c\<close> on whole items: detaching, insertion and replacement, duplication, minification and comparison. A
  null pointer that is followed, and a read behind the end of a text, is \<open>Fault\<close>.
\<close>

section \<open>Arrays of floats\<close>

text \<open>Every \<open>float\<close> is a \<open>double\<close>: the numbers are those that the cast to \<open>double\<close> gives.\<close>

definition cJSON_CreateFloatArray :: "(nat \<Rightarrow> bool) \<Rightarrow> double list \<Rightarrow> int \<Rightarrow> cJSON option" where
  "cJSON_CreateFloatArray can numbers n =
     (if n < 0 then None
      else Option.bind (cJSON_CreateArray can) (fill_array (cJSON_CreateNumber can) (take (nat n) numbers)))"

section \<open>Detaching, inserting, replacing\<close>

definition cJSON_DetachItemFromArray :: "cJSON \<Rightarrow> int \<Rightarrow> cJSON option \<times> cJSON" where
  "cJSON_DetachItemFromArray array which =
     (if which < 0 then (None, array)
      else case get_array_item (Some array) (nat which) of
        None \<Rightarrow> (None, array)
      | Some item \<Rightarrow> (Some item, set_child (take (nat which) (child array) @ drop (Suc (nat which)) (child array)) array))"

definition cJSON_DeleteItemFromArray :: "cJSON \<Rightarrow> int \<Rightarrow> cJSON" where
  "cJSON_DeleteItemFromArray array which = snd (cJSON_DetachItemFromArray array which)"

text \<open>The position of the first member of a name; with case sensitivity a member without a key is compared through \<open>NULL\<close>.\<close>

fun key_index :: "bool \<Rightarrow> string \<Rightarrow> cJSON list \<Rightarrow> nat option outcome" where
  "key_index cs name [] = Ok None"
| "key_index cs name (e # es) =
     (if cs \<and> jstring e = None then Fault
      else if (if cs then jstring e = Some name else case_insensitive_strcmp (Some name) (jstring e) = 0) then Ok (Some 0)
      else map_outcome (map_option Suc) (key_index cs name es))"

definition detach_member :: "bool \<Rightarrow> cJSON \<Rightarrow> string \<Rightarrow> (cJSON option \<times> cJSON) outcome" where
  "detach_member cs object key = obind (key_index cs key (child object)) (\<lambda>i. Ok (case i of
       None \<Rightarrow> (None, object) | Some n \<Rightarrow> cJSON_DetachItemFromArray object (int n)))"

definition cJSON_DetachItemFromObjectCaseSensitive :: "cJSON \<Rightarrow> string \<Rightarrow> (cJSON option \<times> cJSON) outcome" where
  "cJSON_DetachItemFromObjectCaseSensitive = detach_member True"

definition cJSON_DeleteItemFromObject :: "cJSON \<Rightarrow> string \<Rightarrow> cJSON outcome" where
  "cJSON_DeleteItemFromObject object key = map_outcome snd (detach_member False object key)"

definition cJSON_DeleteItemFromObjectCaseSensitive :: "cJSON \<Rightarrow> string \<Rightarrow> cJSON outcome" where
  "cJSON_DeleteItemFromObjectCaseSensitive object key = map_outcome snd (detach_member True object key)"

definition cJSON_InsertItemInArray :: "cJSON \<Rightarrow> int \<Rightarrow> cJSON option \<Rightarrow> cJSON outcome" where
  "cJSON_InsertItemInArray array which newitem =
     (if which < 0 then Ok array
      else case (get_array_item (Some array) (nat which), newitem) of
        (None, None) \<Rightarrow> Ok array
      | (None, Some n) \<Rightarrow> Ok (set_child (child array @ [n]) array)
      | (Some _, None) \<Rightarrow> Fault
      | (Some _, Some n) \<Rightarrow> Ok (set_child (take (nat which) (child array) @ n # drop (nat which) (child array)) array))"

text \<open>Replacing what is not there follows its null pointer. The new item keeps its own key.\<close>

definition replace_at :: "cJSON \<Rightarrow> nat option \<Rightarrow> cJSON option \<Rightarrow> cJSON outcome" where
  "replace_at parent i replacement = (case replacement of
       None \<Rightarrow> Ok parent
     | Some n \<Rightarrow> (case i of None \<Rightarrow> Fault | Some k \<Rightarrow> Ok (set_child ((child parent)[k := n]) parent)))"

definition cJSON_ReplaceItemInArray :: "cJSON \<Rightarrow> int \<Rightarrow> cJSON option \<Rightarrow> cJSON outcome" where
  "cJSON_ReplaceItemInArray array which newitem =
     (if which < 0 then Ok array
      else replace_at array (if nat which < length (child array) then Some (nat which) else None) newitem)"

definition cJSON_ReplaceItemInObject :: "cJSON \<Rightarrow> string \<Rightarrow> cJSON option \<Rightarrow> cJSON outcome" where
  "cJSON_ReplaceItemInObject object key newitem = obind (key_index False key (child object)) (\<lambda>i. replace_at object i newitem)"

definition cJSON_ReplaceItemInObjectCaseSensitive :: "cJSON \<Rightarrow> string \<Rightarrow> cJSON option \<Rightarrow> cJSON outcome" where
  "cJSON_ReplaceItemInObjectCaseSensitive object key newitem = obind (key_index True key (child object)) (\<lambda>i. replace_at object i newitem)"

section \<open>Duplication\<close>

definition copy_string_field :: "(nat \<Rightarrow> bool) \<Rightarrow> bool \<Rightarrow> string option \<Rightarrow> string option option" where
  "copy_string_field can shared s = (case s of None \<Rightarrow> Some None
     | Some t \<Rightarrow> if shared then Some (Some t) else map_option Some (cJSON_strdup can (Some t)))"

definition copy_fields :: "(nat \<Rightarrow> bool) \<Rightarrow> cJSON \<Rightarrow> cJSON option" where
  "copy_fields can item = (case cJSON_New_Item can of None \<Rightarrow> None
     | Some n \<Rightarrow>
         (case (copy_string_field can False (valuestring item),
                copy_string_field can (jtype item AND cJSON_StringIsConst \<noteq> 0) (jstring item)) of
            (Some vs, Some s) \<Rightarrow>
              Some (Item (jtype item AND NOT cJSON_IsReference) vs (valueint item) (valuedouble item) s [])
          | _ \<Rightarrow> None))"

primrec duplicate :: "(nat \<Rightarrow> bool) \<Rightarrow> cJSON \<Rightarrow> cJSON option" where
  "duplicate can (Item t vs vi vd s cs) = (case copy_fields can (Item t vs vi vd s cs) of None \<Rightarrow> None
     | Some n \<Rightarrow> map_option (\<lambda>ds. set_child ds n) (those (map (duplicate can) cs)))"

definition cJSON_Duplicate :: "(nat \<Rightarrow> bool) \<Rightarrow> cJSON option \<Rightarrow> bool \<Rightarrow> cJSON option" where
  "cJSON_Duplicate can item recurse = (case item of None \<Rightarrow> None
     | Some i \<Rightarrow> if recurse then duplicate can i else copy_fields can i)"

section \<open>Minification\<close>

text \<open>Up to the end of a comment; \<^const>\<open>None\<close>: it is not closed, and the pointer leaves the text.\<close>

fun skip_comment :: "string \<Rightarrow> string option" where
  "skip_comment [] = None"
| "skip_comment (c # s) = (if c = CHR ''*'' \<and> take 1 s = ''/'' then Some (drop 1 s) else skip_comment s)"

text \<open>A string behind its opening quote: what is copied, and what follows; \<^const>\<open>None\<close>: the pointer leaves the text.\<close>

fun copy_string :: "string \<Rightarrow> (string \<times> string) option" where
  "copy_string [] = None"
| "copy_string (c # s) =
     (if c = CHR ''\"'' then Some ([c], s)
      else if c = CHR 0x5C then
        (case s of [] \<Rightarrow> None | d # s' \<Rightarrow> map_option (\<lambda>(a, r). (c # d # a, r)) (copy_string s'))
      else map_option (\<lambda>(a, r). (c # a, r)) (copy_string s))"

lemma skip_comment_shorter: "skip_comment s = Some r \<Longrightarrow> length r < length s"
  by (induction s) (auto split: if_splits)

lemma copy_string_shorter: "copy_string s = Some (a, r) \<Longrightarrow> length r < length s"
  by (induction s arbitrary: a rule: copy_string.induct) (fastforce split: if_splits list.splits)+

function cJSON_Minify :: "string \<Rightarrow> string outcome" where
  "cJSON_Minify [] = Ok []"
| "cJSON_Minify (c # s) =
     (if c \<in> set [CHR '' '', CHR 0x09, CHR 0x0D, CHR 0x0A] then cJSON_Minify s
      else if c = CHR ''/'' \<and> take 1 s = ''/'' then cJSON_Minify (dropWhile (\<lambda>x. x \<noteq> CHR 0x0A) s)
      else if c = CHR ''/'' \<and> take 1 s = ''*'' then (case skip_comment (c # s) of None \<Rightarrow> Fault | Some r \<Rightarrow> cJSON_Minify r)
      else if c = CHR ''\"'' then
        (case copy_string s of None \<Rightarrow> Fault | Some (a, r) \<Rightarrow> map_outcome (\<lambda>t. c # a @ t) (cJSON_Minify r))
      else map_outcome (\<lambda>t. c # t) (cJSON_Minify s))"
  by pat_completeness auto
termination
  by (relation "measure length")
    (auto simp: le_imp_less_Suc length_dropWhile_le simp del: skip_comment.simps dest: skip_comment_shorter copy_string_shorter)

section \<open>Comparison\<close>

fun compare_arrays :: "(cJSON \<Rightarrow> cJSON \<Rightarrow> bool outcome) \<Rightarrow> cJSON list \<Rightarrow> cJSON list \<Rightarrow> bool outcome" where
  "compare_arrays f (a # as) (b # bs) = obind (f a b) (\<lambda>r. if r then compare_arrays f as bs else Ok False)"
| "compare_arrays f _ _ = Ok True"

lemma compare_arrays_cong [fundef_cong]:
  "as = as' \<Longrightarrow> bs = bs' \<Longrightarrow> (\<And>a b. a \<in> set as' \<Longrightarrow> f a b = g a b) \<Longrightarrow> compare_arrays f as bs = compare_arrays g as' bs'"
proof (induction as' arbitrary: as bs bs')
  case (Cons a as')
  have "compare_arrays f as' ys = compare_arrays g as' ys" for ys using Cons.IH [OF refl refl] Cons.prems(3) by simp
  moreover have "f a b = g a b" for b using Cons.prems(3) by simp
  ultimately show ?case using Cons.prems(1,2) by (cases bs') (simp_all cong: if_cong)
qed simp

fun compare_members :: "bool \<Rightarrow> (cJSON \<Rightarrow> cJSON \<Rightarrow> bool outcome) \<Rightarrow> cJSON list \<Rightarrow> cJSON \<Rightarrow> bool outcome" where
  "compare_members cs f [] b = Ok True"
| "compare_members cs f (a # as) b = (case get_object_item (Some b) (jstring a) cs of
       None \<Rightarrow> Fault
     | Some None \<Rightarrow> Ok False
     | Some (Some e) \<Rightarrow> obind (f a e) (\<lambda>r. if r then compare_members cs f as b else Ok False))"

lemma compare_members_cong [fundef_cong]:
  "cs = cs' \<Longrightarrow> as = as' \<Longrightarrow> b = b' \<Longrightarrow> (\<And>a e. a \<in> set as' \<Longrightarrow> f a e = g a e) \<Longrightarrow> compare_members cs f as b = compare_members cs' g as' b'"
proof (induction as' arbitrary: as)
  case (Cons a as')
  have "compare_members cs' f as' b' = compare_members cs' g as' b'" using Cons.IH [OF Cons.prems(1) refl Cons.prems(3)] Cons.prems(1,3,4) by simp
  moreover have "f a e = g a e" for e using Cons.prems(4) by simp
  ultimately show ?case using Cons.prems(1-3) by (simp cong: if_cong option.case_cong)
qed simp

text \<open>Of two items that are not the same object.\<close>

function cJSON_Compare :: "bool \<Rightarrow> cJSON \<Rightarrow> cJSON \<Rightarrow> bool outcome" where
  "cJSON_Compare cs a b =
     (let k = jtype a AND 255 in
      if k \<noteq> jtype b AND 255 then Ok False
      else if k \<in> {cJSON_False, cJSON_True, cJSON_NULL} then Ok True
      else if k = cJSON_Number then Ok (deq (valuedouble a) (valuedouble b))
      else if k = cJSON_String \<or> k = cJSON_Raw then
        Ok (case (valuestring a, valuestring b) of (Some x, Some y) \<Rightarrow> x = y | _ \<Rightarrow> False)
      else if k = cJSON_Array then compare_arrays (cJSON_Compare cs) (child a) (child b)
      else if k = cJSON_Object then compare_members cs (cJSON_Compare cs) (child a) b
      else Ok False)"
  by pat_completeness auto
termination
  by (relation "measure (\<lambda>(cs, a, b). size a)") (auto intro: size_child)

declare cJSON_Compare.simps [simp del]

section \<open>Minifying what was printed\<close>

text \<open>A text that minification turns into another, whatever follows.\<close>

definition passes :: "string \<Rightarrow> string \<Rightarrow> bool" where
  "passes t u \<longleftrightarrow> (\<forall>rest. cJSON_Minify (t @ rest) = map_outcome (\<lambda>r. u @ r) (cJSON_Minify rest))"

lemma map_outcome_append [simp]: "map_outcome (\<lambda>r. u @ r) (map_outcome (\<lambda>r. v @ r) x) = map_outcome (\<lambda>r. u @ v @ r) x"
  by (cases x) simp_all

lemma map_outcome_id [simp]: "map_outcome (\<lambda>r. r) x = x"
  by (cases x) simp_all

lemma passes_append: "passes t u \<Longrightarrow> passes t' u' \<Longrightarrow> passes (t @ t') (u @ u')"
  by (simp add: passes_def)

lemma passes_Nil: "passes [] []"
  by (simp add: passes_def)

definition bare :: "char \<Rightarrow> bool" where
  "bare c \<longleftrightarrow> c \<notin> set [CHR '' '', CHR 0x09, CHR 0x0D, CHR 0x0A, CHR ''/'', CHR ''\"'']"

lemma passes_bare: "list_all bare t \<Longrightarrow> passes t t"
proof (induction t)
  case (Cons c t)
  have "passes [c] [c]" using Cons.prems by (simp add: passes_def bare_def)
  from passes_append [OF this, of t t] Cons show ?case by simp
qed (simp add: passes_Nil)

lemma passes_blank: "set t \<subseteq> set [CHR '' '', CHR 0x09, CHR 0x0D, CHR 0x0A] \<Longrightarrow> passes t []"
proof (induction t)
  case (Cons c t)
  have "passes [c] []" using Cons.prems by (auto simp: passes_def)
  from passes_append [OF this, of t "[]"] Cons show ?case by simp
qed (simp add: passes_Nil)

lemma copy_plain:
  "list_all (\<lambda>z. z \<noteq> CHR ''\"'' \<and> z \<noteq> CHR 0x5C) zs \<Longrightarrow> copy_string (zs @ rest) = map_option (\<lambda>(a, r). (zs @ a, r)) (copy_string rest)"
  by (induction zs) (auto simp: option.map_comp comp_def case_prod_unfold option.map_ident)

definition escape_shape :: "string \<Rightarrow> bool" where
  "escape_shape t = (case t of
      [] \<Rightarrow> False
    | x # xs \<Rightarrow> (case xs of
        [] \<Rightarrow> x \<noteq> CHR ''\"'' \<and> x \<noteq> CHR 0x5C
      | y # zs \<Rightarrow> x = CHR 0x5C \<and> list_all (\<lambda>z. z \<noteq> CHR ''\"'' \<and> z \<noteq> CHR 0x5C) zs))"

lemma copy_shape: "escape_shape t \<Longrightarrow> copy_string (t @ rest) = map_option (\<lambda>(a, r). (t @ a, r)) (copy_string rest)"
proof -
  assume t: "escape_shape t"
  obtain x xs where x: "t = x # xs" using t by (cases t) (simp_all add: escape_shape_def)
  show ?thesis
  proof (cases xs)
    case Nil
    then show ?thesis using t x copy_plain [of t rest] by (simp add: escape_shape_def)
  next
    case (Cons y zs)
    then show ?thesis using t x copy_plain [of zs rest]
      by (simp add: escape_shape_def option.map_comp comp_def case_prod_unfold)
  qed
qed

lemma copy_escaped: "copy_string (escape_text c @ rest) = map_option (\<lambda>(a, r). (escape_text c @ a, r)) (copy_string rest)"
proof -
  have "\<forall>c. escape_shape (escape_text c)" by code_simp
  then show ?thesis by (intro copy_shape) blast
qed

lemma copy_quoted: "copy_string (concat (map escape_text s) @ CHR ''\"'' # rest) = Some (concat (map escape_text s) @ ''\"'', rest)"
  by (induction s) (simp_all add: copy_escaped)

lemma passes_quoted: "passes (quoted s) (quoted s)"
  by (simp add: passes_def quoted_def copy_quoted)

lemma number_bare: "list_all bare (number_text d)"
proof -
  have "\<not> num_char c" if "c \<in> set [CHR '' '', CHR 0x09, CHR 0x0D, CHR 0x0A, CHR ''/'', CHR ''\"'']" for c
    using that by (auto simp: num_char_def isdigit_def chr_code_def)
  then have "list_all bare (fmt_g P d)" for P using fmt_g_chars [of P d] by (auto simp: list_all_iff bare_def)
  moreover have "list_all bare ''null''" by code_simp
  ultimately show ?thesis by (auto simp: number_text_def Let_def split: option.splits)
qed

lemma passes_elems:
  assumes "\<And>e t. e \<in> set es \<Longrightarrow> sp e = Some t \<Longrightarrow> \<exists>u. sq e = Some u \<and> passes t u" "elems_spec True sp es = Some t"
  shows "\<exists>u. elems_spec False sq es = Some u \<and> passes t u"
  using assms
proof (induction es arbitrary: t)
  case (Cons e es)
  obtain a r where a: "sp e = Some a" "elems_spec True sp es = Some r" "t = a @ (if es \<noteq> [] then '', '' else []) @ r"
    using Cons.prems(2) by (auto split: option.splits)
  obtain b q where b: "sq e = Some b" "passes a b" "elems_spec False sq es = Some q" "passes r q"
    using Cons.IH [OF Cons.prems(1) a(2)] Cons.prems(1) [OF _ a(1)] by auto
  have "passes '', '' '',''" using passes_append [OF passes_bare passes_blank, of "'',''" "'' ''"] by (simp add: bare_def)
  then have "passes (if es \<noteq> [] then '', '' else []) (if es \<noteq> [] then '','' else [])" by (simp add: passes_Nil)
  from passes_append [OF b(2) passes_append [OF this b(4)]] show ?case using a(3) b(1,3) by auto
qed (simp add: passes_Nil)

lemma passes_members:
  assumes "\<And>e t. e \<in> set es \<Longrightarrow> sp e = Some t \<Longrightarrow> \<exists>u. sq e = Some u \<and> passes t u" "members_spec True d sp es = Some t"
  shows "\<exists>u. members_spec False d' sq es = Some u \<and> passes t u"
  using assms
proof (induction es arbitrary: t)
  case (Cons e es)
  obtain a r where a: "sp e = Some a" "members_spec True d sp es = Some r"
    "t = replicate d (CHR 0x09) @ quoted (jstring e) @ [CHR '':'', CHR 0x09] @ a @ (if es \<noteq> [] then '','' else []) @ [CHR 0x0A] @ r"
    using Cons.prems(2) by (auto split: option.splits)
  obtain b q where b: "sq e = Some b" "passes a b" "members_spec False d' sq es = Some q" "passes r q"
    using Cons.IH [OF Cons.prems(1) a(2)] Cons.prems(1) [OF _ a(1)] by auto
  have colon: "passes [CHR '':'', CHR 0x09] '':''"
    using passes_append [OF passes_bare passes_blank, of "'':''" "[CHR 0x09]"] by (simp add: bare_def)
  have comma: "passes (if es \<noteq> [] then '','' else []) (if es \<noteq> [] then '','' else [])" by (rule passes_bare) (simp add: bare_def)
  have "passes t ([] @ quoted (jstring e) @ '':'' @ b @ (if es \<noteq> [] then '','' else []) @ [] @ q)"
    unfolding a(3) by (intro passes_append colon comma b(2,4) passes_quoted passes_blank) auto
  then show ?case using b(1,3) by simp
qed (simp add: passes_Nil)

lemma passes_print:
  assumes "printable n item" "print_spec True d item = Some t"
  shows "\<exists>u. print_spec False d' item = Some u \<and> passes t u"
  using assms
proof (induction n arbitrary: item d d' t)
  case 0
  have words: "list_all bare ''null''" "list_all bare ''true''" "list_all bare ''false''" by code_simp+
  show ?case using 0 number_bare words
    by (auto simp: scalar_def print_spec_kind passes_bare passes_quoted split: if_splits)
next
  case (Suc n)
  have words: "list_all bare ''null''" "list_all bare ''true''" "list_all bare ''false''" by code_simp+
  consider "scalar item" | "kind item = cJSON_Array" "\<forall>c \<in> set (child item). printable n c"
    | "kind item = cJSON_Object" "\<forall>c \<in> set (child item). printable n c" using Suc.prems(1) by auto
  then show ?case
  proof cases
    case 1
    then show ?thesis using Suc.prems(2) number_bare words
      by (auto simp: scalar_def print_spec_kind passes_bare passes_quoted split: if_splits)
  next
    case 2
    then obtain r where r: "elems_spec True (print_spec True (d + 1)) (child item) = Some r" "t = ''['' @ r @ '']''"
      using Suc.prems(2) by (auto simp: print_spec_kind)
    obtain u where u: "elems_spec False (print_spec False (d' + 1)) (child item) = Some u" "passes r u"
      using passes_elems [OF _ r(1), of "print_spec False (d' + 1)"] Suc.IH 2(2) by blast
    have "passes t (''['' @ u @ '']'')" unfolding r(2) by (intro passes_append u(2) passes_bare) (simp_all add: bare_def)
    then show ?thesis using 2(1) u(1) by (auto simp: print_spec_kind)
  next
    case 3
    then obtain r where r: "members_spec True (d + 1) (print_spec True (d + 1)) (child item) = Some r"
        "t = ''{'' @ [CHR 0x0A] @ r @ replicate d (CHR 0x09) @ ''}''"
      using Suc.prems(2) by (auto simp: print_spec_kind)
    obtain u where u: "members_spec False (d' + 1) (print_spec False (d' + 1)) (child item) = Some u" "passes r u"
      using passes_members [OF _ r(1), of "print_spec False (d' + 1)" "d' + 1"] Suc.IH 3(2) by blast
    have "passes t (''{'' @ [] @ u @ [] @ ''}'')" unfolding r(2)
      by (intro passes_append u(2) passes_blank passes_bare) (auto simp: bare_def)
    then show ?thesis using 3(1) u(1) by (auto simp: print_spec_kind)
  qed
qed

text \<open>
  C34. Minifying the formatted text of an item gives its unformatted text, byte for byte: the blanks between the tokens go, those in strings
  stay, escaped quotes do not end a string, and nothing behind the end of the text is read.
\<close>

theorem minify_formatted:
  assumes "c_strings item" "printable CJSON_NESTING_LIMIT item"
    "length (the (print_spec True 0 item)) + 2 \<le> size_limit" "length (the (print_spec False 0 item)) + 2 \<le> size_limit"
  shows "\<exists>t u. cJSON_Print (\<lambda>_. True) item = Ok t \<and> cJSON_PrintUnformatted (\<lambda>_. True) item = Ok u \<and> cJSON_Minify t = Ok u"
proof -
  obtain t where t: "print_spec True 0 item = Some t" "print (\<lambda>_. True) item True = Ok t"
    using print_then_parse [OF assms(1-3)] by blast
  obtain u where u: "print_spec False 0 item = Some u" "print (\<lambda>_. True) item False = Ok u"
    using print_then_parse [OF assms(1,2,4)] by blast
  have "passes t u" using passes_print [OF assms(2) t(1), of 0] u(1) by auto
  then have "cJSON_Minify t = Ok u" unfolding passes_def by (metis append_Nil2 cJSON_Minify.simps(1) outcome.map(1))
  then show ?thesis using t(2) u(2) by (simp add: cJSON_Print_def cJSON_PrintUnformatted_def)
qed

theorem minify_formatted_witness:
  "\<exists>t u. cJSON_Print (\<lambda>_. True) report_item = Ok t \<and> cJSON_PrintUnformatted (\<lambda>_. True) report_item = Ok u \<and> cJSON_Minify t = Ok u"
proof -
  have "c_strings report_item" by code_simp
  moreover have "printable 2 report_item"
    using repr_int [of 5201] by (simp add: report_item_def numeral_2_eq_2 scalar_def json_types dbl_ok_def dbl_max_def)
  then have "printable CJSON_NESTING_LIMIT report_item"
    by (rule printable_mono) (simp add: CJSON_NESTING_LIMIT_def)
  moreover have "length (the (print_spec True 0 report_item)) \<le> 100" "length (the (print_spec False 0 report_item)) \<le> 100" by code_simp+
  then have "length (the (print_spec True 0 report_item)) + 2 \<le> size_limit" "length (the (print_spec False 0 report_item)) + 2 \<le> size_limit"
    by (simp_all add: size_limit_val)
  ultimately show ?thesis by (rule minify_formatted)
qed


section \<open>Edits and copies\<close>

lemma get_nth_at: "get_nth xs i = (if i < length xs then Some (xs ! i) else None)"
  by (induction xs i rule: get_nth.induct) auto

lemma child_set_child [simp]: "child (set_child cs x) = cs"
  by (cases x) simp

lemma set_child_again [simp]: "set_child cs (set_child ds x) = set_child cs x"
  by (cases x) simp

lemma set_child_own [simp]: "set_child (child x) x = x"
  by (cases x) simp

text \<open>
  What is inserted at a position of an array, or behind its end, is what is detached from there, and the detaching leaves the array as it
  was before the insertion.
\<close>

lemma insert_then_detach:
  "0 \<le> which \<Longrightarrow> nat which \<le> length (child array) \<Longrightarrow>
   \<exists>a. cJSON_InsertItemInArray array which (Some n) = Ok a \<and> cJSON_DetachItemFromArray a which = (Some n, array)"
  by (auto simp: cJSON_InsertItemInArray_def cJSON_DetachItemFromArray_def get_array_item_def get_nth_at nth_append)

text \<open>The same through a replacement: the other members keep their places, and the length does not change.\<close>

lemma replace_then_get:
  "0 \<le> which \<Longrightarrow> nat which < length (child array) \<Longrightarrow>
   \<exists>a. cJSON_ReplaceItemInArray array which (Some n) = Ok a \<and> length (child a) = length (child array) \<and>
     (\<forall>i. cJSON_GetArrayItem (Some a) i = (if i = which then Some n else cJSON_GetArrayItem (Some array) i))"
  by (auto simp: cJSON_ReplaceItemInArray_def replace_at_def cJSON_GetArrayItem_def get_array_item_def get_nth_at nth_list_update)

text \<open>With the memory it asks for, the recursive copy is the item itself, its own strings and children in place of the referenced ones.\<close>

primrec owned :: "cJSON \<Rightarrow> cJSON" where
  "owned (Item t vs vi vd s cs) = Item (t AND NOT cJSON_IsReference) vs vi vd s (map owned cs)"

lemma those_map_Some: "(\<And>x. x \<in> set xs \<Longrightarrow> f x = Some (g x)) \<Longrightarrow> those (map f xs) = Some (map g xs)"
  by (induction xs) simp_all

lemma copy_string_field_all: "copy_string_field (\<lambda>_. True) shared s = Some s"
  by (simp add: copy_string_field_def cJSON_strdup_def split: option.split)

lemma duplicate_owned: "cJSON_Duplicate (\<lambda>_. True) (Some item) True = Some (owned item)"
proof (induction item)
  case (Item t vs vi vd s cs)
  have "those (map (duplicate (\<lambda>_. True)) cs) = Some (map owned cs)"
    by (rule those_map_Some) (use Item in \<open>simp add: cJSON_Duplicate_def\<close>)
  then show ?case by (simp add: cJSON_Duplicate_def copy_fields_def cJSON_New_Item_def copy_string_field_all)
qed

section \<open>Where the operations do less than they promise\<close>

text \<open>Arrays are compared up to the end of the shorter one, and an object with every object that has its members.\<close>

lemma compare_prefix:
  "let one = Item cJSON_Number None 1 (Fin 1) None []; array = Item cJSON_Array None 0 (Fin 0) None in
   cJSON_Compare True (array [one]) (array [one, one]) = Ok True \<and> cJSON_Compare True (array []) (array [one]) = Ok True"
  by (simp add: Let_def cJSON_Compare.simps json_types deq_def)

lemma compare_one_sided:
  "let member = Item cJSON_True None 0 (Fin 0) (Some ''k'') []; object = Item cJSON_Object None 0 (Fin 0) None in
   cJSON_Compare True (object []) (object [member]) = Ok True \<and> cJSON_Compare True (object [member]) (object []) = Ok False"
  by (simp add: Let_def cJSON_Compare.simps json_types get_object_item_def)

text \<open>A comment or a string that is not closed takes the pointer behind the end of the text.\<close>

lemma minify_unclosed: "cJSON_Minify ''/*'' = Fault" "cJSON_Minify [CHR ''\"''] = Fault"
  by simp_all

text \<open>A replacement of what is not there follows a null pointer, and in an object the new item is not given the key.\<close>

lemma replace_missing: "int (length (child array)) \<le> which \<Longrightarrow> cJSON_ReplaceItemInArray array which (Some n) = Fault"
  by (simp add: cJSON_ReplaceItemInArray_def replace_at_def nat_less_iff)

lemma replace_loses_key:
  "let member = Item cJSON_True None 0 (Fin 0) (Some ''k'') []; object = Item cJSON_Object None 0 (Fin 0) None in
   cJSON_ReplaceItemInObject (object [member]) ''k'' (Some (Item cJSON_False None 0 (Fin 0) None []))
     = Ok (object [Item cJSON_False None 0 (Fin 0) None []])"
  by code_simp

end
