(* ===== verification/Queues.thy ===== *)
theory Queues
  imports Timers Stats
begin

text \<open>
  The intrusive lists of \<open>queue.h\<close>, as the macros work on them: the fields of a head and of the elements are in a store, a
  \<open>struct type **\<close> is the place of a forward pointer, and an access through a null pointer or to an element that is not there is
  \<^const>\<open>None\<close>. Each macro is shown to do to the list of the elements what its name says. This is what allows the other theories to
  treat the streams of a test, its intervals and its lines of output as lists.
\<close>

section \<open>The store\<close>

text \<open>The address of a forward pointer: that of the head, or that of an element.\<close>

datatype slot = Head | Next addr

record qstate =
  q_first :: ptr
  q_last :: slot
  q_next :: "addr \<Rightarrow> ptr option"
  q_prev :: "addr \<Rightarrow> slot option"

definition set_next :: "addr \<Rightarrow> ptr \<Rightarrow> qstate \<Rightarrow> qstate option" where
  "set_next a p s = (if q_next s a = None then None else Some (s\<lparr>q_next := (q_next s)(a \<mapsto> p)\<rparr>))"

definition set_prev :: "addr \<Rightarrow> slot \<Rightarrow> qstate \<Rightarrow> qstate option" where
  "set_prev a l s = (if q_prev s a = None then None else Some (s\<lparr>q_prev := (q_prev s)(a \<mapsto> l)\<rparr>))"

definition set_first :: "ptr \<Rightarrow> qstate \<Rightarrow> qstate option" where
  "set_first p s = Some (s\<lparr>q_first := p\<rparr>)"

definition set_last :: "slot \<Rightarrow> qstate \<Rightarrow> qstate option" where
  "set_last l s = Some (s\<lparr>q_last := l\<rparr>)"

text \<open>\<open>*l\<close> and \<open>*l = p\<close>.\<close>

fun load :: "slot \<Rightarrow> qstate \<Rightarrow> ptr option" where
  "load Head s = Some (q_first s)"
| "load (Next a) s = q_next s a"

fun store :: "slot \<Rightarrow> ptr \<Rightarrow> qstate \<Rightarrow> qstate option" where
  "store Head p s = set_first p s"
| "store (Next a) p s = set_next a p s"

text \<open>The \<open>for\<close> loop of the traversals: the elements it visits.\<close>

partial_function (option) walk :: "(addr \<Rightarrow> ptr option) \<Rightarrow> ptr \<Rightarrow> addr list option" where
  [code]: "walk nxt p = (case p of None \<Rightarrow> Some [] | Some a \<Rightarrow> do { q \<leftarrow> nxt a; r \<leftarrow> walk nxt q; Some (a # r) })"

section \<open>Singly linked lists\<close>

definition SLIST_EMPTY :: "qstate \<Rightarrow> bool" where
  "SLIST_EMPTY s \<longleftrightarrow> q_first s = None"

definition SLIST_FOREACH :: "qstate \<Rightarrow> addr list option" where
  "SLIST_FOREACH s = walk (q_next s) (q_first s)"

definition SLIST_INIT :: "qstate \<Rightarrow> qstate" where
  "SLIST_INIT s = s\<lparr>q_first := None\<rparr>"

definition SLIST_INSERT_AFTER :: "addr \<Rightarrow> addr \<Rightarrow> qstate \<Rightarrow> qstate option" where
  "SLIST_INSERT_AFTER slistelm elm s = do {
     n \<leftarrow> q_next s slistelm;
     s1 \<leftarrow> set_next elm n s;
     set_next slistelm (Some elm) s1
   }"

definition SLIST_INSERT_HEAD :: "addr \<Rightarrow> qstate \<Rightarrow> qstate option" where
  "SLIST_INSERT_HEAD elm s = do {
     s1 \<leftarrow> set_next elm (q_first s) s;
     set_first (Some elm) s1
   }"

definition SLIST_REMOVE_NEXT :: "addr \<Rightarrow> qstate \<Rightarrow> qstate option" where
  "SLIST_REMOVE_NEXT elm s = do {
     p \<leftarrow> q_next s elm;
     a \<leftarrow> p;
     n \<leftarrow> q_next s a;
     set_next elm n s
   }"

definition SLIST_REMOVE_HEAD :: "qstate \<Rightarrow> qstate option" where
  "SLIST_REMOVE_HEAD s = do {
     a \<leftarrow> q_first s;
     n \<leftarrow> q_next s a;
     set_first n s
   }"

text \<open>\<open>while (curelm->field.sle_next != (elm)) curelm = curelm->field.sle_next\<close>\<close>

partial_function (option) slist_find :: "(addr \<Rightarrow> ptr option) \<Rightarrow> addr \<Rightarrow> ptr \<Rightarrow> addr option" where
  [code]: "slist_find nxt elm cur = do {
     c \<leftarrow> cur;
     n \<leftarrow> nxt c;
     if n = Some elm then Some c else slist_find nxt elm n
   }"

definition SLIST_REMOVE :: "addr \<Rightarrow> qstate \<Rightarrow> qstate option" where
  "SLIST_REMOVE elm s =
     (if q_first s = Some elm then SLIST_REMOVE_HEAD s
      else do {
        c \<leftarrow> slist_find (q_next s) elm (q_first s);
        SLIST_REMOVE_NEXT c s
      })"

section \<open>Lists\<close>

definition LIST_FOREACH :: "qstate \<Rightarrow> addr list option" where
  "LIST_FOREACH s = walk (q_next s) (q_first s)"

definition LIST_INIT :: "qstate \<Rightarrow> qstate" where
  "LIST_INIT s = s\<lparr>q_first := None\<rparr>"

text \<open>\<open>if (n != NULL) n->le_prev = l;\<close>\<close>

definition link_prev :: "ptr \<Rightarrow> slot \<Rightarrow> qstate \<Rightarrow> qstate option" where
  "link_prev n l s = (case n of Some z \<Rightarrow> set_prev z l s | None \<Rightarrow> Some s)"

definition LIST_INSERT_AFTER :: "addr \<Rightarrow> addr \<Rightarrow> qstate \<Rightarrow> qstate option" where
  "LIST_INSERT_AFTER listelm elm s = do {
     n \<leftarrow> q_next s listelm;
     s1 \<leftarrow> set_next elm n s;
     n' \<leftarrow> q_next s1 listelm;
     s2 \<leftarrow> (if n = None then Some s1 else link_prev n' (Next elm) s1);
     s3 \<leftarrow> set_next listelm (Some elm) s2;
     set_prev elm (Next listelm) s3
   }"

definition LIST_INSERT_BEFORE :: "addr \<Rightarrow> addr \<Rightarrow> qstate \<Rightarrow> qstate option" where
  "LIST_INSERT_BEFORE listelm elm s = do {
     p \<leftarrow> q_prev s listelm;
     s1 \<leftarrow> set_prev elm p s;
     s2 \<leftarrow> set_next elm (Some listelm) s1;
     p' \<leftarrow> q_prev s2 listelm;
     s3 \<leftarrow> store p' (Some elm) s2;
     set_prev listelm (Next elm) s3
   }"

definition LIST_INSERT_HEAD :: "addr \<Rightarrow> qstate \<Rightarrow> qstate option" where
  "LIST_INSERT_HEAD elm s = do {
     s1 \<leftarrow> set_next elm (q_first s) s;
     s2 \<leftarrow> link_prev (q_first s1) (Next elm) s1;
     s3 \<leftarrow> set_first (Some elm) s2;
     set_prev elm Head s3
   }"

definition LIST_REMOVE :: "addr \<Rightarrow> qstate \<Rightarrow> qstate option" where
  "LIST_REMOVE elm s = do {
     n \<leftarrow> q_next s elm;
     p \<leftarrow> q_prev s elm;
     s1 \<leftarrow> link_prev n p s;
     p' \<leftarrow> q_prev s1 elm;
     n' \<leftarrow> q_next s1 elm;
     store p' n' s1
   }"

definition LIST_REPLACE :: "addr \<Rightarrow> addr \<Rightarrow> qstate \<Rightarrow> qstate option" where
  "LIST_REPLACE elm elm2 s = do {
     n \<leftarrow> q_next s elm;
     s1 \<leftarrow> set_next elm2 n s;
     s2 \<leftarrow> link_prev n (Next elm2) s1;
     p \<leftarrow> q_prev s2 elm;
     s3 \<leftarrow> set_prev elm2 p s2;
     store p (Some elm2) s3
   }"

section \<open>Simple queues\<close>

definition SIMPLEQ_FOREACH :: "qstate \<Rightarrow> addr list option" where
  "SIMPLEQ_FOREACH s = walk (q_next s) (q_first s)"

definition SIMPLEQ_INIT :: "qstate \<Rightarrow> qstate" where
  "SIMPLEQ_INIT s = s\<lparr>q_first := None, q_last := Head\<rparr>"

definition SIMPLEQ_INSERT_HEAD :: "addr \<Rightarrow> qstate \<Rightarrow> qstate option" where
  "SIMPLEQ_INSERT_HEAD elm s = do {
     s1 \<leftarrow> set_next elm (q_first s) s;
     s2 \<leftarrow> (if q_first s = None then set_last (Next elm) s1 else Some s1);
     set_first (Some elm) s2
   }"

definition SIMPLEQ_INSERT_TAIL :: "addr \<Rightarrow> qstate \<Rightarrow> qstate option" where
  "SIMPLEQ_INSERT_TAIL elm s = do {
     s1 \<leftarrow> set_next elm None s;
     s2 \<leftarrow> store (q_last s1) (Some elm) s1;
     set_last (Next elm) s2
   }"

definition SIMPLEQ_INSERT_AFTER :: "addr \<Rightarrow> addr \<Rightarrow> qstate \<Rightarrow> qstate option" where
  "SIMPLEQ_INSERT_AFTER listelm elm s = do {
     n \<leftarrow> q_next s listelm;
     s1 \<leftarrow> set_next elm n s;
     s2 \<leftarrow> (if n = None then set_last (Next elm) s1 else Some s1);
     set_next listelm (Some elm) s2
   }"

definition SIMPLEQ_REMOVE_HEAD :: "qstate \<Rightarrow> qstate option" where
  "SIMPLEQ_REMOVE_HEAD s = do {
     a \<leftarrow> q_first s;
     n \<leftarrow> q_next s a;
     s1 \<leftarrow> set_first n s;
     if n = None then set_last Head s1 else Some s1
   }"

section \<open>Tail queues\<close>

definition TAILQ_EMPTY :: "qstate \<Rightarrow> bool" where
  "TAILQ_EMPTY s \<longleftrightarrow> q_first s = None"

text \<open>
  The place of a forward pointer, read as a head: an entry has the layout of a head, so that behind its forward pointer there is
  \<open>tqe_prev\<close>, and behind that of the head \<open>tqh_last\<close>.
\<close>

fun as_head_last :: "slot \<Rightarrow> qstate \<Rightarrow> slot option" where
  "as_head_last Head s = Some (q_last s)"
| "as_head_last (Next a) s = q_prev s a"

definition TAILQ_LAST :: "qstate \<Rightarrow> ptr option" where
  "TAILQ_LAST s = do { l \<leftarrow> as_head_last (q_last s) s; load l s }"

definition TAILQ_PREV :: "qstate \<Rightarrow> addr \<Rightarrow> ptr option" where
  "TAILQ_PREV s elm = do { p \<leftarrow> q_prev s elm; l \<leftarrow> as_head_last p s; load l s }"

definition TAILQ_FOREACH :: "qstate \<Rightarrow> addr list option" where
  "TAILQ_FOREACH s = walk (q_next s) (q_first s)"

definition TAILQ_FOREACH_REVERSE :: "qstate \<Rightarrow> addr list option" where
  "TAILQ_FOREACH_REVERSE s = do { p \<leftarrow> TAILQ_LAST s; walk (TAILQ_PREV s) p }"

definition TAILQ_INIT :: "qstate \<Rightarrow> qstate" where
  "TAILQ_INIT s = s\<lparr>q_first := None, q_last := Head\<rparr>"

text \<open>\<open>if (n != NULL) n->tqe_prev = l; else head->tqh_last = l;\<close>\<close>

definition link_back :: "ptr \<Rightarrow> slot \<Rightarrow> qstate \<Rightarrow> qstate option" where
  "link_back n l s = (case n of Some z \<Rightarrow> set_prev z l s | None \<Rightarrow> set_last l s)"

definition TAILQ_INSERT_HEAD :: "addr \<Rightarrow> qstate \<Rightarrow> qstate option" where
  "TAILQ_INSERT_HEAD elm s = do {
     s1 \<leftarrow> set_next elm (q_first s) s;
     s2 \<leftarrow> link_back (q_first s1) (Next elm) s1;
     s3 \<leftarrow> set_first (Some elm) s2;
     set_prev elm Head s3
   }"

definition TAILQ_INSERT_TAIL :: "addr \<Rightarrow> qstate \<Rightarrow> qstate option" where
  "TAILQ_INSERT_TAIL elm s = do {
     s1 \<leftarrow> set_next elm None s;
     s2 \<leftarrow> set_prev elm (q_last s1) s1;
     s3 \<leftarrow> store (q_last s2) (Some elm) s2;
     set_last (Next elm) s3
   }"

definition TAILQ_INSERT_AFTER :: "addr \<Rightarrow> addr \<Rightarrow> qstate \<Rightarrow> qstate option" where
  "TAILQ_INSERT_AFTER listelm elm s = do {
     n \<leftarrow> q_next s listelm;
     s1 \<leftarrow> set_next elm n s;
     s2 \<leftarrow> link_back n (Next elm) s1;
     s3 \<leftarrow> set_next listelm (Some elm) s2;
     set_prev elm (Next listelm) s3
   }"

definition TAILQ_INSERT_BEFORE :: "addr \<Rightarrow> addr \<Rightarrow> qstate \<Rightarrow> qstate option" where
  "TAILQ_INSERT_BEFORE listelm elm s = do {
     p \<leftarrow> q_prev s listelm;
     s1 \<leftarrow> set_prev elm p s;
     s2 \<leftarrow> set_next elm (Some listelm) s1;
     p' \<leftarrow> q_prev s2 listelm;
     s3 \<leftarrow> store p' (Some elm) s2;
     set_prev listelm (Next elm) s3
   }"

definition TAILQ_REMOVE :: "addr \<Rightarrow> qstate \<Rightarrow> qstate option" where
  "TAILQ_REMOVE elm s = do {
     n \<leftarrow> q_next s elm;
     p \<leftarrow> q_prev s elm;
     s1 \<leftarrow> link_back n p s;
     p' \<leftarrow> q_prev s1 elm;
     n' \<leftarrow> q_next s1 elm;
     store p' n' s1
   }"

definition TAILQ_REPLACE :: "addr \<Rightarrow> addr \<Rightarrow> qstate \<Rightarrow> qstate option" where
  "TAILQ_REPLACE elm elm2 s = do {
     n \<leftarrow> q_next s elm;
     s1 \<leftarrow> set_next elm2 n s;
     s2 \<leftarrow> link_back n (Next elm2) s1;
     p \<leftarrow> q_prev s2 elm;
     s3 \<leftarrow> set_prev elm2 p s2;
     store p (Some elm2) s3
   }"


section \<open>Circular queues\<close>

text \<open>The address of the head, which \<open>CIRCLEQ_END\<close> gives, is \<^const>\<open>None\<close> here: the pointers of a circular queue are never null.
  \<open>CIRCLEQ_REPLACE\<close> has no counterpart: it uses its head both as a structure and as a pointer, which does not compile.\<close>

record cstate =
  c_first :: ptr
  c_last :: ptr
  c_next :: "addr \<Rightarrow> ptr option"
  c_prev :: "addr \<Rightarrow> ptr option"

definition set_cnext :: "addr \<Rightarrow> ptr \<Rightarrow> cstate \<Rightarrow> cstate option" where
  "set_cnext a p s = (if c_next s a = None then None else Some (s\<lparr>c_next := (c_next s)(a \<mapsto> p)\<rparr>))"

definition set_cprev :: "addr \<Rightarrow> ptr \<Rightarrow> cstate \<Rightarrow> cstate option" where
  "set_cprev a p s = (if c_prev s a = None then None else Some (s\<lparr>c_prev := (c_prev s)(a \<mapsto> p)\<rparr>))"

text \<open>\<open>if (n == CIRCLEQ_END(head)) head->cqh_last = p; else n->cqe_prev = p;\<close> and its counterpart.\<close>

definition join_prev :: "ptr \<Rightarrow> ptr \<Rightarrow> cstate \<Rightarrow> cstate option" where
  "join_prev n p s = (case n of None \<Rightarrow> Some (s\<lparr>c_last := p\<rparr>) | Some z \<Rightarrow> set_cprev z p s)"

definition join_next :: "ptr \<Rightarrow> ptr \<Rightarrow> cstate \<Rightarrow> cstate option" where
  "join_next q n s = (case q of None \<Rightarrow> Some (s\<lparr>c_first := n\<rparr>) | Some z \<Rightarrow> set_cnext z n s)"

definition CIRCLEQ_FOREACH :: "cstate \<Rightarrow> addr list option" where
  "CIRCLEQ_FOREACH s = walk (c_next s) (c_first s)"

definition CIRCLEQ_FOREACH_REVERSE :: "cstate \<Rightarrow> addr list option" where
  "CIRCLEQ_FOREACH_REVERSE s = walk (c_prev s) (c_last s)"

definition CIRCLEQ_INIT :: "cstate \<Rightarrow> cstate" where
  "CIRCLEQ_INIT s = s\<lparr>c_first := None, c_last := None\<rparr>"

definition CIRCLEQ_INSERT_AFTER :: "addr \<Rightarrow> addr \<Rightarrow> cstate \<Rightarrow> cstate option" where
  "CIRCLEQ_INSERT_AFTER listelm elm s = do {
     n \<leftarrow> c_next s listelm;
     s1 \<leftarrow> set_cnext elm n s;
     s2 \<leftarrow> set_cprev elm (Some listelm) s1;
     n' \<leftarrow> c_next s2 listelm;
     s3 \<leftarrow> join_prev n' (Some elm) s2;
     set_cnext listelm (Some elm) s3
   }"

definition CIRCLEQ_INSERT_BEFORE :: "addr \<Rightarrow> addr \<Rightarrow> cstate \<Rightarrow> cstate option" where
  "CIRCLEQ_INSERT_BEFORE listelm elm s = do {
     s1 \<leftarrow> set_cnext elm (Some listelm) s;
     p \<leftarrow> c_prev s1 listelm;
     s2 \<leftarrow> set_cprev elm p s1;
     p' \<leftarrow> c_prev s2 listelm;
     s3 \<leftarrow> join_next p' (Some elm) s2;
     set_cprev listelm (Some elm) s3
   }"

definition CIRCLEQ_INSERT_HEAD :: "addr \<Rightarrow> cstate \<Rightarrow> cstate option" where
  "CIRCLEQ_INSERT_HEAD elm s = do {
     s1 \<leftarrow> set_cnext elm (c_first s) s;
     s2 \<leftarrow> set_cprev elm None s1;
     s3 \<leftarrow> (if c_last s2 = None then Some (s2\<lparr>c_last := Some elm\<rparr>)
           else do { f \<leftarrow> c_first s2; set_cprev f (Some elm) s2 });
     Some (s3\<lparr>c_first := Some elm\<rparr>)
   }"

definition CIRCLEQ_INSERT_TAIL :: "addr \<Rightarrow> cstate \<Rightarrow> cstate option" where
  "CIRCLEQ_INSERT_TAIL elm s = do {
     s1 \<leftarrow> set_cnext elm None s;
     s2 \<leftarrow> set_cprev elm (c_last s1) s1;
     s3 \<leftarrow> (if c_first s2 = None then Some (s2\<lparr>c_first := Some elm\<rparr>)
           else do { l \<leftarrow> c_last s2; set_cnext l (Some elm) s2 });
     Some (s3\<lparr>c_last := Some elm\<rparr>)
   }"

definition CIRCLEQ_REMOVE :: "addr \<Rightarrow> cstate \<Rightarrow> cstate option" where
  "CIRCLEQ_REMOVE elm s = do {
     n \<leftarrow> c_next s elm;
     p \<leftarrow> c_prev s elm;
     s1 \<leftarrow> join_prev n p s;
     p' \<leftarrow> c_prev s1 elm;
     n' \<leftarrow> c_next s1 elm;
     join_next p' n' s1
   }"

section \<open>Lists in the store\<close>

fun slast :: "slot \<Rightarrow> addr list \<Rightarrow> slot" where
  "slast l [] = l"
| "slast l (x # xs) = slast (Next x) xs"

fun forward :: "(addr \<Rightarrow> ptr option) \<Rightarrow> addr list \<Rightarrow> ptr \<Rightarrow> bool" where
  "forward f [] n = True"
| "forward f (x # xs) n \<longleftrightarrow> f x = Some (firstp xs n) \<and> forward f xs n"

fun backward :: "(addr \<Rightarrow> slot option) \<Rightarrow> slot \<Rightarrow> addr list \<Rightarrow> bool" where
  "backward g l [] = True"
| "backward g l (x # xs) \<longleftrightarrow> g x = Some l \<and> backward g (Next x) xs"

text \<open>
  The elements of the store are \<open>E\<close>, and those in the list are \<open>xs\<close>, in this order: for lists that are linked forward, in both
  directions, and in both directions with a pointer to the end.
\<close>

definition slist :: "addr set \<Rightarrow> qstate \<Rightarrow> addr list \<Rightarrow> bool" where
  "slist E s xs \<longleftrightarrow> distinct xs \<and> set xs \<subseteq> E \<and> dom (q_next s) = E \<and> q_first s = firstp xs None \<and> forward (q_next s) xs None"

definition tailq :: "addr set \<Rightarrow> qstate \<Rightarrow> addr list \<Rightarrow> bool" where
  "tailq E s xs \<longleftrightarrow> slist E s xs \<and> dom (q_prev s) = E \<and> backward (q_prev s) Head xs \<and> q_last s = slast Head xs"

lemma firstp_Some [simp]: "firstp xs (Some y) \<noteq> None"
  by (cases xs) simp_all

lemma forward_append [simp]: "forward f (xs @ ys) n \<longleftrightarrow> forward f xs (firstp ys n) \<and> forward f ys n"
  by (induction xs) (auto simp: firstp_append)

lemma backward_append [simp]: "backward g l (xs @ ys) \<longleftrightarrow> backward g l xs \<and> backward g (slast l xs) ys"
  by (induction xs arbitrary: l) auto

lemma slast_append [simp]: "slast l (xs @ ys) = slast (slast l xs) ys"
  by (induction xs arbitrary: l) auto

lemma forward_upd [simp]: "a \<notin> set xs \<Longrightarrow> forward (f(a := v)) xs n = forward f xs n"
  by (induction xs) auto

lemma backward_upd [simp]: "a \<notin> set xs \<Longrightarrow> backward (g(a := v)) l xs = backward g l xs"
  by (induction xs arbitrary: l) auto

lemma forward_dom: "forward f xs n \<Longrightarrow> x \<in> set xs \<Longrightarrow> f x \<noteq> None"
  by (induction xs) auto

lemmas queue_ops = set_next_def set_prev_def set_first_def set_last_def link_back_def

section \<open>The operations on a tail queue\<close>

lemma tailq_insert_head:
  assumes "tailq E s xs" "x \<in> E" "x \<notin> set xs"
  shows "\<exists>s'. TAILQ_INSERT_HEAD x s = Some s' \<and> tailq E s' (x # xs)"
  using assms by (cases xs) (auto simp: tailq_def slist_def TAILQ_INSERT_HEAD_def queue_ops)

lemma tailq_insert_tail:
  assumes "tailq E s xs" "x \<in> E" "x \<notin> set xs"
  shows "\<exists>s'. TAILQ_INSERT_TAIL x s = Some s' \<and> tailq E s' (xs @ [x])"
  using assms by (cases xs rule: rev_cases) (auto simp: tailq_def slist_def TAILQ_INSERT_TAIL_def queue_ops firstp_append)

lemma tailq_insert_after:
  assumes "tailq E s (us @ y # vs)" "x \<in> E" "x \<notin> set (us @ y # vs)"
  shows "\<exists>s'. TAILQ_INSERT_AFTER y x s = Some s' \<and> tailq E s' (us @ y # x # vs)"
  using assms by (cases vs) (auto simp: tailq_def slist_def TAILQ_INSERT_AFTER_def queue_ops firstp_append)

lemma tailq_insert_before:
  assumes "tailq E s (us @ y # vs)" "x \<in> E" "x \<notin> set (us @ y # vs)"
  shows "\<exists>s'. TAILQ_INSERT_BEFORE y x s = Some s' \<and> tailq E s' (us @ x # y # vs)"
  using assms by (cases us rule: rev_cases) (auto simp: tailq_def slist_def TAILQ_INSERT_BEFORE_def queue_ops firstp_append)

lemma tailq_remove:
  assumes "tailq E s (us @ x # vs)"
  shows "\<exists>s'. TAILQ_REMOVE x s = Some s' \<and> tailq E s' (us @ vs)"
  using assms by (cases us rule: rev_cases; cases vs) (auto simp: tailq_def slist_def TAILQ_REMOVE_def queue_ops firstp_append)

lemma tailq_replace:
  assumes "tailq E s (us @ x # vs)" "y \<in> E" "y \<notin> set (us @ x # vs)"
  shows "\<exists>s'. TAILQ_REPLACE x y s = Some s' \<and> tailq E s' (us @ y # vs)"
  using assms by (cases us rule: rev_cases; cases vs) (auto simp: tailq_def slist_def TAILQ_REPLACE_def queue_ops firstp_append)


section \<open>Traversals\<close>

text \<open>
  What a traversal relies on: the loop starts at the first element of the list and goes from every element to the one behind it. It then
  visits exactly the elements of the list, in their order, and ends.
\<close>

locale traversal =
  fixes holds :: "'s \<Rightarrow> addr list \<Rightarrow> bool" and start :: "'s \<Rightarrow> ptr option" and succ :: "'s \<Rightarrow> addr \<Rightarrow> ptr option"
  assumes start_law: "holds s xs \<Longrightarrow> start s = Some (firstp xs None)"
    and succ_law: "holds s (us @ x # vs) \<Longrightarrow> succ s x = Some (firstp vs None)"
begin

lemma walk_suffix: "holds s (us @ vs) \<Longrightarrow> walk (succ s) (firstp vs None) = Some vs"
proof (induction vs arbitrary: us)
  case Nil
  show ?case by (subst walk.simps) simp
next
  case (Cons v vs)
  have "walk (succ s) (firstp vs None) = Some vs" using Cons.IH [of "us @ [v]"] Cons.prems by simp
  then show ?case using succ_law [OF Cons.prems] by (subst walk.simps) simp
qed

lemma visits: "holds s xs \<Longrightarrow> Option.bind (start s) (walk (succ s)) = Some xs"
  using walk_suffix [of s "[]" xs] start_law by simp

end

lemma slist_next: "slist E s (us @ x # vs) \<Longrightarrow> q_next s x = Some (firstp vs None)"
  by (simp add: slist_def)

lemma tailq_slist: "tailq E s xs \<Longrightarrow> slist E s xs"
  by (simp add: tailq_def)

lemma slist_first: "slist E s xs \<Longrightarrow> Some (q_first s) = Some (firstp xs None)"
  by (simp add: slist_def)

interpretation sl: traversal "slist E" "\<lambda>s. Some (q_first s)" q_next for E
  by unfold_locales (fact slist_first slist_next)+

interpretation tq: traversal "tailq E" "\<lambda>s. Some (q_first s)" q_next for E
  by unfold_locales (fact slist_first [OF tailq_slist] slist_next [OF tailq_slist])+

text \<open>Behind the pointer to an element lies the place of the pointer to it: reading the place as a head goes back by one element.\<close>

lemma back_by_one:
  assumes "slist E s (us @ vs)" "backward (q_prev s) Head (us @ vs)" "q_last s = slast Head (us @ vs)"
  shows "Option.bind (as_head_last (slast Head us) s) (\<lambda>l. load l s) = Some (if us = [] then None else Some (last us))"
proof (cases us rule: rev_cases)
  case Nil
  then show ?thesis using assms by (cases vs rule: rev_cases) (simp_all add: slist_def)
next
  case (snoc ts u)
  then show ?thesis using assms by (cases ts rule: rev_cases) (simp_all add: slist_def)
qed

lemma tailq_last: "tailq E s xs \<Longrightarrow> TAILQ_LAST s = Some (if xs = [] then None else Some (last xs))"
  using back_by_one [of E s xs "[]"] by (simp add: tailq_def TAILQ_LAST_def)

lemma tailq_prev: "tailq E s (us @ x # vs) \<Longrightarrow> TAILQ_PREV s x = Some (if us = [] then None else Some (last us))"
  using back_by_one [of E s us "x # vs"] by (simp add: tailq_def TAILQ_PREV_def)

lemma firstp_rev: "firstp (rev xs) None = (if xs = [] then None else Some (last xs))"
  by (cases xs rule: rev_cases) simp_all

interpretation rq: traversal "\<lambda>s xs. tailq E s (rev xs)" TAILQ_LAST TAILQ_PREV for E
proof
  fix s xs assume "tailq E s (rev xs)"
  then show "TAILQ_LAST s = Some (firstp xs None)" using tailq_last firstp_rev [of "rev xs"] by simp
next
  fix s us x vs assume "tailq E s (rev (us @ x # vs))"
  then show "TAILQ_PREV s x = Some (firstp vs None)" using tailq_prev [of E s "rev vs" x "rev us"] firstp_rev [of "rev vs"] by simp
qed

section \<open>Sequences of operations\<close>

datatype list_op = At_head addr | At_tail addr | After addr addr | Before addr addr | Drop addr | Swap addr addr

text \<open>What an operation means for the list; \<^const>\<open>None\<close>: the macro must not be called.\<close>

definition in_front :: "addr \<Rightarrow> addr list \<Rightarrow> addr list" where
  "in_front y xs = takeWhile (\<lambda>z. z \<noteq> y) xs"

definition behind :: "addr \<Rightarrow> addr list \<Rightarrow> addr list" where
  "behind y xs = tl (dropWhile (\<lambda>z. z \<noteq> y) xs)"

lemma split_at: "y \<in> set xs \<Longrightarrow> xs = in_front y xs @ y # behind y xs"
  by (induction xs) (auto simp: in_front_def behind_def)

fun spec_op :: "list_op \<Rightarrow> addr list \<Rightarrow> addr list option" where
  "spec_op (At_head x) xs = (if x \<in> set xs then None else Some (x # xs))"
| "spec_op (At_tail x) xs = (if x \<in> set xs then None else Some (xs @ [x]))"
| "spec_op (After y x) xs = (if y \<in> set xs \<and> x \<notin> set xs then Some (in_front y xs @ y # x # behind y xs) else None)"
| "spec_op (Before y x) xs = (if y \<in> set xs \<and> x \<notin> set xs then Some (in_front y xs @ x # y # behind y xs) else None)"
| "spec_op (Drop x) xs = (if x \<in> set xs then Some (in_front x xs @ behind x xs) else None)"
| "spec_op (Swap x y) xs = (if x \<in> set xs \<and> y \<notin> set xs then Some (in_front x xs @ y # behind x xs) else None)"

lemma spec_op_cases:
  assumes "spec_op p xs = Some ys"
  obtains x where "p = At_head x" "x \<notin> set xs" "ys = x # xs"
  | x where "p = At_tail x" "x \<notin> set xs" "ys = xs @ [x]"
  | us y vs x where "p = After y x" "xs = us @ y # vs" "x \<notin> set xs" "ys = us @ y # x # vs"
  | us y vs x where "p = Before y x" "xs = us @ y # vs" "x \<notin> set xs" "ys = us @ x # y # vs"
  | us x vs where "p = Drop x" "xs = us @ x # vs" "ys = us @ vs"
  | us x vs y where "p = Swap x y" "xs = us @ x # vs" "y \<notin> set xs" "ys = us @ y # vs"
proof (cases p)
  case (After y x)
  then show thesis using that(3) [of y x "in_front y xs" "behind y xs"] split_at [of y xs] assms by (simp split: if_splits)
next
  case (Before y x)
  then show thesis using that(4) [of y x "in_front y xs" "behind y xs"] split_at [of y xs] assms by (simp split: if_splits)
next
  case (Drop x)
  then show thesis using that(5) [of x "in_front x xs" "behind x xs"] split_at [of x xs] assms by (simp split: if_splits)
next
  case (Swap x y)
  then show thesis using that(6) [of x y "in_front x xs" "behind x xs"] split_at [of x xs] assms by (simp split: if_splits)
qed (use that(1,2) assms in \<open>auto split: if_splits\<close>)

fun new_element :: "list_op \<Rightarrow> addr set" where
  "new_element (At_head x) = {x}"
| "new_element (At_tail x) = {x}"
| "new_element (After y x) = {x}"
| "new_element (Before y x) = {x}"
| "new_element (Drop x) = {}"
| "new_element (Swap x y) = {y}"

fun tailq_op :: "list_op \<Rightarrow> qstate \<Rightarrow> qstate option" where
  "tailq_op (At_head x) = TAILQ_INSERT_HEAD x"
| "tailq_op (At_tail x) = TAILQ_INSERT_TAIL x"
| "tailq_op (After y x) = TAILQ_INSERT_AFTER y x"
| "tailq_op (Before y x) = TAILQ_INSERT_BEFORE y x"
| "tailq_op (Drop x) = TAILQ_REMOVE x"
| "tailq_op (Swap x y) = TAILQ_REPLACE x y"

text \<open>
  An implementation of the operations: with the elements \<open>E\<close> in the store, every operation that the specification allows is carried out.
  So is then every sequence of them.
\<close>

locale list_operations =
  fixes holds :: "addr set \<Rightarrow> 's \<Rightarrow> addr list \<Rightarrow> bool" and op_of :: "list_op \<Rightarrow> 's \<Rightarrow> 's option" and allowed :: "list_op \<Rightarrow> bool"
  assumes op_law: "holds E s xs \<Longrightarrow> allowed p \<Longrightarrow> new_element p \<subseteq> E \<Longrightarrow> spec_op p xs = Some ys \<Longrightarrow>
    \<exists>s'. op_of p s = Some s' \<and> holds E s' ys"
begin

lemma sequence_law:
  "holds E s xs \<Longrightarrow> list_all allowed ps \<Longrightarrow> (\<Union>p \<in> set ps. new_element p) \<subseteq> E \<Longrightarrow> foldM spec_op ps xs = Some ys \<Longrightarrow>
    \<exists>s'. foldM op_of ps s = Some s' \<and> holds E s' ys"
proof (induction ps arbitrary: s xs)
  case (Cons p ps)
  obtain zs where zs: "spec_op p xs = Some zs" "foldM spec_op ps zs = Some ys"
    using Cons.prems(4) by (cases "spec_op p xs") auto
  obtain s1 where s1: "op_of p s = Some s1" "holds E s1 zs"
    using op_law [OF Cons.prems(1) _ _ zs(1)] Cons.prems(2,3) by auto
  obtain s2 where "foldM op_of ps s1 = Some s2" "holds E s2 ys"
    using Cons.IH [OF s1(2) _ _ zs(2)] Cons.prems(2,3) by auto
  then show ?case using s1(1) by auto
qed simp

end

lemma tailq_op_law:
  assumes "tailq E s xs" "new_element p \<subseteq> E" "spec_op p xs = Some ys"
  shows "\<exists>s'. tailq_op p s = Some s' \<and> tailq E s' ys"
  using assms(3)
  by (cases rule: spec_op_cases)
    (use assms(1,2) tailq_insert_head tailq_insert_tail tailq_insert_after tailq_insert_before tailq_remove tailq_replace in simp_all)

interpretation tqo: list_operations tailq tailq_op "\<lambda>_. True"
  by unfold_locales (rule tailq_op_law)

text \<open>
  C14. Every sequence of macros on a tail queue, begun at \<open>TAILQ_INIT\<close>, does to the list of its elements what their names say, without
  following a null pointer: at its end the queue is empty exactly when the list is, \<open>TAILQ_FIRST\<close> and \<open>TAILQ_LAST\<close> are its ends, and the
  loops of \<open>TAILQ_FOREACH\<close> and \<open>TAILQ_FOREACH_REVERSE\<close> end after visiting it in either direction.
\<close>

theorem tailq_refines:
  assumes "dom (q_next s) = E" "dom (q_prev s) = E" "(\<Union>p \<in> set ps. new_element p) \<subseteq> E" "foldM spec_op ps [] = Some xs"
  shows "\<exists>s'. foldM tailq_op ps (TAILQ_INIT s) = Some s' \<and> (TAILQ_EMPTY s' \<longleftrightarrow> xs = []) \<and>
    q_first s' = (if xs = [] then None else Some (hd xs)) \<and> TAILQ_LAST s' = Some (if xs = [] then None else Some (last xs)) \<and>
    TAILQ_FOREACH s' = Some xs \<and> TAILQ_FOREACH_REVERSE s' = Some (rev xs)"
proof -
  have "tailq E (TAILQ_INIT s) []" using assms(1,2) by (simp add: tailq_def slist_def TAILQ_INIT_def)
  then obtain s' where s': "foldM tailq_op ps (TAILQ_INIT s) = Some s'" "tailq E s' xs"
    using tqo.sequence_law [OF _ _ assms(3,4)] by (auto simp: list_all_iff)
  have "q_first s' = firstp xs None" using s'(2) by (simp add: tailq_def slist_def)
  moreover have "TAILQ_FOREACH s' = Some xs" using tq.visits [OF s'(2)] by (simp add: TAILQ_FOREACH_def)
  moreover have "TAILQ_FOREACH_REVERSE s' = Some (rev xs)"
    using rq.visits [of E s' "rev xs"] s'(2) by (simp add: TAILQ_FOREACH_REVERSE_def)
  ultimately show ?thesis using s'(1) tailq_last [OF s'(2)] by (cases xs) (simp_all add: TAILQ_EMPTY_def)
qed

definition demo_store :: qstate where
  "demo_store = \<lparr>q_first = Some 9, q_last = Next 9, q_next = [1 \<mapsto> None, 2 \<mapsto> Some 2, 3 \<mapsto> None], q_prev = [1 \<mapsto> Head, 2 \<mapsto> Head, 3 \<mapsto> Next 1]\<rparr>"

theorem tailq_refines_witness:
  "\<exists>s'. foldM tailq_op [At_tail 1, At_tail 2, Before 2 3, Drop 1] (TAILQ_INIT demo_store) = Some s' \<and>
     TAILQ_FOREACH s' = Some [3, 2] \<and> TAILQ_FOREACH_REVERSE s' = Some [2, 3] \<and> TAILQ_LAST s' = Some (Some 2)"
proof -
  have "foldM spec_op [At_tail 1, At_tail 2, Before 2 3, Drop 1] [] = Some [3, 2]" by code_simp
  from tailq_refines [OF _ _ _ this, of demo_store "{1, 2, 3}"] show ?thesis by (auto simp: demo_store_def)
qed


section \<open>The operations on a singly linked list\<close>

lemma slist_insert_head:
  assumes "slist E s xs" "x \<in> E" "x \<notin> set xs"
  shows "\<exists>s'. SLIST_INSERT_HEAD x s = Some s' \<and> slist E s' (x # xs)"
  using assms by (cases xs) (auto simp: slist_def SLIST_INSERT_HEAD_def queue_ops)

lemma slist_insert_after:
  assumes "slist E s (us @ y # vs)" "x \<in> E" "x \<notin> set (us @ y # vs)"
  shows "\<exists>s'. SLIST_INSERT_AFTER y x s = Some s' \<and> slist E s' (us @ y # x # vs)"
  using assms by (cases vs) (auto simp: slist_def SLIST_INSERT_AFTER_def queue_ops)

lemma slist_remove_head: "slist E s (x # xs) \<Longrightarrow> \<exists>s'. SLIST_REMOVE_HEAD s = Some s' \<and> slist E s' xs"
  by (auto simp: slist_def SLIST_REMOVE_HEAD_def queue_ops)

lemma slist_remove_next: "slist E s (us @ y # x # vs) \<Longrightarrow> \<exists>s'. SLIST_REMOVE_NEXT y s = Some s' \<and> slist E s' (us @ y # vs)"
  by (auto simp: slist_def SLIST_REMOVE_NEXT_def queue_ops)

text \<open>The search for the element in front of another one ends there.\<close>

lemma slist_find_before:
  "forward f (us @ y # x # vs) None \<Longrightarrow> x \<notin> set (us @ [y]) \<Longrightarrow> slist_find f x (firstp us (Some y)) = Some y"
proof (induction us)
  case Nil
  then show ?case by (subst slist_find.simps) simp
next
  case (Cons u us)
  then have "f u = Some (firstp us (Some y))" "firstp us (Some y) \<noteq> Some x" by (cases us, auto)+
  then show ?case using Cons by (subst slist_find.simps) simp
qed

lemma slist_remove:
  assumes "slist E s (us @ x # vs)"
  shows "\<exists>s'. SLIST_REMOVE x s = Some s' \<and> slist E s' (us @ vs)"
proof (cases us rule: rev_cases)
  case Nil
  then show ?thesis using assms slist_remove_head [of E s x vs] by (simp add: SLIST_REMOVE_def slist_def)
next
  case (snoc ts y)
  then have "slist E s (ts @ y # x # vs)" using assms by simp
  moreover from this have "slist_find (q_next s) x (q_first s) = Some y" "q_first s \<noteq> Some x"
    using slist_find_before [of "q_next s" ts y x vs] by (cases ts; auto simp: slist_def)+
  ultimately show ?thesis using slist_remove_next [of E s ts y x vs] snoc by (simp add: SLIST_REMOVE_def)
qed

fun slist_op :: "list_op \<Rightarrow> qstate \<Rightarrow> qstate option" where
  "slist_op (At_head x) = SLIST_INSERT_HEAD x"
| "slist_op (After y x) = SLIST_INSERT_AFTER y x"
| "slist_op (Drop x) = SLIST_REMOVE x"
| "slist_op _ = (\<lambda>_. None)"

fun singly :: "list_op \<Rightarrow> bool" where
  "singly (At_head x) = True"
| "singly (After y x) = True"
| "singly (Drop x) = True"
| "singly _ = False"

lemma slist_op_law:
  assumes "slist E s xs" "singly p" "new_element p \<subseteq> E" "spec_op p xs = Some ys"
  shows "\<exists>s'. slist_op p s = Some s' \<and> slist E s' ys"
  using assms(4)
  by (cases rule: spec_op_cases) (use assms(1-3) slist_insert_head slist_insert_after slist_remove in simp_all)

interpretation slo: list_operations slist slist_op singly
  by unfold_locales (rule slist_op_law)

section \<open>The streams of a test\<close>

text \<open>
  \<open>iperf_add_stream\<close> on the links of the list \<open>test->streams\<close>: the number of the stream, and the store. The loop of
  \<open>SLIST_FOREACH\<close> leaves \<open>prev\<close> at the last element and counts.
\<close>

definition add_stream_links :: "addr \<Rightarrow> qstate \<Rightarrow> (int \<times> qstate) option" where
  "add_stream_links sp s =
     (if SLIST_EMPTY s then do { s1 \<leftarrow> SLIST_INSERT_HEAD sp s; Some (1, s1) }
      else do {
        ns \<leftarrow> SLIST_FOREACH s;
        let (prev, i) = foldl (\<lambda>(prev, i) n. (Some n, i + 1)) (None, 2) ns;
        p \<leftarrow> prev;
        s1 \<leftarrow> SLIST_INSERT_AFTER p sp s;
        Some (i, s1)
      })"

definition add_linked :: "addr \<Rightarrow> qstate \<times> (addr \<Rightarrow> iperf_stream) \<Rightarrow> (qstate \<times> (addr \<Rightarrow> iperf_stream)) option" where
  "add_linked sp = (\<lambda>(s, st). map_option (\<lambda>(i, s1). (s1, st(sp := (st sp)\<lparr>sp_id := i\<rparr>))) (add_stream_links sp s))"

text \<open>
  \<open>while (!SLIST_EMPTY (&test->streams)) { sp = SLIST_FIRST (...); SLIST_REMOVE_HEAD (...); ... }\<close>: the streams in the order in which they
  are taken.
\<close>

partial_function (option) take_streams :: "qstate \<Rightarrow> addr list option" where
  [code]: "take_streams s =
     (if SLIST_EMPTY s then Some []
      else do { a \<leftarrow> q_first s; s1 \<leftarrow> SLIST_REMOVE_HEAD s; r \<leftarrow> take_streams s1; Some (a # r) })"

lemma slist_visits: "slist E s xs \<Longrightarrow> SLIST_FOREACH s = Some xs"
  using sl.visits [of E s xs] by (simp add: SLIST_FOREACH_def)

lemma count_and_last: "foldl (\<lambda>(prev, i) n. (Some n, i + 1)) (p, k) xs = (if xs = [] then p else Some (last xs), k + int (length xs))"
  by (induction xs arbitrary: p k) auto

lemma add_stream_step:
  assumes "slist E s xs" "x \<in> E" "x \<notin> set xs"
  shows "\<exists>s'. add_stream_links x s = Some (if xs = [] then 1 else 2 + int (length xs), s') \<and> slist E s' (xs @ [x])"
proof (cases xs rule: rev_cases)
  case Nil
  then show ?thesis using slist_insert_head [OF assms] assms(1) by (auto simp: add_stream_links_def SLIST_EMPTY_def slist_def)
next
  case (snoc us y)
  obtain s' where s': "SLIST_INSERT_AFTER y x s = Some s'" "slist E s' (us @ [y, x])"
    using slist_insert_after [of E s us y "[]" x] assms snoc by auto
  have "\<not> SLIST_EMPTY s" using assms(1) snoc by (cases us) (auto simp: SLIST_EMPTY_def slist_def)
  then show ?thesis using s' snoc slist_visits [OF assms(1)] by (simp add: add_stream_links_def count_and_last)
qed

lemma take_streams_all: "slist E s xs \<Longrightarrow> take_streams s = Some xs"
proof (induction xs arbitrary: s)
  case Nil
  then show ?case by (subst take_streams.simps) (simp add: SLIST_EMPTY_def slist_def)
next
  case (Cons x xs)
  obtain s1 where "SLIST_REMOVE_HEAD s = Some s1" "slist E s1 xs" using slist_remove_head [OF Cons.prems] by blast
  moreover have "q_first s = Some x" using Cons.prems by (simp add: slist_def)
  ultimately show ?case using Cons.IH [of s1] by (subst take_streams.simps) (simp add: SLIST_EMPTY_def)
qed

lemma add_linked_all:
  assumes "slist E s ys" "distinct (ys @ xs)" "set xs \<subseteq> E"
  shows "\<exists>s' st'. foldM add_linked xs (s, st) = Some (s', st') \<and> slist E s' (ys @ xs) \<and>
    map st' (ys @ xs) = foldl iperf_add_stream (map st ys) (map st xs)"
  using assms
proof (induction xs arbitrary: s st ys)
  case (Cons x xs)
  obtain s1 where s1: "add_stream_links x s = Some (if ys = [] then 1 else 2 + int (length ys), s1)" "slist E s1 (ys @ [x])"
    using add_stream_step [OF Cons.prems(1), of x] Cons.prems(2,3) by auto
  define st1 where "st1 = st(x := (st x)\<lparr>sp_id := if ys = [] then 1 else 2 + int (length ys)\<rparr>)"
  have count: "foldl (\<lambda>i n. i + 1) k zs = k + int (length zs)" for k and zs :: "iperf_stream list" by (induction zs arbitrary: k) auto
  have step: "map st1 (ys @ [x]) = iperf_add_stream (map st ys) (st x)" "map st1 xs = map st xs"
    using Cons.prems(2) by (auto simp: st1_def iperf_add_stream_def count)
  obtain s' st' where "foldM add_linked xs (s1, st1) = Some (s', st')" "slist E s' (ys @ x # xs)"
      "map st' (ys @ x # xs) = foldl iperf_add_stream (map st1 (ys @ [x])) (map st1 xs)"
    using Cons.IH [OF s1(2), of st1] Cons.prems(2,3) by auto
  moreover have "add_linked x (s, st) = Some (s1, st1)" using s1(1) by (simp add: add_linked_def st1_def)
  ultimately show ?case using step by auto
qed simp

text \<open>
  C31. Streams that are added to a test one after another are linked in this order, whatever the store held before: the list
  of the test is the one that \<open>iperf_add_stream\<close> builds on lists, the numbers of the streams are 1, 3, 4 and so on and all different,
  \<open>SLIST_FOREACH\<close> visits every stream once, and the loop that frees the streams takes each of them once, in the same order.
\<close>

theorem streams_linked:
  assumes "dom (q_next s) = E" "distinct xs" "set xs \<subseteq> E"
  shows "\<exists>s' st'. foldM add_linked xs (SLIST_INIT s, st) = Some (s', st') \<and>
    SLIST_FOREACH s' = Some xs \<and> take_streams s' = Some xs \<and>
    map st' xs = foldl iperf_add_stream [] (map st xs) \<and>
    map (\<lambda>x. sp_id (st' x)) xs = map (\<lambda>k. if k = 0 then 1 else int k + 2) [0..<length xs] \<and>
    inj_on (\<lambda>x. sp_id (st' x)) (set xs)"
proof -
  have "slist E (SLIST_INIT s) []" using assms(1) by (simp add: slist_def SLIST_INIT_def)
  then obtain s' st' where s': "foldM add_linked xs (SLIST_INIT s, st) = Some (s', st')" "slist E s' xs"
      "map st' xs = foldl iperf_add_stream [] (map st xs)"
    using add_linked_all [of E "SLIST_INIT s" "[]" xs st] assms(2,3) by auto
  have "map (\<lambda>x. sp_id (st' x)) xs = map sp_id (map st' xs)" by simp
  also have "\<dots> = map (\<lambda>k. if k = 0 then 1 else int k + 2) [0..<length xs]" using add_stream_ids [of "map st xs"] s'(3) by simp
  finally have ids: "map (\<lambda>x. sp_id (st' x)) xs = map (\<lambda>k. if k = 0 then 1 else int k + 2) [0..<length xs]" .
  have "distinct (map (\<lambda>k. if k = 0 then 1 else int k + 2) [0..<length xs])" by (auto simp: distinct_map inj_on_def split: if_splits)
  then have "inj_on (\<lambda>x. sp_id (st' x)) (set xs)" using ids by (metis distinct_map)
  then show ?thesis using s' ids slist_visits [OF s'(2)] take_streams_all [OF s'(2)] by blast
qed

theorem streams_linked_witness:
  "\<exists>s' st'. foldM add_linked [2, 3, 1] (SLIST_INIT demo_store, \<lambda>_. blank_stream 5 True 6 7 []) = Some (s', st') \<and>
     SLIST_FOREACH s' = Some [2, 3, 1] \<and> map (\<lambda>x. sp_id (st' x)) [2, 3, 1] = [1, 3, 4]"
proof -
  have ids: "map (\<lambda>k. if k = 0 then 1 else int k + 2) [0..<length [2 :: nat, 3, 1]] = [1, 3, 4]" by code_simp
  show ?thesis
    using streams_linked [of demo_store "{1, 2, 3}" "[2, 3, 1]" "\<lambda>_. blank_stream 5 True 6 7 []"] unfolding ids by (auto simp: demo_store_def)
qed


section \<open>The operations of the other families\<close>

text \<open>Lists: linked in both directions, without a pointer to the end.\<close>

definition dlist :: "addr set \<Rightarrow> qstate \<Rightarrow> addr list \<Rightarrow> bool" where
  "dlist E s xs \<longleftrightarrow> slist E s xs \<and> dom (q_prev s) = E \<and> backward (q_prev s) Head xs"

fun dlist_op :: "list_op \<Rightarrow> qstate \<Rightarrow> qstate option" where
  "dlist_op (At_head x) = LIST_INSERT_HEAD x"
| "dlist_op (After y x) = LIST_INSERT_AFTER y x"
| "dlist_op (Before y x) = LIST_INSERT_BEFORE y x"
| "dlist_op (Drop x) = LIST_REMOVE x"
| "dlist_op (Swap x y) = LIST_REPLACE x y"
| "dlist_op _ = (\<lambda>_. None)"

fun not_at_tail :: "list_op \<Rightarrow> bool" where
  "not_at_tail (At_tail x) = False"
| "not_at_tail _ = True"

lemma dlist_insert_head:
  assumes "dlist E s xs" "x \<in> E" "x \<notin> set xs"
  shows "\<exists>s'. LIST_INSERT_HEAD x s = Some s' \<and> dlist E s' (x # xs)"
  using assms by (cases xs) (auto simp: dlist_def slist_def LIST_INSERT_HEAD_def link_prev_def queue_ops)

lemma dlist_insert_after:
  assumes "dlist E s (us @ y # vs)" "x \<in> E" "x \<notin> set (us @ y # vs)"
  shows "\<exists>s'. LIST_INSERT_AFTER y x s = Some s' \<and> dlist E s' (us @ y # x # vs)"
  using assms by (cases vs) (auto simp: dlist_def slist_def LIST_INSERT_AFTER_def link_prev_def queue_ops)

lemma dlist_insert_before:
  assumes "dlist E s (us @ y # vs)" "x \<in> E" "x \<notin> set (us @ y # vs)"
  shows "\<exists>s'. LIST_INSERT_BEFORE y x s = Some s' \<and> dlist E s' (us @ x # y # vs)"
  using assms by (cases us rule: rev_cases) (auto simp: dlist_def slist_def LIST_INSERT_BEFORE_def queue_ops)

lemma dlist_remove:
  assumes "dlist E s (us @ x # vs)"
  shows "\<exists>s'. LIST_REMOVE x s = Some s' \<and> dlist E s' (us @ vs)"
  using assms by (cases us rule: rev_cases; cases vs) (auto simp: dlist_def slist_def LIST_REMOVE_def link_prev_def queue_ops)

lemma dlist_replace:
  assumes "dlist E s (us @ x # vs)" "y \<in> E" "y \<notin> set (us @ x # vs)"
  shows "\<exists>s'. LIST_REPLACE x y s = Some s' \<and> dlist E s' (us @ y # vs)"
  using assms by (cases us rule: rev_cases; cases vs) (auto simp: dlist_def slist_def LIST_REPLACE_def link_prev_def queue_ops)

text \<open>Simple queues: linked forward, with a pointer to the end.\<close>

definition simpleq :: "addr set \<Rightarrow> qstate \<Rightarrow> addr list \<Rightarrow> bool" where
  "simpleq E s xs \<longleftrightarrow> slist E s xs \<and> q_last s = slast Head xs"

fun simpleq_op :: "list_op \<Rightarrow> qstate \<Rightarrow> qstate option" where
  "simpleq_op (At_head x) = SIMPLEQ_INSERT_HEAD x"
| "simpleq_op (At_tail x) = SIMPLEQ_INSERT_TAIL x"
| "simpleq_op (After y x) = SIMPLEQ_INSERT_AFTER y x"
| "simpleq_op _ = (\<lambda>_. None)"

fun queueing :: "list_op \<Rightarrow> bool" where
  "queueing (At_head x) = True"
| "queueing (At_tail x) = True"
| "queueing (After y x) = True"
| "queueing _ = False"

lemma simpleq_insert_head:
  assumes "simpleq E s xs" "x \<in> E" "x \<notin> set xs"
  shows "\<exists>s'. SIMPLEQ_INSERT_HEAD x s = Some s' \<and> simpleq E s' (x # xs)"
  using assms by (cases xs) (auto simp: simpleq_def slist_def SIMPLEQ_INSERT_HEAD_def queue_ops)

lemma simpleq_insert_tail:
  assumes "simpleq E s xs" "x \<in> E" "x \<notin> set xs"
  shows "\<exists>s'. SIMPLEQ_INSERT_TAIL x s = Some s' \<and> simpleq E s' (xs @ [x])"
  using assms by (cases xs rule: rev_cases) (auto simp: simpleq_def slist_def SIMPLEQ_INSERT_TAIL_def queue_ops)

lemma simpleq_insert_after:
  assumes "simpleq E s (us @ y # vs)" "x \<in> E" "x \<notin> set (us @ y # vs)"
  shows "\<exists>s'. SIMPLEQ_INSERT_AFTER y x s = Some s' \<and> simpleq E s' (us @ y # x # vs)"
  using assms by (cases vs) (auto simp: simpleq_def slist_def SIMPLEQ_INSERT_AFTER_def queue_ops)

lemma simpleq_remove_head: "simpleq E s (x # xs) \<Longrightarrow> \<exists>s'. SIMPLEQ_REMOVE_HEAD s = Some s' \<and> simpleq E s' xs"
  by (cases xs) (auto simp: simpleq_def slist_def SIMPLEQ_REMOVE_HEAD_def queue_ops)

text \<open>Circular queues: the pointers backwards are to elements, and the ends are the head.\<close>

definition circleq :: "addr set \<Rightarrow> cstate \<Rightarrow> addr list \<Rightarrow> bool" where
  "circleq E s xs \<longleftrightarrow> distinct xs \<and> set xs \<subseteq> E \<and> dom (c_next s) = E \<and> dom (c_prev s) = E \<and> c_first s = firstp xs None \<and>
     c_last s = firstp (rev xs) None \<and> forward (c_next s) xs None \<and> forward (c_prev s) (rev xs) None"

fun circleq_op :: "list_op \<Rightarrow> cstate \<Rightarrow> cstate option" where
  "circleq_op (At_head x) = CIRCLEQ_INSERT_HEAD x"
| "circleq_op (At_tail x) = CIRCLEQ_INSERT_TAIL x"
| "circleq_op (After y x) = CIRCLEQ_INSERT_AFTER y x"
| "circleq_op (Before y x) = CIRCLEQ_INSERT_BEFORE y x"
| "circleq_op (Drop x) = CIRCLEQ_REMOVE x"
| "circleq_op (Swap x y) = (\<lambda>_. None)"

fun not_swap :: "list_op \<Rightarrow> bool" where
  "not_swap (Swap x y) = False"
| "not_swap _ = True"

lemmas circle_ops = set_cnext_def set_cprev_def join_prev_def join_next_def

lemma circleq_insert_head:
  assumes "circleq E s xs" "x \<in> E" "x \<notin> set xs"
  shows "\<exists>s'. CIRCLEQ_INSERT_HEAD x s = Some s' \<and> circleq E s' (x # xs)"
  using assms by (cases xs) (auto simp: circleq_def CIRCLEQ_INSERT_HEAD_def circle_ops)

lemma circleq_insert_tail:
  assumes "circleq E s xs" "x \<in> E" "x \<notin> set xs"
  shows "\<exists>s'. CIRCLEQ_INSERT_TAIL x s = Some s' \<and> circleq E s' (xs @ [x])"
  using assms by (cases xs rule: rev_cases) (auto simp: circleq_def CIRCLEQ_INSERT_TAIL_def circle_ops)

lemma circleq_insert_after:
  assumes "circleq E s (us @ y # vs)" "x \<in> E" "x \<notin> set (us @ y # vs)"
  shows "\<exists>s'. CIRCLEQ_INSERT_AFTER y x s = Some s' \<and> circleq E s' (us @ y # x # vs)"
  using assms by (cases vs) (auto simp: circleq_def CIRCLEQ_INSERT_AFTER_def circle_ops)

lemma circleq_insert_before:
  assumes "circleq E s (us @ y # vs)" "x \<in> E" "x \<notin> set (us @ y # vs)"
  shows "\<exists>s'. CIRCLEQ_INSERT_BEFORE y x s = Some s' \<and> circleq E s' (us @ x # y # vs)"
  using assms by (cases us rule: rev_cases) (auto simp: circleq_def CIRCLEQ_INSERT_BEFORE_def circle_ops)

lemma circleq_remove:
  assumes "circleq E s (us @ x # vs)"
  shows "\<exists>s'. CIRCLEQ_REMOVE x s = Some s' \<and> circleq E s' (us @ vs)"
  using assms by (cases us rule: rev_cases; cases vs) (auto simp: circleq_def CIRCLEQ_REMOVE_def circle_ops)

text \<open>Each family carries out the operations that it has.\<close>

lemma dlist_op_law:
  assumes "dlist E s xs" "not_at_tail p" "new_element p \<subseteq> E" "spec_op p xs = Some ys"
  shows "\<exists>s'. dlist_op p s = Some s' \<and> dlist E s' ys"
  using assms(4)
  by (cases rule: spec_op_cases)
    (use assms(1-3) dlist_insert_head dlist_insert_after dlist_insert_before dlist_remove dlist_replace in simp_all)

interpretation dlo: list_operations dlist dlist_op not_at_tail
  by unfold_locales (rule dlist_op_law)

lemma simpleq_op_law:
  assumes "simpleq E s xs" "queueing p" "new_element p \<subseteq> E" "spec_op p xs = Some ys"
  shows "\<exists>s'. simpleq_op p s = Some s' \<and> simpleq E s' ys"
  using assms(4)
  by (cases rule: spec_op_cases) (use assms(1-3) simpleq_insert_head simpleq_insert_tail simpleq_insert_after in simp_all)

interpretation sqo: list_operations simpleq simpleq_op queueing
  by unfold_locales (rule simpleq_op_law)

lemma circleq_op_law:
  assumes "circleq E s xs" "not_swap p" "new_element p \<subseteq> E" "spec_op p xs = Some ys"
  shows "\<exists>s'. circleq_op p s = Some s' \<and> circleq E s' ys"
  using assms(4)
  by (cases rule: spec_op_cases)
    (use assms(1-3) circleq_insert_head circleq_insert_tail circleq_insert_after circleq_insert_before circleq_remove in simp_all)

interpretation cqo: list_operations circleq circleq_op not_swap
  by unfold_locales (rule circleq_op_law)

lemma circleq_traversal:
  "circleq E s xs \<Longrightarrow> Some (c_first s) = Some (firstp xs None)" "circleq E s (us @ x # vs) \<Longrightarrow> c_next s x = Some (firstp vs None)"
  "circleq E s (rev xs) \<Longrightarrow> Some (c_last s) = Some (firstp xs None)" "circleq E s (rev (us @ x # vs)) \<Longrightarrow> c_prev s x = Some (firstp vs None)"
  by (simp_all add: circleq_def)

interpretation cq: traversal "circleq E" "\<lambda>s. Some (c_first s)" c_next for E
  by unfold_locales (fact circleq_traversal)+

interpretation rcq: traversal "\<lambda>s xs. circleq E s (rev xs)" "\<lambda>s. Some (c_last s)" c_prev for E
  by unfold_locales (fact circleq_traversal)+

text \<open>Any sequence of operations on a circular queue, begun at \<open>CIRCLEQ_INIT\<close>, and the loops in both directions.\<close>

lemma circleq_refines:
  assumes "dom (c_next s) = E" "dom (c_prev s) = E" "list_all not_swap ps" "(\<Union>p \<in> set ps. new_element p) \<subseteq> E" "foldM spec_op ps [] = Some xs"
  shows "\<exists>s'. foldM circleq_op ps (CIRCLEQ_INIT s) = Some s' \<and> CIRCLEQ_FOREACH s' = Some xs \<and> CIRCLEQ_FOREACH_REVERSE s' = Some (rev xs)"
proof -
  have "circleq E (CIRCLEQ_INIT s) []" using assms(1,2) by (simp add: circleq_def CIRCLEQ_INIT_def)
  then obtain s' where s': "foldM circleq_op ps (CIRCLEQ_INIT s) = Some s'" "circleq E s' xs"
    using cqo.sequence_law [OF _ assms(3-5)] by blast
  moreover have "CIRCLEQ_FOREACH s' = Some xs" using cq.visits [OF s'(2)] by (simp add: CIRCLEQ_FOREACH_def)
  moreover have "CIRCLEQ_FOREACH_REVERSE s' = Some (rev xs)" using rcq.visits [of E s' "rev xs"] s'(2) by (simp add: CIRCLEQ_FOREACH_REVERSE_def)
  ultimately show ?thesis by blast
qed

text \<open>Lists and simple queues have the loop of the singly linked lists.\<close>

lemma forward_families:
  "dlist E s xs \<Longrightarrow> LIST_FOREACH s = Some xs" "simpleq E s xs \<Longrightarrow> SIMPLEQ_FOREACH s = Some xs"
  using slist_visits [of E s xs] by (simp_all add: dlist_def simpleq_def LIST_FOREACH_def SIMPLEQ_FOREACH_def SLIST_FOREACH_def)

end
