(* ===== verification/Spec2Isabelle.thy ===== *)
theory Spec2Isabelle
  imports Timers Units Dscp Report_Laws Command_Line Errors Results_Laws Reports_Laws Json_Ops Queues
begin

text \<open>
  A verification of the C program in \<open>src/app/src/main/cpp/iperf\<close>: iperf 3, which measures the throughput between two
  hosts, as configured for the Android application of this repository by \<open>iperf_config.h\<close> (without SCTP, SSL, congestion control
  selection, flow labels, processor affinity and pacing in the socket; with \<open>sendfile\<close> and the Linux TCP information).

  \<^bold>\<open>The program.\<close> A client and a server talk over a TCP control connection (\<open>net.c\<close>). The client sends a cookie; the server drives
  the client through the states of a test (\<open>iperf_client_api.c\<close>, \<open>iperf_server_api.c\<close>), each sent as one byte. The parameters
  and the results are exchanged as JSON texts behind their length (\<open>iperf_api.c\<close>, \<open>cjson.c\<close>). The data flows over streams, which
  are TCP or UDP sockets (\<open>iperf_tcp.c\<close>, \<open>iperf_udp.c\<close>); UDP packets carry a time and a sequence number, from
  which the receiver computes losses and jitter. Timers (\<open>timer.c\<close>, \<open>iperf_time.c\<close>) end the test, pace the
  streams and take the interval statistics. Sizes and rates are read and printed by \<open>units.c\<close>, the type of
  service by \<open>dscp.c\<close>.

  \<^bold>\<open>Foundations.\<close> \<open>Prelude\<close> has the C integers as words and shared lemmas. \<open>C_Double\<close> is the IEEE double: each operation is the exact
  rational result, rounded. \<open>C_Stdlib\<close> has the functions of the C library on strings and numbers; \<open>Decimal\<close> proves that
  seventeen digits identify a double.

  \<^bold>\<open>The operating system\<close> is a parameter \<open>os\<close> (theory \<open>Net\<close>): a function from a system call and the state of the outside world
  to an answer and a new state, of which nothing is assumed unless a theorem says so. The network
  state records every call with its answer, so that a theorem can speak of what was sent, opened and closed. A function of
  the program is a state transformer on it. \<open>Err\<close> or a negative number is an error of the program, \<open>Fault\<close> undefined
  behaviour of the C code, \<open>Timeout\<close> an exhausted number of iterations.

  \<^bold>\<open>Components\<close>, theory by theory, with the lemmas about them:
    \<^item> \<open>Iperf_Time\<close> (\<open>iperf_time.c\<close>) and \<open>Timers\<close> (\<open>timer.c\<close>): the doubly linked list in a store of nodes. Creation, cancelling,
      timeouts and \<open>tmr_run\<close> refine the operations on a sorted list (\<open>timer_inv\<close>, locale \<open>timer_pool\<close>).
    \<^item> \<open>Units\<close> (\<open>units.c\<close>) and \<open>Dscp\<close> (\<open>dscp.c\<close>): exact values of accepted texts, width of the output.
    \<^item> \<open>Net\<close>, \<open>Net_Laws\<close> (\<open>net.c\<close>): what \<open>Nread\<close> and \<open>Nwrite\<close> deliver, and that sockets and addresses are not leaked.
    \<^item> \<open>Json\<close>, \<open>Json_Parse\<close>, \<open>Json_Print\<close> (\<open>cjson.c\<close>): the item, the parser on an array of bytes, the printer on its
      growing buffer, both with failing allocations (in the parser, each allocation of a text can fail on its own). \<open>Json_Safety\<close>: the parser ends and never leaves the text nor its allocations.
      \<open>Json_Print_Laws\<close>: the printer writes exactly \<open>print_spec\<close> and stays in its buffer. \<open>Json_Roundtrip\<close>: parsing the printed text
      gives the item back. \<open>Json_Ops\<close>: insertion, replacement, duplication, comparison and minifying, where the minified text of a
      formatted item is its unformatted text.
    \<^item> \<open>Iperf\<close>, \<open>Api\<close> (\<open>iperf.h\<close>, \<open>iperf_api.c\<close>): the test and the stream as records, the defaults, the numbering of streams.
    \<^item> \<open>Options\<close>, \<open>Options_Laws\<close> (\<open>iperf_api.c\<close>): the command line with \<open>getopt_long\<close> of the C library and \<open>iperf_parse_arguments\<close>. The
      locale \<open>option_invariant\<close> gives what every case of its \<open>switch\<close> keeps; an accepted command line is a consistent configuration.
      \<open>Command_Line\<close>: the options of a client as data, their words, and the test that they ask for; the parser of the words
      returns exactly that test, or the error of the options.
    \<^item> \<open>Errors\<close> (\<open>iperf_error.c\<close>): the texts of the error numbers and the message built from them in its buffer.
    \<^item> \<open>Queues\<close> (\<open>queue.h\<close>): the macros for intrusive lists on a store of links, where the address of a forward pointer is a value. The locale
      \<open>list_operations\<close> gives that every sequence of them refines operations on lists, \<open>traversal\<close> that their loops visit the list; both are
      interpreted for each family. This is why the streams, intervals and lines of output are lists elsewhere.
    \<^item> \<open>Udp\<close>, \<open>Udp_Laws\<close> (\<open>iperf_udp.c\<close>), \<open>Tcp\<close>, \<open>Tcp_Laws\<close> (\<open>iperf_tcp.c\<close>): connections and their resources, packet headers, exact losses,
      bounded jitter.
    \<^item> \<open>Exchange\<close>, \<open>Exchange_Laws\<close> (\<open>iperf_api.c\<close>): parameters and results; the parameters of the client become those of the server.
      \<open>Results_Laws\<close>: the results of either side reach the other, stream by stream.
    \<^item> \<open>Streams\<close>, \<open>Stats\<close>, \<open>Streams_Laws\<close> (\<open>iperf_api.c\<close>, \<open>tcp_info.c\<close>, \<open>iperf_util.c\<close>): streams and statistics. The locales
      \<open>sender\<close> and \<open>receiver\<close> state what a transfer function promises, and are interpreted on the protocols, the file transfer
      and their choice; the step relation \<open>data_step\<close> composes the operations on a running test.
    \<^item> \<open>Formats\<close> (\<open>printf\<close> with typed arguments, and the formats of \<open>iperf_locale.c\<close>), \<open>Reports\<close>, \<open>Reports_Laws\<close> (\<open>iperf_api.c\<close>,
      \<open>iperf_util.c\<close>): the text and the JSON document of a test, whose inner pointers are paths from its root. The locales
      \<open>interval_steps\<close> and \<open>report_steps\<close> state what a step of a report keeps; the reports are free of undefined behaviour and leave the test
      alone, and the object that an interval adds is given with the sums of its streams.
    \<^item> \<open>Session\<close>, \<open>Client\<close>, \<open>Server\<close> (\<open>iperf_client_api.c\<close>, \<open>iperf_server_api.c\<close>, and their helpers in \<open>iperf_api.c\<close>): the process with
      its network, test and timers; the functions of the timers; messages, connection, clean-up and the bodies of the two main loops.
    \<^item> \<open>Frames\<close> (what the operations leave alone; locale \<open>key_transfer\<close>), \<open>Loop_Laws\<close> (locale \<open>test_invariant\<close>: a property that the
      primitive operations keep holds throughout both loops), \<open>Session_Laws\<close> (watched descriptors, the busy server, reset and clean-up),
      \<open>Report_Laws\<close> (an error of the server reaches the client; payload and cookie).

  \<^bold>\<open>Termination and bounds.\<close> The parser has fuel, one more than the nesting limit: the safety theorem shows that it is never exhausted.
  \<open>Nread\<close>, \<open>Nwrite\<close> and the loops over lists terminate by a measure. The loops of \<open>timer.c\<close> are partial functions
  over the linked list, so that a cyclic list is \<open>None\<close>; on well-formed lists they are shown to return. The two main loops
  run as long as the peer wants: \<open>client_loop\<close> and \<open>server_loop\<close> take the number of iterations, and the theorems hold for every number.

  \<^bold>\<open>Memory.\<close> The timers are an explicit store, and freed nodes are recognised. The buffers of \<open>cjson.c\<close> are arrays with their
  sizes. A stream that has left the list of the test is freed: a timer that still refers to it faults. Uninitialised local
  variables are parameters (\<open>uninit\<close>) or, for a time that a failing clock does not set, part of the answer of the clock
  (\<open>local_time_now\<close>). Outside of the parser and the printer memory is available: the results of \<open>malloc\<close> and \<open>calloc\<close> that the code does not check
  (\<open>add_to_interval_list\<close>, the lines of output) are taken as valid. Descriptor sets are sets of integers, without the limit \<open>FD_SETSIZE\<close>: \<open>FD_SET\<close> of
  a larger descriptor, which C leaves undefined, is not a fault here.

  \<^bold>\<open>Not modelled.\<close> In the two main loops the calls of the reporter, of \<open>on_connect\<close> and the like are events of a log: what they do
  is a function of the test in \<open>Reports\<close>, and by its theorem they change nothing of the test but
  the times of its streams and the collected output. \<open>iperf_errexit\<close>,
  \<open>build_tcpinfo_message\<close>, debugging and warnings only produce output. The accessors of single fields; \<open>main.c\<close> (process, signals, daemon);
  \<open>cJSON_InitHooks\<close> and \<open>cJSON_Delete\<close> (items are values). \<open>iperf_sctp.c\<close> and \<open>iperf_auth.c\<close> are not compiled in this configuration.
  The Java and Kotlin application and its C++ glue are outside of the C program.
\<close>

end
